(* ===== verification/Prelude.thy ===== *)
theory Prelude
  imports Complex_Main "HOL-Library.AList" "HOL-Library.Sublist" "HOL-Library.Char_ord"
    "HOL-Library.List_Lexorder" "HOL-Library.Multiset"
begin

text \<open>
  Shared vocabulary of the development.

  \<^item> Python strings are char lists (the UTF-8 bytes of the source's text, so that the
    library's lexicographic order on them is Python's order of the code points); the
    \<open>in\<close> operator on strings is the library's contiguous \<^const>\<open>sublist\<close>,
    \<open>str.lower\<close> is \<open>py_lower\<close>; \<open>str.lower\<close> and slices are exact on ASCII.
  \<^item> A value of type \<open>Any\<close> (a loosely typed dictionary entry) is a \<open>json\<close> value,
    and \<open>truthy\<close> is Python's truth test on it.
  \<^item> Python floats (clock readings, rates, scores) are \<^typ>\<open>real\<close>: the model does
    exact arithmetic and says nothing about rounding.
  \<^item> A Python \<open>dict\<close> whose iteration order matters is an association list with
    the library's \<^const>\<open>AList.update\<close>, which overwrites in place and appends a new
    key, exactly as Python's insertion-ordered dictionaries do.  A dictionary that is
    only looked up and stored into is a map.
  \<^item> \<open>sorted(xs, key=f)\<close> is \<^const>\<open>sort_key\<close>, which is stable like Python's sort;
    \<open>reverse=True\<close> on numbers is the ascending stable sort by the negated key.
\<close>

section \<open>Collections of facts\<close>

named_theorems gate_simps \<open>defining equations of the per-provider gates\<close>
named_theorems route_simps \<open>defining equations of the routing functions\<close>

section \<open>Strings\<close>

definition lower_char :: "char \<Rightarrow> char" where
  "lower_char c =
     (let n = (of_char c :: nat) in if 65 \<le> n \<and> n \<le> 90 then char_of (n + 32) else c)"

definition py_lower :: "string \<Rightarrow> string" where
  "py_lower s = map lower_char s"

definition py_in :: "string \<Rightarrow> string \<Rightarrow> bool" where
  "py_in sub s = sublist sub s"

lemma py_in_append_left [simp]: "py_in sub s \<Longrightarrow> py_in sub (t @ s)"
  by (auto simp: py_in_def sublist_def) (metis append.assoc)

lemma py_in_append_right [simp]: "py_in sub s \<Longrightarrow> py_in sub (s @ t)"
  by (auto simp: py_in_def sublist_def) blast

lemma py_in_trans: "py_in a b \<Longrightarrow> py_in b c \<Longrightarrow> py_in a c"
  by (auto simp: py_in_def sublist_def) (metis append.assoc)

text \<open>Python's \<open>strip()\<close> on ASCII whitespace.\<close>

definition is_ws :: "char \<Rightarrow> bool" where
  "is_ws c = (let n = (of_char c :: nat) in n = 32 \<or> (9 \<le> n \<and> n \<le> 13) \<or> (28 \<le> n \<and> n \<le> 31))"

definition py_strip :: "string \<Rightarrow> string" where
  "py_strip s = rev (dropWhile is_ws (rev (dropWhile is_ws s)))"

text \<open>\<open>str(n)\<close> of an integer.\<close>

definition digit :: "nat \<Rightarrow> char" where
  "digit n = char_of (48 + n)"

fun py_str_nat :: "nat \<Rightarrow> string" where
  "py_str_nat n = (if n < 10 then [digit n] else py_str_nat (n div 10) @ [digit (n mod 10)])"

declare py_str_nat.simps [simp del]

definition py_str :: "int \<Rightarrow> string" where
  "py_str n = (if n < 0 then CHR ''-'' # py_str_nat (nat (- n)) else py_str_nat (nat n))"

text \<open>The decimal representation: its characters, and that it determines the number.\<close>

lemma digit_ne_colon: "n < 10 \<Longrightarrow> digit n \<noteq> CHR '':''"
proof
  assume "n < 10" "digit n = CHR '':''"
  then have "(of_char (digit n) :: nat) = of_char CHR '':''" by simp
  with \<open>n < 10\<close> show False by (simp add: digit_def)
qed

lemma py_str_nat_no_colon: "CHR '':'' \<notin> set (py_str_nat n)"
proof (induction n rule: py_str_nat.induct)
  case (1 n)
  then show ?case
    using digit_ne_colon [of n] digit_ne_colon [of "n mod 10"] by (subst py_str_nat.simps) auto
qed

lemma py_str_no_colon: "CHR '':'' \<notin> set (py_str n)"
  using py_str_nat_no_colon by (simp add: py_str_def)

lemma of_char_digit [simp]: "n < 10 \<Longrightarrow> (of_char (digit n) :: nat) = 48 + n"
  by (simp add: digit_def)

lemma digit_inj: "m < 10 \<Longrightarrow> n < 10 \<Longrightarrow> digit m = digit n \<Longrightarrow> m = n"
  by (metis of_char_digit add_left_cancel)

lemma length_py_str_nat: "0 < length (py_str_nat n)"
  by (subst py_str_nat.simps) simp

lemma py_str_nat_inj: "py_str_nat m = py_str_nat n \<Longrightarrow> m = n"
proof (induction m arbitrary: n rule: py_str_nat.induct)
  case (1 m)
  show ?case
  proof (cases "m < 10")
    case True
    have "length (py_str_nat m) = 1" using True by (subst py_str_nat.simps) simp
    with 1(2) have "length (py_str_nat n) = 1" by simp
    then have "n < 10" using length_py_str_nat [of "n div 10"]
      by (subst (asm) py_str_nat.simps) (auto split: if_splits)
    with True 1(2) show ?thesis
      by (simp add: py_str_nat.simps [of m] py_str_nat.simps [of n] digit_inj)
  next
    case False
    have "length (py_str_nat m) > 1" using False length_py_str_nat [of "m div 10"]
      by (subst py_str_nat.simps) simp
    with 1(2) have "\<not> n < 10" by (auto simp: py_str_nat.simps [of n])
    with False 1(2) have "py_str_nat (m div 10) = py_str_nat (n div 10)" "digit (m mod 10) = digit (n mod 10)"
      by (simp_all add: py_str_nat.simps [of m] py_str_nat.simps [of n])
    with 1(1) [OF False] digit_inj have "m div 10 = n div 10" "m mod 10 = n mod 10" by auto
    then show ?thesis by (metis div_mult_mod_eq)
  qed
qed

lemma digit_ne_minus: "n < 10 \<Longrightarrow> digit n \<noteq> CHR ''-''"
proof
  assume "n < 10" "digit n = CHR ''-''"
  then have "(of_char (digit n) :: nat) = of_char CHR ''-''" by simp
  with \<open>n < 10\<close> show False by (simp add: digit_def)
qed

lemma py_str_nat_no_minus: "CHR ''-'' \<notin> set (py_str_nat n)"
proof (induction n rule: py_str_nat.induct)
  case (1 n)
  then show ?case
    using digit_ne_minus [of n] digit_ne_minus [of "n mod 10"] by (subst py_str_nat.simps) auto
qed

lemma py_str_inj: "py_str m = py_str n \<Longrightarrow> m = n"
proof -
  assume eq: "py_str m = py_str n"
  then have "CHR ''-'' \<in> set (py_str m) \<longleftrightarrow> CHR ''-'' \<in> set (py_str n)" by simp
  then have "m < 0 \<longleftrightarrow> n < 0" using py_str_nat_no_minus by (simp add: py_str_def split: if_splits)
  with eq have "nat \<bar>m\<bar> = nat \<bar>n\<bar>" by (auto simp: py_str_def dest: py_str_nat_inj split: if_splits)
  with \<open>m < 0 \<longleftrightarrow> n < 0\<close> show "m = n" by auto
qed

text \<open>\<open>int(s)\<close> of a string: surrounding whitespace, a sign, digits with single underscores
  between them; \<open>None\<close> stands for \<open>ValueError\<close>.\<close>

definition is_digit :: "char \<Rightarrow> bool" where
  "is_digit c = (let n = (of_char c :: nat) in 48 \<le> n \<and> n \<le> 57)"

fun parse_digits :: "nat \<Rightarrow> string \<Rightarrow> nat option" where
  "parse_digits acc [] = Some acc"
| "parse_digits acc (c # cs) =
     (if is_digit c then parse_digits (acc * 10 + (of_char c - 48)) cs
      else if c = CHR ''_'' then
        (case cs of
           [] \<Rightarrow> None
         | d # ds \<Rightarrow> if is_digit d then parse_digits (acc * 10 + (of_char d - 48)) ds else None)
      else None)"

definition parse_unsigned :: "string \<Rightarrow> nat option" where
  "parse_unsigned s =
     (case s of
        [] \<Rightarrow> None
      | c # cs \<Rightarrow> if is_digit c then parse_digits (of_char c - 48) cs else None)"

definition py_int :: "string \<Rightarrow> int option" where
  "py_int s =
     (case py_strip s of
        [] \<Rightarrow> None
      | c # cs \<Rightarrow>
          if c = CHR ''-'' then map_option (\<lambda>n. - int n) (parse_unsigned cs)
          else if c = CHR ''+'' then map_option int (parse_unsigned cs)
          else map_option int (parse_unsigned (c # cs)))"

lemma is_digit_digit [simp]: "n < 10 \<Longrightarrow> is_digit (digit n)"
  by (simp add: is_digit_def)

lemma parse_digits_append:
  "list_all is_digit xs \<Longrightarrow> parse_digits a (xs @ ys) =
     (case parse_digits a xs of None \<Rightarrow> None | Some n \<Rightarrow> parse_digits n ys)"
  by (induction xs arbitrary: a) auto

lemma py_str_nat_digits: "list_all is_digit (py_str_nat n)"
proof (induction n rule: py_str_nat.induct)
  case (1 n)
  then show ?case by (subst py_str_nat.simps) (auto simp del: py_str_nat.simps)
qed

lemma parse_unsigned_append:
  "list_all is_digit xs \<Longrightarrow> xs \<noteq> [] \<Longrightarrow> list_all is_digit ys \<Longrightarrow> parse_unsigned (xs @ ys) =
     (case parse_unsigned xs of None \<Rightarrow> None | Some n \<Rightarrow> parse_digits n ys)"
  by (cases xs) (auto simp: parse_unsigned_def parse_digits_append)

lemma parse_py_str_nat: "parse_unsigned (py_str_nat n) = Some n"
proof (induction n rule: py_str_nat.induct)
  case (1 n)
  show ?case
  proof (cases "n < 10")
    case True
    then show ?thesis by (subst py_str_nat.simps) (simp add: parse_unsigned_def)
  next
    case False
    have "parse_unsigned (py_str_nat (n div 10) @ [digit (n mod 10)]) = Some (n div 10 * 10 + n mod 10)"
      using 1 [OF False] py_str_nat_digits [of "n div 10"] length_py_str_nat [of "n div 10"]
      by (subst parse_unsigned_append) auto
    with False show ?thesis by (subst py_str_nat.simps) simp
  qed
qed

lemma digit_not_ws: "is_digit c \<Longrightarrow> \<not> is_ws c"
  by (auto simp: is_digit_def is_ws_def Let_def)

lemma py_strip_solid: "s \<noteq> [] \<Longrightarrow> \<not> is_ws (hd s) \<Longrightarrow> \<not> is_ws (last s) \<Longrightarrow> py_strip s = s"
  by (simp add: py_strip_def dropWhile_eq_self_iff [THEN iffD2] hd_rev)

lemma py_int_py_str: "py_int (py_str n) = Some n"
proof -
  let ?d = "py_str_nat (nat \<bar>n\<bar>)"
  have d: "list_all is_digit ?d" "?d \<noteq> []"
    using py_str_nat_digits length_py_str_nat [of "nat \<bar>n\<bar>"] by auto
  then have dig: "is_digit (hd ?d)" "is_digit (last ?d)" by (simp_all add: list_all_iff)
  then have ws: "\<not> is_ws (hd ?d)" "\<not> is_ws (last ?d)" using digit_not_ws by auto
  have sign: "hd ?d \<noteq> CHR ''-''" "hd ?d \<noteq> CHR ''+''" using dig(1) by (auto simp: is_digit_def)
  have minus: "\<not> is_ws CHR ''-''" by (simp add: is_ws_def)
  show ?thesis
  proof (cases "n < 0")
    case True
    then have s: "py_str n = CHR ''-'' # ?d" by (simp add: py_str_def)
    have "py_strip (CHR ''-'' # ?d) = CHR ''-'' # ?d" using d(2) ws minus by (intro py_strip_solid) auto
    with True show ?thesis by (simp add: py_int_def s parse_py_str_nat)
  next
    case False
    then have s: "py_str n = ?d" by (simp add: py_str_def)
    obtain c cs where c: "?d = c # cs" using d(2) by (cases ?d) auto
    have "py_strip ?d = ?d" using d(2) ws by (intro py_strip_solid)
    then show ?thesis using False sign c parse_py_str_nat [of "nat \<bar>n\<bar>"] by (simp add: py_int_def s)
  qed
qed

text \<open>\<open>sep.join(xs)\<close>.\<close>

fun py_join :: "string \<Rightarrow> string list \<Rightarrow> string" where
  "py_join sep [] = []"
| "py_join sep [x] = x"
| "py_join sep (x # y # ys) = x @ sep @ py_join sep (y # ys)"

lemma length_py_join:
  "length (py_join sep xs) = sum_list (map length xs) + (length xs - 1) * length sep"
  by (induction sep xs rule: py_join.induct) (auto simp: algebra_simps)

text \<open>\<open>s.split(c)\<close>, and the entries of a list without repeats, first occurrences kept.\<close>

fun split_on :: "char \<Rightarrow> string \<Rightarrow> string list" where
  "split_on sep [] = [[]]"
| "split_on sep (c # cs) =
     (if c = sep then [] # split_on sep cs
      else case split_on sep cs of [] \<Rightarrow> [[c]] | w # ws \<Rightarrow> (c # w) # ws)"

fun dedup :: "string set \<Rightarrow> string list \<Rightarrow> string list" where
  "dedup seen [] = []"
| "dedup seen (t # ts) = (if t \<in> seen then dedup seen ts else t # dedup (insert t seen) ts)"

lemma set_dedup: "set (dedup seen ts) = set ts - seen"
  by (induction seen ts rule: dedup.induct) auto

definition newline :: string where
  "newline = [char_of (10::nat)]"

section \<open>Loosely typed values\<close>

datatype json =
    JNull
  | JBool bool
  | JInt int
  | JFloat real
  | JStr string
  | JList "json list"
  | JObj "(string \<times> json) list"

fun truthy :: "json \<Rightarrow> bool" where
  "truthy JNull = False"
| "truthy (JBool b) = b"
| "truthy (JInt n) = (n \<noteq> 0)"
| "truthy (JFloat r) = (r \<noteq> 0)"
| "truthy (JStr s) = (s \<noteq> [])"
| "truthy (JList xs) = (xs \<noteq> [])"
| "truthy (JObj kvs) = (kvs \<noteq> [])"

text \<open>\<open>d.get(k, default)\<close> on such a dictionary.\<close>

definition obj_get :: "(string \<times> json) list \<Rightarrow> string \<Rightarrow> json \<Rightarrow> json" where
  "obj_get d k dflt = (case map_of d k of None \<Rightarrow> dflt | Some v \<Rightarrow> v)"

lemma py_in_Nil_right [simp]: "py_in sub [] \<longleftrightarrow> sub = []"
  by (simp add: py_in_def)

lemma py_in_Cons [simp]: "py_in sub (c # s) \<longleftrightarrow> prefix sub (c # s) \<or> py_in sub s"
  by (simp add: py_in_def sublist_Cons_right)

text \<open>The types of a mutation (\<open>src/src/graph/enums.py\<close>), shared by the safety and the promotion gates.\<close>

datatype mutation_type =
    MT_PROMPT | MT_CODE | MT_TOOL | MT_WORKFLOW | MT_MEMORY | MT_CONFIG
  | MT_SUB_AGENT_PROMPT | MT_SUB_AGENT_TOOLS | MT_SUB_AGENT_CONFIG | MT_SUB_AGENT_MODEL_TIER

section \<open>Lists and dictionaries\<close>

text \<open>Python slices \<open>xs[:n]\<close> and \<open>xs[-n:]\<close> for a non-negative \<open>n\<close>.\<close>

definition py_take :: "int \<Rightarrow> 'a list \<Rightarrow> 'a list" where
  "py_take n xs = (if n < 0 then take (nat (int (length xs) + n)) xs else take (nat n) xs)"

definition py_last :: "int \<Rightarrow> 'a list \<Rightarrow> 'a list" where
  "py_last n xs = (if n \<le> 0 then drop (nat (- n)) xs else drop (length xs - nat n) xs)"

lemma set_py_take: "set (py_take n xs) \<subseteq> set xs"
  by (auto simp: py_take_def dest: in_set_takeD)

lemma length_py_take: "0 \<le> n \<Longrightarrow> int (length (py_take n xs)) \<le> n"
  by (simp add: py_take_def)

lemma py_take_all [simp]: "int (length xs) \<le> n \<Longrightarrow> py_take n xs = xs"
  by (auto simp: py_take_def)

lemma length_py_last: "0 < n \<Longrightarrow> int (length (py_last n xs)) = min n (int (length xs))"
  by (auto simp: py_last_def)

lemma sum_list_sort [simp]: "sum_list (map f (sort xs)) = (sum_list (map f xs) :: nat)"
  by (metis mset_map mset_sort sum_mset_sum_list)

lemma last_two_in_py_last:
  assumes "2 \<le> n" "n \<le> int (length (xs @ [a, b]))"
  shows "a \<in> set (py_last n (xs @ [a, b])) \<and> b \<in> set (py_last n (xs @ [a, b]))"
proof -
  have "length (xs @ [a, b]) - nat n \<le> length xs" using assms by simp
  then show ?thesis using assms(1) by (simp add: py_last_def)
qed

text \<open>The values of an ordered dictionary, in insertion order.\<close>

definition dict_values :: "('k \<times> 'v) list \<Rightarrow> 'v list" where
  "dict_values d = map snd d"

definition dict_keys :: "('k \<times> 'v) list \<Rightarrow> 'k list" where
  "dict_keys d = map fst d"

definition dict_wf :: "('k \<times> 'v) list \<Rightarrow> bool" where
  "dict_wf d = distinct (map fst d)"

lemma dict_wf_Nil [simp, intro]: "dict_wf []"
  by (simp add: dict_wf_def)

lemma dict_wf_update [simp, intro]: "dict_wf d \<Longrightarrow> dict_wf (AList.update k v d)"
  by (simp add: dict_wf_def distinct_update)

lemma dict_wf_delete [simp, intro]: "dict_wf d \<Longrightarrow> dict_wf (AList.delete k d)"
  by (simp add: dict_wf_def distinct_delete)

lemma dict_lookup_update [simp]:
  "map_of (AList.update k v d) k' = (if k' = k then Some v else map_of d k')"
  by (simp add: update_conv')

lemma dict_lookup_delete [simp]:
  "map_of (AList.delete k d) k' = (if k' = k then None else map_of d k')"
  by (simp add: delete_conv')

lemma dict_length_update:
  "length (AList.update k v d) = (if k \<in> fst ` set d then length d else Suc (length d))"
  by (induction d) auto

end
