(* ===== verification/Graph_State.thy ===== *)
theory Graph_State
  imports Prelude
begin

text \<open>
  The state of the task graph: the enumerations of \<open>src/src/graph/enums.py\<close>, the
  payload models of \<open>src/src/graph/models.py\<close>, the \<open>AgentState\<close> dictionary of
  \<open>src/src/graph/state.py\<close> with its reducers, and the run-time iteration cap of
  \<open>src/src/graph/iteration_cap.py\<close>.

  \<open>AgentState\<close> is a \<open>TypedDict\<close> with optional keys.  A key whose readers all
  fall back to the same empty value (\<open>0\<close>, \<open>False\<close>, \<open>[]\<close>) is a plain field; a
  key whose absence is visible (\<open>is_complete\<close>, read with two different defaults,
  \<open>confidence\<close>, \<open>reflection\<close>, \<open>max_iterations\<close>, \<open>current_goal\<close>, the last
  verify fingerprint) is an \<open>option\<close>.  Fields that no modelled operation reads or
  writes (advisory text, cost records, evaluation results) are left out.
\<close>

section \<open>Enumerations and payloads\<close>

datatype phase_name =
    P_CLASSIFY | P_DISAMBIGUATE | P_PLAN | P_RETRIEVE_MEMORY | P_RESEARCH
  | P_STRUCTURE_ANALYSIS | P_EXECUTE | P_REFLECT | P_VERIFY | P_EVOLVE | P_STORE_MEMORY
  | P_TOOL_CREATE | P_AGENT_SPAWN | P_DELEGATE | P_HITL_GATE | P_ERROR_HANDLER | P_COMPLETE

datatype strategy_name = DIRECT | REACT | REFLECTION | PLANNING | TOT | REWOO | DEBATE

datatype task_complexity = TRIVIAL | SIMPLE | COMPLEX | CRITICAL

datatype confidence_level = VERY_LOW | LOW | MEDIUM | HIGH | VERY_HIGH

datatype goal_status = PENDING | ACTIVE | COMPLETED | FAILED | DELEGATED

record goal =
  g_id :: string
  g_text :: string
  g_priority :: int
  g_status :: goal_status
  g_complexity :: task_complexity
  g_parent_goal_id :: "string option"
  g_sub_goals :: "string list"
  g_success_criteria :: "string list"
  g_created_at :: real

record plan_step =
  ps_id :: string
  ps_description :: string
  ps_tool_name :: "string option"
  ps_tool_input :: "(string \<times> json) list"
  ps_depends_on :: "string list"
  ps_expected_output :: string
  ps_status :: goal_status
  ps_result :: "string option"
  ps_tokens_used :: int
  ps_duration_ms :: int
  ps_step_nature :: task_complexity

record reflection_result =
  rr_summary :: string
  rr_lessons_learned :: "string list"
  rr_confidence :: confidence_level
  rr_should_evolve :: bool
  rr_should_replan :: bool
  rr_memory_observations :: "string list"
  rr_cost_efficiency :: real

record tool_result =
  tr_tool_name :: string
  tr_success :: bool
  tr_output :: string
  tr_error :: "string option"
  tr_tokens_used :: int
  tr_duration_ms :: int
  tr_metadata :: "(string \<times> json) list"

text \<open>
  The message thread.  A dictionary \<open>{"role": "user", ...}\<close> put into it becomes a human
  message (the \<open>add_messages\<close> reducer appends messages with new ids and converts them).
\<close>

record tool_call =
  tc_name :: string
  tc_args :: "(string \<times> json) list"
  tc_id :: string

datatype message =
    HumanMessage string
  | SystemMessage string
  | AIMessage string "tool_call list"
  | ToolMessage (tm_content: string) (tm_call_id: string) (tm_name: string)

section \<open>The agent state\<close>

record agent_state =
  phase :: phase_name
  iteration_count :: int
  max_iterations :: "int option"
  structure_analysis_done :: bool
  consecutive_stable_verifies :: int
  last_verify_fingerprint :: "string option"
  verify_cycle :: int
  recent_verify_failures :: "string list"
  cap_blocked :: bool
  consecutive_cap_blocks :: int
  mid_run_cap_last_enforced_iter :: int
  current_goal :: "goal option"
  submitted_goal :: string
  strategy :: strategy_name
  plan_steps :: "plan_step list"
  atomicity_replan_done :: bool
  refined_intent :: string
  ambiguity_type :: string
  current_step_index :: int
  ambiguity_severity :: real
  ambiguity_notes :: "string list"
  disambiguation_done :: bool
  messages :: "message list"
  tool_results :: "tool_result list"
  completed_steps :: "plan_step list"
  step_outputs :: "(string \<times> string) list"
  research_done :: bool
  memory_observations :: "string list"
  generation :: int
  reflection :: "reflection_result option"
  confidence :: "confidence_level option"
  no_evolution :: bool
  evolve_reexecute_offered :: bool
  evolve_reexecute_done :: bool
  pending_tool_gaps :: "string list"
  attempted_tool_gaps :: "string list"
  tools_created :: "(string \<times> json) list list"
  pending_agent_gaps :: "string list"
  attempted_agent_gaps :: "string list"
  sub_agents_spawned :: "(string \<times> json) list list"
  delegation_results :: "(string \<times> json) list list"
  final_output :: string
  is_complete :: "bool option"
  errors :: "string list"
  missing_deliverables :: "string list"
  eval_rescue_attempted :: bool
  eval_correctness :: "(real \<times> bool) option"
  fold_history :: "(string \<times> json) list list"
  last_fold_iteration :: int

text \<open>The state with every key absent, and the shape of a goal built from its text.\<close>

definition empty_state :: agent_state where
  "empty_state =
     \<lparr>phase = P_CLASSIFY, iteration_count = 0, max_iterations = None,
      structure_analysis_done = False, consecutive_stable_verifies = 0,
      last_verify_fingerprint = None, verify_cycle = 0, recent_verify_failures = [],
      cap_blocked = False, consecutive_cap_blocks = 0, mid_run_cap_last_enforced_iter = 0,
      current_goal = None, submitted_goal = [], strategy = REACT, plan_steps = [],
      atomicity_replan_done = False, refined_intent = [], ambiguity_type = ''none'',
      current_step_index = 0, ambiguity_severity = 0, ambiguity_notes = [], disambiguation_done = False,
      messages = [], tool_results = [], completed_steps = [], step_outputs = [],
      research_done = False, memory_observations = [], generation = 0, reflection = None, confidence = None, no_evolution = False,
      evolve_reexecute_offered = False, evolve_reexecute_done = False,
      pending_tool_gaps = [], attempted_tool_gaps = [], tools_created = [], pending_agent_gaps = [],
      attempted_agent_gaps = [], sub_agents_spawned = [], delegation_results = [], final_output = [],
      is_complete = None, errors = [], missing_deliverables = [], eval_rescue_attempted = False,
      eval_correctness = None, fold_history = [],
      last_fold_iteration = 0\<rparr>"

definition new_goal :: "string \<Rightarrow> string \<Rightarrow> real \<Rightarrow> goal" where
  "new_goal ident txt now =
     \<lparr>g_id = ident, g_text = txt, g_priority = 5, g_status = PENDING, g_complexity = SIMPLE,
      g_parent_goal_id = None, g_sub_goals = [], g_success_criteria = [], g_created_at = now\<rparr>"

definition new_step :: "string \<Rightarrow> string \<Rightarrow> plan_step" where
  "new_step ident descr =
     \<lparr>ps_id = ident, ps_description = descr, ps_tool_name = None, ps_tool_input = [],
      ps_depends_on = [], ps_expected_output = [], ps_status = PENDING, ps_result = None,
      ps_tokens_used = 0, ps_duration_ms = 0, ps_step_nature = SIMPLE\<rparr>"

section \<open>Reading the state\<close>

definition objective_goal_text :: "agent_state \<Rightarrow> string" where
  "objective_goal_text s =
     (if submitted_goal s \<noteq> [] then submitted_goal s
      else case current_goal s of Some g \<Rightarrow> g_text g | None \<Rightarrow> [])"

definition em_dash :: string where
  "em_dash = [char_of (0xE2::nat), char_of (0x80::nat), char_of (0x94::nat)]"

text \<open>The prefix of a missing-deliverable error.\<close>

definition deliverable_error_prefix :: string where
  "deliverable_error_prefix =
     ''verify: deliverable not present '' @ em_dash @ '' ''"

fun current_blocking_errors :: "string list \<Rightarrow> string list \<Rightarrow> string list" where
  "current_blocking_errors [] missing = []"
| "current_blocking_errors (err # rest) missing =
     (if prefix deliverable_error_prefix err \<and>
         drop (length deliverable_error_prefix) err \<notin> set missing
      then current_blocking_errors rest missing
      else err # current_blocking_errors rest missing)"

text \<open>\<open>bool(plan_steps) and step_index < len(plan_steps)\<close>, the test repeated in the routers.\<close>

definition has_remaining_steps :: "agent_state \<Rightarrow> bool" where
  "has_remaining_steps s \<longleftrightarrow>
     plan_steps s \<noteq> [] \<and> current_step_index s < int (length (plan_steps s))"

section \<open>Settings\<close>

text \<open>The knobs of \<open>AgentSettings\<close> and \<open>LatsSettings\<close> that the graph reads.\<close>

record agent_settings =
  max_iterations_trivial :: int
  max_iterations_simple :: int
  max_iterations_complex :: int
  max_iterations_critical :: int
  convergence_stable_threshold :: int
  verify_max_cycles :: int
  verify_oscillation_repeat :: int
  cap_loop_break_threshold :: int
  memory_folding_max_folds :: int
  clarifying_gate_enabled :: bool
  clarifying_severity_threshold :: real
  research_loop_enabled :: bool
  structure_analysis_enabled :: bool
  evolution_reexecute_tool :: bool
  eval_enabled :: bool
  eval_enforce :: bool
  eval_rescue_incomplete :: bool
  lats_enabled :: bool
  lats_scope :: string
  agent_max_iterations :: int
  planning_max_steps :: int
  plan_atomicity_enforce :: bool
  step_memoization_enabled :: bool
  max_write_nudges :: int
  max_sub_agents_per_run :: int
  max_active_sub_agents :: int
  max_active_tools :: int
  mid_run_cap_enforce_enabled :: bool
  mid_run_cap_enforce_interval :: int
  reflect_completion_high :: real
  reflect_completion_medium :: real
  reflect_completion_replan_floor :: real

text \<open>The defaults of \<open>src/src/config/settings.py\<close>.\<close>

definition default_settings :: agent_settings where
  "default_settings =
     \<lparr>max_iterations_trivial = 12, max_iterations_simple = 15, max_iterations_complex = 60,
      max_iterations_critical = 60, convergence_stable_threshold = 3, verify_max_cycles = 12,
      verify_oscillation_repeat = 3, cap_loop_break_threshold = 2, memory_folding_max_folds = 3,
      clarifying_gate_enabled = False, clarifying_severity_threshold = 1 / 2,
      research_loop_enabled = False,
      structure_analysis_enabled = True, evolution_reexecute_tool = False, eval_enabled = True,
      eval_enforce = True, eval_rescue_incomplete = True, lats_enabled = False, lats_scope = ''stall'',
      agent_max_iterations = 60, planning_max_steps = 30, plan_atomicity_enforce = False,
      step_memoization_enabled = False, max_write_nudges = 2, max_sub_agents_per_run = 5,
      max_active_sub_agents = 60, max_active_tools = 25, mid_run_cap_enforce_enabled = False,
      mid_run_cap_enforce_interval = 10, reflect_completion_high = 8 / 10,
      reflect_completion_medium = 1 / 2, reflect_completion_replan_floor = 3 / 10\<rparr>"

text \<open>\<open>validate_positive_int\<close> on those knobs it covers, and the severity threshold.\<close>

definition settings_ok :: "agent_settings \<Rightarrow> bool" where
  "settings_ok cfg \<longleftrightarrow>
     1 \<le> max_iterations_trivial cfg \<and> 1 \<le> max_iterations_simple cfg \<and>
     1 \<le> max_iterations_complex cfg \<and> 1 \<le> max_iterations_critical cfg \<and>
     1 \<le> agent_max_iterations cfg \<and> 1 \<le> planning_max_steps cfg \<and>
     1 \<le> max_write_nudges cfg \<and> 1 \<le> max_sub_agents_per_run cfg \<and>
     max_iterations_complex cfg \<le> agent_max_iterations cfg \<and>
     max_iterations_critical cfg \<le> agent_max_iterations cfg \<and>
     1 \<le> convergence_stable_threshold cfg \<and> 1 \<le> cap_loop_break_threshold cfg \<and>
     0 \<le> clarifying_severity_threshold cfg \<and> clarifying_severity_threshold cfg \<le> 1"

section \<open>The iteration cap\<close>

definition goal_complexity :: "agent_state \<Rightarrow> task_complexity" where
  "goal_complexity s = (case current_goal s of Some g \<Rightarrow> g_complexity g | None \<Rightarrow> SIMPLE)"

fun tier_cap :: "agent_settings \<Rightarrow> task_complexity \<Rightarrow> int" where
  "tier_cap cfg TRIVIAL = max_iterations_trivial cfg"
| "tier_cap cfg SIMPLE = max_iterations_simple cfg"
| "tier_cap cfg COMPLEX = max_iterations_complex cfg"
| "tier_cap cfg CRITICAL = max_iterations_critical cfg"

text \<open>A pinned cap of \<open>0\<close> is falsy in Python and counts as no pin.\<close>

definition effective_max_iterations :: "agent_settings \<Rightarrow> agent_state \<Rightarrow> int" where
  "effective_max_iterations cfg s =
     (case max_iterations s of
        Some n \<Rightarrow> if n \<noteq> 0 then n else tier_cap cfg (goal_complexity s)
      | None \<Rightarrow> tier_cap cfg (goal_complexity s))"

definition at_cap :: "agent_settings \<Rightarrow> agent_state \<Rightarrow> bool" where
  "at_cap cfg s \<longleftrightarrow> effective_max_iterations cfg s \<le> iteration_count s"

section \<open>Lemmas\<close>

lemma current_blocking_errors_filter:
  "current_blocking_errors es missing =
     filter (\<lambda>e. \<not> (prefix deliverable_error_prefix e \<and>
        drop (length deliverable_error_prefix) e \<notin> set missing)) es"
  by (induction es) auto

lemma current_blocking_errors_append [simp]:
  "current_blocking_errors (es @ fs) missing =
     current_blocking_errors es missing @ current_blocking_errors fs missing"
  by (simp add: current_blocking_errors_filter)

lemma current_blocking_errors_mono:
  "set missing \<subseteq> set missing' \<Longrightarrow>
     set (current_blocking_errors es missing) \<subseteq> set (current_blocking_errors es missing')"
  by (auto simp: current_blocking_errors_filter)

text \<open>
  Fact (functional): the errors that still gate completion are exactly the accumulated ones,
  in order, without the resolved missing-deliverable entries: for a deliverable that is on
  disk again every entry disappears however often it was appended, one that is still missing
  is kept, and the filter is idempotent.
\<close>

theorem blocking_errors_resolve:
  "(deliverable_error_prefix @ p \<in> set (current_blocking_errors es missing)
      \<longleftrightarrow> deliverable_error_prefix @ p \<in> set es \<and> p \<in> set missing) \<and>
   current_blocking_errors (current_blocking_errors es missing) missing =
     current_blocking_errors es missing \<and>
   subseq (current_blocking_errors es missing) es"
  by (auto simp: current_blocking_errors_filter)

end
