(* ===== verification/Graph_Nodes.thy ===== *)
theory Graph_Nodes
  imports Graph_State
begin

text \<open>
  The nodes of the task graph that change the control state: \<open>classify\<close>, \<open>plan\<close>,
  \<open>execute\<close>, \<open>tool_create\<close>, \<open>agent_spawn\<close>, \<open>error_handler\<close> and \<open>hitl_gate\<close>
  (\<open>src/src/graph/nodes/\<close>), with the cadence gate of \<open>src/src/governance/prune.py\<close>.

  A node returns a partial update that LangGraph merges into the state: a plain key is
  overwritten, a key annotated with \<open>operator.add\<close> (errors, tool results, completed
  steps, messages, attempted gaps, created tools, spawned agents) is appended to.  A node
  is modelled as the merged state.  What the language model, the sandbox, the human or
  the database answer is an argument; regular expressions are written out as recursions
  on the text.
\<close>

section \<open>Classify\<close>

definition trivial_keywords :: "string list" where
  "trivial_keywords =
     [''define'', ''what is'', ''explain'', ''list'', ''convert'', ''format'',
      ''summarize briefly'', ''label'', ''classify'', ''translate'']"

definition critical_keywords :: "string list" where
  "critical_keywords =
     [''production'', ''deploy'', ''critical'', ''security'', ''audit'',
      ''migrate'', ''refactor entire'', ''redesign'', ''rewrite'']"

definition complex_indicators :: "string list" where
  "complex_indicators =
     [''build'', ''create'', ''implement'', ''design'', ''develop'',
      ''integrate'', ''full-stack'', ''end-to-end'', ''comprehensive'']"

definition any_in :: "string list \<Rightarrow> string \<Rightarrow> bool" where
  "any_in kws text \<longleftrightarrow> list_ex (\<lambda>kw. py_in kw text) kws"

definition classify_complexity :: "string \<Rightarrow> task_complexity" where
  "classify_complexity txt =
     (if any_in critical_keywords txt then CRITICAL
      else if any_in trivial_keywords txt then TRIVIAL
      else if any_in complex_indicators txt then COMPLEX
      else SIMPLE)"

definition strategy_keywords :: "(strategy_name \<times> string list) list" where
  "strategy_keywords =
     [(REACT, [''search'', ''find'', ''look up'', ''investigate'', ''explore'', ''analyze data'']),
      (PLANNING, [''plan'', ''step by step'', ''multi-step'', ''roadmap'', ''sequence'']),
      (REFLECTION, [''review'', ''critique'', ''improve'', ''optimize'', ''refine'']),
      (TOT, [''compare'', ''evaluate options'', ''best approach'', ''alternatives'']),
      (DEBATE, [''argue'', ''pros and cons'', ''debate'', ''from multiple perspectives''])]"

fun select_strategy_from :: "(strategy_name \<times> string list) list \<Rightarrow> string \<Rightarrow> strategy_name" where
  "select_strategy_from [] txt = REACT"
| "select_strategy_from ((st, kws) # rest) txt =
     (if any_in kws txt then st else select_strategy_from rest txt)"

definition select_strategy :: "string \<Rightarrow> strategy_name" where
  "select_strategy txt = select_strategy_from strategy_keywords txt"

fun estimate_steps :: "task_complexity \<Rightarrow> int" where
  "estimate_steps TRIVIAL = 1"
| "estimate_steps SIMPLE = 3"
| "estimate_steps COMPLEX = 7"
| "estimate_steps CRITICAL = 12"

definition heuristic_classify :: "string \<Rightarrow> task_complexity \<times> strategy_name \<times> int" where
  "heuristic_classify txt =
     (let complexity = classify_complexity txt
      in (complexity, select_strategy txt, estimate_steps complexity))"

subsection \<open>The complexity floor\<close>

definition floor_verify_keywords :: "string list" where
  "floor_verify_keywords =
     [''verify'', ''recompute'', ''re-compute'', ''cross-check'', ''cross check'',
      ''re-derive'', ''rederive'', ''validate that'', ''assert that'', ''check that'',
      ''independently confirm'']"

definition floor_artifact_exts :: "string list" where
  "floor_artifact_exts =
     [''csv'', ''tsv'', ''json'', ''jsonl'', ''xml'', ''yaml'', ''yml'', ''md'', ''rst'', ''txt'',
      ''py'', ''js'', ''ts'', ''rs'', ''go'', ''java'', ''sql'', ''html'', ''htm'', ''pdf'',
      ''xlsx'', ''xls'', ''png'', ''jpg'', ''jpeg'', ''svg'', ''parquet'', ''db'', ''sqlite'']"

definition is_lower_alnum :: "char \<Rightarrow> bool" where
  "is_lower_alnum c = (let n = (of_char c :: nat) in (48 \<le> n \<and> n \<le> 57) \<or> (97 \<le> n \<and> n \<le> 122))"

definition is_word_char :: "char \<Rightarrow> bool" where
  "is_word_char c = (let n = (of_char c :: nat) in
     (48 \<le> n \<and> n \<le> 57) \<or> (65 \<le> n \<and> n \<le> 90) \<or> (97 \<le> n \<and> n \<le> 122) \<or> n = 95)"

text \<open>
  \<open>_FLOOR_EXT_RE\<close> is a dot, two to four characters of \<open>[a-z0-9]\<close> and a word boundary:
  the boundary forces the whole alphanumeric run after the dot to be taken, so a dot
  matches exactly when that run has two to four characters and no word character
  follows it.
\<close>

fun floor_exts :: "string \<Rightarrow> string list" where
  "floor_exts [] = []"
| "floor_exts (c # cs) =
     (let run = takeWhile is_lower_alnum cs; after = dropWhile is_lower_alnum cs
      in if c = CHR ''.'' \<and> 2 \<le> length run \<and> length run \<le> 4 \<and>
            (after = [] \<or> \<not> is_word_char (hd after)) \<and> run \<in> set floor_artifact_exts
         then List.insert run (floor_exts cs) else floor_exts cs)"

definition apply_complexity_floor :: "string \<Rightarrow> task_complexity \<Rightarrow> task_complexity" where
  "apply_complexity_floor goal_txt complexity =
     (if complexity \<notin> {TRIVIAL, SIMPLE} then complexity
      else
        let lowered = py_lower goal_txt in
        if any_in floor_verify_keywords lowered then COMPLEX
        else if length (floor_exts lowered) \<ge> 3 then COMPLEX
        else complexity)"

text \<open>What the LLM classifier returns (\<open>TaskClassification\<close>), when it answers.\<close>

record task_classification =
  cl_complexity :: task_complexity
  cl_strategy :: strategy_name
  cl_estimated_steps :: int
  cl_confidence :: real
  cl_refined_intent :: string
  cl_ambiguity_type :: string
  cl_ambiguity_severity :: real
  cl_ambiguity_notes :: "string list"

definition classify_node :: "task_classification option \<Rightarrow> real \<Rightarrow> agent_state \<Rightarrow> agent_state" where
  "classify_node llm now s =
     (case current_goal s of
        None \<Rightarrow> s\<lparr>phase := P_ERROR_HANDLER,
                  errors := errors s @ [''classify: No goal text provided'']\<rparr>
      | Some g \<Rightarrow>
          if g_text g = [] then
            s\<lparr>phase := P_ERROR_HANDLER, errors := errors s @ [''classify: No goal text provided'']\<rparr>
          else
            let (complexity, strat, conf, intent, amb_type, severity, notes) =
                  (case llm of
                     Some c \<Rightarrow> (cl_complexity c, cl_strategy c,
                                (if cl_confidence c \<ge> 7 / 10 then HIGH else MEDIUM),
                                cl_refined_intent c, cl_ambiguity_type c,
                                cl_ambiguity_severity c, cl_ambiguity_notes c)
                   | None \<Rightarrow>
                       (let (cx, st, n) = heuristic_classify (py_lower (g_text g))
                        in (cx, st, MEDIUM, [], ''none'', 0, [])));
                complexity = apply_complexity_floor (g_text g) complexity
            in s\<lparr>phase := P_PLAN,
                 current_goal := Some (g\<lparr>g_status := ACTIVE, g_complexity := complexity,
                                         g_created_at := now\<rparr>),
                 strategy := strat, confidence := Some conf, refined_intent := intent,
                 ambiguity_type := amb_type, ambiguity_severity := severity,
                 ambiguity_notes := notes\<rparr>)"

section \<open>Plan\<close>

text \<open>
  \<open>_ATOMIC_CONJUNCTION_RE\<close> and \<open>_COARSE_SPLIT_RE\<close> look for the whole words \<open>and\<close>,
  \<open>then\<close>, \<open>also\<close> in any case, and for semicolons.  \<open>tokens\<close> cuts a text into its maximal
  runs of word characters and the single characters between them.
\<close>

function tokens :: "string \<Rightarrow> string list" where
  "tokens [] = []"
| "tokens (c # cs) =
     (if is_word_char c
      then (c # takeWhile is_word_char cs) # tokens (dropWhile is_word_char cs)
      else [c] # tokens cs)"
  by pat_completeness auto

termination tokens
  by (relation "measure length") (auto simp: le_imp_less_Suc length_dropWhile_le)

definition is_conjunction :: "string \<Rightarrow> bool" where
  "is_conjunction tok \<longleftrightarrow> py_lower tok \<in> {''and'', ''then'', ''also''} \<or> tok = '';''"

definition conjunction_count :: "string \<Rightarrow> nat" where
  "conjunction_count txt = length (filter is_conjunction (tokens txt))"

fun split_tokens :: "string \<Rightarrow> string list \<Rightarrow> string list" where
  "split_tokens acc [] = [acc]"
| "split_tokens acc (tok # toks) =
     (if is_conjunction tok then acc # split_tokens [] toks else split_tokens (acc @ tok) toks)"

definition coarse_parts :: "string \<Rightarrow> string list" where
  "coarse_parts txt = filter (\<lambda>p. p \<noteq> []) (map py_strip (split_tokens [] (tokens txt)))"

fun word_count :: "bool \<Rightarrow> string \<Rightarrow> nat" where
  "word_count inside [] = 0"
| "word_count inside (c # cs) =
     (if is_ws c then word_count False cs
      else if inside then word_count True cs else Suc (word_count True cs))"

datatype step_flag = Atomic | Too_coarse | Too_fine

definition step_atomicity :: "plan_step \<Rightarrow> step_flag" where
  "step_atomicity st =
     (let desc = py_strip (ps_description st) in
      if conjunction_count desc \<ge> 2 then Too_coarse
      else if word_count False desc < 3 \<and> py_strip (ps_expected_output st) = [] then Too_fine
      else Atomic)"

text \<open>The ids of the new steps come from \<open>uuid4\<close>: \<open>fresh\<close> supplies them.\<close>

definition split_coarse_step :: "(string \<Rightarrow> nat \<Rightarrow> string) \<Rightarrow> plan_step \<Rightarrow> plan_step list" where
  "split_coarse_step fresh st =
     (let parts = coarse_parts (ps_description st) in
      if length parts < 2 then [st]
      else map (\<lambda>(i, clause). (new_step (fresh (ps_id st) i) clause)
                  \<lparr>ps_tool_name := ps_tool_name st, ps_expected_output := ps_expected_output st,
                   ps_status := ps_status st\<rparr>)
             (enumerate 0 (take 4 parts)))"

definition plan_budget :: "agent_settings \<Rightarrow> agent_state \<Rightarrow> int" where
  "plan_budget cfg s =
     (let max_iter = (case max_iterations s of
                        Some n \<Rightarrow> if n \<noteq> 0 then n else agent_max_iterations cfg
                      | None \<Rightarrow> agent_max_iterations cfg);
          remaining = max 0 (max_iter - iteration_count s)
      in min (planning_max_steps cfg) (max 1 remaining))"

definition refine_plan :: "(string \<Rightarrow> nat \<Rightarrow> string) \<Rightarrow> plan_step list \<Rightarrow> plan_step list" where
  "refine_plan fresh steps =
     concat (map (\<lambda>st. case List.find (\<lambda>v. ps_id v = ps_id st) steps of
                          Some v \<Rightarrow> if step_atomicity v = Too_coarse then split_coarse_step fresh st
                                    else [st]
                        | None \<Rightarrow> [st])
                 steps)"

definition plan_node ::
  "(string \<Rightarrow> nat \<Rightarrow> string) \<Rightarrow> agent_settings \<Rightarrow> plan_step list \<Rightarrow> agent_state \<Rightarrow> agent_state" where
  "plan_node fresh cfg proposed s =
     (if (case current_goal s of None \<Rightarrow> True | Some g \<Rightarrow> g_text g = []) then
        s\<lparr>phase := P_ERROR_HANDLER, errors := errors s @ [''plan: No goal text available'']\<rparr>
      else
        let max_steps = plan_budget cfg s;
            steps = (if int (length proposed) > max_steps then py_take max_steps proposed
                     else proposed);
            enforce = (plan_atomicity_enforce cfg \<and> \<not> atomicity_replan_done s \<and>
                       list_ex (\<lambda>st. step_atomicity st = Too_coarse) steps);
            refined = refine_plan fresh steps;
            steps = (if enforce \<and> length refined \<noteq> length steps
                     then py_take max_steps refined else steps)
        in s\<lparr>phase := P_RETRIEVE_MEMORY, plan_steps := steps, current_step_index := 0,
             iteration_count := iteration_count s + 1,
             atomicity_replan_done := (enforce \<or> atomicity_replan_done s)\<rparr>)"

section \<open>Execute\<close>

text \<open>
  One answer of the model inside a step: its text, its tool calls and the results of
  running them (in order), and whether the step's declared file is on disk afterwards.
\<close>

record llm_turn =
  turn_content :: "string option"
  turn_calls :: "tool_call list"
  turn_results :: "tool_result list"
  turn_on_disk :: bool

definition file_output_tools :: "string list" where
  "file_output_tools = [''file_writer'']"

definition called_file_output_tool :: "tool_call list \<Rightarrow> bool" where
  "called_file_output_tool calls \<longleftrightarrow> list_ex (\<lambda>tc. tc_name tc \<in> set file_output_tools) calls"

definition first_file_output_call :: "tool_call list \<Rightarrow> tool_call option" where
  "first_file_output_call calls = List.find (\<lambda>tc. tc_name tc \<in> set file_output_tools) calls"

text \<open>The messages of one attempt: the user turn, the model's answer, one per tool result.\<close>

definition or_empty :: "string option \<Rightarrow> string" where
  "or_empty o' = (case o' of None \<Rightarrow> [] | Some x \<Rightarrow> x)"

definition turn_thread :: "string \<Rightarrow> llm_turn \<Rightarrow> message list" where
  "turn_thread label t =
     HumanMessage label # AIMessage (or_empty (turn_content t)) (turn_calls t) #
     map (\<lambda>(tc, tr). ToolMessage (if tr_output tr \<noteq> [] then tr_output tr else or_empty (tr_error tr))
                        (tc_id tc) (tr_tool_name tr))
       (zip (turn_calls t) (if turn_calls t = [] then [] else turn_results t))"

text \<open>Each result is stamped with the id of its call; without calls nothing was run.\<close>

definition turn_tool_results :: "llm_turn \<Rightarrow> tool_result list" where
  "turn_tool_results t =
     (if turn_calls t = [] then []
      else map (\<lambda>(tc, tr). tr\<lparr>tr_metadata :=
                  AList.update ''tool_call_id'' (JStr (tc_id tc)) (tr_metadata tr)\<rparr>)
             (zip (turn_calls t) (turn_results t)) @
           drop (length (turn_calls t)) (turn_results t))"

text \<open>
  The attempt loop of \<open>_llm_execute\<close> (\<open>attempts\<close> is \<open>max_attempts\<close>, \<open>nudge\<close> the text of
  the follow-up turn).  It stops at the first attempt with a failed tool call, at the first
  one that needs no nudge, or when the attempts are spent.  An exception of the model call
  (\<open>None\<close> in the list) makes the whole call return \<open>None\<close>.
\<close>

datatype exec_result =
    Exec_failed "message list" "tool_result list"
  | Exec_done "message list" llm_turn

fun attempt_loop ::
  "nat \<Rightarrow> bool \<Rightarrow> string \<Rightarrow> string \<Rightarrow> llm_turn option list \<Rightarrow> message list \<Rightarrow> exec_result option" where
  "attempt_loop 0 writes label nudge turns thread = None"
| "attempt_loop (Suc n) writes label nudge [] thread = None"
| "attempt_loop (Suc n) writes label nudge (None # turns) thread = None"
| "attempt_loop (Suc n) writes label nudge (Some t # turns) thread =
     (let thread = thread @ turn_thread label t in
      if list_ex (\<lambda>tr. \<not> tr_success tr) (turn_tool_results t)
      then Some (Exec_failed thread (turn_tool_results t))
      else if writes \<and> \<not> called_file_output_tool (turn_calls t) \<and> \<not> turn_on_disk t \<and> n > 0
        then attempt_loop n writes nudge nudge turns thread
      else Some (Exec_done thread t))"

definition update_step :: "int \<Rightarrow> (plan_step \<Rightarrow> plan_step) \<Rightarrow> plan_step list \<Rightarrow> plan_step list" where
  "update_step i f steps = steps[nat i := f (steps ! nat i)]"

text \<open>
  The state after an execute pass.  \<open>label\<close> and \<open>nudge\<close> are the prompts, \<open>writes\<close> says
  that the step (or, for a producing step, the goal) declares an output file, \<open>key\<close> is the
  hash of a step description, and \<open>llm\<close> is \<open>None\<close> when there is no gateway or no tool
  registry.  The plan step object is shared with the plan list, so marking it is a change
  of the list.  Step indices start at 0 and only grow, so they are never negative.
\<close>

definition llm_execute ::
  "agent_settings \<Rightarrow> (string \<Rightarrow> string) \<Rightarrow> bool \<Rightarrow> string \<Rightarrow> string \<Rightarrow> llm_turn option list
    \<Rightarrow> agent_state \<Rightarrow> agent_state option" where
  "llm_execute cfg key writes label nudge turns s =
     (let i = current_step_index s;
          descr = ps_description (plan_steps s ! nat i);
          max_attempts = (if writes then max_write_nudges cfg + 1 else 1)
      in case attempt_loop (nat max_attempts) writes label nudge turns [] of
           None \<Rightarrow> None
         | Some (Exec_failed thread results) \<Rightarrow>
             Some (s\<lparr>phase := P_EXECUTE, messages := messages s @ thread,
                     iteration_count := iteration_count s + 1,
                     plan_steps := update_step i (\<lambda>st. st\<lparr>ps_status := ACTIVE\<rparr>) (plan_steps s),
                     tool_results := tool_results s @ results\<rparr>)
         | Some (Exec_done thread t) \<Rightarrow>
             (let result_text = (if or_empty (turn_content t) \<noteq> [] then or_empty (turn_content t)
                                 else descr);
                  finish = (\<lambda>st. let st = st\<lparr>ps_status := COMPLETED,
                                             ps_result := Some (take 500 result_text)\<rparr>
                                 in case first_file_output_call (turn_calls t) of
                                      None \<Rightarrow> st
                                    | Some tc \<Rightarrow> st\<lparr>ps_tool_name := Some ''file_writer'',
                                                    ps_tool_input := tc_args tc\<rparr>);
                  steps = update_step i finish (plan_steps s)
              in Some (s\<lparr>phase := P_REFLECT, messages := messages s @ thread,
                         current_step_index := i + 1, iteration_count := iteration_count s + 1,
                         plan_steps := steps,
                         completed_steps := completed_steps s @ [steps ! nat i],
                         tool_results := tool_results s @ turn_tool_results t,
                         step_outputs := AList.update (key descr) (take 500 result_text)
                                           (step_outputs s)\<rparr>)))"

definition simulated_execute :: "string \<Rightarrow> agent_state \<Rightarrow> agent_state" where
  "simulated_execute prompt s =
     (let i = current_step_index s;
          steps = update_step i (\<lambda>st. st\<lparr>ps_status := COMPLETED,
                                        ps_result := Some (''Executed: '' @ ps_description st)\<rparr>)
                    (plan_steps s)
      in s\<lparr>phase := P_REFLECT, messages := messages s @ [HumanMessage prompt],
           current_step_index := i + 1, iteration_count := iteration_count s + 1,
           plan_steps := steps, completed_steps := completed_steps s @ [steps ! nat i]\<rparr>)"

record execute_env =
  ex_key :: "string \<Rightarrow> string"
  ex_writes :: bool
  ex_label :: string
  ex_nudge :: string
  ex_memo_prompt :: string
  ex_sim_prompt :: string
  ex_turns :: "llm_turn option list option"

definition execute_node :: "agent_settings \<Rightarrow> execute_env \<Rightarrow> agent_state \<Rightarrow> agent_state" where
  "execute_node cfg env s =
     (let i = current_step_index s in
      if plan_steps s = [] \<or> i \<ge> int (length (plan_steps s)) then
        s\<lparr>phase := P_REFLECT, iteration_count := iteration_count s + 1\<rparr>
      else
        let key = ex_key env (ps_description (plan_steps s ! nat i)) in
        case (if step_memoization_enabled cfg then map_of (step_outputs s) key else None) of
          Some cached \<Rightarrow>
            (let steps = update_step i (\<lambda>st. st\<lparr>ps_status := COMPLETED, ps_result := Some cached\<rparr>)
                           (plan_steps s)
             in s\<lparr>phase := P_REFLECT, messages := messages s @ [HumanMessage (ex_memo_prompt env)],
                  current_step_index := i + 1, iteration_count := iteration_count s + 1,
                  plan_steps := steps, completed_steps := completed_steps s @ [steps ! nat i]\<rparr>)
        | None \<Rightarrow>
            (let s = s\<lparr>plan_steps := update_step i (\<lambda>st. st\<lparr>ps_status := ACTIVE\<rparr>) (plan_steps s)\<rparr>
             in case (case ex_turns env of
                        None \<Rightarrow> None
                      | Some turns \<Rightarrow> llm_execute cfg (ex_key env) (ex_writes env) (ex_label env)
                                        (ex_nudge env) turns s) of
                  Some s' \<Rightarrow> s'
                | None \<Rightarrow> simulated_execute (ex_sim_prompt env) s))"

section \<open>Creating capabilities\<close>

text \<open>The cadence gate of the mid-run cap enforcement.\<close>

definition should_enforce_caps_now :: "agent_settings \<Rightarrow> int \<Rightarrow> int \<Rightarrow> bool" where
  "should_enforce_caps_now cfg current_iter last_enforced_iter =
     (if \<not> mid_run_cap_enforce_enabled cfg then False
      else
        let interval = max 1 (if mid_run_cap_enforce_interval cfg \<noteq> 0
                              then mid_run_cap_enforce_interval cfg else 1)
        in current_iter - last_enforced_iter \<ge> interval)"

definition maybe_enforce_caps_mid_run :: "agent_settings \<Rightarrow> int \<Rightarrow> int \<Rightarrow> bool \<Rightarrow> int option" where
  "maybe_enforce_caps_mid_run cfg current_iter last_enforced_iter fire =
     (if \<not> fire \<or> \<not> should_enforce_caps_now cfg current_iter last_enforced_iter then None
      else Some current_iter)"

text \<open>The stamp of a round that created something (\<open>progress\<close>) or was blocked by a cap.\<close>

definition stamp_cap_round :: "agent_settings \<Rightarrow> bool \<Rightarrow> bool \<Rightarrow> agent_state \<Rightarrow> agent_state" where
  "stamp_cap_round cfg progress blocked s =
     s\<lparr>cap_blocked := blocked,
       consecutive_cap_blocks :=
         (if progress then 0
          else if blocked then consecutive_cap_blocks s + 1 else consecutive_cap_blocks s),
       mid_run_cap_last_enforced_iter :=
         (case maybe_enforce_caps_mid_run cfg (iteration_count s)
                 (mid_run_cap_last_enforced_iter s) (progress \<or> blocked) of
            Some n \<Rightarrow> n | None \<Rightarrow> mid_run_cap_last_enforced_iter s)\<rparr>"

text \<open>
  \<open>create i g\<close> answers for the \<open>i\<close>-th gap: the created tool, or \<open>None\<close> on failure.
  \<open>available\<close> says that a gateway and a registry were injected, \<open>generated\<close> is the
  registry's \<open>generated_count\<close> after the round.
\<close>

definition tool_create_node ::
  "agent_settings \<Rightarrow> bool \<Rightarrow> (nat \<Rightarrow> string \<Rightarrow> (string \<times> json) list option) \<Rightarrow> int \<Rightarrow> agent_state
    \<Rightarrow> agent_state" where
  "tool_create_node cfg available create generated s =
     (let gaps = filter (\<lambda>g. g \<notin> set (attempted_tool_gaps s)) (pending_tool_gaps s) in
      if gaps = [] \<or> \<not> available then s\<lparr>phase := P_EXECUTE, pending_tool_gaps := []\<rparr>
      else
        let created = List.map_filter (\<lambda>(i, g). create i g) (enumerate 0 gaps);
            blocked = (created = [] \<and> gaps \<noteq> [] \<and> generated \<ge> max_active_tools cfg)
        in (stamp_cap_round cfg (created \<noteq> []) blocked s)
             \<lparr>phase := (if created \<noteq> [] then P_PLAN else P_EXECUTE),
              pending_tool_gaps := [],
              attempted_tool_gaps := attempted_tool_gaps s @ gaps,
              tools_created := tools_created s @ created\<rparr>)"

definition gap_to_tool_gap :: "string \<Rightarrow> string" where
  "gap_to_tool_gap g = ''tool to handle subtask: '' @ g"

text \<open>
  The spawn loop.  \<open>spawn k g\<close> answers for gap \<open>g\<close> when \<open>k\<close> agents have been spawned in
  this round; \<open>population\<close> is the number of active agents before the round and every
  spawned agent is active.  At a cap the gaps from the first occurrence of the current
  one on are converted, and replace what failed spawns had converted so far.  The result
  is (spawned agents, converted gaps, attempted gaps, cap blocked).
\<close>

fun spawn_loop ::
  "agent_settings \<Rightarrow> (nat \<Rightarrow> string \<Rightarrow> (string \<times> json) list option) \<Rightarrow> int \<Rightarrow> string list \<Rightarrow> int
    \<Rightarrow> string list \<Rightarrow> (string \<times> json) list list \<Rightarrow> string list \<Rightarrow> string list
    \<Rightarrow> (string \<times> json) list list \<times> string list \<times> string list \<times> bool" where
  "spawn_loop cfg spawn population all created [] spawned converted attempted =
     (spawned, converted, attempted, False)"
| "spawn_loop cfg spawn population all created (g # gs) spawned converted attempted =
     (if created \<ge> max_sub_agents_per_run cfg \<or>
         population + int (length spawned) \<ge> max_active_sub_agents cfg
      then (spawned, map gap_to_tool_gap (dropWhile (\<lambda>x. x \<noteq> g) all), attempted, True)
      else case spawn (length spawned) g of
        Some a \<Rightarrow> spawn_loop cfg spawn population all (created + 1) gs (spawned @ [a]) converted
                    (attempted @ [g])
      | None \<Rightarrow> spawn_loop cfg spawn population all created gs spawned
                  (converted @ [gap_to_tool_gap g]) (attempted @ [g]))"

definition agent_spawn_node ::
  "agent_settings \<Rightarrow> bool \<Rightarrow> (nat \<Rightarrow> string \<Rightarrow> (string \<times> json) list option) \<Rightarrow> int \<Rightarrow> agent_state
    \<Rightarrow> agent_state" where
  "agent_spawn_node cfg available spawn population s =
     (if pending_agent_gaps s = [] \<or> \<not> available
      then s\<lparr>phase := P_EXECUTE, pending_agent_gaps := []\<rparr>
      else
        let (spawned, converted, attempted, blocked) =
              spawn_loop cfg spawn population (pending_agent_gaps s)
                (int (length (sub_agents_spawned s))) (pending_agent_gaps s) [] [] []
        in (stamp_cap_round cfg (spawned \<noteq> []) blocked s)
             \<lparr>phase := (if spawned \<noteq> [] then P_DELEGATE else P_EXECUTE),
              pending_agent_gaps := [],
              attempted_agent_gaps := attempted_agent_gaps s @ attempted,
              sub_agents_spawned := sub_agents_spawned s @ spawned,
              pending_tool_gaps := (if converted \<noteq> [] then converted else pending_tool_gaps s)\<rparr>)"

section \<open>Errors and the human gate\<close>

definition error_handler_node :: "agent_settings \<Rightarrow> agent_state \<Rightarrow> agent_state" where
  "error_handler_node cfg s =
     (if errors s = [] then s\<lparr>phase := P_VERIFY\<rparr>
      else
        let last_error = last (errors s); error_lower = py_lower last_error;
            cap = effective_max_iterations cfg s
        in if py_in ''budget'' error_lower then
             s\<lparr>phase := P_HITL_GATE,
               final_output := ''Budget exhausted: '' @ take 200 last_error\<rparr>
           else if iteration_count s \<ge> cap then
             s\<lparr>phase := P_COMPLETE, is_complete := Some True,
               final_output := ''Task aborted after '' @ py_str cap @ '' iterations: '' @
                                 take 200 last_error\<rparr>
           else if any_in [''auth'', ''401'', ''403'', ''api key''] error_lower then
             s\<lparr>phase := P_CLASSIFY\<rparr>
           else if any_in [''rate'', ''429'', ''throttl''] error_lower then
             s\<lparr>phase := P_EXECUTE\<rparr>
           else s\<lparr>phase := P_EXECUTE\<rparr>)"

text \<open>
  The answer to the interrupt: \<open>Approval b fb\<close> for a dictionary with that verdict and
  feedback (any other value has no feedback), \<open>No_interrupt\<close> when interrupts are not
  available and the gate approves by itself.
\<close>

datatype human_response = Approval bool string | No_interrupt

definition py_bool_str :: "bool \<Rightarrow> string" where
  "py_bool_str b = (if b then ''True'' else ''False'')"

definition review_message :: "string \<Rightarrow> string \<Rightarrow> string \<Rightarrow> string \<Rightarrow> bool \<Rightarrow> message" where
  "review_message goal_txt decision output feedback finished =
     HumanMessage (py_join newline
       ([''[HITL REVIEW]'', ''goal: '' @ goal_txt, ''decision: '' @ decision,
         ''is_complete: '' @ py_bool_str finished] @
        (if feedback \<noteq> [] then [''feedback: '' @ feedback] else []) @
        [''output:'', (if output \<noteq> [] then take 4000 output else ''(no output yet)'')]))"

definition hitl_gate_node :: "human_response \<Rightarrow> agent_state \<Rightarrow> agent_state" where
  "hitl_gate_node resp s =
     (let goal_txt = (case current_goal s of Some g \<Rightarrow> g_text g | None \<Rightarrow> ''Unknown task'');
          output = final_output s;
          finished = (case is_complete s of Some b \<Rightarrow> b | None \<Rightarrow> False);
          approve = (\<lambda>decision fb.
            s\<lparr>phase := P_COMPLETE, is_complete := Some True,
              final_output := (if output \<noteq> [] then output else ''Completed: '' @ goal_txt),
              messages := messages s @ [review_message goal_txt decision output fb finished]\<rparr>)
      in case resp of
           Approval True fb \<Rightarrow> approve ''APPROVED'' fb
         | Approval False fb \<Rightarrow>
             s\<lparr>phase := P_EXECUTE, is_complete := Some False,
               errors := errors s @ [if fb \<noteq> [] then ''Human rejected: '' @ fb
                                     else ''Human rejected the result''],
               messages := messages s @ [review_message goal_txt ''REJECTED'' output fb finished]\<rparr>
         | No_interrupt \<Rightarrow> approve ''AUTO-APPROVED'' [])"

section \<open>What the nodes leave alone\<close>

lemma length_update_step [simp]: "length (update_step i f xs) = length xs"
  by (simp add: update_step_def)

lemma nth_update_step [simp]:
  "j < length xs \<Longrightarrow> update_step i f xs ! j = (if j = nat i then f (xs ! j) else xs ! j)"
  by (auto simp: update_step_def)

lemmas execute_defs = execute_node_def llm_execute_def simulated_execute_def Let_def

lemma execute_node_frame [simp]:
  "iteration_count (execute_node cfg env s) = iteration_count s + 1"
  "max_iterations (execute_node cfg env s) = max_iterations s"
  "current_goal (execute_node cfg env s) = current_goal s"
  "errors (execute_node cfg env s) = errors s"
  "verify_cycle (execute_node cfg env s) = verify_cycle s"
  "is_complete (execute_node cfg env s) = is_complete s"
  "pending_tool_gaps (execute_node cfg env s) = pending_tool_gaps s"
  "pending_agent_gaps (execute_node cfg env s) = pending_agent_gaps s"
  "structure_analysis_done (execute_node cfg env s) = structure_analysis_done s"
  "length (plan_steps (execute_node cfg env s)) = length (plan_steps s)"
  by (simp_all add: execute_defs split: option.split exec_result.split)

lemma classify_node_frame [simp]:
  "iteration_count (classify_node llm now s) = iteration_count s"
  "max_iterations (classify_node llm now s) = max_iterations s"
  "verify_cycle (classify_node llm now s) = verify_cycle s"
  "is_complete (classify_node llm now s) = is_complete s"
  "pending_tool_gaps (classify_node llm now s) = pending_tool_gaps s"
  "pending_agent_gaps (classify_node llm now s) = pending_agent_gaps s"
  "structure_analysis_done (classify_node llm now s) = structure_analysis_done s"
  by (simp_all add: classify_node_def Let_def split: option.split prod.split)

lemma plan_node_frame [simp]:
  "max_iterations (plan_node fresh cfg steps s) = max_iterations s"
  "current_goal (plan_node fresh cfg steps s) = current_goal s"
  "verify_cycle (plan_node fresh cfg steps s) = verify_cycle s"
  "is_complete (plan_node fresh cfg steps s) = is_complete s"
  "pending_tool_gaps (plan_node fresh cfg steps s) = pending_tool_gaps s"
  "pending_agent_gaps (plan_node fresh cfg steps s) = pending_agent_gaps s"
  "structure_analysis_done (plan_node fresh cfg steps s) = structure_analysis_done s"
  by (simp_all add: plan_node_def Let_def)

lemma stamp_cap_round_frame [simp]:
  "iteration_count (stamp_cap_round cfg p b s) = iteration_count s"
  "max_iterations (stamp_cap_round cfg p b s) = max_iterations s"
  "current_goal (stamp_cap_round cfg p b s) = current_goal s"
  "errors (stamp_cap_round cfg p b s) = errors s"
  "verify_cycle (stamp_cap_round cfg p b s) = verify_cycle s"
  "is_complete (stamp_cap_round cfg p b s) = is_complete s"
  "pending_agent_gaps (stamp_cap_round cfg p b s) = pending_agent_gaps s"
  "structure_analysis_done (stamp_cap_round cfg p b s) = structure_analysis_done s"
  by (simp_all add: stamp_cap_round_def)

lemma tool_create_node_frame [simp]:
  "iteration_count (tool_create_node cfg av cr n s) = iteration_count s"
  "max_iterations (tool_create_node cfg av cr n s) = max_iterations s"
  "current_goal (tool_create_node cfg av cr n s) = current_goal s"
  "errors (tool_create_node cfg av cr n s) = errors s"
  "verify_cycle (tool_create_node cfg av cr n s) = verify_cycle s"
  "is_complete (tool_create_node cfg av cr n s) = is_complete s"
  "pending_tool_gaps (tool_create_node cfg av cr n s) = []"
  "pending_agent_gaps (tool_create_node cfg av cr n s) = pending_agent_gaps s"
  "structure_analysis_done (tool_create_node cfg av cr n s) = structure_analysis_done s"
  by (simp_all add: tool_create_node_def Let_def)

lemma agent_spawn_node_frame [simp]:
  "iteration_count (agent_spawn_node cfg av sp n s) = iteration_count s"
  "max_iterations (agent_spawn_node cfg av sp n s) = max_iterations s"
  "current_goal (agent_spawn_node cfg av sp n s) = current_goal s"
  "errors (agent_spawn_node cfg av sp n s) = errors s"
  "verify_cycle (agent_spawn_node cfg av sp n s) = verify_cycle s"
  "is_complete (agent_spawn_node cfg av sp n s) = is_complete s"
  "pending_agent_gaps (agent_spawn_node cfg av sp n s) = []"
  "structure_analysis_done (agent_spawn_node cfg av sp n s) = structure_analysis_done s"
  by (simp_all add: agent_spawn_node_def Let_def split: prod.split)

lemma error_handler_node_frame [simp]:
  "iteration_count (error_handler_node cfg s) = iteration_count s"
  "max_iterations (error_handler_node cfg s) = max_iterations s"
  "current_goal (error_handler_node cfg s) = current_goal s"
  "errors (error_handler_node cfg s) = errors s"
  "verify_cycle (error_handler_node cfg s) = verify_cycle s"
  "pending_tool_gaps (error_handler_node cfg s) = pending_tool_gaps s"
  "pending_agent_gaps (error_handler_node cfg s) = pending_agent_gaps s"
  "structure_analysis_done (error_handler_node cfg s) = structure_analysis_done s"
  by (simp_all add: error_handler_node_def Let_def)

lemma hitl_gate_node_frame [simp]:
  "iteration_count (hitl_gate_node resp s) = iteration_count s"
  "max_iterations (hitl_gate_node resp s) = max_iterations s"
  "current_goal (hitl_gate_node resp s) = current_goal s"
  "verify_cycle (hitl_gate_node resp s) = verify_cycle s"
  "pending_tool_gaps (hitl_gate_node resp s) = pending_tool_gaps s"
  "pending_agent_gaps (hitl_gate_node resp s) = pending_agent_gaps s"
  "structure_analysis_done (hitl_gate_node resp s) = structure_analysis_done s"
  by (simp_all add: hitl_gate_node_def Let_def split: human_response.split bool.split)

section \<open>Properties\<close>

text \<open>
  Fact (functional): one execute pass costs exactly one iteration and is honest about progress:
  either nothing advances, or the index moves by one step and that step, marked COMPLETED,
  is the one appended to the completed list.  A pass in which a tool call failed never
  advances, so a hallucinated tool cannot complete a step.
\<close>

theorem execute_node_progress:
  assumes "0 \<le> current_step_index s"
  shows "let s' = execute_node cfg env s; i = current_step_index s in
     iteration_count s' = iteration_count s + 1 \<and> errors s' = errors s \<and>
     length (plan_steps s') = length (plan_steps s) \<and>
     ((current_step_index s' = i \<and> completed_steps s' = completed_steps s) \<or>
      (current_step_index s' = i + 1 \<and> i < int (length (plan_steps s)) \<and>
       completed_steps s' = completed_steps s @ [plan_steps s' ! nat i] \<and>
       ps_status (plan_steps s' ! nat i) = COMPLETED \<and>
       list_all tr_success (drop (length (tool_results s)) (tool_results s'))))"
proof -
  have loop: "list_all tr_success (turn_tool_results t)"
    if "attempt_loop n w l ng turns th = Some (Exec_done th' t)" for n w l ng turns th th' t
    using that
    by (induction n w l ng turns th rule: attempt_loop.induct)
       (auto simp: Let_def list_ex_iff list_all_iff split: if_splits)
  show ?thesis
    using assms loop
    by (auto simp: execute_defs nat_less_iff split: option.splits exec_result.splits)
qed

text \<open>
  Fact (bounds): a plan always fits its budget.  With a goal text and a non-empty proposal the
  new plan has between one and \<open>plan_budget\<close> steps, starts at step 0 and costs one
  iteration, also when coarse steps were split; the budget itself is at least one, at most
  the planning maximum, and at most what a pinned cap leaves.
\<close>

theorem plan_node_fits_budget:
  assumes "settings_ok cfg" "current_goal s = Some g" "g_text g \<noteq> []" "proposed \<noteq> []"
  shows "let s' = plan_node fresh cfg proposed s; b = plan_budget cfg s in
     1 \<le> length (plan_steps s') \<and> int (length (plan_steps s')) \<le> b \<and>
     1 \<le> b \<and> b \<le> planning_max_steps cfg \<and>
     (\<forall>n. max_iterations s = Some n \<and> iteration_count s < n \<and> 0 < n \<longrightarrow> iteration_count s + b \<le> n) \<and>
     current_step_index s' = 0 \<and> iteration_count s' = iteration_count s + 1"
proof -
  have b: "1 \<le> plan_budget cfg s" "plan_budget cfg s \<le> planning_max_steps cfg"
    using assms(1) by (auto simp: plan_budget_def settings_ok_def Let_def)
  have pin: "\<forall>n. max_iterations s = Some n \<and> iteration_count s < n \<and> 0 < n \<longrightarrow>
               iteration_count s + plan_budget cfg s \<le> n"
    by (auto simp: plan_budget_def Let_def)
  have take: "1 \<le> length (py_take n xs) \<and> int (length (py_take n xs)) \<le> n"
    if "1 \<le> n" "xs \<noteq> []" for n and xs :: "plan_step list"
    using that by (cases xs) (auto simp: py_take_def)
  let ?st = "if int (length proposed) > plan_budget cfg s then py_take (plan_budget cfg s) proposed
             else proposed"
  have st: "1 \<le> length ?st \<and> int (length ?st) \<le> plan_budget cfg s"
    using take [OF b(1) assms(4)] assms(4) by (auto simp: Suc_le_eq)
  have ref: "refine_plan fresh ?st \<noteq> []" 
  proof -
    obtain x xs where x: "?st = x # xs" using st by (cases ?st) auto
    have "split_coarse_step fresh x \<noteq> []"
      by (auto simp: split_coarse_step_def Let_def enumerate_eq_zip)
    then show ?thesis unfolding x by (auto simp: refine_plan_def split: option.split)
  qed
  show ?thesis
    using st take [OF b(1) ref] b pin assms(2,3) by (simp add: plan_node_def Let_def)
qed

definition demo_goal :: goal where
  "demo_goal = new_goal ''g1'' ''list the files'' 0"

theorem plan_node_fits_budget_witness:
  "let s = empty_state\<lparr>current_goal := Some demo_goal, max_iterations := Some 5, iteration_count := 3\<rparr>;
       s' = plan_node (\<lambda>i n. i) default_settings [new_step ''a'' ''x'', new_step ''b'' ''y''] s;
       b = plan_budget default_settings s in
     1 \<le> length (plan_steps s') \<and> int (length (plan_steps s')) \<le> b \<and>
     1 \<le> b \<and> b \<le> planning_max_steps default_settings \<and> iteration_count s + b \<le> 5 \<and>
     current_step_index s' = 0 \<and> iteration_count s' = iteration_count s + 1"
  using plan_node_fits_budget [of default_settings
      "empty_state\<lparr>current_goal := Some demo_goal, max_iterations := Some 5, iteration_count := 3\<rparr>"
      demo_goal "[new_step ''a'' ''x'', new_step ''b'' ''y'']" "\<lambda>i n. i"]
  by (simp add: settings_ok_def default_settings_def demo_goal_def new_goal_def Let_def)

definition demo_exec_env :: execute_env where
  "demo_exec_env =
     \<lparr>ex_key = (\<lambda>x. x), ex_writes = False, ex_label = ''step'', ex_nudge = ''nudge'',
      ex_memo_prompt = ''memo'', ex_sim_prompt = ''sim'',
      ex_turns = Some [Some \<lparr>turn_content = Some ''done'', turn_calls = [], turn_results = [],
                            turn_on_disk = False\<rparr>]\<rparr>"

theorem execute_node_progress_witness:
  "let s = empty_state\<lparr>plan_steps := [new_step ''a'' ''x'']\<rparr>;
       s' = execute_node default_settings demo_exec_env s; i = current_step_index s in
     iteration_count s' = iteration_count s + 1 \<and> errors s' = errors s \<and>
     length (plan_steps s') = length (plan_steps s) \<and>
     ((current_step_index s' = i \<and> completed_steps s' = completed_steps s) \<or>
      (current_step_index s' = i + 1 \<and> i < int (length (plan_steps s)) \<and>
       completed_steps s' = completed_steps s @ [plan_steps s' ! nat i] \<and>
       ps_status (plan_steps s' ! nat i) = COMPLETED \<and>
       list_all tr_success (drop (length (tool_results s)) (tool_results s'))))"
  using execute_node_progress [of "empty_state\<lparr>plan_steps := [new_step ''a'' ''x'']\<rparr>"
      default_settings demo_exec_env]
  by (simp add: empty_state_def)

text \<open>
  Fact (error): plans overshoot the complexity cap.  A run without a pinned cap is stopped by
  the cap of its complexity tier, but the plan is sized against the flat
  \<open>agent.max_iterations\<close>: with the default settings a fresh TRIVIAL goal (cap 12) or SIMPLE
  goal (cap 15) may get a plan of 30 steps, which the cap can never let finish.
\<close>

theorem plan_overshoots_tier_cap:
  assumes "max_iterations s = None" "goal_complexity s \<in> {TRIVIAL, SIMPLE}"
    and "0 \<le> iteration_count s" "iteration_count s \<le> 30"
  shows "plan_budget default_settings s = 30 \<and>
         effective_max_iterations default_settings s \<le> 15 \<and>
         effective_max_iterations default_settings s <
           iteration_count s + plan_budget default_settings s"
  using assms by (auto simp: plan_budget_def effective_max_iterations_def default_settings_def Let_def)

theorem plan_overshoots_tier_cap_witness:
  "plan_budget default_settings empty_state = 30 \<and>
   effective_max_iterations default_settings empty_state \<le> 15 \<and>
   effective_max_iterations default_settings empty_state <
     iteration_count empty_state + plan_budget default_settings empty_state"
  by (rule plan_overshoots_tier_cap) (simp_all add: empty_state_def goal_complexity_def)

subsection \<open>Spawning\<close>

text \<open>Where the gaps of a spawn round went.\<close>

lemma spawn_loop_counts:
  assumes "spawn_loop cfg spawn pop all created gs sp conv att = (sp', conv', att', blocked)"
  shows "\<exists>done' rest. gs = done' @ rest \<and> att' = att @ done' \<and> (blocked \<longleftrightarrow> rest \<noteq> []) \<and>
     (\<not> blocked \<longrightarrow> length sp' + length conv' = length sp + length conv + length gs \<and>
        set conv \<subseteq> set conv') \<and>
     (blocked \<longrightarrow> conv' = map gap_to_tool_gap (dropWhile (\<lambda>x. x \<noteq> hd rest) all)) \<and>
     created + int (length sp') - int (length sp) \<le> max created (max_sub_agents_per_run cfg) \<and>
     pop + int (length sp') \<le> max (pop + int (length sp)) (max_active_sub_agents cfg)"
  using assms
proof (induction cfg spawn pop all created gs sp conv att rule: spawn_loop.induct)
  case (1 cfg spawn pop all created sp conv att)
  then show ?case by auto
next
  case (2 cfg spawn pop all created g gs sp conv att)
  show ?case
  proof (cases "created \<ge> max_sub_agents_per_run cfg \<or> pop + int (length sp) \<ge> max_active_sub_agents cfg")
    case True
    with "2.prems" show ?thesis by (intro exI [of _ "[]"] exI [of _ "g # gs"]) auto
  next
    case capped: False
    show ?thesis
    proof (cases "spawn (length sp) g")
      case None
      from "2.IH"(1) [OF capped None] "2.prems" capped None obtain d r where
        "gs = d @ r" "att' = (att @ [g]) @ d" "blocked \<longleftrightarrow> r \<noteq> []"
        and rest: "\<not> blocked \<longrightarrow> length sp' + length conv' = length sp + length (conv @ [gap_to_tool_gap g]) + length gs
             \<and> set (conv @ [gap_to_tool_gap g]) \<subseteq> set conv'"
          "blocked \<longrightarrow> conv' = map gap_to_tool_gap (dropWhile (\<lambda>x. x \<noteq> hd r) all)"
          "created + int (length sp') - int (length sp) \<le> max created (max_sub_agents_per_run cfg)"
          "pop + int (length sp') \<le> max (pop + int (length sp)) (max_active_sub_agents cfg)"
        by auto
      then show ?thesis by (intro exI [of _ "g # d"] exI [of _ r]) auto
    next
      case (Some a)
      from "2.IH"(2) [OF capped Some] "2.prems" capped Some obtain d r where
        "gs = d @ r" "att' = (att @ [g]) @ d" "blocked \<longleftrightarrow> r \<noteq> []"
        and rest: "\<not> blocked \<longrightarrow> length sp' + length conv' = length (sp @ [a]) + length conv + length gs
             \<and> set conv \<subseteq> set conv'"
          "blocked \<longrightarrow> conv' = map gap_to_tool_gap (dropWhile (\<lambda>x. x \<noteq> hd r) all)"
          "created + 1 + int (length sp') - int (length (sp @ [a])) \<le> max (created + 1) (max_sub_agents_per_run cfg)"
          "pop + int (length sp') \<le> max (pop + int (length (sp @ [a]))) (max_active_sub_agents cfg)"
        by auto
      then show ?thesis using capped by (intro exI [of _ "g # d"] exI [of _ r]) auto
    qed
  qed
qed

text \<open>
  Fact (bounds): a spawn round never exceeds either cap (agents per run, active population)
  unless it was exceeded before, clears the pending agent gaps, and leaves no gap behind when
  no cap was hit: every pending gap was attempted and became an agent or a tool gap.
\<close>

theorem agent_spawn_respects_caps:
  assumes "pending_agent_gaps s \<noteq> []"
  shows "let s' = agent_spawn_node cfg True spawn pop s;
             new = int (length (sub_agents_spawned s')) - int (length (sub_agents_spawned s)) in
     pending_agent_gaps s' = [] \<and>
     int (length (sub_agents_spawned s')) \<le>
       max (int (length (sub_agents_spawned s))) (max_sub_agents_per_run cfg) \<and>
     pop + new \<le> max pop (max_active_sub_agents cfg) \<and>
     (\<not> cap_blocked s' \<longrightarrow>
        attempted_agent_gaps s' = attempted_agent_gaps s @ pending_agent_gaps s \<and>
        (new = int (length (pending_agent_gaps s)) \<or>
         int (length (pending_tool_gaps s')) = int (length (pending_agent_gaps s)) - new))"
proof -
  let ?n = "int (length (sub_agents_spawned s))"
  obtain sp conv att bl where
    loop: "spawn_loop cfg spawn pop (pending_agent_gaps s) ?n (pending_agent_gaps s) [] [] [] = (sp, conv, att, bl)"
    by (metis prod_cases4)
  from spawn_loop_counts [OF loop] obtain d r where
    "pending_agent_gaps s = d @ r" "att = d" "bl \<longleftrightarrow> r \<noteq> []"
    "\<not> bl \<longrightarrow> length sp + length conv = length (pending_agent_gaps s)"
    "?n + int (length sp) \<le> max ?n (max_sub_agents_per_run cfg)"
    "pop + int (length sp) \<le> max pop (max_active_sub_agents cfg)" by auto
  then show ?thesis
    using assms loop
    by (cases "conv = []") (auto simp: agent_spawn_node_def stamp_cap_round_def Let_def)
qed

theorem agent_spawn_respects_caps_witness:
  "let s = empty_state\<lparr>pending_agent_gaps := [''a'', ''b'']\<rparr>;
       s' = agent_spawn_node default_settings True (\<lambda>k g. if g = ''a'' then None else Some []) 59 s;
       new = int (length (sub_agents_spawned s')) - int (length (sub_agents_spawned s)) in
     pending_agent_gaps s' = [] \<and>
     int (length (sub_agents_spawned s')) \<le>
       max (int (length (sub_agents_spawned s))) (max_sub_agents_per_run default_settings) \<and>
     59 + new \<le> max 59 (max_active_sub_agents default_settings)"
  using agent_spawn_respects_caps [of "empty_state\<lparr>pending_agent_gaps := [''a'', ''b'']\<rparr>"
      default_settings "\<lambda>k g. if g = ''a'' then None else Some []" 59]
  by (simp add: Let_def)

text \<open>
  Fact (error): hitting a cap forgets earlier failures of the round.  If spawning for the first
  gap fails and a later one is spawned before the per-run cap is reached, the conversion at
  the cap overwrites the tool gap that stood for the failed gap: it is neither spawned nor
  pending as a tool gap, and being recorded as attempted it is never detected again.
\<close>

theorem spawn_cap_forgets_failed_gap:
  assumes "a \<noteq> b" "b \<noteq> c" "a \<noteq> c" "spawn 0 a = None" "spawn 0 b = Some agent"
    and "max_sub_agents_per_run cfg = 1" "0 \<le> pop" "pop + 1 < max_active_sub_agents cfg"
    and "pending_agent_gaps s = [a, b, c]" "sub_agents_spawned s = []"
  shows "let s' = agent_spawn_node cfg True spawn pop s in
     sub_agents_spawned s' = [agent] \<and> pending_tool_gaps s' = [gap_to_tool_gap c] \<and>
     gap_to_tool_gap a \<notin> set (pending_tool_gaps s') \<and> a \<in> set (attempted_agent_gaps s') \<and>
     pending_agent_gaps s' = []"
  using assms by (simp add: agent_spawn_node_def stamp_cap_round_def gap_to_tool_gap_def Let_def)

theorem spawn_cap_forgets_failed_gap_witness:
  "let s = empty_state\<lparr>pending_agent_gaps := [''a'', ''b'', ''c'']\<rparr>;
       s' = agent_spawn_node (default_settings\<lparr>max_sub_agents_per_run := 1\<rparr>) True
              (\<lambda>k g. if g = ''a'' then None else Some []) 0 s in
     sub_agents_spawned s' = [[]] \<and> pending_tool_gaps s' = [gap_to_tool_gap ''c''] \<and>
     gap_to_tool_gap ''a'' \<notin> set (pending_tool_gaps s') \<and> ''a'' \<in> set (attempted_agent_gaps s') \<and>
     pending_agent_gaps s' = []"
  using spawn_cap_forgets_failed_gap [of "''a''" "''b''" "''c''" "\<lambda>k g. if g = ''a'' then None else Some []"
      "[]" "default_settings\<lparr>max_sub_agents_per_run := 1\<rparr>" 0
      "empty_state\<lparr>pending_agent_gaps := [''a'', ''b'', ''c'']\<rparr>"]
  by (simp add: default_settings_def empty_state_def)

text \<open>
  Fact (functional): the cadence gate fires exactly when it is enabled and an interval (at
  least one) has passed since the last enforcement; since an unset stamp is iteration 0, and
  contrary to its documentation, the first creation round does not fire before iteration
  \<open>interval\<close>.
\<close>

theorem cadence_gate_first_round:
  "should_enforce_caps_now cfg n prev \<longleftrightarrow>
     mid_run_cap_enforce_enabled cfg \<and>
     prev + (if 1 \<le> mid_run_cap_enforce_interval cfg then mid_run_cap_enforce_interval cfg else 1) \<le> n"
  by (auto simp: should_enforce_caps_now_def Let_def)

end
