(* ===== verification/Routers.thy ===== *)
theory Routers
  imports Graph_State
begin

text \<open>
  The conditional-edge routers of \<open>src/src/graph/routers.py\<close>, with the LATS engage
  guard of \<open>src/src/graph/search/lats.py\<close> and the evolution grounding of
  \<open>src/src/graph/nodes/reflect.py\<close>.  A router returns the string the code returns; the
  path maps that turn it into a node are in theory \<open>Task_Graph\<close>.

  \<open>get_settings()\<close> is the argument \<open>cfg\<close>; its \<open>except\<close> branches (a settings object
  that cannot be read) have no counterpart.  Grounding asks whether the goal names a
  deliverable and whether that file exists: the regular-expression extractor and the
  file system are the arguments \<open>extract\<close> and \<open>on_disk\<close>.
\<close>

section \<open>Guards shared by the routers\<close>

definition lats_should_engage :: "agent_settings \<Rightarrow> agent_state \<Rightarrow> bool" where
  "lats_should_engage cfg s =
     (if \<not> lats_enabled cfg then False
      else if map_option g_complexity (current_goal s) \<noteq> Some CRITICAL then False
      else if py_lower (lats_scope cfg) \<noteq> ''always'' \<and>
              confidence s \<notin> {Some LOW, Some VERY_LOW} then False
      else current_step_index s < int (length (plan_steps s)))"

definition maybe_lats :: "agent_settings \<Rightarrow> agent_state \<Rightarrow> bool \<Rightarrow> string" where
  "maybe_lats cfg s require_always_scope =
     (if require_always_scope \<and> py_lower (lats_scope cfg) \<noteq> ''always'' then ''execute''
      else if lats_should_engage cfg s then ''lats_search''
      else ''execute'')"

definition ground_should_evolve ::
  "(string \<Rightarrow> string option) \<Rightarrow> (string \<Rightarrow> bool) \<Rightarrow> bool \<Rightarrow> string \<Rightarrow> plan_step list
    \<Rightarrow> string list \<Rightarrow> confidence_level \<Rightarrow> bool" where
  "ground_should_evolve extract on_disk proposed goal_txt completed errs conf =
     (if proposed then True
      else case extract goal_txt of
        Some path \<Rightarrow> on_disk path
      | None \<Rightarrow>
          if errs \<noteq> [] then False
          else if length completed < 3 then False
          else conf \<in> {HIGH, VERY_HIGH})"

definition confidence_or_medium :: "agent_state \<Rightarrow> confidence_level" where
  "confidence_or_medium s = (case confidence s of None \<Rightarrow> MEDIUM | Some c \<Rightarrow> c)"

definition complete_flag :: "bool \<Rightarrow> agent_state \<Rightarrow> bool" where
  "complete_flag dflt s = (case is_complete s of None \<Rightarrow> dflt | Some b \<Rightarrow> b)"

section \<open>The routers\<close>

text \<open>Whether the last error makes the run non-retriable.\<close>

definition auth_abort :: "string list \<Rightarrow> bool" where
  "auth_abort errs \<longleftrightarrow>
     errs \<noteq> [] \<and> (py_in ''authentication'' (py_lower (last errs)) \<or>
                   py_in ''authorization'' (py_lower (last errs)))"

definition route_after_execute :: "agent_settings \<Rightarrow> agent_state \<Rightarrow> string" where
  "route_after_execute cfg s =
     (if auth_abort (errors s) then ''error_handler''
      else if iteration_count s \<ge> effective_max_iterations cfg s then ''reflect''
      else if tool_results s \<noteq> [] \<and> \<not> tr_success (last (tool_results s)) then ''execute''
      else if plan_steps s \<noteq> [] \<and> current_step_index s \<ge> int (length (plan_steps s))
        then ''reflect''
      else if has_remaining_steps s \<and>
              int (length (fold_history s)) < memory_folding_max_folds cfg \<and>
              length (messages s) \<ge> 10 \<and>
              iteration_count s - last_fold_iteration s \<ge> 6
        then ''reflect''
      else ''execute'')"

definition route_after_reflect :: "agent_settings \<Rightarrow> agent_state \<Rightarrow> string" where
  "route_after_reflect cfg s =
     (if iteration_count s \<ge> effective_max_iterations cfg s then ''verify''
      else if cap_loop_break_threshold cfg > 0 \<and>
              consecutive_cap_blocks s \<ge> cap_loop_break_threshold cfg then ''verify''
      else if pending_agent_gaps s \<noteq> [] \<and> sub_agents_spawned s = [] then ''agent_spawn''
      else if pending_tool_gaps s \<noteq> [] then ''tool_create''
      else case reflection s of
        None \<Rightarrow> ''verify''
      | Some r \<Rightarrow>
          if rr_should_replan r then
            let progressing = (completed_steps s \<noteq> [] \<and> errors s = []) in
            if has_remaining_steps s \<and> progressing then maybe_lats cfg s True
            else if \<not> has_remaining_steps s then ''verify''
            else ''plan''
          else if confidence_or_medium s \<in> {VERY_LOW, LOW} then
            if \<not> has_remaining_steps s then ''verify''
            else maybe_lats cfg s False
          else ''verify'')"

definition route_after_classify :: "agent_settings \<Rightarrow> agent_state \<Rightarrow> string" where
  "route_after_classify cfg s =
     (if \<not> clarifying_gate_enabled cfg then ''plan''
      else if disambiguation_done s then ''plan''
      else if ambiguity_severity s \<ge> clarifying_severity_threshold cfg \<and> ambiguity_notes s \<noteq> []
        then ''disambiguate''
      else ''plan'')"

definition route_after_retrieve_memory :: "agent_settings \<Rightarrow> agent_state \<Rightarrow> string" where
  "route_after_retrieve_memory cfg s =
     (if \<not> research_loop_enabled cfg then ''structure_analysis''
      else if research_done s then ''structure_analysis''
      else ''research'')"

definition route_after_structure_analysis :: "agent_state \<Rightarrow> string" where
  "route_after_structure_analysis s =
     (if pending_agent_gaps s \<noteq> [] \<and> sub_agents_spawned s = [] then ''agent_spawn''
      else if pending_tool_gaps s \<noteq> [] then ''tool_create''
      else ''execute'')"

text \<open>The oscillation test: the last \<open>n\<close> failure fingerprints are all the same.\<close>

definition oscillating :: "int \<Rightarrow> string list \<Rightarrow> bool" where
  "oscillating n fps \<longleftrightarrow> int (length fps) \<ge> n \<and> length (remdups (py_last n fps)) = 1"

definition route_after_verify ::
  "(string \<Rightarrow> string option) \<Rightarrow> (string \<Rightarrow> bool) \<Rightarrow> agent_settings \<Rightarrow> agent_state \<Rightarrow> string" where
  "route_after_verify extract on_disk cfg s =
     (if complete_flag False s then
        let proposed = (case reflection s of None \<Rightarrow> False | Some r \<Rightarrow> rr_should_evolve r);
            goal_txt = (case current_goal s of None \<Rightarrow> [] | Some g \<Rightarrow> g_text g);
            should_evolve = ground_should_evolve extract on_disk proposed goal_txt
                              (completed_steps s) (errors s) (confidence_or_medium s)
        in if should_evolve
           then (if no_evolution s then ''store_memory'' else ''evolve'')
           else ''store_memory''
      else if iteration_count s \<ge> effective_max_iterations cfg s then ''store_memory''
      else if verify_cycle s \<ge> verify_max_cycles cfg then ''store_memory''
      else if oscillating (verify_oscillation_repeat cfg) (recent_verify_failures s)
        then ''store_memory''
      else if \<not> has_remaining_steps s \<and>
              consecutive_stable_verifies s \<ge> convergence_stable_threshold cfg
        then ''store_memory''
      else if \<not> has_remaining_steps s then ''plan''
      else if confidence_or_medium s \<in> {VERY_LOW, LOW} then ''execute''
      else ''execute'')"

definition route_after_evolve :: "agent_state \<Rightarrow> string" where
  "route_after_evolve s =
     (if errors s \<noteq> [] \<and> py_in ''evolution'' (py_lower (last (errors s))) then ''error_handler''
      else if evolve_reexecute_offered s then ''execute''
      else ''store_memory'')"

definition route_after_store :: "agent_settings \<Rightarrow> agent_state \<Rightarrow> string" where
  "route_after_store cfg s =
     (if complete_flag False s then ''complete''
      else if iteration_count s \<ge> effective_max_iterations cfg s then ''complete''
      else ''execute'')"

definition route_after_hitl :: "agent_state \<Rightarrow> string" where
  "route_after_hitl s = (if complete_flag True s then ''complete'' else ''execute'')"

definition route_after_error :: "agent_settings \<Rightarrow> agent_state \<Rightarrow> string" where
  "route_after_error cfg s =
     (if errors s = [] then ''verify''
      else
        let last_error = py_lower (last (errors s)) in
        if py_in ''budget'' last_error then ''hitl_gate''
        else if py_in ''rate'' last_error \<or> py_in ''429'' last_error then
          (if iteration_count s < effective_max_iterations cfg s then ''execute'' else ''complete'')
        else if py_in ''auth'' last_error \<or> py_in ''401'' last_error \<or> py_in ''403'' last_error
          then ''classify''
        else if iteration_count s \<ge> effective_max_iterations cfg s then ''complete''
        else ''execute'')"

definition route_after_tool_create :: "agent_state \<Rightarrow> string" where
  "route_after_tool_create s = (if tools_created s \<noteq> [] then ''plan'' else ''execute'')"

definition route_after_agent_spawn :: "agent_state \<Rightarrow> string" where
  "route_after_agent_spawn s =
     (if sub_agents_spawned s \<noteq> [] then ''delegate''
      else if pending_tool_gaps s \<noteq> [] then ''tool_create''
      else ''plan'')"

definition route_after_delegate :: "agent_state \<Rightarrow> string" where
  "route_after_delegate s =
     (if delegation_results s = [] then ''verify''
      else if list_all (\<lambda>r. truthy (obj_get r ''success'' (JBool False))) (delegation_results s)
        then ''verify''
      else ''execute'')"

declare
  route_after_execute_def [route_simps] route_after_reflect_def [route_simps]
  route_after_classify_def [route_simps] route_after_retrieve_memory_def [route_simps]
  route_after_structure_analysis_def [route_simps] route_after_verify_def [route_simps]
  route_after_evolve_def [route_simps] route_after_store_def [route_simps]
  route_after_hitl_def [route_simps] route_after_error_def [route_simps]
  route_after_tool_create_def [route_simps] route_after_agent_spawn_def [route_simps]
  route_after_delegate_def [route_simps]

section \<open>The labels each router may return\<close>

named_theorems label_intros \<open>membership of a branching expression in a set of labels\<close>

lemma if_label [label_intros]: "x \<in> A \<Longrightarrow> y \<in> A \<Longrightarrow> (if c then x else y) \<in> A"
  by simp

lemma option_label [label_intros]:
  "x \<in> A \<Longrightarrow> (\<And>v. f v \<in> A) \<Longrightarrow> (case z of None \<Rightarrow> x | Some v \<Rightarrow> f v) \<in> A"
  by (cases z) simp_all

lemma let_label [label_intros]: "f v \<in> A \<Longrightarrow> Let v f \<in> A"
  by (simp add: Let_def)

lemma maybe_lats_label: "maybe_lats cfg s b \<in> {''execute'', ''lats_search''}"
  unfolding maybe_lats_def by (intro label_intros) simp_all

lemma maybe_lats_label' [label_intros]:
  "''execute'' \<in> A \<Longrightarrow> ''lats_search'' \<in> A \<Longrightarrow> maybe_lats cfg s b \<in> A"
  using maybe_lats_label [of cfg s b] by auto

lemma router_labels:
  "route_after_execute cfg s \<in> {''reflect'', ''execute'', ''error_handler''}"
  "route_after_reflect cfg s \<in>
     {''agent_spawn'', ''tool_create'', ''verify'', ''execute'', ''plan'', ''lats_search''}"
  "route_after_classify cfg s \<in> {''plan'', ''disambiguate''}"
  "route_after_retrieve_memory cfg s \<in> {''research'', ''structure_analysis''}"
  "route_after_structure_analysis s \<in> {''agent_spawn'', ''tool_create'', ''execute''}"
  "route_after_verify extract on_disk cfg s \<in> {''evolve'', ''store_memory'', ''execute'', ''plan''}"
  "route_after_evolve s \<in> {''store_memory'', ''error_handler'', ''execute''}"
  "route_after_store cfg s \<in> {''complete'', ''execute''}"
  "route_after_hitl s \<in> {''complete'', ''execute''}"
  "route_after_error cfg s \<in> {''execute'', ''classify'', ''hitl_gate'', ''verify'', ''complete''}"
  "route_after_tool_create s \<in> {''plan'', ''execute''}"
  "route_after_agent_spawn s \<in> {''delegate'', ''tool_create'', ''plan''}"
  "route_after_delegate s \<in> {''verify'', ''execute''}"
  unfolding route_simps by (intro label_intros; simp)+

end
