(* ===== verification/Reflect_Node.thy ===== *)
theory Reflect_Node
  imports Routers
begin

text \<open>
  The nodes around reflection: \<open>reflect\<close> with its heuristic path, gap detection and fold
  hook (\<open>src/src/graph/nodes/reflect.py\<close>), \<open>structure_analysis\<close>, the control part of
  \<open>evolve\<close>, \<open>lats_search\<close>, \<open>disambiguate\<close>, \<open>research\<close>, the memory nodes and the merge
  of \<open>delegate\<close>.  What the model, the memory folder, the evolution engine or the
  sub-agents answer is an argument.
\<close>

section \<open>Reflection\<close>

text \<open>\<open>_detect_agent_gaps_heuristic\<close>\<close>

definition multi_part_indicators :: "string list" where
  "multi_part_indicators = ['' and '', '' then '', '' also '', '' as well as '', '' combine '']"

definition detect_agent_gaps_heuristic :: "agent_state \<Rightarrow> string \<Rightarrow> plan_step list \<Rightarrow> string list" where
  "detect_agent_gaps_heuristic s goal_txt steps =
     (if sub_agents_spawned s \<noteq> [] then []
      else if attempted_agent_gaps s \<noteq> [] then []
      else
        let goal_lower = py_lower goal_txt;
            multi = length (filter (\<lambda>ind. py_in ind goal_lower) multi_part_indicators)
        in if multi \<ge> 2 \<and> length steps \<ge> 6
           then [''multi-part task with '' @ py_str (int (length steps)) @ '' steps '' @ em_dash @
                 '' specialized sub-agents for independent subtask categories'']
           else [])"

text \<open>\<open>_derive_verified_actions\<close>: tool name, calls, successes, for tools that succeeded.\<close>

fun tool_stats :: "tool_result list \<Rightarrow> (string \<times> int \<times> int) list \<Rightarrow> (string \<times> int \<times> int) list" where
  "tool_stats [] stats = stats"
| "tool_stats (tr # rest) stats =
     (if tr_tool_name tr = [] then tool_stats rest stats
      else
        let (calls, succ) = (case map_of stats (tr_tool_name tr) of None \<Rightarrow> (0, 0) | Some b \<Rightarrow> b)
        in tool_stats rest
             (AList.update (tr_tool_name tr) (calls + 1, if tr_success tr then succ + 1 else succ) stats))"

definition derive_verified_actions :: "tool_result list \<Rightarrow> (string \<times> int \<times> int) list" where
  "derive_verified_actions trs = filter (\<lambda>(name, calls, succ). succ \<ge> 1) (tool_stats trs [])"

text \<open>
  The tools that failed as unknown and that the registry really lacks (\<open>registered name\<close>;
  without a registry, \<open>has_tools\<close> false, none is), and the overuse of the code executor.
\<close>

definition unknown_tool_gaps :: "bool \<Rightarrow> (string \<Rightarrow> bool) \<Rightarrow> tool_result list \<Rightarrow> string list" where
  "unknown_tool_gaps has_tools registered trs =
     map (\<lambda>tr. ''tool matching '' @ [CHR 0x27] @ tr_tool_name tr @ [CHR 0x27] @ '' capability'')
       (filter (\<lambda>tr. (case tr_error tr of None \<Rightarrow> False
                        | Some e \<Rightarrow> e \<noteq> [] \<and> py_in ''Unknown tool'' e) \<and>
                     has_tools \<and> \<not> registered (tr_tool_name tr)) trs)"

definition code_exec_count :: "tool_result list \<Rightarrow> nat" where
  "code_exec_count trs = length (filter (\<lambda>tr. tr_tool_name tr = ''code_executor'') trs)"

definition missing_tool_gaps :: "bool \<Rightarrow> (string \<Rightarrow> bool) \<Rightarrow> tool_result list \<Rightarrow> string list" where
  "missing_tool_gaps has_tools registered trs =
     (let unknown = unknown_tool_gaps has_tools registered trs in
      if code_exec_count trs \<ge> 3 \<and> unknown = []
      then [''dedicated tool for recurring code_executor usage pattern''] else unknown)"

definition completion_ratio :: "agent_state \<Rightarrow> real" where
  "completion_ratio s =
     real (length (completed_steps s)) /
     real (if plan_steps s = [] then 1 else length (plan_steps s))"

definition heuristic_confidence :: "agent_settings \<Rightarrow> agent_state \<Rightarrow> confidence_level" where
  "heuristic_confidence cfg s =
     (if current_blocking_errors (errors s) (missing_deliverables s) \<noteq> [] then LOW
      else if completion_ratio s \<ge> reflect_completion_high cfg then HIGH
      else if completion_ratio s \<ge> reflect_completion_medium cfg then MEDIUM
      else LOW)"

definition heuristic_reflection ::
  "(string \<Rightarrow> string option) \<Rightarrow> (string \<Rightarrow> bool) \<Rightarrow> bool \<Rightarrow> (string \<Rightarrow> bool) \<Rightarrow> agent_settings
    \<Rightarrow> string \<Rightarrow> agent_state \<Rightarrow> reflection_result" where
  "heuristic_reflection extract on_disk has_tools registered cfg goal_txt s =
     (let total = (if plan_steps s = [] then 1 else length (plan_steps s));
          n = length (completed_steps s);
          ratio = completion_ratio s;
          has_errors = current_blocking_errors (errors s) (missing_deliverables s) \<noteq> [];
          conf = heuristic_confidence cfg s;
          unknown = unknown_tool_gaps has_tools registered (tool_results s);
          execs = code_exec_count (tool_results s);
          progress = py_str (int n) @ ''/'' @ py_str (int total) @ '' steps'';
          observations = (if has_errors
            then [''Error pattern: '' @ (if errors s \<noteq> [] then take 100 (last (errors s)) else ''none'')]
            else []);
          should_evolve = ground_should_evolve extract on_disk
            (ratio \<ge> reflect_completion_medium cfg \<and> conf \<in> {HIGH, VERY_HIGH} \<and> n \<ge> 3)
            goal_txt (completed_steps s) (errors s) conf
      in \<lparr>rr_summary = ''Executed '' @ progress @ '' for: '' @ take 80 goal_txt,
          rr_lessons_learned =
            (if n > 0 then [''Completed '' @ progress @ '' successfully''] else []) @
            (if has_errors then [''Encountered '' @ py_str (int (length (errors s))) @
                                 '' errors during execution''] else []) @
            (if unknown \<noteq> [] then [''Missing tool capabilities detected: '' @
                                     py_join '', '' unknown] else []) @
            (if execs \<ge> 3 \<and> unknown = [] then [''code_executor used '' @ py_str (int execs) @
               '' times '' @ em_dash @ '' consider a dedicated tool''] else []),
          rr_confidence = conf,
          rr_should_evolve = should_evolve,
          rr_should_replan = (ratio < reflect_completion_replan_floor cfg \<and> has_errors),
          rr_memory_observations = observations,
          rr_cost_efficiency = 1\<rparr>)"

text \<open>Gaps that were attempted before in this run are not asked for again.\<close>

definition fresh_gaps :: "string list \<Rightarrow> string list \<Rightarrow> string list \<Rightarrow> string list" where
  "fresh_gaps found attempted pending =
     (let new = filter (\<lambda>g. g \<notin> set attempted) found in if new \<noteq> [] then new else pending)"

definition heuristic_reflect ::
  "(string \<Rightarrow> string option) \<Rightarrow> (string \<Rightarrow> bool) \<Rightarrow> bool \<Rightarrow> (string \<Rightarrow> bool) \<Rightarrow> agent_settings
    \<Rightarrow> agent_state \<Rightarrow> agent_state" where
  "heuristic_reflect extract on_disk has_tools registered cfg s =
     (let goal_txt = (case current_goal s of Some g \<Rightarrow> g_text g | None \<Rightarrow> ''Unknown goal'');
          r = heuristic_reflection extract on_disk has_tools registered cfg goal_txt s
      in s\<lparr>phase := P_VERIFY, reflection := Some r, confidence := Some (rr_confidence r),
           memory_observations := memory_observations s @ rr_memory_observations r,
           pending_tool_gaps := fresh_gaps (missing_tool_gaps has_tools registered (tool_results s))
             (attempted_tool_gaps s) (pending_tool_gaps s),
           pending_agent_gaps := fresh_gaps (detect_agent_gaps_heuristic s goal_txt (plan_steps s))
             (attempted_agent_gaps s) (pending_agent_gaps s)\<rparr>)"

text \<open>The language model's analysis (\<open>ReflectionAnalysis\<close>), its confidence already mapped.\<close>

record reflection_analysis =
  an_progress :: string
  an_lessons :: "string list"
  an_confidence :: confidence_level
  an_should_evolve :: bool
  an_should_replan :: bool
  an_observations :: "string list"
  an_missing_tools :: "string list"
  an_missing_sub_agents :: "string list"

text \<open>
  The LLM path.  \<open>_llm_reflect\<close> puts the unattempted gaps into its update; the caller then
  merges the heuristic agent gaps (\<open>uniq\<close> is the \<open>list(set(...))\<close> of the code, whose
  order is not determined) and drops those the state already has pending.
\<close>

definition llm_reflect ::
  "(string \<Rightarrow> string option) \<Rightarrow> (string \<Rightarrow> bool) \<Rightarrow> (string list \<Rightarrow> string list) \<Rightarrow> reflection_analysis
    \<Rightarrow> agent_state \<Rightarrow> agent_state" where
  "llm_reflect extract on_disk uniq a s =
     (let goal_txt = (case current_goal s of Some g \<Rightarrow> g_text g | None \<Rightarrow> ''Unknown goal'');
          r = \<lparr>rr_summary = take 200 (an_progress a), rr_lessons_learned = an_lessons a,
               rr_confidence = an_confidence a,
               rr_should_evolve = ground_should_evolve extract on_disk (an_should_evolve a) goal_txt
                  (completed_steps s) (errors s) (an_confidence a),
               rr_should_replan = an_should_replan a,
               rr_memory_observations = an_observations a, rr_cost_efficiency = 1\<rparr>;
          llm_gaps = filter (\<lambda>g. g \<notin> set (attempted_agent_gaps s)) (an_missing_sub_agents a);
          heuristic = detect_agent_gaps_heuristic s goal_txt (plan_steps s);
          merged = filter (\<lambda>g. g \<notin> set (pending_agent_gaps s)) (uniq (llm_gaps @ heuristic));
          agent_gaps = (if heuristic \<noteq> [] \<and> merged \<noteq> [] then merged
                        else if llm_gaps \<noteq> [] then llm_gaps else pending_agent_gaps s)
      in s\<lparr>phase := P_VERIFY, reflection := Some r, confidence := Some (an_confidence a),
           memory_observations := memory_observations s @ an_observations a,
           pending_tool_gaps := fresh_gaps (an_missing_tools a) (attempted_tool_gaps s)
             (pending_tool_gaps s),
           pending_agent_gaps := agent_gaps\<rparr>)"

text \<open>
  The three ways through \<open>reflect_node\<close>: a fold happened (the folder's new thread and
  record), the model answered, or neither.
\<close>

datatype reflect_outcome =
    Folded "message list" "(string \<times> json) list"
  | Analysed reflection_analysis
  | Heuristic

record reflect_env =
  re_extract :: "string \<Rightarrow> string option"
  re_on_disk :: "string \<Rightarrow> bool"
  re_has_tools :: bool
  re_registered :: "string \<Rightarrow> bool"
  re_uniq :: "string list \<Rightarrow> string list"
  re_outcome :: reflect_outcome

definition reflect_node :: "agent_settings \<Rightarrow> reflect_env \<Rightarrow> agent_state \<Rightarrow> agent_state" where
  "reflect_node cfg env s =
     (case re_outcome env of
        Folded thread rec \<Rightarrow>
          s\<lparr>phase := P_REFLECT, messages := thread, fold_history := fold_history s @ [rec],
            last_fold_iteration := iteration_count s\<rparr>
      | Analysed a \<Rightarrow> llm_reflect (re_extract env) (re_on_disk env) (re_uniq env) a s
      | Heuristic \<Rightarrow> heuristic_reflect (re_extract env) (re_on_disk env) (re_has_tools env)
                       (re_registered env) cfg s)"

section \<open>The other nodes\<close>

text \<open>
  \<open>structure_analysis\<close>: \<open>detected\<close> is the pair of tool and agent gaps that the patterns
  and the optional model call find in a goal text.
\<close>

definition structure_analysis_node ::
  "agent_settings \<Rightarrow> (string \<Rightarrow> string list \<times> string list) \<Rightarrow> agent_state \<Rightarrow> agent_state" where
  "structure_analysis_node cfg detected s =
     (let base = s\<lparr>phase := P_STRUCTURE_ANALYSIS, structure_analysis_done := True\<rparr>;
          goal_txt = (case current_goal s of Some g \<Rightarrow> g_text g | None \<Rightarrow> []);
          (tool_gaps, agent_gaps) = detected goal_txt
      in if structure_analysis_done s \<or> \<not> structure_analysis_enabled cfg \<or> goal_txt = [] \<or>
            sub_agents_spawned s \<noteq> []
         then base
         else base\<lparr>pending_tool_gaps := (if tool_gaps \<noteq> [] then tool_gaps else pending_tool_gaps s),
                   pending_agent_gaps :=
                     (if agent_gaps \<noteq> [] then agent_gaps else pending_agent_gaps s)\<rparr>)"

text \<open>
  \<open>evolve\<close>: \<open>None\<close> when there is no gateway or the engine raised; otherwise whether the
  cycle deployed a TOOL mutation with a Python target and whether registering it succeeded.
\<close>

definition evolve_node :: "agent_settings \<Rightarrow> (bool \<times> bool) option \<Rightarrow> agent_state \<Rightarrow> agent_state" where
  "evolve_node cfg engine s =
     (case engine of
        None \<Rightarrow> s\<lparr>phase := P_STORE_MEMORY, generation := generation s + 1\<rparr>
      | Some (tool_deployed, registered) \<Rightarrow>
          let offered = (evolution_reexecute_tool cfg \<and> tool_deployed \<and>
                         \<not> evolve_reexecute_done s \<and> registered)
          in s\<lparr>phase := P_STORE_MEMORY, generation := generation s + 1,
               evolve_reexecute_offered := offered,
               evolve_reexecute_done := (offered \<or> evolve_reexecute_done s)\<rparr>)"

text \<open>\<open>lats_search\<close>: the branch the tree search prefers over the current step, if any.\<close>

definition lats_search_node :: "agent_settings \<Rightarrow> plan_step option \<Rightarrow> agent_state \<Rightarrow> agent_state" where
  "lats_search_node cfg chosen s =
     (if \<not> lats_should_engage cfg s then s
      else case chosen of
        None \<Rightarrow> s
      | Some st \<Rightarrow> s\<lparr>plan_steps := (plan_steps s)[nat (current_step_index s) := st]\<rparr>)"

definition disambiguate_node :: "agent_state \<Rightarrow> agent_state" where
  "disambiguate_node s = s\<lparr>phase := P_PLAN, disambiguation_done := True\<rparr>"

definition research_node :: "agent_state \<Rightarrow> agent_state" where
  "research_node s = s\<lparr>phase := P_RESEARCH, research_done := True\<rparr>"

definition retrieve_memory_node :: "agent_state \<Rightarrow> agent_state" where
  "retrieve_memory_node s = s\<lparr>phase := P_EXECUTE\<rparr>"

definition store_memory_node :: "agent_state \<Rightarrow> agent_state" where
  "store_memory_node s =
     s\<lparr>phase := (case is_complete s of Some True \<Rightarrow> P_COMPLETE | _ \<Rightarrow> P_HITL_GATE)\<rparr>"

text \<open>
  \<open>delegate\<close>: the results of the sub-agents (\<open>None\<close> when no gateway or registry was
  injected), their tool results, created tools and the summary message.
\<close>

record delegation =
  de_results :: "(string \<times> json) list list"
  de_tool_results :: "tool_result list"
  de_tools_created :: "(string \<times> json) list list"
  de_summary :: string

definition delegation_success :: "(string \<times> json) list \<Rightarrow> bool" where
  "delegation_success r \<longleftrightarrow> truthy (obj_get r ''success'' (JBool False))"

definition delegate_node :: "delegation option \<Rightarrow> agent_state \<Rightarrow> agent_state" where
  "delegate_node outcome s =
     (if sub_agents_spawned s = [] then s\<lparr>phase := P_EXECUTE\<rparr>
      else case outcome of
        None \<Rightarrow> s\<lparr>phase := P_EXECUTE\<rparr>
      | Some d \<Rightarrow>
          s\<lparr>phase := (if list_all delegation_success (de_results d) then P_VERIFY else P_EXECUTE),
            delegation_results := delegation_results s @ de_results d,
            tool_results := tool_results s @ de_tool_results d,
            tools_created := tools_created s @ de_tools_created d,
            messages := messages s @ [HumanMessage (de_summary d)]\<rparr>)"

end
