(* ===== verification/Verify_Node.thy ===== *)
theory Verify_Node
  imports Routers
begin

text \<open>
  The \<open>verify\<close> node of \<open>src/src/graph/nodes/verify.py\<close>: the two clamps that let evidence
  on disk win over the model's verdict, the heuristic verdict, correctness enforcement,
  and the convergence and cycle stamps.

  Arguments stand for what the node reads from outside the state: the declared
  deliverable paths and which of them have a problem on disk, the paths the goal names
  and their problems, the model's verdict, the outcome of the correctness checks, SHA-256
  and the two-digit formatting of a score.
\<close>

section \<open>The update under construction\<close>

record verify_update =
  vu_phase :: phase_name
  vu_is_complete :: bool
  vu_final_output :: string
  vu_errors :: "string list"
  vu_eval :: "(real \<times> bool) option"
  vu_rescued :: bool

definition missing_errors :: "string list \<Rightarrow> string list" where
  "missing_errors problems = map (\<lambda>p. deliverable_error_prefix @ p) (take 5 problems)"

definition enforce_deliverables ::
  "verify_update \<Rightarrow> string list \<Rightarrow> string list \<Rightarrow> bool \<Rightarrow> verify_update" where
  "enforce_deliverables r paths problems goal_satisfied =
     (if paths = [] \<or> problems = [] then r
      else if goal_satisfied then r
      else
        let summary = py_join '', '' (take 5 problems);
            output = py_strip (vu_final_output r);
            output = (if \<not> py_in ''Declared deliverables not verified'' output
                      then py_strip (output @ '' Declared deliverables not verified present: '' @
                                     summary @ ''.'')
                      else output)
        in r\<lparr>vu_is_complete := False, vu_phase := P_EXECUTE, vu_final_output := output,
             vu_errors := missing_errors problems\<rparr>)"

text \<open>\<open>Path(p).name\<close>: the part after the last slash, trailing slashes ignored.\<close>

definition basename :: "string \<Rightarrow> string" where
  "basename p =
     rev (takeWhile (\<lambda>c. c \<noteq> CHR ''/'') (dropWhile (\<lambda>c. c = CHR ''/'') (rev p)))"

definition goal_complete_min_iter :: int where
  "goal_complete_min_iter = 3"

definition all_steps_done :: "agent_state \<Rightarrow> bool" where
  "all_steps_done s \<longleftrightarrow>
     (if plan_steps s \<noteq> [] then current_step_index s \<ge> int (length (plan_steps s)) else True)"

definition force_complete_note :: string where
  "force_complete_note =
     ''Objective deliverable evidence: all declared outputs are present and non-empty on disk.''"

definition force_complete_on_evidence ::
  "verify_update \<Rightarrow> agent_state \<Rightarrow> string list \<Rightarrow> string list \<Rightarrow> bool \<Rightarrow> string list \<Rightarrow> verify_update" where
  "force_complete_on_evidence r s paths problems goal_satisfied goal_expected =
     (let output = py_strip (vu_final_output r);
          forced = r\<lparr>vu_is_complete := True, vu_phase := P_COMPLETE,
                     vu_final_output :=
                       (if \<not> py_in ''Objective deliverable evidence'' output
                        then py_strip (output @ '' '' @ force_complete_note) else output)\<rparr>
      in if vu_is_complete r then r
         else if goal_satisfied then
           (if \<not> all_steps_done s \<and> iteration_count s < goal_complete_min_iter then r else forced)
         else if \<not> all_steps_done s \<or> errors s \<noteq> [] then r
         else if paths = [] \<or> problems \<noteq> [] then r
         else if goal_expected \<noteq> [] \<and>
                 \<not> list_ex (\<lambda>g. basename g \<in> set (map basename paths)) goal_expected then r
         else forced)"

section \<open>Correctness checks\<close>

text \<open>
  What \<open>run_checks\<close> found: the overall score, whether it passed, and the reason of each
  scored check that failed.  \<open>Adhoc\<close> is the synthetic specification of a run without a
  registered one; it is recorded but never enforced.
\<close>

record correctness_result =
  co_score :: real
  co_passed :: bool
  co_reasons :: "string list"

datatype eval_spec = No_spec | Adhoc correctness_result | Registered correctness_result

definition correctness_message :: "(real \<Rightarrow> string) \<Rightarrow> correctness_result \<Rightarrow> string" where
  "correctness_message fmt2 c =
     (let detail = py_join ''; '' (co_reasons c);
          detail = (if detail \<noteq> [] then detail else ''no specific reason'')
      in ''verify: correctness checks failed (score='' @ fmt2 (co_score c) @ '') '' @ em_dash @ '' '' @
         detail)"

definition record_correctness :: "verify_update \<Rightarrow> correctness_result \<Rightarrow> verify_update" where
  "record_correctness r c =
     r\<lparr>vu_eval := Some (co_score c, co_passed c),
       vu_rescued := (vu_rescued r \<or> \<not> vu_is_complete r)\<rparr>"

definition enforce_correctness ::
  "(real \<Rightarrow> string) \<Rightarrow> agent_settings \<Rightarrow> agent_state \<Rightarrow> verify_update \<Rightarrow> correctness_result \<Rightarrow> verify_update" where
  "enforce_correctness fmt2 cfg s r c =
     (if eval_enforce cfg \<and> \<not> co_passed c \<and>
         iteration_count s < effective_max_iterations cfg s - 1
      then
        let msg = correctness_message fmt2 c;
            output = py_strip (py_strip (vu_final_output r) @ '' '' @ msg @ ''.'');
            r' = r\<lparr>vu_final_output := output, vu_errors := vu_errors r @ [msg]\<rparr>
        in if vu_is_complete r then r'\<lparr>vu_is_complete := False, vu_phase := P_EXECUTE\<rparr> else r'
      else r)"

definition run_correctness_checks ::
  "(real \<Rightarrow> string) \<Rightarrow> agent_settings \<Rightarrow> bool \<Rightarrow> eval_spec \<Rightarrow> agent_state \<Rightarrow> verify_update \<Rightarrow> verify_update" where
  "run_correctness_checks fmt2 cfg any_on_disk spec s r =
     (if \<not> eval_enabled cfg then r
      else if \<not> vu_is_complete r \<and>
              (\<not> eval_rescue_incomplete cfg \<or> eval_rescue_attempted s \<or> \<not> any_on_disk) then r
      else
        case spec of
          No_spec \<Rightarrow> r
        | Adhoc c \<Rightarrow> record_correctness r c
        | Registered c \<Rightarrow> enforce_correctness fmt2 cfg s (record_correctness r c) c)"

section \<open>The heuristic verdict\<close>

definition heuristic_verdict :: "agent_state \<Rightarrow> string list \<Rightarrow> bool" where
  "heuristic_verdict s problems \<longleftrightarrow>
     all_steps_done s \<and> current_blocking_errors (errors s) problems = [] \<and>
     (case confidence s of Some c \<Rightarrow> c \<in> {HIGH, VERY_HIGH} | None \<Rightarrow> False) \<and> problems = []"

definition completion_report :: "agent_state \<Rightarrow> string" where
  "completion_report s =
     (let goal_txt = (if objective_goal_text s \<noteq> [] then objective_goal_text s else ''Unknown goal'');
          nl = [char_of (10::nat)]
      in case reflection s of
        Some r \<Rightarrow> rr_summary r
      | None \<Rightarrow> ''Task completed successfully.'' @ nl @ ''Goal: '' @ goal_txt @ nl @
          ''Steps completed: '' @ py_str (int (length (completed_steps s))) @ ''/'' @
          py_str (int (length (plan_steps s))) @ nl @ ''Results: '' @
          py_join ''; '' (take 5 (map ps_description (completed_steps s))))"

definition heuristic_verify :: "agent_state \<Rightarrow> string list \<Rightarrow> verify_update" where
  "heuristic_verify s problems =
     (let done' = heuristic_verdict s problems in
      \<lparr>vu_phase = (if done' then P_COMPLETE else P_EXECUTE), vu_is_complete = done',
       vu_final_output = (if done' then completion_report s else []),
       vu_errors = (if problems \<noteq> [] then missing_errors problems else []),
       vu_eval = None, vu_rescued = False\<rparr>)"

section \<open>Stamps\<close>

definition convergence_fingerprint ::
  "(string \<Rightarrow> string) \<Rightarrow> string \<Rightarrow> string list \<Rightarrow> plan_step list \<Rightarrow> string" where
  "convergence_fingerprint sha256 output goal_paths completed =
     sha256 (output @ concat (sort goal_paths) @ py_str (int (length completed)))"

definition stamp_convergence_fingerprint ::
  "(string \<Rightarrow> string) \<Rightarrow> verify_update \<Rightarrow> string list \<Rightarrow> agent_state \<Rightarrow> agent_state" where
  "stamp_convergence_fingerprint sha256 r goal_paths s =
     (let fp = convergence_fingerprint sha256 (vu_final_output r) goal_paths (completed_steps s)
      in s\<lparr>consecutive_stable_verifies :=
             (if Some fp = last_verify_fingerprint s then consecutive_stable_verifies s + 1 else 0),
           last_verify_fingerprint := Some fp\<rparr>)"

definition failure_fingerprint :: "(string \<Rightarrow> string) \<Rightarrow> string list \<Rightarrow> string list \<Rightarrow> string" where
  "failure_fingerprint sha256 problems errs =
     sha256 (''missing='' @ py_join ''|'' (sort problems) @ '';blocking='' @
             py_join ''|'' (sort (current_blocking_errors errs problems)))"

definition stamp_verify_cycle ::
  "(string \<Rightarrow> string) \<Rightarrow> verify_update \<Rightarrow> string list \<Rightarrow> agent_state \<Rightarrow> agent_state" where
  "stamp_verify_cycle sha256 r problems s =
     (let s' = s\<lparr>verify_cycle := verify_cycle s + 1\<rparr> in
      if vu_is_complete r then s'
      else s'\<lparr>step_outputs := (if has_remaining_steps s then step_outputs s else []),
              recent_verify_failures := recent_verify_failures s @
                [failure_fingerprint sha256 problems (errors s)]\<rparr>)"

section \<open>The node\<close>

record verify_env =
  ve_paths :: "string list"
  ve_problems :: "string list"
  ve_goal_paths :: "string list"
  ve_goal_problems :: "string list"
  ve_llm :: "(bool \<times> string) option"
  ve_spec :: eval_spec
  ve_any_on_disk :: bool
  ve_sha256 :: "string \<Rightarrow> string"
  ve_fmt2 :: "real \<Rightarrow> string"

definition goal_deliverables_satisfied :: "verify_env \<Rightarrow> bool" where
  "goal_deliverables_satisfied env \<longleftrightarrow> ve_goal_paths env \<noteq> [] \<and> ve_goal_problems env = []"

definition llm_verdict :: "agent_settings \<Rightarrow> verify_env \<Rightarrow> bool \<times> string \<Rightarrow> agent_state \<Rightarrow> verify_update" where
  "llm_verdict cfg env llm s =
     (let (finished, output) = llm;
          sat = goal_deliverables_satisfied env;
          r = \<lparr>vu_phase = (if finished then P_COMPLETE else P_EXECUTE), vu_is_complete = finished,
               vu_final_output = output, vu_errors = [], vu_eval = None, vu_rescued = False\<rparr>;
          r = enforce_deliverables r (ve_paths env) (ve_problems env) sat;
          r = force_complete_on_evidence r s (ve_paths env) (ve_problems env) sat (ve_goal_paths env)
      in run_correctness_checks (ve_fmt2 env) cfg (ve_any_on_disk env) (ve_spec env) s r)"

definition verify_update_of :: "agent_settings \<Rightarrow> verify_env \<Rightarrow> agent_state \<Rightarrow> verify_update" where
  "verify_update_of cfg env s =
     (case ve_llm env of
        Some llm \<Rightarrow> llm_verdict cfg env llm s
      | None \<Rightarrow> heuristic_verify s (ve_problems env))"

definition verify_node :: "agent_settings \<Rightarrow> verify_env \<Rightarrow> agent_state \<Rightarrow> agent_state" where
  "verify_node cfg env s =
     (let r = verify_update_of cfg env s;
          s1 = stamp_convergence_fingerprint (ve_sha256 env) r (ve_goal_paths env) s;
          s2 = stamp_verify_cycle (ve_sha256 env) r (ve_problems env) s1
      in s2\<lparr>phase := vu_phase r, is_complete := Some (vu_is_complete r),
            final_output := vu_final_output r, errors := errors s @ vu_errors r,
            missing_deliverables := ve_problems env,
            eval_correctness := (case vu_eval r of None \<Rightarrow> eval_correctness s | Some e \<Rightarrow> Some e),
            eval_rescue_attempted := (eval_rescue_attempted s \<or> vu_rescued r)\<rparr>)"

section \<open>Lemmas\<close>

lemma verify_node_simps [simp]:
  "verify_cycle (verify_node cfg env s) = verify_cycle s + 1"
  "iteration_count (verify_node cfg env s) = iteration_count s"
  "max_iterations (verify_node cfg env s) = max_iterations s"
  "current_goal (verify_node cfg env s) = current_goal s"
  "plan_steps (verify_node cfg env s) = plan_steps s"
  "current_step_index (verify_node cfg env s) = current_step_index s"
  "completed_steps (verify_node cfg env s) = completed_steps s"
  "is_complete (verify_node cfg env s) = Some (vu_is_complete (verify_update_of cfg env s))"
  "errors (verify_node cfg env s) = errors s @ vu_errors (verify_update_of cfg env s)"
  "missing_deliverables (verify_node cfg env s) = ve_problems env"
  "recent_verify_failures (verify_node cfg env s) =
     recent_verify_failures s @
       (if vu_is_complete (verify_update_of cfg env s) then []
        else [failure_fingerprint (ve_sha256 env) (ve_problems env) (errors s)])"
  by (simp_all add: verify_node_def stamp_verify_cycle_def stamp_convergence_fingerprint_def Let_def
      split: option.split)

lemma enforce_correctness_facts:
  "vu_is_complete (enforce_correctness f cfg s r c) \<Longrightarrow> vu_is_complete r"
  "set (vu_errors r) \<subseteq> set (vu_errors (enforce_correctness f cfg s r c))"
  "effective_max_iterations cfg s - 1 \<le> iteration_count s \<Longrightarrow> enforce_correctness f cfg s r c = r"
  by (auto simp: enforce_correctness_def Let_def split: if_splits)

lemma record_correctness_simps [simp]:
  "vu_is_complete (record_correctness r c) = vu_is_complete r"
  "vu_errors (record_correctness r c) = vu_errors r"
  by (simp_all add: record_correctness_def)

text \<open>The checks return their input, record a result, or record and enforce one.\<close>

lemma run_correctness_cases:
  "run_correctness_checks f cfg d sp s r = r \<or>
   (\<exists>c. run_correctness_checks f cfg d sp s r = record_correctness r c) \<or>
   (\<exists>c. sp = Registered c \<and>
      run_correctness_checks f cfg d sp s r = enforce_correctness f cfg s (record_correctness r c) c)"
  by (auto simp: run_correctness_checks_def split: eval_spec.split)

lemma run_correctness_checks_facts:
  shows "vu_is_complete (run_correctness_checks f cfg d sp s r) \<Longrightarrow> vu_is_complete r"
    and "set (vu_errors r) \<subseteq> set (vu_errors (run_correctness_checks f cfg d sp s r))"
    and "effective_max_iterations cfg s - 1 \<le> iteration_count s \<Longrightarrow>
      vu_is_complete (run_correctness_checks f cfg d sp s r) = vu_is_complete r"
  using run_correctness_cases [of f cfg d sp s r] enforce_correctness_facts [where r = "record_correctness r c" for c]
  by (metis record_correctness_simps order_refl)+

lemma run_correctness_unenforced:
  "\<not> eval_enforce cfg \<Longrightarrow>
     vu_is_complete (run_correctness_checks f cfg d sp s r) = vu_is_complete r \<and>
     vu_errors (run_correctness_checks f cfg d sp s r) = vu_errors r"
  by (simp add: run_correctness_checks_def enforce_correctness_def Let_def split: eval_spec.split)

lemma llm_verdict_blocked:
  assumes "ve_paths env \<noteq> []" "ve_problems env \<noteq> []" "\<not> goal_deliverables_satisfied env"
  shows "\<not> vu_is_complete (llm_verdict cfg env llm s) \<and>
         set (missing_errors (ve_problems env)) \<subseteq> set (vu_errors (llm_verdict cfg env llm s))"
proof -
  obtain fin out where llm: "llm = (fin, out)" by (cases llm)
  let ?r0 = "\<lparr>vu_phase = (if fin then P_COMPLETE else P_EXECUTE), vu_is_complete = fin,
               vu_final_output = out, vu_errors = [], vu_eval = None, vu_rescued = False\<rparr>"
  let ?r1 = "enforce_deliverables ?r0 (ve_paths env) (ve_problems env) False"
  have 1: "\<not> vu_is_complete ?r1" "vu_errors ?r1 = missing_errors (ve_problems env)"
    using assms by (simp_all add: enforce_deliverables_def Let_def)
  have 2: "force_complete_on_evidence ?r1 s (ve_paths env) (ve_problems env) False (ve_goal_paths env) = ?r1"
    using assms 1 by (simp add: force_complete_on_evidence_def Let_def)
  from 1 2 assms(3) show ?thesis
    using run_correctness_checks_facts(1,2) [where r = ?r1] unfolding llm llm_verdict_def Let_def
    by (simp only: prod.case simp_thms) blast
qed

section \<open>Properties\<close>


definition demo_verify_env :: verify_env where
  "demo_verify_env =
     \<lparr>ve_paths = [''results/a.csv'', ''plan.py''], ve_problems = [''results/a.csv''],
      ve_goal_paths = [''results/a.csv''], ve_goal_problems = [''results/a.csv''],
      ve_llm = Some (True, ''all good''), ve_spec = No_spec, ve_any_on_disk = True,
      ve_sha256 = (\<lambda>x. x), ve_fmt2 = (\<lambda>_. ''0.50'')\<rparr>"


text \<open>
  C37 (liveness): when the deliverables the goal names are all present and well-formed, a
  pass with a model verdict completes the run, whatever the verdict was and whatever errors
  and intermediate gaps the run accumulated, as soon as the plan is exhausted or three
  iterations have run; the only thing that can still hold it back is a failing registered
  correctness check with enforcement on, and that ends one iteration before the cap.
\<close>

theorem verify_completes_satisfied_goal:
  assumes "ve_llm env \<noteq> None" "goal_deliverables_satisfied env"
    and "all_steps_done s \<or> 3 \<le> iteration_count s"
    and "\<not> eval_enforce cfg \<or> effective_max_iterations cfg s - 1 \<le> iteration_count s \<or>
         (\<forall>c. ve_spec env = Registered c \<longrightarrow> co_passed c)"
  shows "is_complete (verify_node cfg env s) = Some True"
proof -
  obtain fin out where llm: "ve_llm env = Some (fin, out)" using assms(1) by auto
  define r0 where "r0 = \<lparr>vu_phase = (if fin then P_COMPLETE else P_EXECUTE), vu_is_complete = fin,
               vu_final_output = out, vu_errors = [], vu_eval = None, vu_rescued = False\<rparr>"
  define r1 where "r1 = enforce_deliverables r0 (ve_paths env) (ve_problems env) True"
  define r2 where "r2 = force_complete_on_evidence r1 s (ve_paths env) (ve_problems env) True
                          (ve_goal_paths env)"
  have r2: "vu_is_complete r2"
    using assms(3) by (auto simp: r2_def force_complete_on_evidence_def Let_def goal_complete_min_iter_def)
  have "vu_is_complete (run_correctness_checks (ve_fmt2 env) cfg (ve_any_on_disk env) (ve_spec env) s r2)"
    using assms(4)
  proof (elim disjE)
    assume "\<not> eval_enforce cfg"
    then show ?thesis using run_correctness_unenforced r2 by blast
  next
    assume "effective_max_iterations cfg s - 1 \<le> iteration_count s"
    then show ?thesis using run_correctness_checks_facts(3) r2 by blast
  next
    assume "\<forall>c. ve_spec env = Registered c \<longrightarrow> co_passed c"
    then show ?thesis
      using r2 by (auto simp: run_correctness_checks_def enforce_correctness_def Let_def split: eval_spec.split)
  qed
  with llm assms(2) show ?thesis
    by (simp add: verify_update_of_def llm_verdict_def r0_def r1_def r2_def Let_def)
qed

theorem verify_completes_satisfied_goal_witness:
  "is_complete (verify_node default_settings
     (demo_verify_env\<lparr>ve_goal_problems := [], ve_llm := Some (False, ''0% complete'')\<rparr>)
     (empty_state\<lparr>errors := [''stale''], plan_steps := [new_step ''1'' ''x''], iteration_count := 4\<rparr>)) =
   Some True"
  by (rule verify_completes_satisfied_goal)
     (simp_all add: demo_verify_env_def goal_deliverables_satisfied_def)

subsection \<open>The oscillation detector and the growing error list\<close>

lemma update_errors_missing:
  assumes "set (ve_problems env) \<subseteq> set (ve_paths env)" "ve_problems env \<noteq> []"
    and "\<not> goal_deliverables_satisfied env"
  shows "\<not> vu_is_complete (verify_update_of cfg env s) \<and>
         deliverable_error_prefix @ hd (ve_problems env) \<in> set (vu_errors (verify_update_of cfg env s))"
proof -
  from assms(1,2) have ne: "ve_paths env \<noteq> []" by auto
  have hd: "deliverable_error_prefix @ hd (ve_problems env) \<in> set (missing_errors (ve_problems env))"
    using assms(2) by (cases "ve_problems env") (simp_all add: missing_errors_def)
  show ?thesis
  proof (cases "ve_llm env")
    case None
    then show ?thesis
      using assms(2) hd
      by (simp add: verify_update_of_def heuristic_verify_def heuristic_verdict_def Let_def)
  next
    case (Some llm)
    with llm_verdict_blocked [OF ne assms(2,3), of cfg llm s] hd show ?thesis
      by (auto simp: verify_update_of_def)
  qed
qed

lemma failure_fingerprint_grows:
  assumes "inj sha256" and "e \<in> set (current_blocking_errors extra problems)" "e \<noteq> []"
  shows "failure_fingerprint sha256 problems (errs @ extra) \<noteq> failure_fingerprint sha256 problems errs"
proof -
  let ?b = "\<lambda>es. current_blocking_errors es problems"
  have "0 < sum_list (map length (?b extra))"
    using assms(2,3) by (auto simp: sum_list_eq_0_iff simp flip: neq0_conv)
  then have "length (py_join ''|'' (sort (?b errs))) < length (py_join ''|'' (sort (?b errs @ ?b extra)))"
    by (simp add: length_py_join)
  then have "py_join ''|'' (sort (?b errs)) \<noteq> py_join ''|'' (sort (?b errs @ ?b extra))" by auto
  with assms(1) show ?thesis
    unfolding failure_fingerprint_def current_blocking_errors_append
    by (metis injD append_same_eq same_append_eq)
qed

definition verify_passes :: "agent_settings \<Rightarrow> verify_env list \<Rightarrow> agent_state \<Rightarrow> agent_state" where
  "verify_passes cfg envs s = fold (verify_node cfg) envs s"

definition stuck_on :: "(string \<Rightarrow> string) \<Rightarrow> string list \<Rightarrow> verify_env \<Rightarrow> bool" where
  "stuck_on sha256 problems env \<longleftrightarrow>
     ve_sha256 env = sha256 \<and> ve_problems env = problems \<and> problems \<noteq> [] \<and>
     set problems \<subseteq> set (ve_paths env) \<and> \<not> goal_deliverables_satisfied env"

text \<open>Two passes in a row on the same missing files push different fingerprints.\<close>

lemma two_stuck_passes:
  assumes "inj sha256" "stuck_on sha256 problems e1" "stuck_on sha256 problems e2"
  shows "\<exists>a b. a \<noteq> b \<and> recent_verify_failures (verify_node cfg e2 (verify_node cfg e1 s)) =
           recent_verify_failures s @ [a, b]"
proof -
  let ?x = "deliverable_error_prefix @ hd problems" and ?u = "vu_errors (verify_update_of cfg e1 s)"
  have u: "\<not> vu_is_complete (verify_update_of cfg e t)"
    if "stuck_on sha256 problems e" for e t
    using that update_errors_missing [of e cfg t] by (auto simp: stuck_on_def)
  have "?x \<in> set ?u"
    using assms(2) update_errors_missing [of e1 cfg s] by (auto simp: stuck_on_def)
  moreover have "hd problems \<in> set problems" using assms(2) by (simp add: stuck_on_def)
  ultimately have "?x \<in> set (current_blocking_errors ?u problems)"
    by (simp add: current_blocking_errors_filter)
  then have "failure_fingerprint sha256 problems (errors s @ ?u) \<noteq>
             failure_fingerprint sha256 problems (errors s)"
    by (rule failure_fingerprint_grows [OF assms(1)]) (simp add: deliverable_error_prefix_def)
  with u [OF assms(2)] u [OF assms(3)] assms(2,3) show ?thesis
    by (auto simp: stuck_on_def)
qed

text \<open>
  Fact (error): the oscillation detector is blind to the very case it is documented for.
  While the same deliverables stay missing, every incomplete pass appends its
  missing-file errors to the accumulated list, so the blocking set grows by duplicates and
  the fingerprint changes with each pass: after any number (at least two) of consecutive
  passes stuck on the same files, for every repeat setting of two or more, no oscillation
  is reported.
\<close>

theorem oscillation_blind_to_missing_files:
  assumes "inj sha256" "\<forall>env \<in> set envs. stuck_on sha256 problems env"
    and "2 \<le> length envs" "2 \<le> n"
  shows "\<not> oscillating n (recent_verify_failures (verify_passes cfg envs s))"
proof -
  from assms(3) obtain es e1 e2 where envs: "envs = es @ [e1, e2]"
    by (metis One_nat_def Suc_1 Suc_le_length_iff append.assoc append_Cons append_Nil
          rev_exhaust list.size(3) not_less_eq_eq le0 length_append_singleton Suc_le_mono)
  from two_stuck_passes [OF assms(1), of problems e1 e2 cfg "fold (verify_node cfg) es s"] assms(2) envs
  obtain a b xs where ab: "a \<noteq> b" "recent_verify_failures (verify_passes cfg envs s) = xs @ [a, b]"
    by (auto simp: verify_passes_def)
  show ?thesis
  proof
    assume "oscillating n (recent_verify_failures (verify_passes cfg envs s))"
    then have n: "n \<le> int (length (xs @ [a, b]))" and one: "length (remdups (py_last n (xs @ [a, b]))) = 1"
      by (simp_all add: oscillating_def ab)
    from one obtain c where "set (py_last n (xs @ [a, b])) = {c}"
      by (metis One_nat_def length_0_conv length_Suc_conv list.set(1) list.set(2) set_remdups)
    with last_two_in_py_last [OF assms(4) n] ab(1) show False by auto
  qed
qed

theorem oscillation_blind_to_missing_files_witness:
  "\<not> oscillating 3 (recent_verify_failures
       (verify_passes default_settings [demo_verify_env, demo_verify_env, demo_verify_env, demo_verify_env]
          empty_state))"
  by (rule oscillation_blind_to_missing_files [of "\<lambda>x. x" _ "[''results/a.csv'']"])
     (simp_all add: stuck_on_def demo_verify_env_def goal_deliverables_satisfied_def)

lemma llm_verdict_pessimistic:
  assumes "errors s \<noteq> []" "ve_goal_paths env = []"
  shows "\<not> vu_is_complete (llm_verdict cfg env (False, out) s)"
proof -
  let ?r = "\<lparr>vu_phase = P_EXECUTE, vu_is_complete = False, vu_final_output = out, vu_errors = [],
             vu_eval = None, vu_rescued = False\<rparr>"
  let ?r1 = "enforce_deliverables ?r (ve_paths env) (ve_problems env) False"
  have 1: "\<not> vu_is_complete ?r1" by (simp add: enforce_deliverables_def Let_def)
  have "force_complete_on_evidence ?r1 s (ve_paths env) (ve_problems env) False [] = ?r1"
    using assms by (simp add: force_complete_on_evidence_def Let_def)
  with 1 show ?thesis
    using run_correctness_checks_facts(1) [where r = ?r1] assms(2)
    by (auto simp: llm_verdict_def goal_deliverables_satisfied_def Let_def)
qed

text \<open>
  Fact (error): a stale missing-file error splits the two verdicts.  The heuristic gate drops a
  missing-deliverable error once the file is on disk, but the clamp that overrides a
  pessimistic model verdict reads the raw accumulated list: with the plan exhausted, high
  confidence, every file present and only resolved errors, the heuristic path completes the
  run while the path with a model cannot be forced complete by any evidence (when the goal
  names no file).
\<close>

theorem stale_errors_split_verdicts:
  assumes "errors s \<noteq> []" "current_blocking_errors (errors s) [] = []"
    and "all_steps_done s" "confidence s = Some HIGH" "ve_problems env = []" "ve_goal_paths env = []"
  shows "is_complete (verify_node cfg (env\<lparr>ve_llm := None\<rparr>) s) = Some True \<and>
         is_complete (verify_node cfg (env\<lparr>ve_llm := Some (False, out)\<rparr>) s) = Some False"
  using assms llm_verdict_pessimistic [OF assms(1), of "env\<lparr>ve_llm := Some (False, out)\<rparr>" cfg out]
  by (simp add: verify_update_of_def heuristic_verify_def heuristic_verdict_def Let_def)

theorem stale_errors_split_verdicts_witness:
  "let s = empty_state\<lparr>errors := [deliverable_error_prefix @ ''a.csv''], confidence := Some HIGH\<rparr>;
       env = demo_verify_env\<lparr>ve_problems := [], ve_goal_paths := []\<rparr>
   in is_complete (verify_node default_settings (env\<lparr>ve_llm := None\<rparr>) s) = Some True \<and>
      is_complete (verify_node default_settings (env\<lparr>ve_llm := Some (False, ''0%'')\<rparr>) s) = Some False"
  unfolding Let_def
  by (rule stale_errors_split_verdicts)
     (simp_all add: empty_state_def all_steps_done_def current_blocking_errors_filter)

end
