(* ===== verification/Task_Graph.thy ===== *)
theory Task_Graph
  imports Graph_Nodes Reflect_Node Verify_Node
begin

text \<open>
  The task graph of \<open>src/src/graph/task_graph.py\<close>: its nodes, the edges and path maps that
  \<open>build_task_graph\<close> wires, and the step relation they give together with the node and
  router models.  A configuration is the next node to run and the state; one step runs the
  node on the state and lets its edge choose the next node.
\<close>

section \<open>Nodes and edges\<close>

datatype graph_node =
    N_classify | N_disambiguate | N_plan | N_retrieve_memory | N_research
  | N_structure_analysis | N_execute | N_reflect | N_verify | N_evolve | N_store_memory
  | N_tool_create | N_agent_spawn | N_delegate | N_hitl_gate | N_error_handler | N_lats_search
  | N_END

datatype edge = Fixed graph_node | Branch "(string \<times> graph_node) list" | No_edge

fun graph_edges :: "graph_node \<Rightarrow> edge" where
  "graph_edges N_classify = Branch [(''plan'', N_plan), (''disambiguate'', N_disambiguate)]"
| "graph_edges N_disambiguate = Fixed N_plan"
| "graph_edges N_plan = Fixed N_retrieve_memory"
| "graph_edges N_retrieve_memory =
     Branch [(''research'', N_research), (''structure_analysis'', N_structure_analysis)]"
| "graph_edges N_research = Fixed N_structure_analysis"
| "graph_edges N_structure_analysis =
     Branch [(''agent_spawn'', N_agent_spawn), (''tool_create'', N_tool_create),
             (''execute'', N_execute)]"
| "graph_edges N_execute =
     Branch [(''reflect'', N_reflect), (''execute'', N_execute), (''error_handler'', N_error_handler)]"
| "graph_edges N_reflect =
     Branch [(''agent_spawn'', N_agent_spawn), (''tool_create'', N_tool_create),
             (''verify'', N_verify), (''execute'', N_execute), (''plan'', N_plan),
             (''lats_search'', N_lats_search)]"
| "graph_edges N_lats_search = Fixed N_execute"
| "graph_edges N_tool_create = Branch [(''plan'', N_plan), (''execute'', N_execute)]"
| "graph_edges N_agent_spawn =
     Branch [(''delegate'', N_delegate), (''plan'', N_plan), (''tool_create'', N_tool_create)]"
| "graph_edges N_delegate = Branch [(''verify'', N_verify), (''execute'', N_execute)]"
| "graph_edges N_verify =
     Branch [(''evolve'', N_evolve), (''store_memory'', N_store_memory),
             (''execute'', N_execute), (''plan'', N_plan)]"
| "graph_edges N_evolve =
     Branch [(''store_memory'', N_store_memory), (''error_handler'', N_error_handler),
             (''execute'', N_execute)]"
| "graph_edges N_store_memory =
     Branch [(''hitl_gate'', N_hitl_gate), (''complete'', N_END), (''execute'', N_execute)]"
| "graph_edges N_hitl_gate = Branch [(''complete'', N_END), (''execute'', N_execute)]"
| "graph_edges N_error_handler =
     Branch [(''execute'', N_execute), (''classify'', N_classify), (''hitl_gate'', N_hitl_gate),
             (''verify'', N_verify), (''complete'', N_END)]"
| "graph_edges N_END = No_edge"

text \<open>Settings and the two readings of the outside world that routing uses.\<close>

record route_env =
  r_cfg :: agent_settings
  r_extract :: "string \<Rightarrow> string option"
  r_on_disk :: "string \<Rightarrow> bool"

fun route :: "route_env \<Rightarrow> graph_node \<Rightarrow> agent_state \<Rightarrow> string" where
  "route env N_classify s = route_after_classify (r_cfg env) s"
| "route env N_retrieve_memory s = route_after_retrieve_memory (r_cfg env) s"
| "route env N_structure_analysis s = route_after_structure_analysis s"
| "route env N_execute s = route_after_execute (r_cfg env) s"
| "route env N_reflect s = route_after_reflect (r_cfg env) s"
| "route env N_tool_create s = route_after_tool_create s"
| "route env N_agent_spawn s = route_after_agent_spawn s"
| "route env N_delegate s = route_after_delegate s"
| "route env N_verify s = route_after_verify (r_extract env) (r_on_disk env) (r_cfg env) s"
| "route env N_evolve s = route_after_evolve s"
| "route env N_store_memory s = route_after_store (r_cfg env) s"
| "route env N_hitl_gate s = route_after_hitl s"
| "route env N_error_handler s = route_after_error (r_cfg env) s"
| "route env _ s = []"

text \<open>\<open>None\<close>: the router's string is not a key of the path map, which LangGraph rejects.\<close>

definition next_node :: "route_env \<Rightarrow> graph_node \<Rightarrow> agent_state \<Rightarrow> graph_node option" where
  "next_node env n s =
     (case graph_edges n of
        Fixed m \<Rightarrow> Some m
      | Branch table \<Rightarrow> map_of table (route env n s)
      | No_edge \<Rightarrow> None)"

section \<open>Steps\<close>

text \<open>
  \<open>node_runs cfg n s s'\<close>: running node \<open>n\<close> on \<open>s\<close> may give \<open>s'\<close>, for some answers of
  the model, the tools, the human and the file system.
\<close>

inductive node_runs :: "agent_settings \<Rightarrow> graph_node \<Rightarrow> agent_state \<Rightarrow> agent_state \<Rightarrow> bool"
  for cfg :: agent_settings where
  run_classify: "node_runs cfg N_classify s (classify_node llm now s)"
| run_disambiguate: "node_runs cfg N_disambiguate s (disambiguate_node s)"
| run_plan: "node_runs cfg N_plan s (plan_node fresh cfg proposed s)"
| run_retrieve: "node_runs cfg N_retrieve_memory s (retrieve_memory_node s)"
| run_research: "node_runs cfg N_research s (research_node s)"
| run_structure: "node_runs cfg N_structure_analysis s (structure_analysis_node cfg detected s)"
| run_execute: "node_runs cfg N_execute s (execute_node cfg xenv s)"
| run_reflect: "node_runs cfg N_reflect s (reflect_node cfg renv s)"
| run_verify: "node_runs cfg N_verify s (verify_node cfg venv s)"
| run_evolve: "node_runs cfg N_evolve s (evolve_node cfg engine s)"
| run_store: "node_runs cfg N_store_memory s (store_memory_node s)"
| run_tool_create: "node_runs cfg N_tool_create s (tool_create_node cfg av create generated s)"
| run_agent_spawn: "node_runs cfg N_agent_spawn s (agent_spawn_node cfg av spawn population s)"
| run_delegate: "node_runs cfg N_delegate s (delegate_node outcome s)"
| run_hitl: "node_runs cfg N_hitl_gate s (hitl_gate_node resp s)"
| run_error: "node_runs cfg N_error_handler s (error_handler_node cfg s)"
| run_lats: "node_runs cfg N_lats_search s (lats_search_node cfg chosen s)"

inductive_cases node_runs_cases: "node_runs cfg n s s'"
inductive_simps node_runs_error [simp]: "node_runs cfg N_error_handler s s'"
inductive_simps node_runs_END [simp]: "node_runs cfg N_END s s'"
inductive_simps node_runs_verify: "node_runs cfg N_verify s s'"
inductive_simps node_runs_execute: "node_runs cfg N_execute s s'"

inductive graph_step :: "agent_settings \<Rightarrow> graph_node \<times> agent_state \<Rightarrow> graph_node \<times> agent_state \<Rightarrow> bool"
  for cfg :: agent_settings where
  step: "node_runs cfg n s s' \<Longrightarrow> next_node env n s' = Some m \<Longrightarrow> r_cfg env = cfg \<Longrightarrow>
           graph_step cfg (n, s) (m, s')"

inductive_cases graph_step_cases: "graph_step cfg (n, s) (m, s')"

text \<open>A run is a chain of steps.\<close>

fun graph_run :: "agent_settings \<Rightarrow> (graph_node \<times> agent_state) list \<Rightarrow> bool" where
  "graph_run cfg [] = False"
| "graph_run cfg [c] = True"
| "graph_run cfg (c # d # cs) = (graph_step cfg c d \<and> graph_run cfg (d # cs))"

section \<open>What the nodes leave alone\<close>

lemma ground_frame [simp]: "complete_flag d (s\<lparr>phase := p\<rparr>) = complete_flag d s"
  by (simp add: complete_flag_def)

lemmas reflect_defs = reflect_node_def llm_reflect_def heuristic_reflect_def Let_def

lemmas small_node_defs = disambiguate_node_def retrieve_memory_node_def research_node_def
  structure_analysis_node_def evolve_node_def store_memory_node_def delegate_node_def
  lats_search_node_def Let_def

lemma reflect_node_frame [simp]:
  "iteration_count (reflect_node cfg env s) = iteration_count s"
  "max_iterations (reflect_node cfg env s) = max_iterations s"
  "verify_cycle (reflect_node cfg env s) = verify_cycle s"
  "current_goal (reflect_node cfg env s) = current_goal s"
  "errors (reflect_node cfg env s) = errors s"
  "no_evolution (reflect_node cfg env s) = no_evolution s"
  by (simp_all add: reflect_defs split: reflect_outcome.split)

lemma no_evolution_frame [simp]:
  "no_evolution (classify_node llm now s) = no_evolution s"
  "no_evolution (plan_node fresh cfg steps s) = no_evolution s"
  "no_evolution (execute_node cfg xenv s) = no_evolution s"
  "no_evolution (verify_node cfg venv s) = no_evolution s"
  "no_evolution (tool_create_node cfg av cr k s) = no_evolution s"
  "no_evolution (agent_spawn_node cfg av sp k s) = no_evolution s"
  "no_evolution (hitl_gate_node resp s) = no_evolution s"
  "no_evolution (error_handler_node cfg s) = no_evolution s"
  by (simp_all add: classify_node_def plan_node_def execute_defs verify_node_def stamp_verify_cycle_def
      stamp_convergence_fingerprint_def tool_create_node_def agent_spawn_node_def stamp_cap_round_def
      hitl_gate_node_def error_handler_node_def
      split: option.split exec_result.split prod.split human_response.split bool.split)

text \<open>Facts of every node: counters only grow, the pinned cap and the switch stay.\<close>

lemma node_runs_frame:
  assumes "node_runs cfg n s s'"
  shows "iteration_count s \<le> iteration_count s'" "max_iterations s' = max_iterations s"
    "verify_cycle s' = verify_cycle s + (if n = N_verify then 1 else 0)"
    "no_evolution s' = no_evolution s"
  using assms
  by (induction rule: node_runs.induct)
     (auto simp: small_node_defs plan_node_def split: option.split prod.split)

section \<open>Properties of the wiring\<close>

text \<open>What the next node can be, read off the labels.\<close>

lemma next_node_range:
  "next_node env n s = Some m \<Longrightarrow> m \<in> (case graph_edges n of
      Fixed k \<Rightarrow> {k} | Branch table \<Rightarrow> snd ` set table | No_edge \<Rightarrow> {})"
  by (auto simp: next_node_def split: edge.splits dest!: map_of_SomeD intro: rev_image_eqI)

lemma next_node_defined_iff: "(\<exists>m. next_node env n s = Some m) \<longleftrightarrow> n \<noteq> N_END"
proof (cases n)
  case N_execute
  show ?thesis using router_labels(1) [of "r_cfg env" s] unfolding N_execute next_node_def by auto
next
  case N_reflect
  show ?thesis using router_labels(2) [of "r_cfg env" s] unfolding N_reflect next_node_def by auto
next
  case N_classify
  show ?thesis using router_labels(3) [of "r_cfg env" s] unfolding N_classify next_node_def by auto
next
  case N_retrieve_memory
  show ?thesis using router_labels(4) [of "r_cfg env" s] unfolding N_retrieve_memory next_node_def by auto
next
  case N_structure_analysis
  show ?thesis using router_labels(5) [of s] unfolding N_structure_analysis next_node_def by auto
next
  case N_verify
  show ?thesis using router_labels(6) [of "r_extract env" "r_on_disk env" "r_cfg env" s]
    unfolding N_verify next_node_def by auto
next
  case N_evolve
  show ?thesis using router_labels(7) [of s] unfolding N_evolve next_node_def by auto
next
  case N_store_memory
  show ?thesis using router_labels(8) [of "r_cfg env" s] unfolding N_store_memory next_node_def by auto
next
  case N_hitl_gate
  show ?thesis using router_labels(9) [of s] unfolding N_hitl_gate next_node_def by auto
next
  case N_error_handler
  show ?thesis using router_labels(10) [of "r_cfg env" s] unfolding N_error_handler next_node_def by auto
next
  case N_tool_create
  show ?thesis using router_labels(11) [of s] unfolding N_tool_create next_node_def by auto
next
  case N_agent_spawn
  show ?thesis using router_labels(12) [of s] unfolding N_agent_spawn next_node_def by auto
next
  case N_delegate
  show ?thesis using router_labels(13) [of s] unfolding N_delegate next_node_def by auto
qed (simp_all add: next_node_def)

lemma next_node_defined: "n \<noteq> N_END \<Longrightarrow> \<exists>m. next_node env n s = Some m"
  by (simp add: next_node_defined_iff)

text \<open>
  Fact (safety): routing never dead-ends.  Whatever the state and the settings, every router
  returns a label its path map declares, so from every node except the end the next node is
  defined.
\<close>

theorem routing_total: "(\<exists>m. next_node env n s = Some m) \<longleftrightarrow> n \<noteq> N_END"
  by (rule next_node_defined_iff)

lemma classify_default: "\<not> clarifying_gate_enabled cfg \<Longrightarrow> route_after_classify cfg s = ''plan''"
  by (simp add: route_after_classify_def)

lemma retrieve_default:
  "\<not> research_loop_enabled cfg \<Longrightarrow> route_after_retrieve_memory cfg s = ''structure_analysis''"
  by (simp add: route_after_retrieve_memory_def)

lemma reflect_default:
  assumes "\<not> lats_enabled cfg"
  shows "route_after_reflect cfg s \<in> {''agent_spawn'', ''tool_create'', ''verify'', ''execute'', ''plan''}"
proof -
  have "maybe_lats cfg s b = ''execute''" for b
    using assms by (simp add: maybe_lats_def lats_should_engage_def)
  then show ?thesis unfolding route_after_reflect_def by (simp only:) (intro label_intros; simp)
qed

text \<open>The three optional nodes are entered by one branch each.\<close>

lemma optional_entry:
  assumes "next_node env n s = Some m"
  shows "m = N_disambiguate \<Longrightarrow> n = N_classify" "m = N_research \<Longrightarrow> n = N_retrieve_memory"
    "m = N_lats_search \<Longrightarrow> n = N_reflect" "m = N_hitl_gate \<Longrightarrow> n \<in> {N_store_memory, N_error_handler}"
    "m = N_evolve \<Longrightarrow> n = N_verify"
  using next_node_range [OF assms] by (cases n; simp)+

text \<open>
  Fact (safety): with the three optional features off (ambiguity gate, research loop, tree
  search: the defaults) the optional nodes are not part of the graph: no run from the entry
  node ever reaches \<open>disambiguate\<close>, \<open>research\<close> or \<open>lats_search\<close>.
\<close>

theorem optional_nodes_unreachable:
  assumes "\<not> clarifying_gate_enabled cfg" "\<not> research_loop_enabled cfg" "\<not> lats_enabled cfg"
    and "(graph_step cfg)\<^sup>*\<^sup>* (N_classify, s) (n, t)"
  shows "n \<notin> {N_disambiguate, N_research, N_lats_search}"
  using assms(4)
proof (induction rule: rtranclp_induct2)
  case refl
  then show ?case by simp
next
  case (step k u m v)
  from step.hyps(2) obtain env where nx: "next_node env k v = Some m" and cfg: "r_cfg env = cfg"
    by (auto elim: graph_step_cases)
  show ?case
  proof
    assume m: "m \<in> {N_disambiguate, N_research, N_lats_search}"
    with optional_entry [OF nx] consider
      "m = N_disambiguate" "k = N_classify" | "m = N_research" "k = N_retrieve_memory"
      | "m = N_lats_search" "k = N_reflect" by blast
    then show False
    proof cases
      case 1
      with nx cfg classify_default [OF assms(1), of v] show False by (simp add: next_node_def)
    next
      case 2
      with nx cfg retrieve_default [OF assms(2), of v] show False by (simp add: next_node_def)
    next
      case 3
      with nx cfg reflect_default [OF assms(3), of v] show False by (auto simp: next_node_def)
    qed
  qed
qed

theorem optional_nodes_unreachable_witness:
  "N_classify \<notin> {N_disambiguate, N_research, N_lats_search}"
  by (rule optional_nodes_unreachable [of default_settings empty_state _ empty_state])
     (simp_all add: default_settings_def)

text \<open>
  Fact (safety): a human is asked only about an exhausted budget.  The gate is entered only from
  the error handler, and only when the last error mentions a budget; the store node never
  returns the \<open>hitl_gate\<close> label that its path map and documentation list.
\<close>

theorem hitl_only_on_budget:
  assumes "next_node env n s = Some N_hitl_gate"
  shows "n = N_error_handler \<and> errors s \<noteq> [] \<and> py_in ''budget'' (py_lower (last (errors s)))"
proof -
  from optional_entry(4) [OF assms] consider "n = N_store_memory" | "n = N_error_handler" by blast
  then show ?thesis
  proof cases
    case 1
    with assms router_labels(8) [of "r_cfg env" s] show ?thesis by (auto simp: next_node_def)
  next
    case 2
    have other: "route_after_error (r_cfg env) s \<noteq> ''hitl_gate''"
      if "errors s = [] \<or> \<not> py_in ''budget'' (py_lower (last (errors s)))"
    proof (cases "errors s = []")
      case False
      with that show ?thesis
        by (simp add: route_after_error_def Let_def)
    qed (simp add: route_after_error_def)
    from assms 2 have "route_after_error (r_cfg env) s = ''hitl_gate''"
      by (auto simp: next_node_def split: if_splits)
    with other 2 show ?thesis by blast
  qed
qed

theorem hitl_only_on_budget_witness:
  "N_error_handler = N_error_handler \<and> errors (empty_state\<lparr>errors := [''budget'']\<rparr>) \<noteq> [] \<and>
   py_in ''budget'' (py_lower (last (errors (empty_state\<lparr>errors := [''budget'']\<rparr>))))"
proof -
  have low: "py_lower ''budget'' = ''budget''" by (simp add: py_lower_def lower_char_def)
  have "route_after_error default_settings (empty_state\<lparr>errors := [''budget'']\<rparr>) = ''hitl_gate''"
    by (simp add: route_after_error_def low)
  then show ?thesis
    by (intro hitl_only_on_budget [of "\<lparr>r_cfg = default_settings, r_extract = \<lambda>_. None, r_on_disk = \<lambda>_. False\<rparr>"])
       (simp add: next_node_def)
qed

section \<open>Bounded verification\<close>

text \<open>How often a run leaves \<open>verify\<close> for another round of work.\<close>

fun send_backs :: "(graph_node \<times> agent_state) list \<Rightarrow> nat" where
  "send_backs (c # d # cs) =
     (if fst c = N_verify \<and> fst d \<in> {N_plan, N_execute} then Suc (send_backs (d # cs))
      else send_backs (d # cs))"
| "send_backs _ = 0"

lemma verify_label_capped:
  assumes "verify_max_cycles cfg \<le> verify_cycle s"
  shows "route_after_verify extract on_disk cfg s \<in> {''evolve'', ''store_memory''}"
  using assms unfolding route_after_verify_def Let_def
  by (simp only: if_True) (intro label_intros; simp)

lemma verify_send_back:
  assumes "graph_step cfg (N_verify, s) (m, s')" "m \<in> {N_plan, N_execute}"
  shows "verify_cycle s' < verify_max_cycles cfg \<and> verify_cycle s' = verify_cycle s + 1"
proof -
  from assms(1) obtain env where r: "node_runs cfg N_verify s s'" and cfg: "r_cfg env = cfg"
    and nx: "next_node env N_verify s' = Some m" by (auto elim: graph_step_cases)
  have "\<not> verify_max_cycles cfg \<le> verify_cycle s'"
  proof
    assume "verify_max_cycles cfg \<le> verify_cycle s'"
    from verify_label_capped [OF this, of "r_extract env" "r_on_disk env"] nx cfg assms(2)
    show False by (auto simp: next_node_def)
  qed
  with node_runs_frame(3) [OF r] show ?thesis by simp
qed


section \<open>Winding down at the cap\<close>

text \<open>The last error does not look like a credentials problem to the routers.\<close>

definition quiet :: "agent_state \<Rightarrow> bool" where
  "quiet s \<longleftrightarrow> errors s = [] \<or>
     (let e = py_lower (last (errors s)) in \<not> py_in ''auth'' e \<and> \<not> py_in ''401'' e \<and> \<not> py_in ''403'' e)"

lemma quiet_not_abort: "quiet s \<Longrightarrow> \<not> auth_abort (errors s)"
proof -
  have "py_in ''auth'' e" if "py_in ''authentication'' e \<or> py_in ''authorization'' e" for e
    using that by (auto intro: py_in_trans [where b = "''authentication''"] py_in_trans [where b = "''authorization''"])
  then show "quiet s \<Longrightarrow> \<not> auth_abort (errors s)" by (auto simp: quiet_def auth_abort_def Let_def)
qed

definition capped :: "int \<Rightarrow> agent_state \<Rightarrow> bool" where
  "capped n s \<longleftrightarrow> max_iterations s = Some n \<and> 0 < n \<and> n \<le> iteration_count s \<and> no_evolution s"

lemma capped_at_cap: "capped n s \<Longrightarrow> effective_max_iterations cfg s \<le> iteration_count s"
  by (simp add: capped_def effective_max_iterations_def)

lemma capped_kept: "node_runs cfg v s s' \<Longrightarrow> capped n s \<Longrightarrow> capped n s'"
  using node_runs_frame [of cfg v s s'] by (auto simp: capped_def)

definition gap_weight :: "agent_state \<Rightarrow> nat" where
  "gap_weight s = (if structure_analysis_done s then 0 else 4) +
     (if pending_agent_gaps s \<noteq> [] then 2 else 0) + (if pending_tool_gaps s \<noteq> [] then 1 else 0)"

fun wind_rank :: "graph_node \<Rightarrow> agent_state \<Rightarrow> nat" where
  "wind_rank N_END s = 0"
| "wind_rank N_store_memory s = 1"
| "wind_rank N_verify s = 2"
| "wind_rank N_reflect s = 3"
| "wind_rank N_execute s = 4"
| "wind_rank N_delegate s = 5"
| "wind_rank N_hitl_gate s = 5"
| "wind_rank N_lats_search s = 5"
| "wind_rank N_error_handler s = 6"
| "wind_rank N_evolve s = 7"
| "wind_rank N_tool_create s = (if pending_tool_gaps s = [] then 17 else 9) + 20 * gap_weight s"
| "wind_rank N_agent_spawn s = (if pending_agent_gaps s = [] then 18 else 10) + 20 * gap_weight s"
| "wind_rank N_structure_analysis s = 11 + 20 * gap_weight s"
| "wind_rank N_research s = 12 + 20 * gap_weight s"
| "wind_rank N_retrieve_memory s = 13 + 20 * gap_weight s"
| "wind_rank N_plan s = 14 + 20 * gap_weight s"
| "wind_rank N_disambiguate s = 15 + 20 * gap_weight s"
| "wind_rank N_classify s = 16 + 20 * gap_weight s"

lemma gap_weight_frame [simp]:
  "gap_weight (classify_node llm now s) = gap_weight s"
  "gap_weight (plan_node fresh cfg steps s) = gap_weight s"
  "gap_weight (disambiguate_node s) = gap_weight s"
  "gap_weight (retrieve_memory_node s) = gap_weight s"
  "gap_weight (research_node s) = gap_weight s"
  by (simp_all add: gap_weight_def small_node_defs)

lemma gap_weight_le: "gap_weight s \<le> 7"
  by (simp add: gap_weight_def)

lemma wind_rank_le: "wind_rank n s \<le> 158"
  using gap_weight_le [of s] by (cases n) simp_all

lemma tool_create_weight:
  "gap_weight (tool_create_node cfg av cr k s) =
     gap_weight s - (if pending_tool_gaps s \<noteq> [] then 1 else 0)"
  by (simp add: gap_weight_def)

lemma agent_spawn_empty: "pending_agent_gaps s = [] \<Longrightarrow>
    agent_spawn_node cfg av sp k s = s\<lparr>phase := P_EXECUTE\<rparr>"
  by (simp add: agent_spawn_node_def)

lemma agent_spawn_weight:
  "pending_agent_gaps s \<noteq> [] \<Longrightarrow> gap_weight (agent_spawn_node cfg av sp k s) < gap_weight s"
  by (simp add: gap_weight_def)

lemma structure_weight:
  "\<not> structure_analysis_done s \<Longrightarrow> gap_weight (structure_analysis_node cfg det s) < gap_weight s"
  "structure_analysis_done s \<Longrightarrow>
     structure_analysis_node cfg det s = s\<lparr>phase := P_STRUCTURE_ANALYSIS, structure_analysis_done := True\<rparr>"
  by (auto simp: gap_weight_def structure_analysis_node_def Let_def split: prod.split)

lemma gap_weight_done [simp]:
  "structure_analysis_done s \<Longrightarrow>
     gap_weight (s\<lparr>phase := p, structure_analysis_done := True\<rparr>) = gap_weight s"
  "gap_weight (s\<lparr>phase := p\<rparr>) = gap_weight s"
  by (simp_all add: gap_weight_def)

text \<open>The labels at the cap.\<close>

lemma capped_labels:
  assumes "effective_max_iterations cfg s \<le> iteration_count s"
  shows "\<not> auth_abort (errors s) \<Longrightarrow> route_after_execute cfg s = ''reflect''"
    "route_after_reflect cfg s = ''verify''"
    "no_evolution s \<Longrightarrow> route_after_verify extract on_disk cfg s = ''store_memory''"
    "route_after_store cfg s = ''complete''"
    "quiet s \<Longrightarrow> route_after_error cfg s \<in> {''verify'', ''hitl_gate'', ''complete''}"
  using assms
  by (auto simp: route_simps quiet_def Let_def)

lemma wind_down_step:
  assumes "graph_step cfg (v, s) (m, s')" "capped n s" "quiet s"
  shows "wind_rank m s' < wind_rank v s"
proof -
  from assms(1) obtain env where nr: "node_runs cfg v s s'" and nx: "next_node env v s' = Some m"
    and cfg: "r_cfg env = cfg" by (auto elim: graph_step_cases)
  from capped_kept [OF nr assms(2)] have cap: "effective_max_iterations cfg s' \<le> iteration_count s'"
    and ne: "no_evolution s'" by (auto simp: capped_at_cap capped_def)
  note labels = capped_labels [OF cap]
  from nr show ?thesis
  proof (cases rule: node_runs.cases)
    case (run_execute xenv)
    with assms(3) quiet_not_abort [of s] labels(1) nx cfg show ?thesis by (simp add: next_node_def)
  next
    case (run_reflect renv)
    with labels(2) nx cfg show ?thesis by (simp add: next_node_def)
  next
    case (run_verify venv)
    with labels(3) [OF ne] nx cfg show ?thesis by (simp add: next_node_def)
  next
    case run_store
    with labels(4) nx cfg show ?thesis by (simp add: next_node_def)
  next
    case run_error
    from run_error(2) assms(3) have "quiet s'" by (simp add: quiet_def)
    from labels(5) [OF this] nx cfg run_error(1) show ?thesis by (auto simp: next_node_def)
  next
    case (run_tool_create av cr k)
    have "gap_weight s \<noteq> 0" if "pending_tool_gaps s \<noteq> []" using that by (simp add: gap_weight_def)
    with next_node_range [OF nx] run_tool_create tool_create_weight [of cfg av cr k s]
    show ?thesis by auto
  next
    case (run_agent_spawn av sp k)
    show ?thesis
    proof (cases "pending_agent_gaps s = []")
      case True
      with run_agent_spawn have s': "s' = s\<lparr>phase := P_EXECUTE\<rparr>" by (simp add: agent_spawn_empty)
      have "pending_tool_gaps s \<noteq> []" if "m = N_tool_create"
        using nx that run_agent_spawn(1) s'
        by (auto simp: next_node_def route_after_agent_spawn_def split: if_splits)
      with next_node_range [OF nx] run_agent_spawn(1) s' True show ?thesis by auto
    next
      case False
      with next_node_range [OF nx] run_agent_spawn agent_spawn_weight [OF False, of cfg av sp k]
      show ?thesis by auto
    qed
  next
    case (run_structure det)
    show ?thesis
    proof (cases "structure_analysis_done s")
      case True
      with run_structure have s': "s' = s\<lparr>phase := P_STRUCTURE_ANALYSIS, structure_analysis_done := True\<rparr>"
        by (simp add: structure_weight(2))
      have "m = N_tool_create \<Longrightarrow> pending_tool_gaps s \<noteq> []" "m = N_agent_spawn \<Longrightarrow> pending_agent_gaps s \<noteq> []"
        using nx run_structure(1) s'
        by (auto simp: next_node_def route_after_structure_analysis_def split: if_splits)
      with next_node_range [OF nx] run_structure(1) s' True show ?thesis by auto
    next
      case False
      with next_node_range [OF nx] run_structure structure_weight(1) [OF False, of cfg det]
      show ?thesis by auto
    qed
  qed (use next_node_range [OF nx] in auto)
qed

text \<open>Every node but the end can run, and its edge then has a target.\<close>

lemma node_runs_total: "n \<noteq> N_END \<Longrightarrow> \<exists>s'. node_runs cfg n s s'"
  by (cases n) (auto intro: node_runs.intros)

lemma graph_progress: "(\<nexists>d. graph_step cfg (n, s) d) \<longleftrightarrow> n = N_END"
proof
  assume stuck: "\<nexists>d. graph_step cfg (n, s) d"
  show "n = N_END"
  proof (rule ccontr)
    let ?env = "\<lparr>r_cfg = cfg, r_extract = \<lambda>_. None, r_on_disk = \<lambda>_. False\<rparr>"
    assume ne: "n \<noteq> N_END"
    then obtain s' where "node_runs cfg n s s'" using node_runs_total by blast
    moreover obtain m where "next_node ?env n s' = Some m" using next_node_defined [OF ne] by blast
    ultimately have "graph_step cfg (n, s) (m, s')" by (rule step) simp
    with stuck show False by blast
  qed
next
  assume n: "n = N_END"
  show "\<nexists>d. graph_step cfg (n, s) d"
  proof
    assume "\<exists>d. graph_step cfg (n, s) d"
    then obtain s' where "node_runs cfg N_END s s'" unfolding n by (auto elim: graph_step.cases)
    then show False by simp
  qed
qed


definition demo_env :: route_env where
  "demo_env = \<lparr>r_cfg = default_settings, r_extract = \<lambda>_. None, r_on_disk = \<lambda>_. False\<rparr>"



section \<open>Where termination fails\<close>

text \<open>The nodes of the loop that a credentials-like error drives.\<close>

definition auth_loop_nodes :: "graph_node set" where
  "auth_loop_nodes = {N_execute, N_error_handler, N_classify, N_disambiguate, N_plan,
     N_retrieve_memory, N_research, N_structure_analysis}"

definition auth_stuck :: "string \<Rightarrow> agent_state \<Rightarrow> bool" where
  "auth_stuck e s \<longleftrightarrow>
     errors s \<noteq> [] \<and> last (errors s) = e \<and> structure_analysis_done s \<and>
     pending_agent_gaps s = [] \<and> pending_tool_gaps s = [] \<and>
     (case current_goal s of Some g \<Rightarrow> g_text g \<noteq> [] | None \<Rightarrow> False)"

lemma auth_stuck_classify: "auth_stuck e s \<Longrightarrow> auth_stuck e (classify_node llm now s)"
  by (auto simp: auth_stuck_def classify_node_def Let_def split: option.splits prod.split)

lemma auth_stuck_kept:
  assumes "auth_stuck e s" "node_runs cfg v s s'" "v \<in> auth_loop_nodes"
  shows "auth_stuck e s'"
  using assms(2)
proof (cases rule: node_runs.cases)
  case (run_classify llm now)
  with assms(1) auth_stuck_classify show ?thesis by simp
qed (use assms(1,3) in \<open>auto simp: auth_stuck_def auth_loop_nodes_def small_node_defs plan_node_def
       split: option.splits prod.split\<close>)



text \<open>
  Fact (error): the once-per-run bound of the evolution re-execution is not kept.  The offer
  flag is rewritten only by a cycle in which the engine answers: after a cycle that registered
  a tool, every later cycle whose engine fails (or has no gateway) leaves the old offer in
  place, so the router sends the completed run to \<open>execute\<close> again, any number of times and
  also past the iteration cap.
\<close>

theorem stale_reexecute_offer:
  assumes "evolution_reexecute_tool cfg" "\<not> evolve_reexecute_done s"
    and "errors s = []"
  shows "let s1 = evolve_node cfg (Some (True, True)) s;
             again = ((\<lambda>t. evolve_node cfg None t) ^^ k) s1
         in evolve_reexecute_done s1 \<and> evolve_reexecute_done again \<and>
            route_after_evolve again = ''execute''"
proof -
  let ?s1 = "evolve_node cfg (Some (True, True)) s"
  have "errors (((\<lambda>t. evolve_node cfg None t) ^^ k) ?s1) = [] \<and>
        evolve_reexecute_offered (((\<lambda>t. evolve_node cfg None t) ^^ k) ?s1) \<and>
        evolve_reexecute_done (((\<lambda>t. evolve_node cfg None t) ^^ k) ?s1)"
    using assms by (induction k) (simp_all add: evolve_node_def Let_def)
  then show ?thesis using assms by (simp add: route_after_evolve_def evolve_node_def Let_def)
qed

theorem stale_reexecute_offer_witness:
  "let cfg = default_settings\<lparr>evolution_reexecute_tool := True\<rparr>;
       s1 = evolve_node cfg (Some (True, True)) empty_state;
       again = ((\<lambda>t. evolve_node cfg None t) ^^ 3) s1
   in evolve_reexecute_done s1 \<and> evolve_reexecute_done again \<and>
      route_after_evolve again = ''execute''"
  using stale_reexecute_offer [of "default_settings\<lparr>evolution_reexecute_tool := True\<rparr>" empty_state 3]
  by (simp add: empty_state_def)

text \<open>The label that the phase written by the error handler announces.\<close>

fun phase_label :: "phase_name \<Rightarrow> string" where
  "phase_label P_VERIFY = ''verify''"
| "phase_label P_HITL_GATE = ''hitl_gate''"
| "phase_label P_COMPLETE = ''complete''"
| "phase_label P_CLASSIFY = ''classify''"
| "phase_label _ = ''execute''"

text \<open>
  Fact (equivalence): the error handler and its router classify the same error with different
  priorities.  The phase the node announces is the label the router returns except in three
  cases: a credentials error at the cap (the node declares the task complete and aborted, the
  router restarts it from \<open>classify\<close>), a text that reads both as a rate and as a credentials
  problem below the cap, and one that only mentions an API key below the cap (the node asks
  for re-classification, the router retries).
\<close>

theorem error_node_router_agreement:
  "let e = py_lower (last (errors s));
       atcap = (effective_max_iterations cfg s \<le> iteration_count s);
       auth = (py_in ''auth'' e \<or> py_in ''401'' e \<or> py_in ''403'' e);
       rate = (py_in ''rate'' e \<or> py_in ''429'' e);
       s' = error_handler_node cfg s
   in route_after_error cfg s' = phase_label (phase s') \<longleftrightarrow>
     \<not> (errors s \<noteq> [] \<and> \<not> py_in ''budget'' e \<and>
        (atcap \<and> auth \<and> \<not> rate \<or> \<not> atcap \<and> auth \<and> rate \<or>
         \<not> atcap \<and> py_in ''api key'' e \<and> \<not> auth))"
proof -
  define e where "e = py_lower (last (errors s))"
  define atcap where "atcap = (effective_max_iterations cfg s \<le> iteration_count s)"
  define auth where "auth = (py_in ''auth'' e \<or> py_in ''401'' e \<or> py_in ''403'' e)"
  define rate where "rate = (py_in ''rate'' e \<or> py_in ''429'' e)"
  have eff: "effective_max_iterations cfg (error_handler_node cfg s) = effective_max_iterations cfg s"
    by (simp add: effective_max_iterations_def goal_complexity_def split: option.split)
  have "route_after_error cfg (error_handler_node cfg s) = phase_label (phase (error_handler_node cfg s)) \<longleftrightarrow>
     errors s = [] \<or> py_in ''budget'' e \<or>
     \<not> (atcap \<and> auth \<and> \<not> rate \<or> \<not> atcap \<and> auth \<and> rate \<or> \<not> atcap \<and> py_in ''api key'' e \<and> \<not> auth)"
  proof (cases "errors s = [] \<or> py_in ''budget'' e")
    case True
    then show ?thesis unfolding e_def by (auto simp: route_after_error_def error_handler_node_def Let_def)
  next
    case False
    have ph: "phase (error_handler_node cfg s) =
        (if atcap then P_COMPLETE else if auth \<or> py_in ''api key'' e then P_CLASSIFY else P_EXECUTE)"
      using False unfolding e_def atcap_def auth_def error_handler_node_def Let_def
      by (simp add: any_in_def)
    have rt: "route_after_error cfg (error_handler_node cfg s) =
        (if rate then (if atcap then ''complete'' else ''execute'')
         else if auth then ''classify'' else if atcap then ''complete'' else ''execute'')"
      using False unfolding e_def atcap_def auth_def rate_def route_after_error_def eff Let_def by simp
    show ?thesis using False unfolding ph rt by (cases atcap; cases auth; cases rate; simp)
  qed
  then have "route_after_error cfg (error_handler_node cfg s) = phase_label (phase (error_handler_node cfg s)) \<longleftrightarrow>
     \<not> (errors s \<noteq> [] \<and> \<not> py_in ''budget'' e \<and> (atcap \<and> auth \<and> \<not> rate \<or>
         \<not> atcap \<and> auth \<and> rate \<or> \<not> atcap \<and> py_in ''api key'' e \<and> \<not> auth))" by blast
  then show ?thesis by (simp only: Let_def e_def atcap_def auth_def rate_def)
qed

text \<open>
  Fact (liveness): saturated capability caps cannot keep a run spawning.  When a spawn round is
  blocked by a cap without a new agent and the following tool round creates nothing at the
  tool cap, the counter has grown by two, so with the default threshold the next reflection
  (whatever gaps it finds) goes to \<open>verify\<close>.
\<close>

theorem saturation_breaks_gap_loop:
  assumes "pending_agent_gaps s \<noteq> []" "max_active_sub_agents cfg \<le> population"
    and "0 < cap_loop_break_threshold cfg" "cap_loop_break_threshold cfg \<le> 2"
    and "0 \<le> consecutive_cap_blocks s" "max_active_tools cfg \<le> generated"
    and "\<forall>i g. create i g = None"
    and "gap_to_tool_gap (hd (pending_agent_gaps s)) \<notin> set (attempted_tool_gaps s)"
  shows "let s1 = agent_spawn_node cfg True spawn population s;
             s2 = tool_create_node cfg True create generated s1
         in consecutive_cap_blocks s2 = consecutive_cap_blocks s + 2 \<and>
            route_after_reflect cfg (reflect_node cfg renv s2) = ''verify''"
proof -
  obtain g gs where gaps: "pending_agent_gaps s = g # gs" using assms(1) by (cases "pending_agent_gaps s") auto
  define s1 where "s1 = agent_spawn_node cfg True spawn population s"
  have s1: "pending_tool_gaps s1 = map gap_to_tool_gap (g # gs)"
    "consecutive_cap_blocks s1 = consecutive_cap_blocks s + 1" "attempted_tool_gaps s1 = attempted_tool_gaps s"
    using assms(2) unfolding s1_def by (simp_all add: agent_spawn_node_def gaps stamp_cap_round_def)
  define s2 where "s2 = tool_create_node cfg True create generated s1"
  have none: "List.map_filter (\<lambda>(i, g). create i g) xs = []" for xs
    using assms(7) by (induction xs) (auto simp: map_filter_simps)
  have "consecutive_cap_blocks s2 = consecutive_cap_blocks s + 2"
    using s1 assms(6-8) gaps unfolding s2_def
    by (simp add: tool_create_node_def none stamp_cap_round_def Let_def)
  moreover have "consecutive_cap_blocks (reflect_node cfg renv s2) = consecutive_cap_blocks s2"
    by (simp add: reflect_defs split: reflect_outcome.split)
  ultimately show ?thesis
    using assms(3,4,5) unfolding s1_def [symmetric] s2_def [symmetric] Let_def
    by (simp add: route_after_reflect_def s2_def [symmetric])
qed

theorem saturation_breaks_gap_loop_witness:
  "let s = empty_state\<lparr>pending_agent_gaps := [''csv'']\<rparr>;
       s1 = agent_spawn_node default_settings True (\<lambda>k g. None) 60 s;
       s2 = tool_create_node default_settings True (\<lambda>i g. None) 25 s1;
       renv = \<lparr>re_extract = \<lambda>_. None, re_on_disk = \<lambda>_. False, re_has_tools = False,
               re_registered = \<lambda>_. True, re_uniq = \<lambda>x. x, re_outcome = Heuristic\<rparr>
   in consecutive_cap_blocks s2 = consecutive_cap_blocks s + 2 \<and>
      route_after_reflect default_settings (reflect_node default_settings renv s2) = ''verify''"
  unfolding Let_def
  by (rule saturation_breaks_gap_loop [unfolded Let_def]) (simp_all add: empty_state_def default_settings_def)

end
