(* ===== verification/Call_Gate.thy ===== *)
theory Call_Gate
  imports Prelude
begin

text \<open>
  The interface between the LLM gateway and the two per-provider gates in front of
  every attempt (circuit breaker and latency gate).  The gateway relies on three things:
  a gate raises exactly when it blocks the provider, a refusal does not unblock the
  provider at that instant, and consulting one provider says nothing about another.
\<close>

section \<open>Walking a fallback chain through a gate\<close>

text \<open>
  The skeleton of the fallback loop: consult the gate for each entry (the time of the
  consultation and its provider), go on to the next one when it refuses, stop at the
  first admission.
\<close>

fun first_admitted ::
  "('t \<Rightarrow> string \<Rightarrow> 's \<Rightarrow> ('e + unit) \<times> 's) \<Rightarrow> ('t \<times> string) list \<Rightarrow> 's
    \<Rightarrow> string option \<times> 's" where
  "first_admitted gate [] s = (None, s)"
| "first_admitted gate ((now, p) # rest) s =
     (case gate now p s of
        (Inl e, s') \<Rightarrow> first_admitted gate rest s'
      | (Inr _, s') \<Rightarrow> (Some p, s'))"

section \<open>The contract\<close>

locale call_gate =
  fixes gate :: "'t \<Rightarrow> string \<Rightarrow> 's \<Rightarrow> ('e + unit) \<times> 's"
    and blocked :: "'t \<Rightarrow> string \<Rightarrow> 's \<Rightarrow> bool"
  assumes refuses_iff: "isl (fst (gate now p s)) \<longleftrightarrow> blocked now p s"
    and refusal_stays: "blocked now p s \<Longrightarrow> blocked now p (snd (gate now p s))"
    and others_kept: "p \<noteq> q \<Longrightarrow> blocked t q (snd (gate now p s)) \<longleftrightarrow> blocked t q s"
begin

lemma admits_iff: "(\<exists>s'. gate now p s = (Inr (), s')) \<longleftrightarrow> \<not> blocked now p s"
  using refuses_iff [of now p s] by (cases "gate now p s"; cases "fst (gate now p s)") auto

lemma refused_cases:
  assumes "blocked now p s"
  obtains e s' where "gate now p s = (Inl e, s')" "blocked now p s'"
  using assms refuses_iff [of now p s] refusal_stays [of now p s]
  by (cases "gate now p s"; cases "fst (gate now p s)") auto

lemma blocked_list_kept:
  assumes g: "gate t q s = (r, s')" and ne: "\<forall>x \<in> set xs. snd x \<noteq> q"
  shows "(\<forall>x \<in> set xs. blocked (fst x) (snd x) s') \<longleftrightarrow> (\<forall>x \<in> set xs. blocked (fst x) (snd x) s)"
proof (rule ball_cong [OF refl])
  fix x assume "x \<in> set xs"
  with ne have "q \<noteq> snd x" by auto
  from others_kept [OF this, of "fst x" t s] g
  show "blocked (fst x) (snd x) s' \<longleftrightarrow> blocked (fst x) (snd x) s" by simp
qed

lemma first_admitted_Some:
  assumes "distinct (map snd ch)"
    and "fst (first_admitted gate ch s) = Some p"
  shows "\<exists>pre now post. ch = pre @ (now, p) # post \<and> \<not> blocked now p s \<and>
           (\<forall>x \<in> set pre. blocked (fst x) (snd x) s)"
  using assms
proof (induction ch arbitrary: s)
  case Nil
  then show ?case by simp
next
  case (Cons c rest)
  obtain t q where c: "c = (t, q)" by (cases c)
  show ?case
  proof (cases "blocked t q s")
    case False
    with admits_iff [of t q s] obtain s' where g: "gate t q s = (Inr (), s')" by blast
    with Cons.prems c have "p = q" by simp
    with False c show ?thesis by (intro exI [of _ "[]"]) auto
  next
    case True
    then obtain e s' where g: "gate t q s = (Inl e, s')" by (rule refused_cases)
    with Cons.prems c have "fst (first_admitted gate rest s') = Some p" by simp
    with Cons.IH [of s'] Cons.prems(1) obtain pre now post where
      rest: "rest = pre @ (now, p) # post" and nb: "\<not> blocked now p s'"
      and pre: "\<forall>x \<in> set pre. blocked (fst x) (snd x) s'" by auto
    from Cons.prems(1) c rest have ne: "p \<noteq> q" and "\<forall>x \<in> set pre. snd x \<noteq> q" by auto
    then have "\<forall>x \<in> set pre. blocked (fst x) (snd x) s"
      using blocked_list_kept [OF g] pre by blast
    moreover from others_kept [of q p now t s] g ne nb have "\<not> blocked now p s" by simp
    ultimately show ?thesis using rest c True by (intro exI [of _ "(t, q) # pre"]) simp
  qed
qed

lemma first_admitted_None:
  assumes "distinct (map snd ch)"
    and "fst (first_admitted gate ch s) = None"
  shows "\<forall>x \<in> set ch. blocked (fst x) (snd x) s"
  using assms
proof (induction ch arbitrary: s)
  case Nil
  then show ?case by simp
next
  case (Cons c rest)
  obtain t q where c: "c = (t, q)" by (cases c)
  have bl: "blocked t q s"
  proof (rule ccontr)
    assume "\<not> blocked t q s"
    with admits_iff [of t q s] obtain s' where "gate t q s = (Inr (), s')" by blast
    with Cons.prems c show False by simp
  qed
  then obtain e s' where g: "gate t q s = (Inl e, s')" by (rule refused_cases)
  with Cons c have "\<forall>x \<in> set rest. blocked (fst x) (snd x) s'" by simp
  moreover from Cons.prems(1) c have "\<forall>x \<in> set rest. snd x \<noteq> q" by auto
  ultimately have "\<forall>x \<in> set rest. blocked (fst x) (snd x) s"
    using blocked_list_kept [OF g] by blast
  with bl c show ?case by simp
qed

end

text \<open>
  A gate that recovers on its own: from some instant on, a provider that nobody calls in
  the meantime is admitted again.
\<close>

locale recovering_gate = call_gate gate blocked
  for gate :: "real \<Rightarrow> string \<Rightarrow> 's \<Rightarrow> ('e + unit) \<times> 's" and blocked +
  fixes free_from :: "string \<Rightarrow> 's \<Rightarrow> real"
  assumes recovers: "free_from p s \<le> now \<Longrightarrow> \<not> blocked now p s"
begin

lemma some_admitted:
  assumes "distinct (map snd ch)"
    and "(now, p) \<in> set ch" and "free_from p s \<le> now"
  shows "fst (first_admitted gate ch s) \<noteq> None"
  using first_admitted_None [OF assms(1), of s] recovers [OF assms(3)] assms(2) by fastforce

end

section \<open>Two gates in front of one call\<close>

text \<open>
  The gateway consults the circuit breaker, then the latency gate; the second consultation
  has its own clock reading and happens only after the first one admitted.  A refusal by the
  second gate leaves behind what the admission did to the first.
\<close>

definition seq_gate ::
  "('t \<Rightarrow> string \<Rightarrow> 's \<Rightarrow> ('e + unit) \<times> 's) \<Rightarrow> ('u \<Rightarrow> string \<Rightarrow> 'r \<Rightarrow> ('f + unit) \<times> 'r)
    \<Rightarrow> 't \<times> 'u \<Rightarrow> string \<Rightarrow> 's \<times> 'r \<Rightarrow> (('e + 'f) + unit) \<times> 's \<times> 'r" where
  "seq_gate g1 g2 ts p s =
     (case g1 (fst ts) p (fst s) of
        (Inl e, s1) \<Rightarrow> (Inl (Inl e), s1, snd s)
      | (Inr _, s1) \<Rightarrow>
          (case g2 (snd ts) p (snd s) of
             (Inl e, s2) \<Rightarrow> (Inl (Inr e), s1, s2)
           | (Inr _, s2) \<Rightarrow> (Inr (), s1, s2)))"

definition seq_blocked ::
  "('t \<Rightarrow> string \<Rightarrow> 's \<Rightarrow> bool) \<Rightarrow> ('u \<Rightarrow> string \<Rightarrow> 'r \<Rightarrow> bool) \<Rightarrow> 't \<times> 'u \<Rightarrow> string \<Rightarrow> 's \<times> 'r \<Rightarrow> bool"
  where "seq_blocked b1 b2 ts p s \<longleftrightarrow> b1 (fst ts) p (fst s) \<or> b2 (snd ts) p (snd s)"

locale two_gates =
  first: call_gate g1 b1 + second: call_gate g2 b2
  for g1 :: "'t \<Rightarrow> string \<Rightarrow> 's \<Rightarrow> ('e + unit) \<times> 's" and b1
    and g2 :: "'u \<Rightarrow> string \<Rightarrow> 'r \<Rightarrow> ('f + unit) \<times> 'r" and b2
begin

lemma first_cases:
  "(\<exists>e s1. g1 t p s = (Inl e, s1) \<and> b1 t p s) \<or> (\<exists>s1. g1 t p s = (Inr (), s1) \<and> \<not> b1 t p s)"
  using first.admits_iff [of t p s] by (cases "b1 t p s") (auto elim: first.refused_cases)

lemma second_cases:
  "(\<exists>e s2. g2 t p s = (Inl e, s2) \<and> b2 t p s) \<or> (\<exists>s2. g2 t p s = (Inr (), s2) \<and> \<not> b2 t p s)"
  using second.admits_iff [of t p s] by (cases "b2 t p s") (auto elim: second.refused_cases)

end

sublocale two_gates \<subseteq> both: call_gate "seq_gate g1 g2" "seq_blocked b1 b2"
proof unfold_locales
  fix ts p s
  show "isl (fst (seq_gate g1 g2 ts p s)) \<longleftrightarrow> seq_blocked b1 b2 ts p s"
    using first_cases [of "fst ts" p "fst s"] second_cases [of "snd ts" p "snd s"]
    by (auto simp: seq_gate_def seq_blocked_def)
next
  fix ts p s
  show "seq_blocked b1 b2 ts p s \<Longrightarrow> seq_blocked b1 b2 ts p (snd (seq_gate g1 g2 ts p s))"
    using first_cases [of "fst ts" p "fst s"] second_cases [of "snd ts" p "snd s"]
      first.refusal_stays [of "fst ts" p "fst s"] second.refusal_stays [of "snd ts" p "snd s"]
    by (auto simp: seq_gate_def seq_blocked_def)
next
  fix p q ts t s
  show "p \<noteq> q \<Longrightarrow> seq_blocked b1 b2 t q (snd (seq_gate g1 g2 ts p s)) \<longleftrightarrow> seq_blocked b1 b2 t q s"
    using first_cases [of "fst ts" p "fst s"] second_cases [of "snd ts" p "snd s"]
      first.others_kept [of p q "fst t" "fst ts" "fst s"]
      second.others_kept [of p q "snd t" "snd ts" "snd s"]
    by (auto simp: seq_gate_def seq_blocked_def)
qed

end
