(* ===== verification/Circuit_Breaker.thy ===== *)
theory Circuit_Breaker
  imports Call_Gate
begin

text \<open>
  The per-provider circuit breaker of \<open>src/src/llm/circuit_breaker.py\<close>.

  \<open>provider_state\<close> is \<open>_ProviderState\<close>, \<open>breaker\<close> is \<open>CircuitBreaker\<close> (the
  \<open>_states\<close> dictionary is a map; the asyncio lock makes each public coroutine one
  atomic step, so an operation is a function from breaker to breaker).  The clock
  \<open>time.monotonic()\<close> is the argument \<open>now\<close>.  A raised
  \<open>CircuitBreakerOpenError\<close> is the \<open>Inl\<close> branch of \<open>cb_before_call\<close>; because the code may
  have changed the state before raising, the new breaker is returned in both branches.
  Log lines and the Prometheus counter (which never affects the state) are left out.
\<close>

section \<open>State\<close>

datatype circuit_state = CLOSED | OPEN | HALF_OPEN

record provider_state =
  cb_state :: circuit_state
  failure_count :: int
  opened_at :: real
  half_open_in_flight :: int

definition new_provider_state :: provider_state where
  "new_provider_state =
     \<lparr>cb_state = CLOSED, failure_count = 0, opened_at = 0, half_open_in_flight = 0\<rparr>"

record breaker =
  failure_threshold :: int
  recovery_timeout :: real
  half_open_max_calls :: int
  cb_states :: "string \<Rightarrow> provider_state option"

definition new_breaker :: "int \<Rightarrow> real \<Rightarrow> int \<Rightarrow> breaker" where
  "new_breaker threshold timeout max_calls =
     \<lparr>failure_threshold = threshold, recovery_timeout = timeout,
      half_open_max_calls = max_calls, cb_states = (\<lambda>_. None)\<rparr>"

datatype breaker_error = CircuitBreakerOpenError string

section \<open>Operations\<close>

definition cb_peek :: "breaker \<Rightarrow> string \<Rightarrow> provider_state" where
  "cb_peek b p = (case cb_states b p of None \<Rightarrow> new_provider_state | Some s \<Rightarrow> s)"

definition cb_put :: "breaker \<Rightarrow> string \<Rightarrow> provider_state \<Rightarrow> breaker" where
  "cb_put b p s = b\<lparr>cb_states := (cb_states b)(p \<mapsto> s)\<rparr>"

text \<open>\<open>_get_state\<close> creates and stores a fresh entry for an unknown provider.\<close>

definition cb_get_or_create :: "breaker \<Rightarrow> string \<Rightarrow> provider_state \<times> breaker" where
  "cb_get_or_create b p = (cb_peek b p, cb_put b p (cb_peek b p))"

definition cb_get_state :: "breaker \<Rightarrow> string \<Rightarrow> circuit_state \<times> breaker" where
  "cb_get_state b p = (let (s, b') = cb_get_or_create b p in (cb_state s, b'))"

definition cb_transition :: "real \<Rightarrow> provider_state \<Rightarrow> circuit_state \<Rightarrow> provider_state" where
  "cb_transition now s new_state =
     (let s = s\<lparr>cb_state := new_state\<rparr> in
      if new_state = CLOSED
      then s\<lparr>failure_count := 0, opened_at := 0, half_open_in_flight := 0\<rparr>
      else if new_state = OPEN
      then s\<lparr>opened_at := now, half_open_in_flight := 0\<rparr>
      else s)"

text \<open>The last part of \<open>cb_before_call\<close>: admit up to \<open>half_open_max_calls\<close> probes.\<close>

definition admit_probe ::
  "breaker \<Rightarrow> string \<Rightarrow> provider_state \<Rightarrow> (breaker_error + unit) \<times> breaker" where
  "admit_probe b p s =
     (if half_open_in_flight s \<ge> half_open_max_calls b
      then (Inl (CircuitBreakerOpenError p), cb_put b p s)
      else (Inr (), cb_put b p (s\<lparr>half_open_in_flight := half_open_in_flight s + 1\<rparr>)))"

definition cb_before_call :: "real \<Rightarrow> string \<Rightarrow> breaker \<Rightarrow> (breaker_error + unit) \<times> breaker" where
  "cb_before_call now p b =
     (let (s, b) = cb_get_or_create b p in
      case cb_state s of
        CLOSED \<Rightarrow> (Inr (), b)
      | OPEN \<Rightarrow>
          (if now - opened_at s < recovery_timeout b
           then (Inl (CircuitBreakerOpenError p), b)
           else admit_probe b p (cb_transition now s HALF_OPEN))
      | HALF_OPEN \<Rightarrow> admit_probe b p s)"

definition cb_record_success :: "real \<Rightarrow> string \<Rightarrow> breaker \<Rightarrow> breaker" where
  "cb_record_success now p b =
     (let (s, b) = cb_get_or_create b p in
      if cb_state s = HALF_OPEN
      then cb_put b p (cb_transition now s CLOSED)
      else cb_put b p (s\<lparr>failure_count := 0, half_open_in_flight := 0\<rparr>))"

definition cb_record_failure :: "real \<Rightarrow> bool \<Rightarrow> string \<Rightarrow> breaker \<Rightarrow> breaker" where
  "cb_record_failure now transient p b =
     (let (s, b) = cb_get_or_create b p in
      if cb_state s = HALF_OPEN then cb_put b p (cb_transition now s OPEN)
      else if \<not> transient then b
      else
        let s = s\<lparr>failure_count := failure_count s + 1\<rparr> in
        if cb_state s = CLOSED \<and> failure_count s \<ge> failure_threshold b
        then cb_put b p (cb_transition now s OPEN)
        else cb_put b p s)"

section \<open>One provider at a time\<close>

lemmas cb_defs = cb_get_or_create_def cb_put_def cb_peek_def admit_probe_def
  cb_before_call_def cb_record_success_def cb_record_failure_def cb_transition_def

lemma cb_peek_put [simp]: "cb_peek (cb_put b p s) q = (if q = p then s else cb_peek b q)"
  by (simp add: cb_peek_def cb_put_def)

lemma cb_put_settings [simp]:
  "failure_threshold (cb_put b p s) = failure_threshold b"
  "recovery_timeout (cb_put b p s) = recovery_timeout b"
  "half_open_max_calls (cb_put b p s) = half_open_max_calls b"
  by (simp_all add: cb_put_def)

lemma cb_transition_simps [simp]:
  "cb_transition now s CLOSED = \<lparr>cb_state = CLOSED, failure_count = 0, opened_at = 0,
     half_open_in_flight = 0, \<dots> = provider_state.more s\<rparr>"
  "cb_transition now s OPEN = s\<lparr>cb_state := OPEN, opened_at := now, half_open_in_flight := 0\<rparr>"
  "cb_transition now s HALF_OPEN = s\<lparr>cb_state := HALF_OPEN\<rparr>"
  by (simp_all add: cb_transition_def)

text \<open>Whether \<open>cb_before_call\<close> raises, read off the provider's state.\<close>

definition cb_blocked :: "real \<Rightarrow> string \<Rightarrow> breaker \<Rightarrow> bool" where
  "cb_blocked now p b =
     (let s = cb_peek b p in
      case cb_state s of
        CLOSED \<Rightarrow> False
      | OPEN \<Rightarrow> now - opened_at s < recovery_timeout b \<or>
                half_open_max_calls b \<le> half_open_in_flight s
      | HALF_OPEN \<Rightarrow> half_open_max_calls b \<le> half_open_in_flight s)"

lemma cb_before_call_peek:
  "cb_peek (snd (cb_before_call now p b)) q = (if q = p then
     (let s = cb_peek b p in
      case cb_state s of
        CLOSED \<Rightarrow> s
      | OPEN \<Rightarrow>
         (if now - opened_at s < recovery_timeout b then s
          else if half_open_max_calls b \<le> half_open_in_flight s then s\<lparr>cb_state := HALF_OPEN\<rparr>
          else s\<lparr>cb_state := HALF_OPEN, half_open_in_flight := half_open_in_flight s + 1\<rparr>)
      | HALF_OPEN \<Rightarrow>
         (if half_open_max_calls b \<le> half_open_in_flight s then s
          else s\<lparr>half_open_in_flight := half_open_in_flight s + 1\<rparr>))
     else cb_peek b q)"
  by (simp add: cb_before_call_def cb_get_or_create_def admit_probe_def Let_def
      split: circuit_state.splits)

lemma cb_before_call_settings [simp]:
  "failure_threshold (snd (cb_before_call now p b)) = failure_threshold b"
  "recovery_timeout (snd (cb_before_call now p b)) = recovery_timeout b"
  "half_open_max_calls (snd (cb_before_call now p b)) = half_open_max_calls b"
  by (simp_all add: cb_before_call_def cb_get_or_create_def admit_probe_def Let_def
      split: circuit_state.splits)

lemma cb_record_settings [simp]:
  "failure_threshold (cb_record_success now p b) = failure_threshold b"
  "recovery_timeout (cb_record_success now p b) = recovery_timeout b"
  "half_open_max_calls (cb_record_success now p b) = half_open_max_calls b"
  "failure_threshold (cb_record_failure now tr p b) = failure_threshold b"
  "recovery_timeout (cb_record_failure now tr p b) = recovery_timeout b"
  "half_open_max_calls (cb_record_failure now tr p b) = half_open_max_calls b"
  by (simp_all add: cb_record_success_def cb_record_failure_def cb_get_or_create_def Let_def)

lemma cb_refuses_iff: "isl (fst (cb_before_call now p b)) \<longleftrightarrow> cb_blocked now p b"
  by (auto simp: cb_before_call_def cb_get_or_create_def admit_probe_def cb_blocked_def Let_def
      split: circuit_state.splits)

lemma cb_refusal_value:
  "cb_blocked now p b \<Longrightarrow> fst (cb_before_call now p b) = Inl (CircuitBreakerOpenError p)"
  by (auto simp: cb_before_call_def cb_get_or_create_def admit_probe_def cb_blocked_def Let_def
      split: circuit_state.splits if_splits)

interpretation cb: call_gate cb_before_call cb_blocked
proof unfold_locales
  fix now p b
  show "isl (fst (cb_before_call now p b)) \<longleftrightarrow> cb_blocked now p b"
    by (rule cb_refuses_iff)
  show "cb_blocked now p b \<Longrightarrow> cb_blocked now p (snd (cb_before_call now p b))"
    by (auto simp: cb_blocked_def cb_before_call_peek Let_def split: circuit_state.splits)
next
  fix p q t now b
  show "p \<noteq> q \<Longrightarrow> cb_blocked t q (snd (cb_before_call now p b)) \<longleftrightarrow> cb_blocked t q b"
    by (simp add: cb_blocked_def cb_before_call_peek Let_def split: circuit_state.split)
qed

section \<open>Histories of a breaker\<close>

text \<open>
  A history is the sequence of operations the gateway performs, with the clock reading of
  each; the lock serialises them.
\<close>

datatype cb_event = Before real string | Success real string | Failure real bool string

fun cb_provider :: "cb_event \<Rightarrow> string" where
  "cb_provider (Before _ p) = p"
| "cb_provider (Success _ p) = p"
| "cb_provider (Failure _ _ p) = p"

fun cb_step :: "cb_event \<Rightarrow> breaker \<Rightarrow> breaker" where
  "cb_step (Before now p) b = snd (cb_before_call now p b)"
| "cb_step (Success now p) b = cb_record_success now p b"
| "cb_step (Failure now tr p) b = cb_record_failure now tr p b"

definition cb_run :: "cb_event list \<Rightarrow> breaker \<Rightarrow> breaker" where
  "cb_run evs b = fold cb_step evs b"

lemma cb_run_simps [simp]:
  "cb_run [] b = b" "cb_run (e # es) b = cb_run es (cb_step e b)"
  "cb_run (es @ es') b = cb_run es' (cb_run es b)"
  by (simp_all add: cb_run_def)

lemma cb_step_settings [simp]:
  "failure_threshold (cb_step e b) = failure_threshold b"
  "recovery_timeout (cb_step e b) = recovery_timeout b"
  "half_open_max_calls (cb_step e b) = half_open_max_calls b"
  by (cases e; simp)+

lemma cb_run_settings [simp]:
  "failure_threshold (cb_run es b) = failure_threshold b"
  "recovery_timeout (cb_run es b) = recovery_timeout b"
  "half_open_max_calls (cb_run es b) = half_open_max_calls b"
  by (induction es arbitrary: b) auto

lemma new_breaker_simps [simp]:
  "cb_peek (new_breaker th rt mc) p = new_provider_state"
  "failure_threshold (new_breaker th rt mc) = th"
  "recovery_timeout (new_breaker th rt mc) = rt"
  "half_open_max_calls (new_breaker th rt mc) = mc"
  by (simp_all add: new_breaker_def cb_peek_def)

lemma cb_record_success_peek:
  "cb_peek (cb_record_success now p b) q = (if q = p then
     (let s = cb_peek b p in
      if cb_state s = HALF_OPEN then cb_transition now s CLOSED
      else s\<lparr>failure_count := 0, half_open_in_flight := 0\<rparr>)
     else cb_peek b q)"
  by (simp add: cb_record_success_def cb_get_or_create_def Let_def)

lemma cb_record_failure_peek:
  "cb_peek (cb_record_failure now tr p b) q = (if q = p then
     (let s = cb_peek b p in
      if cb_state s = HALF_OPEN then cb_transition now s OPEN
      else if \<not> tr then s
      else
        let s' = s\<lparr>failure_count := failure_count s + 1\<rparr> in
        if cb_state s' = CLOSED \<and> failure_count s' \<ge> failure_threshold b
        then cb_transition now s' OPEN else s')
     else cb_peek b q)"
  by (simp add: cb_record_failure_def cb_get_or_create_def Let_def)

lemmas cb_peek_simps = cb_before_call_peek cb_record_success_peek cb_record_failure_peek

lemma cb_step_other: "p \<noteq> cb_provider e \<Longrightarrow> cb_peek (cb_step e b) p = cb_peek b p"
  by (cases e) (simp_all add: cb_peek_simps)

section \<open>The invariant\<close>

definition cb_ps_inv :: "breaker \<Rightarrow> provider_state \<Rightarrow> bool" where
  "cb_ps_inv b s \<longleftrightarrow> 0 \<le> failure_count s \<and>
     (case cb_state s of
        CLOSED \<Rightarrow> failure_count s < failure_threshold b \<and> half_open_in_flight s = 0
      | OPEN \<Rightarrow> half_open_in_flight s = 0
      | HALF_OPEN \<Rightarrow> 1 \<le> half_open_in_flight s \<and> half_open_in_flight s \<le> half_open_max_calls b)"

definition cb_inv :: "breaker \<Rightarrow> bool" where
  "cb_inv b \<longleftrightarrow> 1 \<le> failure_threshold b \<and> 1 \<le> half_open_max_calls b \<and>
     (\<forall>p. cb_ps_inv b (cb_peek b p))"

lemma cb_inv_new: "1 \<le> th \<Longrightarrow> 1 \<le> mc \<Longrightarrow> cb_inv (new_breaker th rt mc)"
  by (simp add: cb_inv_def cb_ps_inv_def new_provider_state_def)

lemma cb_inv_step: "cb_inv b \<Longrightarrow> cb_inv (cb_step e b)"
  unfolding cb_inv_def
proof (intro conjI allI; (elim conjE)?)
  fix p
  assume th: "1 \<le> failure_threshold b" and mc: "1 \<le> half_open_max_calls b"
    and inv: "\<forall>p. cb_ps_inv b (cb_peek b p)"
  from inv have p: "cb_ps_inv b (cb_peek b p)" by blast
  show "cb_ps_inv (cb_step e b) (cb_peek (cb_step e b) p)"
  proof (cases "p = cb_provider e")
    case False
    with p show ?thesis by (simp add: cb_step_other cb_ps_inv_def split: circuit_state.splits)
  next
    case True
    with p th mc show ?thesis
      by (cases e) (auto simp: cb_peek_simps cb_ps_inv_def Let_def split: circuit_state.splits)
  qed
qed auto

lemma cb_inv_run: "cb_inv b \<Longrightarrow> cb_inv (cb_run es b)"
  by (induction es arbitrary: b) (auto intro: cb_inv_step)

section \<open>Properties\<close>

text \<open>
  Fact (bounds): from a fresh breaker with a positive threshold and probe limit, no history
  ever lets more than \<open>half_open_max_calls\<close> probes run at once, an OPEN or CLOSED provider
  has none in flight, and a CLOSED provider has fewer failures than the threshold.
\<close>

theorem cb_history_bounds:
  assumes "1 \<le> th" and "1 \<le> mc"
  shows "let s = cb_peek (cb_run es (new_breaker th rt mc)) p in
           0 \<le> half_open_in_flight s \<and> half_open_in_flight s \<le> mc \<and>
           (cb_state s \<noteq> HALF_OPEN \<longrightarrow> half_open_in_flight s = 0) \<and>
           (cb_state s = CLOSED \<longrightarrow> 0 \<le> failure_count s \<and> failure_count s < th)"
proof -
  have "cb_ps_inv (cb_run es (new_breaker th rt mc)) (cb_peek (cb_run es (new_breaker th rt mc)) p)"
    using cb_inv_run [OF cb_inv_new [OF assms], of es rt] by (simp add: cb_inv_def)
  with assms show ?thesis
    by (cases "cb_state (cb_peek (cb_run es (new_breaker th rt mc)) p)")
      (simp_all add: cb_ps_inv_def)
qed

theorem cb_history_bounds_witness:
  "let s = cb_peek (cb_run [Failure 1 True ''openai'', Failure 2 True ''openai'', Before 70 ''openai'',
                            Before 71 ''openai''] (new_breaker 2 60 1)) ''openai'' in
     0 \<le> half_open_in_flight s \<and> half_open_in_flight s \<le> 1 \<and>
     (cb_state s \<noteq> HALF_OPEN \<longrightarrow> half_open_in_flight s = 0) \<and>
     (cb_state s = CLOSED \<longrightarrow> 0 \<le> failure_count s \<and> failure_count s < 2)"
  by (rule cb_history_bounds) simp_all

subsection \<open>Refinement of a breaker without redundant counters\<close>

text \<open>
  What a provider's breaker promises, without the fields that do not matter in the current
  state: the number of consecutive transient failures when closed, the opening time when
  open, the number of probes when half-open.
\<close>

datatype abs_breaker = A_Closed int | A_Open real | A_Half int

fun abs_provider :: "provider_state \<Rightarrow> abs_breaker" where
  "abs_provider s =
     (case cb_state s of CLOSED \<Rightarrow> A_Closed (failure_count s)
      | OPEN \<Rightarrow> A_Open (opened_at s)
      | HALF_OPEN \<Rightarrow> A_Half (half_open_in_flight s))"

fun abs_step :: "int \<Rightarrow> real \<Rightarrow> int \<Rightarrow> cb_event \<Rightarrow> abs_breaker \<Rightarrow> abs_breaker" where
  "abs_step th rt mc (Before now _) (A_Closed n) = A_Closed n"
| "abs_step th rt mc (Before now _) (A_Open t) = (if now - t < rt then A_Open t else A_Half 1)"
| "abs_step th rt mc (Before now _) (A_Half k) = (if mc \<le> k then A_Half k else A_Half (k + 1))"
| "abs_step th rt mc (Success now _) (A_Closed n) = A_Closed 0"
| "abs_step th rt mc (Success now _) (A_Open t) = A_Open t"
| "abs_step th rt mc (Success now _) (A_Half k) = A_Closed 0"
| "abs_step th rt mc (Failure now tr _) (A_Closed n) =
     (if \<not> tr then A_Closed n else if th \<le> n + 1 then A_Open now else A_Closed (n + 1))"
| "abs_step th rt mc (Failure now tr _) (A_Open t) = A_Open t"
| "abs_step th rt mc (Failure now tr _) (A_Half k) = A_Open now"

definition abs_run ::
  "int \<Rightarrow> real \<Rightarrow> int \<Rightarrow> string \<Rightarrow> cb_event list \<Rightarrow> abs_breaker \<Rightarrow> abs_breaker" where
  "abs_run th rt mc p es a = fold (abs_step th rt mc) (filter (\<lambda>e. cb_provider e = p) es) a"

lemma abs_simulation:
  assumes "cb_inv b"
  shows "abs_provider (cb_peek (cb_step e b) p) =
    (if cb_provider e = p
     then abs_step (failure_threshold b) (recovery_timeout b) (half_open_max_calls b) e
            (abs_provider (cb_peek b p))
     else abs_provider (cb_peek b p))"
proof (cases "cb_provider e = p")
  case False
  then show ?thesis by (simp add: cb_step_other del: abs_provider.simps)
next
  case True
  from assms have "cb_ps_inv b (cb_peek b p)" and "1 \<le> half_open_max_calls b"
    by (auto simp: cb_inv_def)
  with True show ?thesis
    by (cases e; cases "cb_state (cb_peek b p)") (auto simp: cb_peek_simps cb_ps_inv_def Let_def)
qed

lemma abs_simulation_run:
  "cb_inv b \<Longrightarrow> abs_provider (cb_peek (cb_run es b) p) =
     abs_run (failure_threshold b) (recovery_timeout b) (half_open_max_calls b) p es
       (abs_provider (cb_peek b p))"
proof (induction es arbitrary: b)
  case Nil
  then show ?case by (simp add: abs_run_def)
next
  case (Cons e es)
  from Cons.IH [OF cb_inv_step [OF Cons.prems, of e]] show ?case
    using abs_simulation [OF Cons.prems, of e p]
    by (auto simp: abs_run_def simp del: abs_provider.simps)
qed

text \<open>
  C34 (refinement): every history of a fresh breaker, seen at one provider, is a run of the
  abstract breaker on the events of that provider alone: opening needs \<open>threshold\<close>
  transient failures in a row since the last success, an open breaker only leaves OPEN
  through a probe after the recovery time, and other providers do not interfere.
\<close>

theorem cb_refines_abstract:
  assumes "1 \<le> th" and "1 \<le> mc"
  shows "abs_provider (cb_peek (cb_run es (new_breaker th rt mc)) p) =
           abs_run th rt mc p es (A_Closed 0)"
  using abs_simulation_run [OF cb_inv_new [OF assms], of es rt p]
  by (simp add: new_provider_state_def)

theorem cb_refines_abstract_witness:
  "abs_provider (cb_peek (cb_run [Failure 1 True ''zai'', Success 2 ''groq'', Failure 3 True ''zai'']
     (new_breaker 2 60 1)) ''zai'') = A_Open 3"
  using cb_refines_abstract [of 2 1 "[Failure 1 True ''zai'', Success 2 ''groq'', Failure 3 True ''zai'']" 60 "''zai''"]
  by (simp add: abs_run_def)

subsection \<open>Opening, staying open, recovering\<close>

lemma abs_failures_count:
  "n + int (length ts) < th \<Longrightarrow>
   fold (abs_step th rt mc) (map (\<lambda>t. Failure t True p) ts) (A_Closed n) = A_Closed (n + int (length ts))"
  by (induction ts arbitrary: n) auto

text \<open>
  Fact (functional): starting fresh, the provider trips exactly at its threshold: after fewer
  than \<open>th\<close> transient failures in a row it is still CLOSED and admits calls; the
  \<open>th\<close>-th one opens it, stamped with its own clock reading.
\<close>

theorem cb_trips_at_threshold:
  assumes "1 \<le> th" and "1 \<le> mc"
  shows "(int (length ts) < th \<longrightarrow>
           \<not> cb_blocked now p (cb_run (map (\<lambda>t. Failure t True p) ts) (new_breaker th rt mc))) \<and>
         (int (length ts) = th - 1 \<longrightarrow>
           abs_provider (cb_peek (cb_run (map (\<lambda>t. Failure t True p) (ts @ [now]))
             (new_breaker th rt mc)) p) = A_Open now)"
proof -
  let ?run = "\<lambda>ts. cb_run (map (\<lambda>t. Failure t True p) ts) (new_breaker th rt mc)"
  have run: "abs_provider (cb_peek (?run ts) p) =
      fold (abs_step th rt mc) (map (\<lambda>t. Failure t True p) ts) (A_Closed 0)" for ts
    using abs_simulation_run [OF cb_inv_new [OF assms], of "map (\<lambda>t. Failure t True p) ts" rt p]
    by (simp add: abs_run_def filter_map comp_def new_provider_state_def)
  have "\<not> cb_blocked now p (?run ts)" if "int (length ts) < th"
  proof -
    from that run [of ts] abs_failures_count [of 0 ts th rt mc p]
    have "cb_state (cb_peek (?run ts) p) = CLOSED" by (simp split: circuit_state.splits)
    then show ?thesis by (simp add: cb_blocked_def)
  qed
  moreover have "abs_provider (cb_peek (?run (ts @ [now])) p) = A_Open now"
    if "int (length ts) = th - 1"
    using that run [of "ts @ [now]"] abs_failures_count [of 0 ts th rt mc p]
    by (simp del: abs_provider.simps)
  ultimately show ?thesis by blast
qed

theorem cb_trips_at_threshold_witness:
  "\<not> cb_blocked 9 ''groq'' (cb_run (map (\<lambda>t. Failure t True ''groq'') [1, 2]) (new_breaker 3 60 1)) \<and>
   abs_provider (cb_peek (cb_run (map (\<lambda>t. Failure t True ''groq'') ([1, 2] @ [3])) (new_breaker 3 60 1))
     ''groq'') = A_Open 3"
  using cb_trips_at_threshold [of 3 1 "[1, 2]" 9 "''groq''" 60]
    cb_trips_at_threshold [of 3 1 "[1, 2]" 3 "''groq''" 60] by simp

lemma cb_stays_closed_step:
  assumes "cb_state (cb_peek b p) = CLOSED"
    and "\<And>now. e \<noteq> Failure now True p"
  shows "cb_state (cb_peek (cb_step e b) p) = CLOSED"
proof (cases "p = cb_provider e")
  case False
  with assms(1) show ?thesis by (simp add: cb_step_other)
next
  case True
  with assms show ?thesis by (cases e) (auto simp: cb_peek_simps Let_def)
qed

text \<open>
  Fact (safety): authentication and validation failures never trip the breaker: as long as no
  \<^emph>\<open>transient\<close> failure of the provider is recorded, every history leaves it CLOSED and
  every call is admitted, whatever the number of non-transient failures.
\<close>

theorem cb_auth_never_trips:
  assumes "\<forall>now. Failure now True p \<notin> set es"
  shows "cb_state (cb_peek (cb_run es (new_breaker th rt mc)) p) = CLOSED \<and>
         \<not> cb_blocked now p (cb_run es (new_breaker th rt mc))"
proof -
  have "cb_state (cb_peek (cb_run es b) p) = CLOSED"
    if "cb_state (cb_peek b p) = CLOSED" for b
    using that assms
  proof (induction es arbitrary: b)
    case (Cons e es)
    then have "cb_state (cb_peek (cb_step e b) p) = CLOSED"
      by (intro cb_stays_closed_step) auto
    with Cons show ?case by simp
  qed simp
  then have "cb_state (cb_peek (cb_run es (new_breaker th rt mc)) p) = CLOSED"
    by (simp add: new_provider_state_def)
  then show ?thesis by (simp add: cb_blocked_def)
qed

theorem cb_auth_never_trips_witness:
  "cb_state (cb_peek (cb_run (replicate 5 (Failure 1 False ''zai'')) (new_breaker 3 60 1)) ''zai'') = CLOSED"
  using cb_auth_never_trips [of "''zai''" "replicate 5 (Failure 1 False ''zai'')" 3 60 1 0] by simp

lemma cb_open_step:
  assumes "cb_state (cb_peek b p) = OPEN" and "opened_at (cb_peek b p) = t0"
    and "\<And>now. e = Before now p \<Longrightarrow> now < t0 + recovery_timeout b"
  shows "cb_state (cb_peek (cb_step e b) p) = OPEN \<and> opened_at (cb_peek (cb_step e b) p) = t0"
proof (cases "p = cb_provider e")
  case False
  with assms show ?thesis by (simp add: cb_step_other)
next
  case True
  with assms show ?thesis by (cases e) (auto simp: cb_peek_simps Let_def)
qed

lemma cb_open_run:
  assumes "cb_state (cb_peek b p) = OPEN" and "opened_at (cb_peek b p) = t0"
    and "\<forall>now. Before now p \<in> set es \<longrightarrow> now < t0 + recovery_timeout b"
  shows "cb_state (cb_peek (cb_run es b) p) = OPEN \<and> opened_at (cb_peek (cb_run es b) p) = t0"
  using assms
proof (induction es arbitrary: b)
  case (Cons e es)
  have "cb_state (cb_peek (cb_step e b) p) = OPEN \<and> opened_at (cb_peek (cb_step e b) p) = t0"
    using Cons.prems by (intro cb_open_step) auto
  with Cons.IH [of "cb_step e b"] Cons.prems(3) show ?case by simp
qed simp

text \<open>
  Fact (functional): an OPEN provider, whatever is recorded for it meanwhile (late successes,
  late failures of any kind), refuses every call before \<open>t0 + recovery_timeout\<close>; the first
  call at or after that instant is admitted and is the only probe in flight.
\<close>

theorem cb_open_window:
  assumes "cb_inv b" and "abs_provider (cb_peek b p) = A_Open t0"
    and "\<forall>now. Before now p \<in> set es \<longrightarrow> now < t0 + recovery_timeout b"
  shows "if now < t0 + recovery_timeout b
         then fst (cb_before_call now p (cb_run es b)) = Inl (CircuitBreakerOpenError p)
         else fst (cb_before_call now p (cb_run es b)) = Inr () \<and>
              abs_provider (cb_peek (snd (cb_before_call now p (cb_run es b))) p) = A_Half 1"
proof -
  let ?b = "cb_run es b"
  from assms(2) have "cb_state (cb_peek b p) = OPEN" "opened_at (cb_peek b p) = t0"
    by (auto split: circuit_state.splits)
  from cb_open_run [OF this assms(3)]
  have st: "cb_state (cb_peek ?b p) = OPEN" "opened_at (cb_peek ?b p) = t0" by auto
  from cb_inv_run [OF assms(1), of es] have inv: "cb_ps_inv ?b (cb_peek ?b p)"
    and mc: "1 \<le> half_open_max_calls b" by (auto simp: cb_inv_def)
  from inv st have zero: "half_open_in_flight (cb_peek ?b p) = 0" by (simp add: cb_ps_inv_def)
  show ?thesis
  proof (cases "now < t0 + recovery_timeout b")
    case True
    then have "cb_blocked now p ?b" using st by (simp add: cb_blocked_def Let_def)
    with True show ?thesis by (simp add: cb_refusal_value)
  next
    case False
    then have "\<not> cb_blocked now p ?b" using st zero mc by (simp add: cb_blocked_def Let_def)
    then have "fst (cb_before_call now p ?b) = Inr ()" by (metis cb.admits_iff fst_conv)
    with False st zero mc show ?thesis by (simp add: cb_before_call_peek Let_def)
  qed
qed

theorem cb_open_window_witness:
  "fst (cb_before_call 62 ''zai'' (cb_run [Success 10 ''zai'', Failure 50 True ''zai'']
        (cb_run [Failure 3 True ''zai''] (new_breaker 1 60 1)))) = Inl (CircuitBreakerOpenError ''zai'') \<and>
   fst (cb_before_call 63 ''zai'' (cb_run [Success 10 ''zai'', Failure 50 True ''zai'']
        (cb_run [Failure 3 True ''zai''] (new_breaker 1 60 1)))) = Inr ()"
proof -
  let ?b = "cb_run [Failure 3 True ''zai''] (new_breaker 1 60 1)"
  have inv: "cb_inv ?b" by (rule cb_inv_run) (rule cb_inv_new; simp)
  have op: "abs_provider (cb_peek ?b ''zai'') = A_Open 3"
    by (simp add: cb_record_failure_peek new_provider_state_def)
  have es: "\<forall>now. Before now ''zai'' \<in> set [Success 10 ''zai'', Failure 50 True ''zai'']
       \<longrightarrow> now < 3 + recovery_timeout ?b" by simp
  show ?thesis
    using cb_open_window [OF inv op es, of 62] cb_open_window [OF inv op es, of 63]
    by simp
qed

subsection \<open>Slots that are never given back\<close>

text \<open>
  A HALF_OPEN provider whose probe slots are all taken has no timeout: until some call
  records an outcome, every \<open>cb_before_call\<close> refuses it, at any time.
\<close>

lemma cb_half_open_full_refuses:
  assumes "cb_state (cb_peek b p) = HALF_OPEN"
    and "half_open_max_calls b \<le> half_open_in_flight (cb_peek b p)"
    and "\<forall>e \<in> set es. cb_provider e = p \<longrightarrow> (\<exists>now. e = Before now p)"
  shows "cb_blocked now p (cb_run es b)"
  using assms
proof (induction es arbitrary: b)
  case Nil
  then show ?case by (simp add: cb_blocked_def)
next
  case (Cons e es)
  have "cb_peek (cb_step e b) p = cb_peek b p"
  proof (cases "p = cb_provider e")
    case False
    then show ?thesis by (simp add: cb_step_other)
  next
    case True
    with Cons.prems obtain t where "e = Before t p" by auto
    with Cons.prems show ?thesis by (simp add: cb_before_call_peek Let_def)
  qed
  with Cons show ?case by simp
qed

end
