(* ===== verification/Latency_Gate.thy ===== *)
theory Latency_Gate
  imports Call_Gate
begin

text \<open>
  The per-provider latency demotion gate of \<open>src/src/llm/latency_gate.py\<close>:
  \<open>provider_latency\<close> is \<open>_ProviderLatency\<close>, \<open>latency_gate\<close> is \<open>LatencyGate\<close>.  As in the
  circuit breaker the asyncio lock makes each coroutine one step, the monotonic clock is
  the argument \<open>now\<close>, and a raised \<open>LatencyGateOpenError\<close> is \<open>Inl\<close>.  The argument of
  \<open>record_call\<close> is whatever the caller passes: a number, a NaN, or something
  \<open>float()\<close> rejects (infinities are not modelled).
\<close>

section \<open>State\<close>

record provider_latency =
  ewma_ms :: real
  samples :: int
  demoted_until :: real

definition new_provider_latency :: provider_latency where
  "new_provider_latency = \<lparr>ewma_ms = 0, samples = 0, demoted_until = 0\<rparr>"

record latency_gate =
  threshold_ms :: real
  min_samples :: int
  cooldown_s :: real
  alpha :: real
  enabled :: bool
  lg_states :: "string \<Rightarrow> provider_latency option"

definition new_latency_gate :: "real \<Rightarrow> int \<Rightarrow> real \<Rightarrow> real \<Rightarrow> bool \<Rightarrow> latency_gate" where
  "new_latency_gate thr ms cd al en =
     \<lparr>threshold_ms = thr, min_samples = ms, cooldown_s = cd, alpha = al, enabled = en,
      lg_states = (\<lambda>_. None)\<rparr>"

datatype latency_error = LatencyGateOpenError string

datatype latency_arg = Ms real | NaN | NotANumber

section \<open>Operations\<close>

definition lg_peek :: "latency_gate \<Rightarrow> string \<Rightarrow> provider_latency" where
  "lg_peek g p = (case lg_states g p of None \<Rightarrow> new_provider_latency | Some s \<Rightarrow> s)"

definition lg_put :: "latency_gate \<Rightarrow> string \<Rightarrow> provider_latency \<Rightarrow> latency_gate" where
  "lg_put g p s = g\<lparr>lg_states := (lg_states g)(p \<mapsto> s)\<rparr>"

definition lg_get_or_create ::
  "latency_gate \<Rightarrow> string \<Rightarrow> provider_latency \<times> latency_gate" where
  "lg_get_or_create g p = (lg_peek g p, lg_put g p (lg_peek g p))"

definition get_demoted_until :: "latency_gate \<Rightarrow> string \<Rightarrow> real \<times> latency_gate" where
  "get_demoted_until g p = (let (s, g') = lg_get_or_create g p in (demoted_until s, g'))"

definition lg_before_call ::
  "real \<Rightarrow> string \<Rightarrow> latency_gate \<Rightarrow> (latency_error + unit) \<times> latency_gate" where
  "lg_before_call now p g =
     (if \<not> enabled g then (Inr (), g)
      else
        let (s, g) = lg_get_or_create g p in
        if demoted_until s \<le> 0 then (Inr (), g)
        else if now < demoted_until s then (Inl (LatencyGateOpenError p), g)
        else (Inr (), lg_put g p (s\<lparr>demoted_until := 0\<rparr>)))"

definition lg_record_call ::
  "real \<Rightarrow> string \<Rightarrow> latency_arg \<Rightarrow> latency_gate \<Rightarrow> latency_gate" where
  "lg_record_call now p latency_ms g =
     (if \<not> enabled g then g
      else case latency_ms of
        NotANumber \<Rightarrow> g
      | NaN \<Rightarrow> g
      | Ms latency \<Rightarrow>
          if latency < 0 then g
          else
            let (s, g) = lg_get_or_create g p;
                s = s\<lparr>ewma_ms := (if samples s = 0 then latency
                                  else alpha g * latency + (1 - alpha g) * ewma_ms s)\<rparr>;
                s = s\<lparr>samples := samples s + 1\<rparr>
            in if demoted_until s \<le> 0 \<and> samples s \<ge> min_samples g \<and> ewma_ms s > threshold_ms g
               then lg_put g p (s\<lparr>demoted_until := now + cooldown_s g\<rparr>)
               else lg_put g p s)"

section \<open>One provider at a time\<close>

lemma lg_peek_put [simp]: "lg_peek (lg_put g p s) q = (if q = p then s else lg_peek g q)"
  by (simp add: lg_peek_def lg_put_def)

lemma lg_put_settings [simp]:
  "threshold_ms (lg_put g p s) = threshold_ms g" "min_samples (lg_put g p s) = min_samples g"
  "cooldown_s (lg_put g p s) = cooldown_s g" "alpha (lg_put g p s) = alpha g"
  "enabled (lg_put g p s) = enabled g"
  by (simp_all add: lg_put_def)

lemma new_latency_gate_simps [simp]:
  "lg_peek (new_latency_gate thr ms cd al en) p = new_provider_latency"
  "threshold_ms (new_latency_gate thr ms cd al en) = thr"
  "min_samples (new_latency_gate thr ms cd al en) = ms"
  "cooldown_s (new_latency_gate thr ms cd al en) = cd"
  "alpha (new_latency_gate thr ms cd al en) = al"
  "enabled (new_latency_gate thr ms cd al en) = en"
  by (simp_all add: new_latency_gate_def lg_peek_def)

definition lg_blocked :: "real \<Rightarrow> string \<Rightarrow> latency_gate \<Rightarrow> bool" where
  "lg_blocked now p g \<longleftrightarrow>
     enabled g \<and> 0 < demoted_until (lg_peek g p) \<and> now < demoted_until (lg_peek g p)"

lemma lg_before_call_peek:
  "lg_peek (snd (lg_before_call now p g)) q =
     (if q = p \<and> enabled g \<and> 0 < demoted_until (lg_peek g p) \<and> demoted_until (lg_peek g p) \<le> now
      then (lg_peek g p)\<lparr>demoted_until := 0\<rparr> else lg_peek g q)"
  by (auto simp: lg_before_call_def lg_get_or_create_def Let_def)

lemma lg_before_call_settings [simp]:
  "threshold_ms (snd (lg_before_call now p g)) = threshold_ms g"
  "min_samples (snd (lg_before_call now p g)) = min_samples g"
  "cooldown_s (snd (lg_before_call now p g)) = cooldown_s g"
  "alpha (snd (lg_before_call now p g)) = alpha g"
  "enabled (snd (lg_before_call now p g)) = enabled g"
  by (simp_all add: lg_before_call_def lg_get_or_create_def Let_def)

lemma lg_record_call_settings [simp]:
  "threshold_ms (lg_record_call now p a g) = threshold_ms g"
  "min_samples (lg_record_call now p a g) = min_samples g"
  "cooldown_s (lg_record_call now p a g) = cooldown_s g"
  "alpha (lg_record_call now p a g) = alpha g"
  "enabled (lg_record_call now p a g) = enabled g"
  by (simp_all add: lg_record_call_def lg_get_or_create_def Let_def split: latency_arg.split)

interpretation lg: recovering_gate lg_before_call lg_blocked "\<lambda>p g. demoted_until (lg_peek g p)"
proof unfold_locales
  fix now p g
  show "isl (fst (lg_before_call now p g)) \<longleftrightarrow> lg_blocked now p g"
    by (auto simp: lg_before_call_def lg_get_or_create_def lg_blocked_def Let_def)
  show "lg_blocked now p g \<Longrightarrow> lg_blocked now p (snd (lg_before_call now p g))"
    by (auto simp: lg_blocked_def lg_before_call_peek)
  show "demoted_until (lg_peek g p) \<le> now \<Longrightarrow> \<not> lg_blocked now p g"
    by (simp add: lg_blocked_def)
next
  fix p q t now g
  show "p \<noteq> q \<Longrightarrow> lg_blocked t q (snd (lg_before_call now p g)) \<longleftrightarrow> lg_blocked t q g"
    by (simp add: lg_blocked_def lg_before_call_peek)
qed

section \<open>Histories\<close>

datatype lg_event = L_Before real string | L_Record real string latency_arg

fun lg_step :: "lg_event \<Rightarrow> latency_gate \<Rightarrow> latency_gate" where
  "lg_step (L_Before now p) g = snd (lg_before_call now p g)"
| "lg_step (L_Record now p a) g = lg_record_call now p a g"

definition lg_run :: "lg_event list \<Rightarrow> latency_gate \<Rightarrow> latency_gate" where
  "lg_run es g = fold lg_step es g"

lemma lg_run_simps [simp]:
  "lg_run [] g = g" "lg_run (e # es) g = lg_run es (lg_step e g)"
  "lg_run (es @ es') g = lg_run es' (lg_run es g)"
  by (simp_all add: lg_run_def)

lemma lg_step_settings [simp]:
  "threshold_ms (lg_step e g) = threshold_ms g" "min_samples (lg_step e g) = min_samples g"
  "cooldown_s (lg_step e g) = cooldown_s g" "alpha (lg_step e g) = alpha g"
  "enabled (lg_step e g) = enabled g"
  by (cases e; simp)+

lemma lg_run_settings [simp]:
  "threshold_ms (lg_run es g) = threshold_ms g" "min_samples (lg_run es g) = min_samples g"
  "cooldown_s (lg_run es g) = cooldown_s g" "alpha (lg_run es g) = alpha g"
  "enabled (lg_run es g) = enabled g"
  by (induction es arbitrary: g) auto

text \<open>The provider's entry after recording a usable sample.\<close>

definition lg_sample :: "latency_gate \<Rightarrow> real \<Rightarrow> real \<Rightarrow> provider_latency \<Rightarrow> provider_latency" where
  "lg_sample g now l s =
     (let e = (if samples s = 0 then l else alpha g * l + (1 - alpha g) * ewma_ms s);
          n = samples s + 1
      in s\<lparr>ewma_ms := e, samples := n,
           demoted_until := (if demoted_until s \<le> 0 \<and> min_samples g \<le> n \<and> threshold_ms g < e
                             then now + cooldown_s g else demoted_until s)\<rparr>)"

lemma lg_record_call_peek:
  "lg_peek (lg_record_call now p a g) q =
     (case a of
        Ms l \<Rightarrow> if q = p \<and> enabled g \<and> 0 \<le> l then lg_sample g now l (lg_peek g p) else lg_peek g q
      | _ \<Rightarrow> lg_peek g q)"
  by (auto simp: lg_record_call_def lg_get_or_create_def lg_sample_def Let_def
      split: latency_arg.split)

section \<open>Properties\<close>

lemma convex_between:
  fixes a x y lo hi :: real
  assumes "0 \<le> a" "a \<le> 1" "lo \<le> x" "x \<le> hi" "lo \<le> y" "y \<le> hi"
  shows "lo \<le> a * x + (1 - a) * y \<and> a * x + (1 - a) * y \<le> hi"
proof -
  have "a * lo + (1 - a) * lo \<le> a * x + (1 - a) * y" using assms by (intro add_mono mult_left_mono) auto
  moreover have "a * x + (1 - a) * y \<le> a * hi + (1 - a) * hi"
    using assms by (intro add_mono mult_left_mono) auto
  ultimately show ?thesis by (simp add: algebra_simps)
qed

definition lg_range :: "real \<Rightarrow> real \<Rightarrow> provider_latency \<Rightarrow> bool" where
  "lg_range lo hi s \<longleftrightarrow> 0 \<le> samples s \<and> (0 < samples s \<longrightarrow> lo \<le> ewma_ms s \<and> ewma_ms s \<le> hi)"

lemma lg_sample_range:
  assumes "0 \<le> alpha g" "alpha g \<le> 1" "lo \<le> l" "l \<le> hi" "lg_range lo hi s"
  shows "lg_range lo hi (lg_sample g now l s)"
  using assms convex_between [of "alpha g" lo l hi "ewma_ms s"]
  by (auto simp: lg_range_def lg_sample_def Let_def)

text \<open>The latencies of \<open>p\<close> that count: numbers that are not negative.\<close>

fun lg_usable :: "string \<Rightarrow> lg_event \<Rightarrow> real option" where
  "lg_usable p (L_Record _ q (Ms l)) = (if q = p \<and> 0 \<le> l then Some l else None)"
| "lg_usable p _ = None"

lemma lg_step_range:
  assumes "0 \<le> alpha g" "alpha g \<le> 1"
    and "\<forall>l. lg_usable p e = Some l \<longrightarrow> lo \<le> l \<and> l \<le> hi" and "lg_range lo hi (lg_peek g p)"
  shows "lg_range lo hi (lg_peek (lg_step e g) p)"
proof (cases e)
  case (L_Before now q)
  with assms(4) show ?thesis by (auto simp: lg_before_call_peek lg_range_def)
next
  case (L_Record now q a)
  with assms show ?thesis
    by (cases a) (auto simp: lg_record_call_peek intro: lg_sample_range)
qed

lemma lg_run_range:
  assumes "0 \<le> alpha g" "alpha g \<le> 1"
    and "\<forall>e \<in> set es. \<forall>l. lg_usable p e = Some l \<longrightarrow> lo \<le> l \<and> l \<le> hi"
    and "lg_range lo hi (lg_peek g p)"
  shows "lg_range lo hi (lg_peek (lg_run es g) p)"
  using assms
proof (induction es arbitrary: g)
  case (Cons e es)
  then have "lg_range lo hi (lg_peek (lg_step e g) p)" by (intro lg_step_range) auto
  with Cons show ?case by simp
qed simp

lemma lg_sample_not_demoted:
  assumes "demoted_until s \<le> 0" "ewma_ms (lg_sample g now l s) \<le> threshold_ms g"
  shows "demoted_until (lg_sample g now l s) \<le> 0"
  using assms by (simp add: lg_sample_def Let_def)

lemma lg_run_not_demoted:
  assumes "0 \<le> alpha g" "alpha g \<le> 1"
    and "\<forall>e \<in> set es. \<forall>l. lg_usable p e = Some l \<longrightarrow> l \<le> threshold_ms g"
    and "lg_range 0 (threshold_ms g) (lg_peek g p)" and "demoted_until (lg_peek g p) \<le> 0"
  shows "demoted_until (lg_peek (lg_run es g) p) \<le> 0"
  using assms
proof (induction es arbitrary: g)
  case (Cons e es)
  have us: "\<forall>l. lg_usable p e = Some l \<longrightarrow> 0 \<le> l \<and> l \<le> threshold_ms g"
    using Cons.prems(3) by (cases "(p, e)" rule: lg_usable.cases) (auto split: if_splits)
  with Cons.prems have r: "lg_range 0 (threshold_ms g) (lg_peek (lg_step e g) p)"
    by (intro lg_step_range) auto
  have "demoted_until (lg_peek (lg_step e g) p) \<le> 0"
  proof (cases e)
    case (L_Record now q a)
    show ?thesis
    proof (cases "\<exists>l. a = Ms l \<and> p = q \<and> enabled g \<and> 0 \<le> l")
      case True
      then obtain l where "a = Ms l" "p = q" "enabled g" "0 \<le> l" by blast
      with L_Record have new: "lg_peek (lg_step e g) p = lg_sample g now l (lg_peek g p)"
        by (simp add: lg_record_call_peek)
      from Cons.prems(4) have "0 < samples (lg_sample g now l (lg_peek g p))"
        by (simp add: lg_range_def lg_sample_def Let_def)
      with r new have "ewma_ms (lg_sample g now l (lg_peek g p)) \<le> threshold_ms g"
        by (simp add: lg_range_def)
      with Cons.prems(5) new show ?thesis by (simp add: lg_sample_not_demoted)
    next
      case False
      with L_Record have "lg_peek (lg_step e g) p = lg_peek g p"
        by (cases a) (auto simp: lg_record_call_peek)
      with Cons.prems(5) show ?thesis by simp
    qed
  qed (use Cons.prems in \<open>auto simp: lg_before_call_peek\<close>)
  with r Cons show ?case by simp
qed simp

text \<open>
  Fact (safety): a provider whose successful calls never exceed the threshold is never
  demoted: with a weight in [0, 1] the rolling mean stays between the fastest and the
  slowest recorded latency, so no history (of any providers, with NaN, negative or
  non-numeric arguments mixed in) makes the gate refuse it.
\<close>

theorem lg_fast_never_demoted:
  assumes "0 \<le> al" "al \<le> 1"
    and "\<forall>e \<in> set es. \<forall>l. lg_usable p e = Some l \<longrightarrow> l \<le> thr"
  shows "\<not> lg_blocked now p (lg_run es (new_latency_gate thr ms cd al en))"
  using lg_run_not_demoted [of "new_latency_gate thr ms cd al en" es p] assms
  by (simp add: lg_blocked_def lg_range_def new_provider_latency_def)

theorem lg_fast_never_demoted_witness:
  "\<not> lg_blocked 9 ''zai'' (lg_run [L_Record 1 ''zai'' (Ms 100), L_Record 2 ''zai'' NaN,
      L_Record 3 ''groq'' (Ms 900), L_Record 4 ''zai'' (Ms 150)] (new_latency_gate 150 1 120 (1/2) True))"
  by (rule lg_fast_never_demoted) auto

lemma lg_run_samples:
  assumes "enabled g" "\<forall>l \<in> set ls. 0 \<le> l" "0 \<le> samples (lg_peek g p)"
  shows "samples (lg_peek (lg_run (map (\<lambda>l. L_Record now p (Ms l)) ls) g) p) =
           samples (lg_peek g p) + int (length ls)"
  using assms
  by (induction ls arbitrary: g) (auto simp: lg_record_call_peek lg_sample_def Let_def)

lemma lg_slow_below_min:
  assumes "enabled g" "\<forall>l \<in> set ls. 0 \<le> l" "demoted_until (lg_peek g p) \<le> 0"
    and "samples (lg_peek g p) + int (length ls) < min_samples g"
  shows "demoted_until (lg_peek (lg_run (map (\<lambda>l. L_Record now p (Ms l)) ls) g) p) \<le> 0"
  using assms
  by (induction ls arbitrary: g) (auto simp: lg_record_call_peek lg_sample_def Let_def)

text \<open>
  Fact (functional): a persistently slow provider (every call above the threshold) keeps
  being admitted until the \<open>min_samples\<close>-th sample, which demotes it for exactly
  \<open>cooldown_s\<close> seconds: refused before, admitted again from that instant on.
\<close>

theorem lg_slow_demoted_at_min_samples:
  assumes "0 \<le> al" "al \<le> 1" "0 \<le> thr" "1 \<le> ms" "0 < now" "0 \<le> cd"
    and slow: "\<forall>l \<in> set (ls @ [x]). thr < l" and len: "int (length ls) = ms - 1"
  shows "let g = lg_run (map (\<lambda>l. L_Record t0 p (Ms l)) ls) (new_latency_gate thr ms cd al True);
             g' = lg_record_call now p (Ms x) g
         in \<not> lg_blocked t p g \<and> (lg_blocked t p g' \<longleftrightarrow> t < now + cd)"
proof -
  let ?init = "new_latency_gate thr ms cd al True"
  let ?es = "map (\<lambda>l. L_Record t0 p (Ms l)) ls"
  let ?g = "lg_run ?es ?init"
  from slow assms(3) have pos: "\<forall>l \<in> set ls. 0 \<le> l" "thr < x" "0 \<le> x" by auto
  define lo where "lo = Min (set (ls @ [x]))"
  define hi where "hi = Max (set (ls @ [x]))"
  have lo: "thr < lo" using slow by (simp add: lo_def)
  have rng: "\<forall>l \<in> set (ls @ [x]). lo \<le> l \<and> l \<le> hi" by (auto simp: lo_def hi_def)
  have r: "lg_range lo hi (lg_peek ?g p)"
    using assms(1,2) rng
    by (intro lg_run_range) (auto simp: lg_range_def new_provider_latency_def split: if_splits)
  have n: "samples (lg_peek ?g p) = ms - 1"
    using lg_run_samples [of ?init ls p t0] pos len by (simp add: new_provider_latency_def)
  have d: "demoted_until (lg_peek ?g p) \<le> 0"
    using lg_slow_below_min [of ?init ls p t0] pos len by (simp add: new_provider_latency_def)
  have "thr < ewma_ms (lg_sample ?g now x (lg_peek ?g p))"
    using lg_sample_range [of ?g lo x hi "lg_peek ?g p" now] assms(1,2) rng r lo n assms(4)
    by (auto simp: lg_range_def lg_sample_def Let_def split: if_splits)
  then have "demoted_until (lg_peek (lg_record_call now p (Ms x) ?g) p) = now + cd"
    using d n pos by (auto simp: lg_record_call_peek lg_sample_def Let_def)
  with d assms(5,6) show ?thesis by (simp add: lg_blocked_def Let_def)
qed

theorem lg_slow_demoted_at_min_samples_witness:
  "let g = lg_run (map (\<lambda>l. L_Record 1 ''groq'' (Ms l)) [200, 300]) (new_latency_gate 150 3 120 (1/2) True);
       g' = lg_record_call 10 ''groq'' (Ms 160) g
   in \<not> lg_blocked 100 ''groq'' g \<and> (lg_blocked 100 ''groq'' g' \<longleftrightarrow> (100::real) < 10 + 120)"
  by (rule lg_slow_demoted_at_min_samples) auto

lemma lg_disabled_step: "\<not> enabled g \<Longrightarrow> lg_step e g = g"
  by (cases e) (simp_all add: lg_before_call_def lg_record_call_def)

text \<open>
  Fact (safety): a disabled gate is inert: no history changes it and it refuses nobody.
\<close>

theorem lg_disabled_inert:
  "lg_run es (new_latency_gate thr ms cd al False) = new_latency_gate thr ms cd al False \<and>
   \<not> lg_blocked now p (lg_run es (new_latency_gate thr ms cd al False))"
proof -
  have "lg_run es g = g" if "\<not> enabled g" for g
    using that by (induction es arbitrary: g) (auto simp: lg_disabled_step)
  then show ?thesis by (simp add: lg_blocked_def)
qed

end
