(* ===== verification/Model_Router.thy ===== *)
theory Model_Router
  imports Graph_State
begin

text \<open>
  Complexity-based model selection, \<open>src/src/llm/model_router.py\<close>.  The model registry and
  the fallback chains (tables of \<open>src/src/config/model_registry.py\<close>, the chains already
  overlaid by the environment) are fields of \<open>router\<close>, ordered as the dictionaries are;
  so are the settings the router reads: keys present, disabled providers, the reasoning
  model, the parsed override maps.  Log lines are left out.
\<close>

section \<open>Configuration\<close>

datatype model_tier = VERY_CHEAP | CHEAP | MODERATE

record model_spec =
  ms_model_id :: string
  ms_provider :: string
  ms_tier :: model_tier
  ms_max_context :: int
  ms_max_output :: int
  ms_tool_calling :: bool
  ms_json_mode :: bool
  ms_streaming :: bool
  ms_images :: bool
  ms_input_cost :: real
  ms_output_cost :: real

record router =
  rt_registry :: "(string \<times> model_spec) list"
  rt_chains :: "string \<Rightarrow> string list option"
  rt_exclude_providers :: "string set"
  rt_disabled_env :: "string option"
  rt_has_key :: "string \<Rightarrow> bool"
  rt_reasoning_model :: string
  rt_default_tier :: string
  rt_node_overrides :: "string \<Rightarrow> string option"
  rt_complexity_overrides :: "string \<Rightarrow> string option"

text \<open>\<open>env_dp.split(",")\<close>, stripped, without empty entries.\<close>

fun split_commas :: "string \<Rightarrow> string \<Rightarrow> string list" where
  "split_commas acc [] = [acc]"
| "split_commas acc (c # cs) =
     (if c = CHR '','' then acc # split_commas [] cs else split_commas (acc @ [c]) cs)"

definition resolved_disabled_providers :: "router \<Rightarrow> string set" where
  "resolved_disabled_providers rt =
     (case rt_disabled_env rt of
        None \<Rightarrow> {}
      | Some env \<Rightarrow> set (filter (\<lambda>p. p \<noteq> []) (map py_strip (split_commas [] env))))"

definition complexity_tier_map :: "task_complexity \<Rightarrow> (model_tier \<times> string) option" where
  "complexity_tier_map c =
     (case c of
        TRIVIAL \<Rightarrow> Some (VERY_CHEAP, ''qwen3.6-flash'')
      | SIMPLE \<Rightarrow> Some (CHEAP, ''deepseek-v4-flash'')
      | COMPLEX \<Rightarrow> Some (MODERATE, ''glm-5.2'')
      | CRITICAL \<Rightarrow> Some (MODERATE, ''glm-5.2''))"

definition node_tier_map :: "task_complexity \<Rightarrow> string \<Rightarrow> (model_tier \<times> string) option" where
  "node_tier_map c node =
     (if c \<in> {COMPLEX, CRITICAL} \<and> node \<in> {''plan'', ''execute''}
      then Some (MODERATE, ''glm-5.2'') else None)"

definition effective_default_tier :: "router \<Rightarrow> model_tier \<times> string" where
  "effective_default_tier rt =
     (let ov = py_strip (rt_default_tier rt) in
      case (if ov \<noteq> [] then map_of (rt_registry rt) ov else None) of
        Some spec \<Rightarrow> (ms_tier spec, ov)
      | None \<Rightarrow> (CHEAP, ''claude-haiku-4-5-20251001''))"

section \<open>Providers\<close>

fun before_slash :: "string \<Rightarrow> string" where
  "before_slash [] = []"
| "before_slash (c # cs) = (if c = CHR ''/'' then [] else c # before_slash cs)"

definition extract_provider :: "router \<Rightarrow> string \<Rightarrow> string" where
  "extract_provider rt model =
     (case map_of (rt_registry rt) model of
        Some spec \<Rightarrow> ms_provider spec
      | None \<Rightarrow>
          if CHR ''/'' \<in> set model then before_slash model
          else if prefix ''nvidia-'' model then ''nvidia''
          else if prefix ''gpt-'' model \<or> prefix ''text-embedding-'' model then ''openai''
          else if prefix ''claude-'' model then ''anthropic''
          else if prefix ''deepseek-'' model then ''deepseek''
          else if prefix ''gemini-'' model then ''google''
          else if prefix ''mistral-'' model \<or> prefix ''ministral-'' model \<or>
                  prefix ''open-mistral-'' model then ''mistral''
          else if prefix ''qwen'' model then ''alibaba''
          else if prefix ''glm-'' model then ''zai''
          else if prefix ''kimi-'' model \<or> prefix ''moonshot-'' model then ''moonshot''
          else if prefix ''minimax-'' model then ''minimax''
          else if prefix ''llama-'' model \<or> prefix ''meta-llama/'' model then ''groq''
          else ''unknown'')"

definition has_provider_key :: "router \<Rightarrow> string \<Rightarrow> bool" where
  "has_provider_key rt p =
     (if p \<in> resolved_disabled_providers rt then False else rt_has_key rt p)"

definition mark_provider_unhealthy :: "string \<Rightarrow> router \<Rightarrow> router" where
  "mark_provider_unhealthy p rt = rt\<lparr>rt_exclude_providers := insert p (rt_exclude_providers rt)\<rparr>"

definition clear_provider_health :: "string \<Rightarrow> router \<Rightarrow> router" where
  "clear_provider_health p rt = rt\<lparr>rt_exclude_providers := rt_exclude_providers rt - {p}\<rparr>"

section \<open>Selection\<close>

definition get_fallback_chain :: "router \<Rightarrow> string \<Rightarrow> string list" where
  "get_fallback_chain rt model = (case rt_chains rt model of None \<Rightarrow> [] | Some ms \<Rightarrow> ms)"

fun route_from_chain :: "router \<Rightarrow> string list \<Rightarrow> string set \<Rightarrow> string option" where
  "route_from_chain rt [] excluded = None"
| "route_from_chain rt (m # ms) excluded =
     (let p = extract_provider rt m in
      if p \<notin> excluded \<and> has_provider_key rt p then Some m
      else route_from_chain rt ms excluded)"

fun complexity_name :: "task_complexity \<Rightarrow> string" where
  "complexity_name TRIVIAL = ''TRIVIAL''"
| "complexity_name SIMPLE = ''SIMPLE''"
| "complexity_name COMPLEX = ''COMPLEX''"
| "complexity_name CRITICAL = ''CRITICAL''"

definition routing_override_for :: "router \<Rightarrow> task_complexity \<Rightarrow> string option \<Rightarrow> string option" where
  "routing_override_for rt c node =
     (case (case node of None \<Rightarrow> None
            | Some n \<Rightarrow> rt_node_overrides rt (complexity_name c @ '':'' @ n)) of
        Some hit \<Rightarrow> if hit \<noteq> [] then Some hit else rt_complexity_overrides rt (complexity_name c)
      | None \<Rightarrow> rt_complexity_overrides rt (complexity_name c))"

definition apply_routing_overrides ::
  "router \<Rightarrow> task_complexity \<Rightarrow> string option \<Rightarrow> model_tier \<times> string \<Rightarrow> model_tier \<times> string" where
  "apply_routing_overrides rt c node base =
     (case routing_override_for rt c node of
        None \<Rightarrow> base
      | Some ov \<Rightarrow>
          if ov = [] then base
          else case map_of (rt_registry rt) ov of
            None \<Rightarrow> base
          | Some spec \<Rightarrow> (ms_tier spec, ov))"

definition base_tier :: "router \<Rightarrow> task_complexity \<Rightarrow> string option \<Rightarrow> model_tier \<times> string" where
  "base_tier rt c node =
     (case (case node of None \<Rightarrow> None | Some n \<Rightarrow> node_tier_map c n) of
        Some t \<Rightarrow> t
      | None \<Rightarrow> (case complexity_tier_map c of Some t \<Rightarrow> t | None \<Rightarrow> effective_default_tier rt))"

text \<open>\<open>route\<close> below its reasoning branch; the registry's first model is the last resort.\<close>

definition route_tiered ::
  "router \<Rightarrow> task_complexity \<Rightarrow> string option \<Rightarrow> string set \<Rightarrow> string" where
  "route_tiered rt c node exclude =
     (let (tier, chain_key) = apply_routing_overrides rt c node (base_tier rt c node);
          excluded = exclude \<union> rt_exclude_providers rt;
          primary = extract_provider rt chain_key
      in if primary \<notin> excluded \<and> has_provider_key rt primary then chain_key
         else case route_from_chain rt (get_fallback_chain rt chain_key) excluded of
           Some m \<Rightarrow> m
         | None \<Rightarrow>
             (case List.find (\<lambda>(m, spec). ms_tier spec = tier \<and> extract_provider rt m \<notin> excluded)
                     (rt_registry rt) of
                Some (m, _) \<Rightarrow> m
              | None \<Rightarrow> fst (hd (rt_registry rt))))"

definition route_reasoning :: "router \<Rightarrow> string" where
  "route_reasoning rt =
     (if has_provider_key rt (extract_provider rt (rt_reasoning_model rt)) then rt_reasoning_model rt
      else route_tiered rt CRITICAL None {})"

definition route_model :: "router \<Rightarrow> task_complexity \<Rightarrow> string option \<Rightarrow> string set \<Rightarrow> string" where
  "route_model rt c node exclude =
     (if node \<in> {Some ''verify'', Some ''reflect''} \<and> c \<in> {COMPLEX, CRITICAL} then route_reasoning rt
      else route_tiered rt c node exclude)"

text \<open>The first usable model per provider, in registry order, as an ordered dictionary.\<close>

fun collect_tier ::
  "router \<Rightarrow> model_tier \<Rightarrow> string set \<Rightarrow> (string \<times> model_spec) list \<Rightarrow> (string \<times> string) list
    \<Rightarrow> (string \<times> string) list" where
  "collect_tier rt tier excluded [] acc = acc"
| "collect_tier rt tier excluded ((m, spec) # rest) acc =
     (let p = extract_provider rt m in
      if ms_tier spec \<noteq> tier then collect_tier rt tier excluded rest acc
      else if p \<in> excluded \<or> p \<in> fst ` set acc then collect_tier rt tier excluded rest acc
      else if has_provider_key rt p then collect_tier rt tier excluded rest (acc @ [(p, m)])
      else collect_tier rt tier excluded rest acc)"

text \<open>The supplement stops as soon as \<open>n\<close> providers are collected, but a skipped model does
  not reach that test.\<close>

fun collect_chain ::
  "router \<Rightarrow> int \<Rightarrow> string set \<Rightarrow> string list \<Rightarrow> (string \<times> string) list \<Rightarrow> (string \<times> string) list" where
  "collect_chain rt n excluded [] acc = acc"
| "collect_chain rt n excluded (m # ms) acc =
     (let p = extract_provider rt m in
      if p \<in> excluded \<or> p \<in> fst ` set acc then collect_chain rt n excluded ms acc
      else
        let acc = (if has_provider_key rt p then acc @ [(p, m)] else acc)
        in if int (length acc) \<ge> n then acc else collect_chain rt n excluded ms acc)"

definition diverse_candidates ::
  "router \<Rightarrow> int \<Rightarrow> task_complexity \<Rightarrow> string option \<Rightarrow> string set \<Rightarrow> (string \<times> string) list" where
  "diverse_candidates rt n c node exclude =
     (let excluded = exclude \<union> rt_exclude_providers rt;
          (tier, chain_key) = base_tier rt c node;
          found = collect_tier rt tier excluded (rt_registry rt) []
      in if int (length found) < n
         then collect_chain rt n excluded (get_fallback_chain rt chain_key) found else found)"

definition route_diverse ::
  "router \<Rightarrow> int \<Rightarrow> task_complexity \<Rightarrow> string option \<Rightarrow> string set \<Rightarrow> string list" where
  "route_diverse rt n c node exclude =
     (let candidates = map snd (diverse_candidates rt n c node exclude)
      in if candidates = [] then replicate (nat (max 1 n)) (route_model rt c None exclude)
         else map (\<lambda>i. candidates ! (i mod length candidates)) [0..<nat n])"

section \<open>Properties\<close>

definition usable :: "router \<Rightarrow> string set \<Rightarrow> string \<Rightarrow> bool" where
  "usable rt excluded m \<longleftrightarrow> extract_provider rt m \<notin> excluded \<and> has_provider_key rt (extract_provider rt m)"

lemma route_from_chain_find: "route_from_chain rt ms excluded = List.find (usable rt excluded) ms"
  by (induction ms) (auto simp: usable_def Let_def)

text \<open>
  Fact (functional): outside the reasoning branch the router returns the first usable model
  (provider not excluded, not disabled, key present) of the primary followed by its fallback
  chain; the primary itself is tried first, after operator overrides.
\<close>

theorem route_first_usable:
  assumes "\<not> (node \<in> {Some ''verify'', Some ''reflect''} \<and> c \<in> {COMPLEX, CRITICAL})"
    and "snd (apply_routing_overrides rt c node (base_tier rt c node)) = primary"
    and "List.find (usable rt (exclude \<union> rt_exclude_providers rt))
           (primary # get_fallback_chain rt primary) = Some m"
  shows "route_model rt c node exclude = m"
proof (cases "usable rt (exclude \<union> rt_exclude_providers rt) primary")
  case True
  with assms show ?thesis
    by (auto simp: route_model_def route_tiered_def usable_def Let_def split: prod.splits)
next
  case False
  with assms(3) have "route_from_chain rt (get_fallback_chain rt primary) (exclude \<union> rt_exclude_providers rt) = Some m"
    by (simp add: route_from_chain_find)
  with False assms(1,2) show ?thesis
    by (auto simp: route_model_def route_tiered_def usable_def Let_def split: prod.splits)
qed

definition demo_spec :: "string \<Rightarrow> model_tier \<Rightarrow> model_spec" where
  "demo_spec p t = \<lparr>ms_model_id = p, ms_provider = p, ms_tier = t, ms_max_context = 1000,
     ms_max_output = 100, ms_tool_calling = True, ms_json_mode = True, ms_streaming = True,
     ms_images = False, ms_input_cost = 0, ms_output_cost = 0\<rparr>"

definition demo_router :: router where
  "demo_router =
     \<lparr>rt_registry = [(''glm-5.2'', demo_spec ''zai'' MODERATE), (''ds'', demo_spec ''deepseek'' MODERATE),
                     (''glm-5.1'', demo_spec ''zai'' MODERATE), (''hk'', demo_spec ''anthropic'' CHEAP)],
      rt_chains = [''glm-5.2'' \<mapsto> [''glm-5.1'', ''ds'', ''hk'']],
      rt_exclude_providers = {''zai''}, rt_disabled_env = None, rt_has_key = (\<lambda>p. True),
      rt_reasoning_model = ''ds'', rt_default_tier = [], rt_node_overrides = (\<lambda>_. None),
      rt_complexity_overrides = (\<lambda>_. None)\<rparr>"

lemma demo_router_simps [simp]:
  "extract_provider demo_router ''glm-5.2'' = ''zai''" "extract_provider demo_router ''glm-5.1'' = ''zai''"
  "extract_provider demo_router ''ds'' = ''deepseek''" "extract_provider demo_router ''hk'' = ''anthropic''"
  "rt_exclude_providers demo_router = {''zai''}" "has_provider_key demo_router p"
  "get_fallback_chain demo_router ''glm-5.2'' = [''glm-5.1'', ''ds'', ''hk'']"
  "rt_reasoning_model demo_router = ''ds''"
  by (simp_all add: demo_router_def extract_provider_def demo_spec_def has_provider_key_def
      resolved_disabled_providers_def get_fallback_chain_def)

lemma demo_registry:
  "rt_registry demo_router =
     [(''glm-5.2'', demo_spec ''zai'' MODERATE), (''ds'', demo_spec ''deepseek'' MODERATE),
      (''glm-5.1'', demo_spec ''zai'' MODERATE), (''hk'', demo_spec ''anthropic'' CHEAP)]"
  by (simp add: demo_router_def)

lemma demo_overrides: "rt_complexity_overrides demo_router s = None"
  by (simp add: demo_router_def)

theorem route_first_usable_witness: "route_model demo_router COMPLEX None {} = ''ds''"
  by (rule route_first_usable [where primary = "''glm-5.2''"])
     (simp_all add: usable_def apply_routing_overrides_def routing_override_for_def base_tier_def
        complexity_tier_map_def demo_overrides)

text \<open>The candidate list: distinct providers, each usable.\<close>

definition candidates_ok :: "router \<Rightarrow> string set \<Rightarrow> (string \<times> string) list \<Rightarrow> bool" where
  "candidates_ok rt excluded acc \<longleftrightarrow>
     distinct (map fst acc) \<and>
     (\<forall>(p, m) \<in> set acc. p = extract_provider rt m \<and> usable rt excluded m)"

lemma candidates_ok_snoc:
  "candidates_ok rt excluded acc \<Longrightarrow> extract_provider rt m \<notin> fst ` set acc \<Longrightarrow>
   usable rt excluded m \<Longrightarrow> candidates_ok rt excluded (acc @ [(extract_provider rt m, m)])"
  by (auto simp: candidates_ok_def)

lemma collect_tier_ok:
  "candidates_ok rt excluded acc \<Longrightarrow> candidates_ok rt excluded (collect_tier rt tier excluded reg acc)"
  using candidates_ok_snoc
  by (induction rt tier excluded reg acc rule: collect_tier.induct)
     (auto simp: Let_def usable_def)

lemma collect_chain_ok:
  "candidates_ok rt excluded acc \<Longrightarrow> candidates_ok rt excluded (collect_chain rt n excluded ms acc)"
  using candidates_ok_snoc
  by (induction rt n excluded ms acc rule: collect_chain.induct)
     (auto simp: Let_def usable_def)

lemma diverse_candidates_ok:
  "candidates_ok rt (exclude \<union> rt_exclude_providers rt) (diverse_candidates rt n c node exclude)"
  by (auto simp: diverse_candidates_def Let_def candidates_ok_def [of _ _ "[]"]
      intro!: collect_chain_ok collect_tier_ok split: prod.split)

text \<open>
  Fact (functional): parallel sub-agents are spread over providers.  When some provider is
  usable, \<open>route_diverse\<close> returns exactly \<open>n\<close> models, all of usable providers, and any
  window of the cycle no longer than the number of candidates has pairwise distinct
  providers.
\<close>

theorem route_diverse_spreads:
  assumes "diverse_candidates rt n c node exclude \<noteq> []" "0 \<le> n"
  shows "let out = route_diverse rt n c node exclude; k = length (diverse_candidates rt n c node exclude) in
     length out = nat n \<and>
     (\<forall>m \<in> set out. usable rt (exclude \<union> rt_exclude_providers rt) m) \<and>
     distinct (map (extract_provider rt) (take k out))"
proof -
  let ?cs = "diverse_candidates rt n c node exclude"
  let ?ms = "map snd ?cs" and ?k = "length ?cs"
  let ?out = "route_diverse rt n c node exclude"
  from diverse_candidates_ok [of rt exclude n c node] have
    ok: "distinct (map fst ?cs)" "\<forall>(p, m) \<in> set ?cs. p = extract_provider rt m \<and>
       usable rt (exclude \<union> rt_exclude_providers rt) m" by (auto simp: candidates_ok_def)
  have out: "?out = map (\<lambda>i. ?ms ! (i mod ?k)) [0..<nat n]"
    using assms by (simp add: route_diverse_def Let_def)
  have pos: "0 < ?k" using assms by simp
  have "\<forall>m \<in> set ?out. m \<in> set ?ms"
    using pos by (auto simp: out intro!: nth_mem [of _ "map snd ?cs", simplified] imageI)
  with ok(2) have us: "\<forall>m \<in> set ?out. usable rt (exclude \<union> rt_exclude_providers rt) m" by fastforce
  have "take ?k ?out = take (min ?k (nat n)) ?ms"
    by (rule nth_equalityI) (auto simp: out)
  moreover have "map (extract_provider rt) ?ms = map fst ?cs" using ok(2) by auto
  ultimately have "map (extract_provider rt) (take ?k ?out) = take (min ?k (nat n)) (map fst ?cs)"
    by (metis take_map)
  with ok(1) have "distinct (map (extract_provider rt) (take ?k ?out))" by (simp add: distinct_take)
  with us show ?thesis by (simp add: out Let_def)
qed

theorem route_diverse_spreads_witness:
  "length (route_diverse demo_router 3 COMPLEX (Some ''plan'') {}) = 3"
proof -
  have "(''deepseek'', ''ds'') \<in> set (diverse_candidates demo_router 3 COMPLEX (Some ''plan'') {})"
    by (simp add: diverse_candidates_def base_tier_def node_tier_map_def demo_registry demo_spec_def)
  then have "diverse_candidates demo_router 3 COMPLEX (Some ''plan'') {} \<noteq> []" by auto
  from route_diverse_spreads [OF this] show ?thesis by (simp add: Let_def)
qed

text \<open>
  Fact (error): exclusion does not reach the reasoning branch.  On a complex goal \<open>verify\<close> and
  \<open>reflect\<close> get the reasoning model as long as its provider has a key: neither the caller's
  excluded providers nor providers marked unhealthy at run time change the answer.
\<close>

theorem reasoning_ignores_exclusion:
  assumes "has_provider_key rt (extract_provider rt (rt_reasoning_model rt))"
    and "node = ''verify'' \<or> node = ''reflect''" "c = COMPLEX \<or> c = CRITICAL"
  shows "route_model (mark_provider_unhealthy (extract_provider rt (rt_reasoning_model rt)) rt) c (Some node)
           {extract_provider rt (rt_reasoning_model rt)} = rt_reasoning_model rt"
proof -
  let ?rt = "mark_provider_unhealthy (extract_provider rt (rt_reasoning_model rt)) rt"
  have "extract_provider ?rt m = extract_provider rt m" "has_provider_key ?rt p = has_provider_key rt p" for m p
    by (simp_all add: mark_provider_unhealthy_def extract_provider_def has_provider_key_def
        resolved_disabled_providers_def)
  moreover have "rt_reasoning_model ?rt = rt_reasoning_model rt"
    by (simp add: mark_provider_unhealthy_def)
  ultimately show ?thesis using assms by (auto simp: route_model_def route_reasoning_def)
qed

theorem reasoning_ignores_exclusion_witness:
  "route_model (mark_provider_unhealthy ''deepseek'' demo_router) COMPLEX (Some ''verify'') {''deepseek''} = ''ds''"
  using reasoning_ignores_exclusion [of demo_router "''verify''" COMPLEX] by simp

end
