(* ===== verification/Request_Params.thy ===== *)
theory Request_Params
  imports Model_Router
begin

text \<open>
  What the gateway sends with one provider attempt: \<open>_build_kwargs\<close> and the pre-flight
  adjustments of \<open>_execute_with_fallback\<close> in \<open>src/src/llm/gateway.py\<close>, the per-tier thinking
  control (\<open>thinking_control.py\<close>), the NVIDIA shim (\<open>nvidia_shim.py\<close>) and the provider-native
  response formats (\<open>structured_output.py\<close>).  Keyword arguments are ordered dictionaries
  of loosely typed values, \<open>JNull\<close> standing for \<open>None\<close>.
\<close>

section \<open>Settings and requests\<close>

record reasoning_settings =
  rc_enabled :: bool
  rc_complex_thinking :: string
  rc_simple_thinking :: string
  rc_budget_complex :: int
  rc_budget_medium :: int

record llm_settings =
  ls_request_timeout :: real
  ls_num_retries :: int
  ls_max_output_cap :: int
  ls_default_max_tokens :: int
  ls_provider_key :: "string \<Rightarrow> string option"
  ls_nvidia_api_base :: "string option"
  ls_anthropic_api_base :: "string option"
  ls_alibaba_api_base :: "string option"
  ls_reasoning :: reasoning_settings

record llm_request =
  rq_complexity :: "task_complexity option"
  rq_tools :: json
  rq_response_format :: json
  rq_tool_choice :: json
  rq_temperature :: real
  rq_max_tokens :: "int option"
  rq_metadata :: json
  rq_thinking :: json
  rq_reasoning_effort :: "string option"
  rq_timeout :: "real option"

section \<open>Dictionaries\<close>

type_synonym kwargs = "(string \<times> json) list"

abbreviation dput :: "string \<Rightarrow> json \<Rightarrow> kwargs \<Rightarrow> kwargs" where
  "dput k v d \<equiv> AList.update k v d"

definition dget :: "kwargs \<Rightarrow> string \<Rightarrow> json" where
  "dget d k = obj_get d k JNull"

definition setdefault :: "string \<Rightarrow> json \<Rightarrow> kwargs \<Rightarrow> kwargs" where
  "setdefault k v d = (case map_of d k of None \<Rightarrow> dput k v d | Some _ \<Rightarrow> d)"

definition dict_update :: "kwargs \<Rightarrow> kwargs \<Rightarrow> kwargs" where
  "dict_update d e = fold (\<lambda>(k, v). dput k v) e d"

text \<open>\<open>if b: d[k] = v\<close> and \<open>if v is not None: d[k] = v\<close>.\<close>

definition put_if :: "bool \<Rightarrow> string \<Rightarrow> json \<Rightarrow> kwargs \<Rightarrow> kwargs" where
  "put_if b k v d = (if b then dput k v d else d)"

definition put_some :: "string \<Rightarrow> json option \<Rightarrow> kwargs \<Rightarrow> kwargs" where
  "put_some k v d = (case v of None \<Rightarrow> d | Some w \<Rightarrow> dput k w d)"

text \<open>\<open>v or {}\<close> for a dictionary-valued entry.\<close>

fun obj_of :: "json \<Rightarrow> kwargs" where
  "obj_of (JObj kvs) = kvs"
| "obj_of _ = []"

definition or_default :: "string option \<Rightarrow> string \<Rightarrow> string" where
  "or_default v d = (case v of None \<Rightarrow> d | Some s \<Rightarrow> if s = [] then d else s)"

lemma put_if_lookup [simp]:
  "map_of (put_if b k v d) k' = (if k' = k \<and> b then Some v else map_of d k')"
  by (simp add: put_if_def)

lemma put_some_lookup [simp]:
  "map_of (put_some k v d) k' = (if k' = k \<and> v \<noteq> None then v else map_of d k')"
  by (simp add: put_some_def split: option.split)

lemma dget_lookup: "dget d k = (case map_of d k of None \<Rightarrow> JNull | Some v \<Rightarrow> v)"
  by (simp add: dget_def obj_get_def)

lemma dget_dput [simp]: "dget (dput k v d) k' = (if k' = k then v else dget d k')"
  by (simp add: dget_def obj_get_def)

lemma dget_delete [simp]: "dget (AList.delete k d) k' = (if k' = k then JNull else dget d k')"
  by (simp add: dget_def obj_get_def)

lemma setdefault_lookup [simp]:
  "map_of (setdefault k v d) k' =
     (if k' = k then (case map_of d k of None \<Rightarrow> Some v | Some w \<Rightarrow> Some w) else map_of d k')"
  by (auto simp: setdefault_def split: option.split)

lemma or_default_nonempty: "d \<noteq> [] \<Longrightarrow> or_default v d \<noteq> []"
  by (simp add: or_default_def split: option.split)

section \<open>Thinking control\<close>

text \<open>\<open>model.lower().split("/")[-1]\<close>.\<close>

definition after_last_slash :: "string \<Rightarrow> string" where
  "after_last_slash s = rev (takeWhile (\<lambda>c. c \<noteq> CHR ''/'') (rev s))"

definition is_o_series :: "string \<Rightarrow> bool" where
  "is_o_series model =
     (let l = after_last_slash (py_lower model)
      in prefix ''o1'' l \<or> prefix ''o3'' l \<or> prefix ''o4'' l \<or> prefix ''o5'' l)"

definition thinking_type :: "string \<Rightarrow> json" where
  "thinking_type t = JObj [(''type'', JStr t)]"

definition disable_params :: "string \<Rightarrow> kwargs" where
  "disable_params provider =
     (if provider = ''deepseek''
      then [(''extra_body'', JObj [(''thinking'', thinking_type ''disabled'')])] else [])"

definition thinking_params_for ::
  "task_complexity option \<Rightarrow> string \<Rightarrow> string \<Rightarrow> reasoning_settings \<Rightarrow> kwargs" where
  "thinking_params_for complexity provider model st =
     (case complexity of
        None \<Rightarrow> []
      | Some c \<Rightarrow>
          if \<not> rc_enabled st then []
          else
            let heavy = c \<in> {COMPLEX, CRITICAL};
                effort = (if heavy then rc_complex_thinking st else rc_simple_thinking st)
            in if effort = [] \<or> effort = ''none'' then disable_params provider
               else if provider = ''anthropic'' then
                 [(''thinking'', JObj [(''type'', JStr ''enabled''),
                     (''budget_tokens'', JInt (if heavy then rc_budget_complex st else rc_budget_medium st))]),
                  (''temperature'', JFloat 1)]
               else if provider = ''openai'' \<and> is_o_series model then [(''reasoning_effort'', JStr effort)]
               else if provider = ''deepseek'' \<or> provider = ''zai''
               then [(''extra_body'', JObj [(''thinking'', thinking_type ''enabled'')])]
               else [])"

section \<open>Response formats and the version test\<close>

definition digits_value :: "string \<Rightarrow> nat" where
  "digits_value ds = foldl (\<lambda>a c. a * 10 + (of_char c - 48)) 0 ds"

definition family_major :: "string \<Rightarrow> string \<Rightarrow> nat option" where
  "family_major pre s =
     (if prefix pre s then
        let ds = takeWhile is_digit (drop (length pre) s)
        in if ds = [] then None else Some (digits_value ds)
      else None)"

text \<open>The leftmost match of \<open>claude-(?:haiku|sonnet|opus)-(\d+)\<close>.\<close>

fun anthropic_major :: "string \<Rightarrow> nat option" where
  "anthropic_major [] = None"
| "anthropic_major (c # cs) =
     (case family_major ''claude-haiku-'' (c # cs) of Some n \<Rightarrow> Some n
      | None \<Rightarrow> (case family_major ''claude-sonnet-'' (c # cs) of Some n \<Rightarrow> Some n
      | None \<Rightarrow> (case family_major ''claude-opus-'' (c # cs) of Some n \<Rightarrow> Some n
      | None \<Rightarrow> anthropic_major cs)))"

definition is_anthropic_4x_or_newer :: "string \<Rightarrow> bool" where
  "is_anthropic_4x_or_newer model = (case anthropic_major model of None \<Rightarrow> False | Some n \<Rightarrow> 4 \<le> n)"

definition json_object_mode :: json where
  "json_object_mode = JObj [(''type'', JStr ''json_object'')]"

definition build_native_response_format :: "json \<Rightarrow> string \<Rightarrow> bool \<Rightarrow> json" where
  "build_native_response_format schema provider enabled =
     (if \<not> enabled then JNull
      else if \<not> truthy schema then json_object_mode
      else if provider = ''openai'' \<or> provider = ''deepseek'' then
        JObj [(''type'', JStr ''json_schema''),
              (''json_schema'', JObj [(''name'', JStr ''response''), (''schema'', schema),
                                      (''strict'', JBool True)])]
      else if provider = ''anthropic'' \<or> provider = ''google'' then
        JObj [(''type'', JStr ''json_schema''),
              (''json_schema'', JObj [(''name'', JStr ''response''), (''schema'', schema)])]
      else json_object_mode)"

section \<open>Keyword arguments of one attempt\<close>

definition nvidia_shim_model_id ::
  "string \<Rightarrow> string \<Rightarrow> string option \<Rightarrow> string \<times> kwargs" where
  "nvidia_shim_model_id provider litellm_model api_base =
     (if provider \<noteq> ''nvidia'' then (litellm_model, [])
      else
        let extra = [(''api_base'', JStr (or_default api_base ''https://integrate.api.nvidia.com/v1''))]
        in if prefix ''nvidia/'' litellm_model then
             let effective = ''openai/'' @ drop 7 litellm_model
             in (effective, dput ''model'' (JStr effective) extra)
           else (litellm_model, extra))"

definition default_max_tokens :: "llm_settings \<Rightarrow> model_spec option \<Rightarrow> int" where
  "default_max_tokens st spec =
     (case spec of
        Some sp \<Rightarrow> if ms_max_output sp \<noteq> 0 then min (ms_max_output sp) (ls_max_output_cap st)
                   else min (ls_default_max_tokens st) (ls_max_output_cap st)
      | None \<Rightarrow> min (ls_default_max_tokens st) (ls_max_output_cap st))"

definition build_kwargs :: "llm_settings \<Rightarrow> router \<Rightarrow> llm_request \<Rightarrow> string \<Rightarrow> kwargs" where
  "build_kwargs st rt rq model =
     (let spec = map_of (rt_registry rt) model;
          litellm_model = (case spec of Some sp \<Rightarrow> ms_model_id sp | None \<Rightarrow> model);
          kw = [(''model'', JStr litellm_model), (''temperature'', JFloat (rq_temperature rq))];
          kw = dput ''timeout'' (JFloat (case rq_timeout rq of Some t \<Rightarrow> t | None \<Rightarrow> ls_request_timeout st)) kw;
          kw = dput ''num_retries'' (JInt (ls_num_retries st)) kw;
          kw = dput ''max_tokens''
                 (JInt (case rq_max_tokens rq of Some n \<Rightarrow> n | None \<Rightarrow> default_max_tokens st spec)) kw;
          kw = put_if (truthy (rq_metadata rq)) ''metadata'' (rq_metadata rq) kw;
          provider = extract_provider rt model;
          kw = put_some ''api_key'' (case ls_provider_key st provider of
                 None \<Rightarrow> None | Some k \<Rightarrow> if k = [] then None else Some (JStr k)) kw;
          kw = dict_update kw (snd (nvidia_shim_model_id provider litellm_model (ls_nvidia_api_base st)));
          kw = put_if (provider = ''anthropic'') ''api_base''
                 (JStr (or_default (ls_anthropic_api_base st) ''https://api.anthropic.com'')) kw;
          kw = put_if (provider = ''alibaba'') ''api_base''
                 (JStr (or_default (ls_alibaba_api_base st)
                    ''https://dashscope-intl.aliyuncs.com/compatible-mode/v1'')) kw;
          kw = put_if (rq_thinking rq \<noteq> JNull) ''thinking'' (rq_thinking rq) kw
      in put_some ''reasoning_effort'' (map_option JStr (rq_reasoning_effort rq)) kw)"

text \<open>Tools, response format, tool choice, and the guard for Anthropic models before 4.x.\<close>

definition add_request_fields :: "router \<Rightarrow> llm_request \<Rightarrow> string \<Rightarrow> kwargs \<Rightarrow> kwargs" where
  "add_request_fields rt rq model kw =
     (let kw = put_if (truthy (rq_tools rq)) ''tools'' (rq_tools rq) kw;
          kw = put_if (truthy (rq_response_format rq)) ''response_format'' (rq_response_format rq) kw;
          kw = put_if (truthy (rq_tool_choice rq)) ''tool_choice'' (rq_tool_choice rq) kw
      in if truthy (rq_response_format rq)
            \<and> dget (obj_of (rq_response_format rq)) ''type'' = JStr ''json_schema''
            \<and> truthy (rq_tool_choice rq) \<and> extract_provider rt model = ''anthropic''
            \<and> \<not> is_anthropic_4x_or_newer model
         then AList.delete ''tool_choice'' kw else kw)"

definition merge_tier_thinking :: "kwargs \<Rightarrow> kwargs \<Rightarrow> kwargs" where
  "merge_tier_thinking tier kw =
     fold (\<lambda>(k, v) d. if k \<in> {''thinking'', ''reasoning_effort'', ''extra_body''}
                      then setdefault k v d else dput k v d) tier kw"

definition set_extra :: "string \<Rightarrow> json \<Rightarrow> kwargs \<Rightarrow> kwargs" where
  "set_extra k v kw = dput ''extra_body'' (JObj (dput k v (obj_of (dget kw ''extra_body'')))) kw"

definition disable_deepseek_thinking :: "string \<Rightarrow> kwargs \<Rightarrow> kwargs" where
  "disable_deepseek_thinking model kw =
     (if truthy (dget kw ''tool_choice'') \<and> py_in ''deepseek-v4-flash'' model
         \<and> \<not> truthy (dget kw ''thinking'')
         \<and> map_of (obj_of (dget kw ''extra_body'')) ''thinking'' = None
      then set_extra ''thinking'' (thinking_type ''disabled'') kw else kw)"

definition disable_qwen_thinking ::
  "task_complexity option \<Rightarrow> string \<Rightarrow> string \<Rightarrow> kwargs \<Rightarrow> kwargs" where
  "disable_qwen_thinking complexity provider model kw =
     (if complexity = Some TRIVIAL \<and> provider = ''alibaba'' \<and> py_in ''qwen'' model
         \<and> \<not> truthy (dget kw ''thinking'')
         \<and> map_of (obj_of (dget kw ''extra_body'')) ''enable_thinking'' = None
         \<and> map_of (obj_of (dget kw ''extra_body'')) ''thinking'' = None
      then set_extra ''enable_thinking'' (JBool False) kw else kw)"

definition attempt_kwargs :: "llm_settings \<Rightarrow> router \<Rightarrow> llm_request \<Rightarrow> string \<Rightarrow> kwargs" where
  "attempt_kwargs st rt rq model =
     (let provider = extract_provider rt model;
          kw = add_request_fields rt rq model (build_kwargs st rt rq model);
          kw = merge_tier_thinking (thinking_params_for (rq_complexity rq) provider model (ls_reasoning st)) kw;
          kw = disable_deepseek_thinking model kw
      in disable_qwen_thinking (rq_complexity rq) provider model kw)"

text \<open>The retries of the tool-choice recovery.\<close>

definition thinking_disabled_kwargs :: "kwargs \<Rightarrow> kwargs" where
  "thinking_disabled_kwargs kw = set_extra ''thinking'' (thinking_type ''disabled'') kw"

definition required_kwargs :: "kwargs \<Rightarrow> kwargs" where
  "required_kwargs kw = dput ''tool_choice'' (JStr ''required'') kw"

definition dropped_kwargs :: "kwargs \<Rightarrow> kwargs" where
  "dropped_kwargs kw = AList.delete ''tool_choice'' kw"

section \<open>Which entry reaches the provider\<close>

lemma merge_tier_other:
  "k \<notin> fst ` set tier \<Longrightarrow> map_of (merge_tier_thinking tier kw) k = map_of kw k"
proof (induction tier arbitrary: kw)
  case Nil
  then show ?case by (simp add: merge_tier_thinking_def)
next
  case (Cons t tier)
  obtain e v where t: "t = (e, v)" by (cases t)
  let ?kw = "if e \<in> {''thinking'', ''reasoning_effort'', ''extra_body''} then setdefault e v kw else dput e v kw"
  have "map_of (merge_tier_thinking (t # tier) kw) k = map_of (merge_tier_thinking tier ?kw) k"
    by (simp only: merge_tier_thinking_def t fold.simps comp_apply prod.case)
  also have "\<dots> = map_of ?kw k" using Cons by simp
  also have "\<dots> = map_of kw k"
  proof -
    from Cons.prems t have "k \<noteq> e" by auto
    then show ?thesis by (simp only: setdefault_lookup dict_lookup_update if_False simp_thms split: if_split)
  qed
  finally show ?case .
qed

lemma thinking_params_shapes:
  "map fst (thinking_params_for c p m st) \<in>
     {[], [''extra_body''], [''thinking'', ''temperature''], [''reasoning_effort'']}"
  by (simp add: thinking_params_for_def disable_params_def Let_def split: option.split)

lemma thinking_params_keys:
  "fst ` set (thinking_params_for c p m st) \<subseteq> {''thinking'', ''temperature'', ''reasoning_effort'', ''extra_body''}"
proof -
  have "fst ` set (thinking_params_for c p m st) = set (map fst (thinking_params_for c p m st))" by simp
  with thinking_params_shapes [of c p m st] show ?thesis by (elim insertE) auto
qed

lemma set_extra_lookup [simp]:
  "k \<noteq> ''extra_body'' \<Longrightarrow> map_of (set_extra e v kw) k = map_of kw k"
  "dget (set_extra e v kw) ''extra_body'' = JObj (dput e v (obj_of (dget kw ''extra_body'')))"
  by (simp_all add: set_extra_def)

lemma disable_thinking_other:
  "k \<noteq> ''extra_body'' \<Longrightarrow> map_of (disable_deepseek_thinking m kw) k = map_of kw k"
  "k \<noteq> ''extra_body'' \<Longrightarrow> map_of (disable_qwen_thinking c p m kw) k = map_of kw k"
  by (simp_all add: disable_deepseek_thinking_def disable_qwen_thinking_def)

lemma add_request_other:
  "k \<notin> {''tools'', ''response_format'', ''tool_choice''} \<Longrightarrow>
   map_of (add_request_fields rt rq m kw) k = map_of kw k"
  by (auto simp: add_request_fields_def Let_def)

lemma attempt_kwargs_base:
  assumes "k \<notin> {''tools'', ''response_format'', ''tool_choice'', ''thinking'', ''temperature'',
    ''reasoning_effort'', ''extra_body''}"
  shows "map_of (attempt_kwargs st rt rq m) k = map_of (build_kwargs st rt rq m) k"
proof -
  have "k \<notin> fst ` set (thinking_params_for (rq_complexity rq) (extract_provider rt m) m (ls_reasoning st))"
    using assms thinking_params_keys by blast
  with assms show ?thesis
    by (simp add: attempt_kwargs_def Let_def disable_thinking_other merge_tier_other add_request_other)
qed

text \<open>The endpoint and key that belong to a provider.\<close>

definition pinned_base :: "llm_settings \<Rightarrow> string \<Rightarrow> string option" where
  "pinned_base st provider =
     (if provider = ''nvidia''
        then Some (or_default (ls_nvidia_api_base st) ''https://integrate.api.nvidia.com/v1'')
      else if provider = ''anthropic''
        then Some (or_default (ls_anthropic_api_base st) ''https://api.anthropic.com'')
      else if provider = ''alibaba''
        then Some (or_default (ls_alibaba_api_base st) ''https://dashscope-intl.aliyuncs.com/compatible-mode/v1'')
      else None)"

definition provider_secret :: "llm_settings \<Rightarrow> string \<Rightarrow> string option" where
  "provider_secret st provider =
     (case ls_provider_key st provider of None \<Rightarrow> None | Some k \<Rightarrow> if k = [] then None else Some k)"

lemma shim_lookup [simp]:
  "map_of (dict_update kw (snd (nvidia_shim_model_id p lm b))) k =
     (if p = ''nvidia'' \<and> k = ''api_base''
        then Some (JStr (or_default b ''https://integrate.api.nvidia.com/v1''))
      else if p = ''nvidia'' \<and> k = ''model'' \<and> prefix ''nvidia/'' lm
        then Some (JStr (''openai/'' @ drop 7 lm))
      else map_of kw k)"
  by (simp add: nvidia_shim_model_id_def Let_def dict_update_def)

lemma build_kwargs_lookup:
  "map_of (build_kwargs st rt rq m) ''api_base'' = map_option JStr (pinned_base st (extract_provider rt m))"
  "map_of (build_kwargs st rt rq m) ''api_key'' = map_option JStr (provider_secret st (extract_provider rt m))"
  "map_of (build_kwargs st rt rq m) ''max_tokens'' =
     Some (JInt (case rq_max_tokens rq of Some n \<Rightarrow> n | None \<Rightarrow> default_max_tokens st (map_of (rt_registry rt) m)))"
  by (simp_all add: build_kwargs_def pinned_base_def provider_secret_def Let_def split: option.split)

text \<open>
  Fact (safety): a key never travels to a foreign endpoint.  Whatever the request and whatever
  pre-flight adjustments fire, an attempt carries exactly the key of the provider that serves
  the model, and the endpoint is that provider's own pin for the three providers whose calls
  an ambient base URL or an \<open>openai/\<close> prefix could misroute, and absent for the others.
\<close>

theorem endpoint_and_key_agree:
  "map_of (attempt_kwargs st rt rq m) ''api_base'' =
     map_option JStr (pinned_base st (extract_provider rt m)) \<and>
   map_of (attempt_kwargs st rt rq m) ''api_key'' =
     map_option JStr (provider_secret st (extract_provider rt m))"
  by (simp add: attempt_kwargs_base build_kwargs_lookup)

text \<open>
  Fact (bounds): a request that does not fix its output size reserves at most the configured
  cap, on every provider and after every adjustment; an explicit size is sent as it is.
\<close>

theorem output_reservation_capped:
  "\<exists>n. map_of (attempt_kwargs st rt rq m) ''max_tokens'' = Some (JInt n) \<and>
     (case rq_max_tokens rq of Some k \<Rightarrow> n = k | None \<Rightarrow> n \<le> ls_max_output_cap st)"
  by (simp add: attempt_kwargs_base build_kwargs_lookup default_max_tokens_def split: option.split)

section \<open>Forced tool choice\<close>

text \<open>Whether the tier control asks a DeepSeek or Z.AI model to think.\<close>

definition tier_turns_on :: "reasoning_settings \<Rightarrow> task_complexity option \<Rightarrow> string \<Rightarrow> bool" where
  "tier_turns_on st complexity provider =
     (case complexity of
        None \<Rightarrow> False
      | Some c \<Rightarrow>
          rc_enabled st \<and> provider \<in> {''deepseek'', ''zai''} \<and>
          (if c \<in> {COMPLEX, CRITICAL} then rc_complex_thinking st else rc_simple_thinking st)
            \<notin> {[], ''none''})"

lemma tier_params_not_anthropic:
  assumes "p \<noteq> ''anthropic''"
  shows "thinking_params_for c p m st \<in>
     (if tier_turns_on st c p then {[(''extra_body'', JObj [(''thinking'', thinking_type ''enabled'')])]}
      else {[], [(''extra_body'', JObj [(''thinking'', thinking_type ''disabled'')])],
            [(''reasoning_effort'', JStr (rc_complex_thinking st))],
            [(''reasoning_effort'', JStr (rc_simple_thinking st))]})"
proof (cases c)
  case None
  then show ?thesis by (simp add: thinking_params_for_def tier_turns_on_def)
next
  case (Some d)
  let ?e = "if d \<in> {COMPLEX, CRITICAL} then rc_complex_thinking st else rc_simple_thinking st"
  have "?e = rc_complex_thinking st \<or> ?e = rc_simple_thinking st" by simp
  then show ?thesis using assms Some
    by (cases "rc_enabled st"; cases "?e \<in> {[], ''none''}")
       (auto simp: thinking_params_for_def tier_turns_on_def disable_params_def Let_def)
qed

lemma build_kwargs_request_fields:
  "map_of (build_kwargs st rt rq m) ''extra_body'' = None"
  "map_of (build_kwargs st rt rq m) ''tool_choice'' = None"
  "dget (build_kwargs st rt rq m) ''thinking'' = rq_thinking rq"
  by (simp_all add: build_kwargs_def Let_def dget_lookup)

text \<open>The entries the pre-flight guards look at, once the tier control has been merged in.\<close>

lemma merged_entries:
  fixes rt rq m st
  defines "kw \<equiv> merge_tier_thinking
      (thinking_params_for (rq_complexity rq) (extract_provider rt m) m (ls_reasoning st))
      (add_request_fields rt rq m (build_kwargs st rt rq m))"
  assumes "extract_provider rt m \<noteq> ''anthropic''" "truthy (rq_tool_choice rq)"
  shows "dget kw ''tool_choice'' = rq_tool_choice rq"
    and "dget kw ''thinking'' = rq_thinking rq"
    and "map_of (obj_of (dget kw ''extra_body'')) ''thinking'' \<in>
       (if tier_turns_on (ls_reasoning st) (rq_complexity rq) (extract_provider rt m)
        then {Some (thinking_type ''enabled'')} else {None, Some (thinking_type ''disabled'')})"
proof -
  let ?tier = "thinking_params_for (rq_complexity rq) (extract_provider rt m) m (ls_reasoning st)"
  let ?kw0 = "add_request_fields rt rq m (build_kwargs st rt rq m)"
  have tc: "map_of ?kw0 ''tool_choice'' = Some (rq_tool_choice rq)"
    using assms(2,3) by (simp add: add_request_fields_def Let_def)
  have th: "dget ?kw0 ''thinking'' = rq_thinking rq" and eb: "map_of ?kw0 ''extra_body'' = None"
    using build_kwargs_request_fields [of st rt rq m]
    by (simp_all add: dget_lookup add_request_other)
  have keys: "''tool_choice'' \<notin> fst ` set ?tier" "''thinking'' \<notin> fst ` set ?tier"
    using tier_params_not_anthropic [OF assms(2), of "rq_complexity rq" m "ls_reasoning st"]
    by (auto split: if_splits)
  from tc keys show "dget kw ''tool_choice'' = rq_tool_choice rq"
    by (simp add: kw_def dget_lookup merge_tier_other)
  from th keys show "dget kw ''thinking'' = rq_thinking rq"
    by (simp add: kw_def dget_lookup merge_tier_other)
  from tier_params_not_anthropic [OF assms(2), of "rq_complexity rq" m "ls_reasoning st"] eb
  show "map_of (obj_of (dget kw ''extra_body'')) ''thinking'' \<in>
       (if tier_turns_on (ls_reasoning st) (rq_complexity rq) (extract_provider rt m)
        then {Some (thinking_type ''enabled'')} else {None, Some (thinking_type ''disabled'')})"
    by (auto simp: kw_def merge_tier_thinking_def dget_lookup split: if_splits)
qed

text \<open>
  Fact (functional): what thinking mode a DeepSeek flash model gets under a forced tool choice
  (a provider that rejects the combination).  The forced choice is sent, and unless the caller
  asked for thinking the request disables it -- except when the tier control turns thinking
  on for this tier: then the enabled flag is sent beside the forced tool choice and the
  pre-flight guard does not fire.
\<close>

theorem forced_tool_thinking_mode:
  assumes "py_in ''deepseek-v4-flash'' m" "truthy (rq_tool_choice rq)" "\<not> truthy (rq_thinking rq)"
    and "extract_provider rt m \<noteq> ''anthropic''"
  shows "dget (attempt_kwargs st rt rq m) ''tool_choice'' = rq_tool_choice rq \<and>
    dget (obj_of (dget (attempt_kwargs st rt rq m) ''extra_body'')) ''thinking'' =
      thinking_type (if tier_turns_on (ls_reasoning st) (rq_complexity rq) (extract_provider rt m)
                     then ''enabled'' else ''disabled'')"
proof -
  let ?kw = "merge_tier_thinking
      (thinking_params_for (rq_complexity rq) (extract_provider rt m) m (ls_reasoning st))
      (add_request_fields rt rq m (build_kwargs st rt rq m))"
  let ?on = "tier_turns_on (ls_reasoning st) (rq_complexity rq) (extract_provider rt m)"
  note entries = merged_entries [OF assms(4,2), of st]
  have "map_of (obj_of (dget (disable_deepseek_thinking m ?kw) ''extra_body'')) ''thinking'' =
      Some (thinking_type (if ?on then ''enabled'' else ''disabled''))"
    using entries assms(1-3) by (auto simp: disable_deepseek_thinking_def split: if_splits)
  then show ?thesis using entries(1)
    by (simp add: attempt_kwargs_def Let_def disable_qwen_thinking_def dget_lookup disable_thinking_other)
qed

definition demo_llm_settings :: llm_settings where
  "demo_llm_settings = \<lparr>ls_request_timeout = 60, ls_num_retries = 0, ls_max_output_cap = 16384,
     ls_default_max_tokens = 4096, ls_provider_key = (\<lambda>p. Some ''k''), ls_nvidia_api_base = None,
     ls_anthropic_api_base = None, ls_alibaba_api_base = None,
     ls_reasoning = \<lparr>rc_enabled = True, rc_complex_thinking = ''high'', rc_simple_thinking = ''none'',
       rc_budget_complex = 8000, rc_budget_medium = 2000\<rparr>\<rparr>"

definition demo_request :: "task_complexity \<Rightarrow> llm_request" where
  "demo_request c = \<lparr>rq_complexity = Some c, rq_tools = JList [JStr ''t''], rq_response_format = JNull,
     rq_tool_choice = JObj [(''type'', JStr ''function'')], rq_temperature = 0, rq_max_tokens = None,
     rq_metadata = JNull, rq_thinking = JNull, rq_reasoning_effort = None, rq_timeout = None\<rparr>"

theorem forced_tool_thinking_mode_witness:
  "dget (obj_of (dget (attempt_kwargs demo_llm_settings demo_router (demo_request COMPLEX)
      ''deepseek-v4-flash'') ''extra_body'')) ''thinking'' = thinking_type ''enabled'' \<and>
   dget (obj_of (dget (attempt_kwargs demo_llm_settings demo_router (demo_request SIMPLE)
      ''deepseek-v4-flash'') ''extra_body'')) ''thinking'' = thinking_type ''disabled''"
proof -
  have p: "extract_provider demo_router ''deepseek-v4-flash'' = ''deepseek''"
    by (simp add: extract_provider_def demo_registry)
  have "py_in ''deepseek-v4-flash'' ''deepseek-v4-flash''" by simp
  from forced_tool_thinking_mode [OF this, of "demo_request COMPLEX" demo_router demo_llm_settings]
    forced_tool_thinking_mode [OF this, of "demo_request SIMPLE" demo_router demo_llm_settings] p
  show ?thesis by (simp add: demo_request_def demo_llm_settings_def tier_turns_on_def)
qed

end
