(* ===== verification/Gateway.thy ===== *)
theory Gateway
  imports Circuit_Breaker Latency_Gate Request_Params
begin

text \<open>
  The resilience pipeline of \<open>src/src/llm/gateway.py\<close>: model choice, budget check, the fallback
  chain with the two gates of \<open>Call_Gate\<close> in front of every attempt, the retries around one
  provider call and the recovery from a rejected tool choice, and the streaming variant.

  The providers, the clock, the prompt cache and the cost ledger are outside the code: what
  they answer is an argument.  \<open>ae_call\<close> of an \<open>attempt_env\<close> gives, for each of the up to
  three calls of an attempt, the answer to the keyword arguments at each retry.  Log lines,
  spans, metrics and message contents are left out.
\<close>

section \<open>What a provider answers\<close>

text \<open>
  \<open>Retriable\<close>: rate limit, 5xx, connection error.  \<open>Timed_out\<close>: a timeout, which moves on to
  the next model without a retry.  \<open>Rejected\<close>: authentication error or bad request.
  \<open>Garbled\<close>: the call returned but parsing the response raised.
\<close>

datatype 'r outcome =
    Ok 'r
  | Garbled string
  | Retriable string
  | Timed_out string
  | Rejected string
  | Unexpected string

text \<open>
  \<open>_retry_call\<close>: the retry loop stops after \<open>llm_max_retries\<close> attempts (at least one is made)
  and re-raises the last error.
\<close>

fun retry_call :: "nat \<Rightarrow> (nat \<Rightarrow> 'r outcome) \<Rightarrow> 'r outcome" where
  "retry_call (Suc (Suc n)) answers =
     (case answers 0 of
        Retriable e \<Rightarrow> retry_call (Suc n) (\<lambda>i. answers (Suc i))
      | oc \<Rightarrow> oc)"
| "retry_call _ answers = answers 0"

lemma retry_call_within: "\<exists>i < max 1 n. retry_call n answers = answers i"
proof (induction n answers rule: retry_call.induct)
  case (1 n answers)
  show ?case
  proof (cases "answers 0")
    case (Retriable e)
    with 1 obtain i where "i < Suc n" "retry_call (Suc n) (\<lambda>i. answers (Suc i)) = answers (Suc i)" by auto
    with Retriable show ?thesis by (intro exI [of _ "Suc i"]) simp
  qed (auto intro: exI [of _ 0])
qed auto

lemma retry_call_settled:
  assumes "\<forall>i < n. \<exists>e. answers i = Retriable e" and "\<forall>e. answers n \<noteq> Retriable e" and "n < k"
  shows "retry_call k answers = answers n"
  using assms
proof (induction n arbitrary: k answers)
  case 0
  then show ?case
    by (cases "(k, answers)" rule: retry_call.cases) (auto split: outcome.split)
next
  case (Suc n)
  from Suc.prems(3) obtain j where k: "k = Suc (Suc j)" by (cases k; cases "k - 1") auto
  from Suc.prems(1) obtain e where "answers 0 = Retriable e" by auto
  with Suc.IH [of "\<lambda>i. answers (Suc i)" "Suc j"] Suc.prems k show ?case by auto
qed

section \<open>Configuration, environment, state\<close>

record gateway_cfg =
  gc_router :: router
  gc_llm :: llm_settings
  gc_max_retries :: int
  gc_total_timeout :: real
  gc_force_hardening :: bool
  gc_budget_hard_stop :: bool
  gc_native_structured :: bool
  gc_vision_enabled :: bool
  gc_pinned_model :: "string option"
  gc_node_max_tokens :: "string \<Rightarrow> int"

record 'r attempt_env =
  ae_deadline_now :: real
  ae_breaker_now :: real
  ae_latency_now :: real
  ae_record_now :: "nat \<Rightarrow> real"
  ae_call :: "nat \<Rightarrow> kwargs \<Rightarrow> nat \<Rightarrow> 'r outcome"

record 'r llm_response =
  lr_content :: 'r
  lr_model :: string
  lr_provider :: string

record gateway =
  gw_breaker :: breaker
  gw_latency :: latency_gate

datatype gateway_error =
    BudgetExhaustedError string
  | AllFallbacksExhausted string "string option"

section \<open>One attempt\<close>

definition provider_call :: "gateway_cfg \<Rightarrow> 'r attempt_env \<Rightarrow> nat \<Rightarrow> kwargs \<Rightarrow> 'r outcome" where
  "provider_call cfg env k kw = retry_call (nat (gc_max_retries cfg)) (ae_call env k kw)"

text \<open>
  One retry of the tool-choice recovery: any exception becomes \<open>last_error\<close>.  A result is
  the response, or nothing with the last error so far.
\<close>

definition recovery_call ::
  "gateway_cfg \<Rightarrow> 'r attempt_env \<Rightarrow> string \<Rightarrow> nat \<Rightarrow> kwargs \<Rightarrow> breaker
    \<Rightarrow> ('r option \<times> string option) \<times> breaker" where
  "recovery_call cfg env p k kw b =
     (case provider_call cfg env k kw of
        Ok r \<Rightarrow> ((Some r, None), cb_record_success (ae_record_now env k) p b)
      | Garbled e \<Rightarrow> ((None, Some e), cb_record_success (ae_record_now env k) p b)
      | Retriable e \<Rightarrow> ((None, Some e), b)
      | Timed_out e \<Rightarrow> ((None, Some e), b)
      | Rejected e \<Rightarrow> ((None, Some e), b)
      | Unexpected e \<Rightarrow> ((None, Some e), b))"

definition recover_tool_choice ::
  "gateway_cfg \<Rightarrow> 'r attempt_env \<Rightarrow> string \<Rightarrow> string \<Rightarrow> kwargs \<Rightarrow> string option \<Rightarrow> breaker
    \<Rightarrow> ('r option \<times> string option) \<times> breaker" where
  "recover_tool_choice cfg env m p kw last_error b =
     (let ((r, err), b) =
        (if py_in ''deepseek-v4-flash'' m
         then recovery_call cfg env p 1 (thinking_disabled_kwargs kw) b
         else if gc_force_hardening cfg
         then recovery_call cfg env p 1 (required_kwargs kw) b
         else ((None, last_error), b))
      in case r of
           Some _ \<Rightarrow> ((r, err), b)
         | None \<Rightarrow> recovery_call cfg env p 2 (dropped_kwargs kw) b)"

text \<open>The body of the loop after both gates admitted the provider.\<close>

definition attempt ::
  "gateway_cfg \<Rightarrow> llm_request \<Rightarrow> 'r attempt_env \<Rightarrow> string \<Rightarrow> string option \<Rightarrow> breaker
    \<Rightarrow> ('r option \<times> string option) \<times> breaker" where
  "attempt cfg rq env m last_error b =
     (let p = extract_provider (gc_router cfg) m;
          kw = attempt_kwargs (gc_llm cfg) (gc_router cfg) rq m;
          now = ae_record_now env 0
      in case provider_call cfg env 0 kw of
           Ok r \<Rightarrow> ((Some r, last_error), cb_record_success now p b)
         | Garbled e \<Rightarrow>
             ((None, Some e), cb_record_failure now True p (cb_record_success now p b))
         | Retriable e \<Rightarrow> ((None, Some e), cb_record_failure now True p b)
         | Timed_out e \<Rightarrow> ((None, Some e), cb_record_failure now True p b)
         | Unexpected e \<Rightarrow> ((None, Some e), cb_record_failure now True p b)
         | Rejected msg \<Rightarrow>
             let b = cb_record_failure now False p b
             in if truthy (rq_tool_choice rq) \<and> py_in ''tool_choice'' (py_lower msg)
                then recover_tool_choice cfg env m p kw last_error b
                else ((None, last_error), b))"

section \<open>The fallback chain\<close>

definition vision_capable :: "router \<Rightarrow> string \<Rightarrow> bool" where
  "vision_capable rt m = (case map_of (rt_registry rt) m of None \<Rightarrow> False | Some sp \<Rightarrow> ms_images sp)"

definition keyed :: "router \<Rightarrow> string \<Rightarrow> bool" where
  "keyed rt m = has_provider_key rt (extract_provider rt m)"

definition attempt_chain :: "router \<Rightarrow> string \<Rightarrow> bool \<Rightarrow> string list" where
  "attempt_chain rt model require_vision =
     (let chain = model # get_fallback_chain rt model;
          vision_chain = filter (vision_capable rt) chain;
          chain = (if require_vision \<and> vision_chain \<noteq> [] then vision_chain else chain);
          available = filter (keyed rt) chain
      in if available \<noteq> [] then available else chain)"

definition past_deadline :: "real option \<Rightarrow> 'r attempt_env \<Rightarrow> bool" where
  "past_deadline deadline env =
     (case deadline of None \<Rightarrow> False | Some d \<Rightarrow> d \<le> ae_deadline_now env)"

fun fallback_loop ::
  "gateway_cfg \<Rightarrow> llm_request \<Rightarrow> real option \<Rightarrow> (nat \<Rightarrow> 'r attempt_env) \<Rightarrow> string list
    \<Rightarrow> string option \<Rightarrow> gateway \<Rightarrow> (string option + 'r llm_response) \<times> gateway" where
  "fallback_loop cfg rq deadline envs [] last_error g = (Inl last_error, g)"
| "fallback_loop cfg rq deadline envs (m # ms) last_error g =
     (if past_deadline deadline (envs 0) then (Inl last_error, g)
      else
        let p = extract_provider (gc_router cfg) m in
        case cb_before_call (ae_breaker_now (envs 0)) p (gw_breaker g) of
          (Inl _, b) \<Rightarrow>
            fallback_loop cfg rq deadline (\<lambda>i. envs (Suc i)) ms last_error (g\<lparr>gw_breaker := b\<rparr>)
        | (Inr _, b) \<Rightarrow>
            (case lg_before_call (ae_latency_now (envs 0)) p (gw_latency g) of
               (Inl _, l) \<Rightarrow>
                 fallback_loop cfg rq deadline (\<lambda>i. envs (Suc i)) ms last_error
                   (g\<lparr>gw_breaker := b, gw_latency := l\<rparr>)
             | (Inr _, l) \<Rightarrow>
                 (case attempt cfg rq (envs 0) m last_error b of
                    ((Some r, _), b) \<Rightarrow>
                      (Inr \<lparr>lr_content = r, lr_model = m, lr_provider = p\<rparr>,
                       g\<lparr>gw_breaker := b, gw_latency := l\<rparr>)
                  | ((None, err), b) \<Rightarrow>
                      fallback_loop cfg rq deadline (\<lambda>i. envs (Suc i)) ms err
                        (g\<lparr>gw_breaker := b, gw_latency := l\<rparr>))))"

definition chain_deadline :: "gateway_cfg \<Rightarrow> real \<Rightarrow> real option" where
  "chain_deadline cfg now = (if 0 < gc_total_timeout cfg then Some (now + gc_total_timeout cfg) else None)"

definition execute_with_fallback ::
  "gateway_cfg \<Rightarrow> llm_request \<Rightarrow> bool \<Rightarrow> real \<Rightarrow> (nat \<Rightarrow> 'r attempt_env) \<Rightarrow> string \<Rightarrow> gateway
    \<Rightarrow> (gateway_error + 'r llm_response) \<times> gateway" where
  "execute_with_fallback cfg rq require_vision start envs model g =
     (case fallback_loop cfg rq (chain_deadline cfg start) envs
             (attempt_chain (gc_router cfg) model require_vision) None g of
        (Inr res, g) \<Rightarrow> (Inr res, g)
      | (Inl last_error, g) \<Rightarrow> (Inl (AllFallbacksExhausted model last_error), g))"

section \<open>The whole completion\<close>

fun tier_order :: "model_tier \<Rightarrow> int" where
  "tier_order VERY_CHEAP = 0"
| "tier_order CHEAP = 1"
| "tier_order MODERATE = 2"

definition is_provider_disabled :: "router \<Rightarrow> string \<Rightarrow> bool" where
  "is_provider_disabled rt p \<longleftrightarrow> p \<in> resolved_disabled_providers rt"

definition cheaper_than :: "router \<Rightarrow> int \<Rightarrow> model_spec \<Rightarrow> bool" where
  "cheaper_than rt order sp \<longleftrightarrow>
     tier_order (ms_tier sp) < order \<and> \<not> is_provider_disabled rt (ms_provider sp)"

definition get_cheaper_fallback :: "router \<Rightarrow> string \<Rightarrow> string option" where
  "get_cheaper_fallback rt model =
     (case map_of (rt_registry rt) model of
        None \<Rightarrow> None
      | Some spec \<Rightarrow>
          let order = tier_order (ms_tier spec) in
          if order = 0 then None
          else
            case List.find (\<lambda>fb. case map_of (rt_registry rt) fb of
                                   None \<Rightarrow> False | Some sp \<Rightarrow> cheaper_than rt order sp)
                   (get_fallback_chain rt model) of
              Some fb \<Rightarrow> Some fb
            | None \<Rightarrow> map_option fst
                (List.find (\<lambda>(mid, sp). mid \<noteq> model \<and> cheaper_than rt order sp) (rt_registry rt)))"

definition select_model ::
  "gateway_cfg \<Rightarrow> string option \<Rightarrow> task_complexity option \<Rightarrow> string option \<Rightarrow> string" where
  "select_model cfg model complexity node =
     (case model of
        Some m \<Rightarrow> m
      | None \<Rightarrow>
          (case gc_pinned_model cfg of
             Some m \<Rightarrow> m
           | None \<Rightarrow>
               (case complexity of
                  Some c \<Rightarrow> route_model (gc_router cfg) c node {}
                | None \<Rightarrow> route_model (gc_router cfg) SIMPLE node {})))"

definition resolve_model :: "gateway_cfg \<Rightarrow> task_complexity option \<Rightarrow> string option \<Rightarrow> string" where
  "resolve_model cfg complexity node = select_model cfg None complexity node"

definition node_max_tokens :: "gateway_cfg \<Rightarrow> string option \<Rightarrow> int option" where
  "node_max_tokens cfg node =
     (case node of
        None \<Rightarrow> None
      | Some n \<Rightarrow>
          if n \<in> {''classify'', ''plan'', ''reflect'', ''verify''} \<and> gc_node_max_tokens cfg n \<noteq> 0
          then Some (gc_node_max_tokens cfg n) else None)"

record 'r call_env =
  ce_cached :: "'r llm_response option"
  ce_budget :: "(bool \<times> string) option"
  ce_start :: real
  ce_chain_start :: real
  ce_end :: real
  ce_gate_now :: real
  ce_attempts :: "nat \<Rightarrow> 'r attempt_env"

text \<open>\<open>int(seconds * 1000)\<close> truncates towards zero.\<close>

definition elapsed_ms :: "real \<Rightarrow> real \<Rightarrow> real" where
  "elapsed_ms start stop =
     (let x = (stop - start) * 1000 in real_of_int (if 0 \<le> x then \<lfloor>x\<rfloor> else \<lceil>x\<rceil>))"

text \<open>\<open>Inl\<close> a budget error, or the model to call.\<close>

definition budget_gate ::
  "gateway_cfg \<Rightarrow> (bool \<times> string) option \<Rightarrow> string \<Rightarrow> gateway_error + string" where
  "budget_gate cfg budget model =
     (case budget of
        None \<Rightarrow> Inr model
      | Some (in_budget, msg) \<Rightarrow>
          if in_budget then Inr model
          else if gc_budget_hard_stop cfg then Inl (BudgetExhaustedError msg)
          else case get_cheaper_fallback (gc_router cfg) model of
                 Some fb \<Rightarrow> if fb \<noteq> [] then Inr fb
                            else Inl (BudgetExhaustedError (''Budget exhausted and no cheaper fallback: '' @ msg))
               | None \<Rightarrow> Inl (BudgetExhaustedError (''Budget exhausted and no cheaper fallback: '' @ msg)))"

definition acompletion ::
  "gateway_cfg \<Rightarrow> llm_request \<Rightarrow> string option \<Rightarrow> string option \<Rightarrow> json \<Rightarrow> bool \<Rightarrow> 'r call_env
    \<Rightarrow> gateway \<Rightarrow> (gateway_error + 'r llm_response) \<times> gateway" where
  "acompletion cfg rq model node response_schema images env g =
     (let model = select_model cfg model (rq_complexity rq) node;
          rq = (if rq_max_tokens rq = None then rq\<lparr>rq_max_tokens := node_max_tokens cfg node\<rparr> else rq)
      in case ce_cached env of
           Some res \<Rightarrow> (Inr res, g)
         | None \<Rightarrow>
             (case budget_gate cfg (ce_budget env) model of
                Inl err \<Rightarrow> (Inl err, g)
              | Inr model \<Rightarrow>
                  let native = build_native_response_format response_schema
                        (extract_provider (gc_router cfg) model) (gc_native_structured cfg);
                      rq = (if response_schema \<noteq> JNull \<and> native \<noteq> JNull
                            then rq\<lparr>rq_response_format := native\<rparr> else rq)
                  in case execute_with_fallback cfg rq (images \<and> gc_vision_enabled cfg)
                            (ce_chain_start env) (ce_attempts env) model g of
                       (Inl err, g) \<Rightarrow> (Inl err, g)
                     | (Inr res, g) \<Rightarrow>
                         (Inr res,
                          g\<lparr>gw_latency := lg_record_call (ce_gate_now env) (lr_provider res)
                              (Ms (elapsed_ms (ce_start env) (ce_end env))) (gw_latency g)\<rparr>)))"

section \<open>Streaming\<close>

datatype stream_end = Finished | Broke_transient string | Broke string

text \<open>What one streaming call yields before it ends.\<close>

type_synonym stream = "string list \<times> stream_end"

datatype stream_error = Stream_raised string | Streaming_fallbacks_exhausted string

fun stream_fallbacks :: "string \<Rightarrow> (nat \<Rightarrow> stream) \<Rightarrow> string list \<Rightarrow> string list \<times> (stream_error + unit)" where
  "stream_fallbacks model answers [] = ([], Inl (Streaming_fallbacks_exhausted model))"
| "stream_fallbacks model answers (m # ms) =
     (let (tokens, ended) = answers 0 in
      if ended = Finished then (tokens, Inr ())
      else let (rest, res) = stream_fallbacks model (\<lambda>i. answers (Suc i)) ms in (tokens @ rest, res))"

definition astream ::
  "gateway_cfg \<Rightarrow> string option \<Rightarrow> task_complexity option \<Rightarrow> string option \<Rightarrow> (nat \<Rightarrow> stream)
    \<Rightarrow> string list \<times> (stream_error + unit)" where
  "astream cfg model complexity node answers =
     (let model = select_model cfg model complexity node;
          tokens = filter (\<lambda>t. t \<noteq> []) (fst (answers 0))
      in case snd (answers 0) of
           Finished \<Rightarrow> (tokens, Inr ())
         | Broke e \<Rightarrow> (tokens, Inl (Stream_raised e))
         | Broke_transient e \<Rightarrow>
             (let (rest, res) = stream_fallbacks model
                    (\<lambda>i. (filter (\<lambda>t. t \<noteq> []) (fst (answers (Suc i))), snd (answers (Suc i))))
                    (get_fallback_chain (gc_router cfg) model)
              in (tokens @ rest, res)))"

section \<open>The gates of the loop\<close>

interpretation gates: two_gates cb_before_call cb_blocked lg_before_call lg_blocked
  by unfold_locales

definition gw_blocked :: "'r attempt_env \<Rightarrow> string \<Rightarrow> gateway \<Rightarrow> bool" where
  "gw_blocked env p g \<longleftrightarrow>
     seq_blocked cb_blocked lg_blocked (ae_breaker_now env, ae_latency_now env) p
       (gw_breaker g, gw_latency g)"

text \<open>One turn of the loop, with the two gates as one.\<close>

lemma fallback_loop_Cons:
  "fallback_loop cfg rq deadline envs (m # ms) last_error g =
     (let p = extract_provider (gc_router cfg) m in
      if past_deadline deadline (envs 0) then (Inl last_error, g)
      else
        case seq_gate cb_before_call lg_before_call (ae_breaker_now (envs 0), ae_latency_now (envs 0)) p
               (gw_breaker g, gw_latency g) of
          (Inl _, b, l) \<Rightarrow>
            fallback_loop cfg rq deadline (\<lambda>i. envs (Suc i)) ms last_error (g\<lparr>gw_breaker := b, gw_latency := l\<rparr>)
        | (Inr _, b, l) \<Rightarrow>
            (case attempt cfg rq (envs 0) m last_error b of
               ((Some r, _), b) \<Rightarrow>
                 (Inr \<lparr>lr_content = r, lr_model = m, lr_provider = p\<rparr>, g\<lparr>gw_breaker := b, gw_latency := l\<rparr>)
             | ((None, err), b) \<Rightarrow>
                 fallback_loop cfg rq deadline (\<lambda>i. envs (Suc i)) ms err (g\<lparr>gw_breaker := b, gw_latency := l\<rparr>)))"
  by (cases g) (simp add: seq_gate_def Let_def split: sum.split prod.split option.split)

declare fallback_loop.simps(2) [simp del]

lemma recovery_call_breaker:
  "snd (recovery_call cfg env p k kw b) = b \<or>
   snd (recovery_call cfg env p k kw b) = cb_record_success (ae_record_now env k) p b"
  by (simp add: recovery_call_def split: outcome.split)

lemma recovery_call_other:
  "q \<noteq> p \<Longrightarrow> cb_peek (snd (recovery_call cfg env p k kw b)) q = cb_peek b q"
  using recovery_call_breaker [of cfg env p k kw b] by (auto simp: cb_record_success_peek)

lemma recovery_call_settings:
  "recovery_timeout (snd (recovery_call cfg env p k kw b)) = recovery_timeout b"
  "half_open_max_calls (snd (recovery_call cfg env p k kw b)) = half_open_max_calls b"
  using recovery_call_breaker [of cfg env p k kw b] by auto

text \<open>The breaker that the first recovery stage leaves behind.\<close>

lemma recover_breaker:
  "\<exists>b1. (b1 = b \<or> b1 = cb_record_success (ae_record_now env 1) p b) \<and>
     (snd (recover_tool_choice cfg env m p kw err b) = b1 \<or>
      snd (recover_tool_choice cfg env m p kw err b) = cb_record_success (ae_record_now env 2) p b1)"
proof -
  let ?first = "if py_in ''deepseek-v4-flash'' m then recovery_call cfg env p 1 (thinking_disabled_kwargs kw) b
    else if gc_force_hardening cfg then recovery_call cfg env p 1 (required_kwargs kw) b
    else ((None, err), b)"
  obtain r e b1 where f: "?first = ((r, e), b1)" by (cases ?first) auto
  then have b1: "b1 = b \<or> b1 = cb_record_success (ae_record_now env 1) p b"
    using recovery_call_breaker [of cfg env p 1 "thinking_disabled_kwargs kw" b]
      recovery_call_breaker [of cfg env p 1 "required_kwargs kw" b]
    by (auto split: if_splits)
  have "recover_tool_choice cfg env m p kw err b =
      (case r of Some _ \<Rightarrow> ((r, e), b1) | None \<Rightarrow> recovery_call cfg env p 2 (dropped_kwargs kw) b1)"
    unfolding recover_tool_choice_def f Let_def by simp
  then have "snd (recover_tool_choice cfg env m p kw err b) = b1 \<or>
      snd (recover_tool_choice cfg env m p kw err b) = cb_record_success (ae_record_now env 2) p b1"
    using recovery_call_breaker [of cfg env p 2 "dropped_kwargs kw" b1] by (cases r) simp_all
  with b1 show ?thesis by blast
qed

lemma recover_other:
  "q \<noteq> p \<Longrightarrow> cb_peek (snd (recover_tool_choice cfg env m p kw err b)) q = cb_peek b q"
  using recover_breaker [of b env p cfg m kw err] by (auto simp: cb_record_success_peek)

lemma recover_settings:
  "recovery_timeout (snd (recover_tool_choice cfg env m p kw err b)) = recovery_timeout b \<and>
   half_open_max_calls (snd (recover_tool_choice cfg env m p kw err b)) = half_open_max_calls b"
  using recover_breaker [of b env p cfg m kw err] by auto

lemma attempt_other:
  "q \<noteq> extract_provider (gc_router cfg) m \<Longrightarrow> cb_peek (snd (attempt cfg rq env m err b)) q = cb_peek b q"
  by (simp add: attempt_def Let_def recover_other cb_record_success_peek cb_record_failure_peek
      split: outcome.split)

lemma attempt_settings [simp]:
  "recovery_timeout (snd (attempt cfg rq env m err b)) = recovery_timeout b"
  "half_open_max_calls (snd (attempt cfg rq env m err b)) = half_open_max_calls b"
  by (simp_all add: attempt_def Let_def recover_settings split: outcome.split)

lemma cb_blocked_attempt:
  "q \<noteq> extract_provider (gc_router cfg) m \<Longrightarrow>
   cb_blocked t q (snd (attempt cfg rq env m err b)) \<longleftrightarrow> cb_blocked t q b"
  by (simp add: cb_blocked_def attempt_other Let_def split: circuit_state.split)

text \<open>A turn of the loop that does not return leaves the other providers as they were.\<close>

lemma seq_blocked_attempt:
  "q \<noteq> extract_provider (gc_router cfg) m \<Longrightarrow>
   seq_blocked cb_blocked lg_blocked t q (snd (attempt cfg rq env m err b), l) \<longleftrightarrow>
   seq_blocked cb_blocked lg_blocked t q (b, l)"
  by (simp add: seq_blocked_def cb_blocked_attempt)

section \<open>Availability\<close>

lemma loop_serves:
  assumes "extract_provider (gc_router cfg) m \<notin> extract_provider (gc_router cfg) ` set pre"
    and "\<forall>i \<le> length pre. \<not> past_deadline deadline (envs i)"
    and "\<not> gw_blocked (envs (length pre)) (extract_provider (gc_router cfg) m) g"
    and "provider_call cfg (envs (length pre)) 0 (attempt_kwargs (gc_llm cfg) (gc_router cfg) rq m) = Ok r"
  shows "\<exists>res. fst (fallback_loop cfg rq deadline envs (pre @ m # post) err g) = Inr res \<and>
     lr_model res \<in> set (pre @ [m])"
  using assms
proof (induction pre arbitrary: envs err g)
  case Nil
  let ?p = "extract_provider (gc_router cfg) m"
  from Nil.prems(3) gates.both.admits_iff [of "(ae_breaker_now (envs 0), ae_latency_now (envs 0))" ?p
      "(gw_breaker g, gw_latency g)"]
  obtain b l where "seq_gate cb_before_call lg_before_call
      (ae_breaker_now (envs 0), ae_latency_now (envs 0)) ?p (gw_breaker g, gw_latency g) = (Inr (), b, l)"
    by (auto simp: gw_blocked_def)
  moreover from Nil.prems(4) have "fst (attempt cfg rq (envs 0) m err b) = (Some r, err)"
    by (simp add: attempt_def Let_def)
  then obtain b' where "attempt cfg rq (envs 0) m err b = ((Some r, err), b')"
    by (cases "attempt cfg rq (envs 0) m err b") auto
  ultimately show ?case using Nil.prems(2) by (simp add: fallback_loop_Cons)
next
  case (Cons c pre)
  let ?p = "extract_provider (gc_router cfg) m" and ?q = "extract_provider (gc_router cfg) c"
  let ?t = "(ae_breaker_now (envs 0), ae_latency_now (envs 0))"
  let ?gate = "seq_gate cb_before_call lg_before_call ?t ?q (gw_breaker g, gw_latency g)"
  obtain x b l where gate: "?gate = (x, b, l)" by (cases ?gate) auto
  have ne: "?q \<noteq> ?p" using Cons.prems(1) by auto
  from gates.both.others_kept [OF ne, of "(ae_breaker_now (envs (Suc (length pre))),
      ae_latency_now (envs (Suc (length pre))))" ?t "(gw_breaker g, gw_latency g)"] gate Cons.prems(3)
  have nb: "\<not> gw_blocked (envs (Suc (length pre))) ?p (g\<lparr>gw_breaker := b, gw_latency := l\<rparr>)"
    by (simp add: gw_blocked_def)
  have nb': "\<not> gw_blocked (envs (Suc (length pre))) ?p
      (g\<lparr>gw_breaker := snd (attempt cfg rq (envs 0) c err b), gw_latency := l\<rparr>)"
    using nb ne by (simp add: gw_blocked_def seq_blocked_attempt)
  have IH: "\<exists>res. fst (fallback_loop cfg rq deadline (\<lambda>i. envs (Suc i)) (pre @ m # post) e g') = Inr res \<and>
       lr_model res \<in> set (pre @ [m])"
    if "\<not> gw_blocked (envs (Suc (length pre))) ?p g'" for e g'
    using Cons.IH [of "\<lambda>i. envs (Suc i)" g' e] Cons.prems that by auto
  have dl: "\<not> past_deadline deadline (envs 0)" using Cons.prems(2) by auto
  obtain oc e' b' where att: "attempt cfg rq (envs 0) c err b = ((oc, e'), b')"
    by (cases "attempt cfg rq (envs 0) c err b") auto
  show ?case
  proof (cases x)
    case (Inl e)
    with gate dl IH [OF nb, of err] show ?thesis by (auto simp: fallback_loop_Cons)
  next
    case (Inr u)
    show ?thesis
    proof (cases oc)
      case None
      from nb' att have "\<not> gw_blocked (envs (Suc (length pre))) ?p (g\<lparr>gw_breaker := b', gw_latency := l\<rparr>)"
        by simp
      from IH [OF this, of e'] show ?thesis using gate dl att Inr None by (auto simp: fallback_loop_Cons)
    next
      case (Some r)
      then show ?thesis using gate dl att Inr by (simp add: fallback_loop_Cons)
    qed
  qed
qed

text \<open>
  C2 (liveness): the fallback chain does not lose an available provider.  If some entry of
  the chain is admitted by both gates when it is reached, its provider is not the provider
  of an earlier entry, it answers, and the master budget is not used up by then, the call
  returns a response -- whatever the entries before it do -- and the response is that of
  this entry or of an earlier one.
\<close>

theorem fallback_serves_available:
  assumes "attempt_chain (gc_router cfg) model vision = pre @ m # post"
    and "extract_provider (gc_router cfg) m \<notin> extract_provider (gc_router cfg) ` set pre"
    and "\<forall>i \<le> length pre. \<not> past_deadline (chain_deadline cfg start) (envs i)"
    and "\<not> gw_blocked (envs (length pre)) (extract_provider (gc_router cfg) m) g"
    and "provider_call cfg (envs (length pre)) 0 (attempt_kwargs (gc_llm cfg) (gc_router cfg) rq m) = Ok r"
  shows "\<exists>res. fst (execute_with_fallback cfg rq vision start envs model g) = Inr res \<and>
     lr_model res \<in> set (pre @ [m])"
proof -
  from loop_serves [OF assms(2-5), of post None] obtain res g' where
    "fallback_loop cfg rq (chain_deadline cfg start) envs (pre @ m # post) None g = (Inr res, g')"
    "lr_model res \<in> set (pre @ [m])" by (metis fst_conv surj_pair)
  then show ?thesis by (simp add: execute_with_fallback_def assms(1))
qed

definition demo_env :: "(nat \<Rightarrow> string outcome) \<Rightarrow> string attempt_env" where
  "demo_env answers = \<lparr>ae_deadline_now = 0, ae_breaker_now = 0, ae_latency_now = 0,
     ae_record_now = (\<lambda>_. 0), ae_call = (\<lambda>k kw i. answers k)\<rparr>"

definition demo_cfg :: gateway_cfg where
  "demo_cfg = \<lparr>gc_router = demo_router, gc_llm = demo_llm_settings, gc_max_retries = 3,
     gc_total_timeout = 300, gc_force_hardening = False, gc_budget_hard_stop = False,
     gc_native_structured = False, gc_vision_enabled = False, gc_pinned_model = None,
     gc_node_max_tokens = (\<lambda>_. 0)\<rparr>"

definition demo_gateway :: gateway where
  "demo_gateway = \<lparr>gw_breaker = new_breaker 3 60 1, gw_latency = new_latency_gate 1000 1 120 (1/2) True\<rparr>"

lemma retry_call_const [simp]: "retry_call n (\<lambda>i. oc) = oc"
  by (induction n "\<lambda>i::nat. oc" rule: retry_call.induct) (auto split: outcome.split)

lemma demo_call [simp]: "provider_call cfg (demo_env answers) k kw = answers k"
  by (simp add: provider_call_def demo_env_def)

lemma demo_env_clock [simp]:
  "ae_record_now (demo_env answers) k = 0" "ae_deadline_now (demo_env answers) = 0"
  by (simp_all add: demo_env_def)

lemma demo_chain [simp]:
  "gc_router demo_cfg = demo_router"
  "attempt_chain demo_router ''glm-5.2'' False = [''glm-5.2'', ''glm-5.1'', ''ds'', ''hk'']"
  by (simp_all add: demo_cfg_def attempt_chain_def keyed_def)

lemma demo_open [simp]: "\<not> gw_blocked env p demo_gateway"
  by (simp add: gw_blocked_def seq_blocked_def demo_gateway_def cb_blocked_def lg_blocked_def
      new_provider_state_def new_provider_latency_def)

lemma demo_deadline [simp]: "\<not> past_deadline (chain_deadline demo_cfg 0) (demo_env answers)"
  by (simp add: past_deadline_def chain_deadline_def demo_cfg_def demo_env_def)

theorem fallback_serves_available_witness:
  "\<exists>res. fst (execute_with_fallback demo_cfg (demo_request COMPLEX) False 0
       (\<lambda>i. demo_env (\<lambda>k. if i < 2 then Timed_out ''slow'' else Ok ''answer'')) ''glm-5.2'' demo_gateway) = Inr res"
  using fallback_serves_available [of demo_cfg "''glm-5.2''" False "[''glm-5.2'', ''glm-5.1'']" "''ds''" "[''hk'']"
      0 "\<lambda>i. demo_env (\<lambda>k. if i < 2 then Timed_out ''slow'' else Ok ''answer'')" demo_gateway
      "demo_request COMPLEX" "''answer''"]
  by auto

section \<open>Errors that are not reported\<close>

lemma loop_rejected:
  assumes "\<not> truthy (rq_tool_choice rq)"
    and "\<forall>i kw. \<exists>msg. provider_call cfg (envs i) 0 kw = Rejected msg"
  shows "fst (fallback_loop cfg rq deadline envs ms None g) = Inl None"
  using assms(2)
proof (induction ms arbitrary: envs g)
  case Nil
  then show ?case by simp
next
  case (Cons m ms)
  let ?p = "extract_provider (gc_router cfg) m" and ?t = "(ae_breaker_now (envs 0), ae_latency_now (envs 0))"
  let ?kw = "attempt_kwargs (gc_llm cfg) (gc_router cfg) rq m"
  obtain x b l where gate: "seq_gate cb_before_call lg_before_call ?t ?p (gw_breaker g, gw_latency g) = (x, b, l)"
    by (cases "seq_gate cb_before_call lg_before_call ?t ?p (gw_breaker g, gw_latency g)") auto
  from Cons.prems obtain msg where "provider_call cfg (envs 0) 0 ?kw = Rejected msg" by blast
  then have att: "attempt cfg rq (envs 0) m None b =
      ((None, None), cb_record_failure (ae_record_now (envs 0) 0) False ?p b)"
    by (simp add: attempt_def Let_def assms(1))
  from Cons.IH [of "\<lambda>i. envs (Suc i)"] Cons.prems gate att show ?case
    by (simp add: fallback_loop_Cons Let_def split: sum.split)
qed

text \<open>
  Fact (error): an authentication failure is swallowed.  When every provider of the chain that
  is tried rejects the request (bad key, bad request) and no tool choice was forced, the
  call fails with the message that no error happened: \<open>Last error: None\<close>.
\<close>

theorem rejection_loses_error:
  assumes "\<not> truthy (rq_tool_choice rq)"
    and "\<forall>i kw. \<exists>msg. provider_call cfg (envs i) 0 kw = Rejected msg"
  shows "fst (execute_with_fallback cfg rq vision start envs model g) = Inl (AllFallbacksExhausted model None)"
proof -
  let ?run = "fallback_loop cfg rq (chain_deadline cfg start) envs (attempt_chain (gc_router cfg) model vision) None g"
  from loop_rejected [OF assms] have "fst ?run = Inl None" .
  then show ?thesis by (cases ?run) (simp add: execute_with_fallback_def)
qed

theorem rejection_loses_error_witness:
  "fst (execute_with_fallback demo_cfg ((demo_request COMPLEX)\<lparr>rq_tool_choice := JNull\<rparr>) False 0
     (\<lambda>i. demo_env (\<lambda>k. Rejected ''invalid api key'')) ''glm-5.2'' demo_gateway) =
   Inl (AllFallbacksExhausted ''glm-5.2'' None)"
  by (rule rejection_loses_error) simp_all

section \<open>Interaction with the breaker's probes\<close>

definition probe_stuck :: "string \<Rightarrow> breaker \<Rightarrow> bool" where
  "probe_stuck p b \<longleftrightarrow> cb_state (cb_peek b p) = HALF_OPEN \<and>
     half_open_max_calls b \<le> half_open_in_flight (cb_peek b p)"

lemma stuck_blocked: "probe_stuck p b \<Longrightarrow> cb_blocked t p b"
  by (simp add: probe_stuck_def cb_blocked_def)

lemma stuck_gate:
  "probe_stuck p (fst s) \<Longrightarrow> probe_stuck p (fst (snd (seq_gate cb_before_call lg_before_call ts q s)))"
  by (cases "q = p")
     (auto simp: seq_gate_def probe_stuck_def cb_before_call_peek Let_def
       split: sum.split prod.split dest!: arg_cong [where f = snd])

lemma gate_max_calls:
  "half_open_max_calls (fst (snd (seq_gate cb_before_call lg_before_call ts q s))) = half_open_max_calls (fst s)"
  by (auto simp: seq_gate_def split: sum.split prod.split)
     (metis cb_before_call_settings(3) snd_conv)+

lemma stuck_attempt:
  "probe_stuck p b \<Longrightarrow> p \<noteq> extract_provider (gc_router cfg) m \<Longrightarrow> probe_stuck p (snd (attempt cfg rq env m err b))"
  by (simp add: probe_stuck_def attempt_other)

lemma loop_stuck:
  assumes "probe_stuck p (gw_breaker g)"
  shows "probe_stuck p (gw_breaker (snd (fallback_loop cfg rq deadline envs ms err g))) \<and>
     (case fst (fallback_loop cfg rq deadline envs ms err g) of Inl _ \<Rightarrow> True | Inr res \<Rightarrow> lr_provider res \<noteq> p)"
  using assms
proof (induction ms arbitrary: envs err g)
  case Nil
  then show ?case by simp
next
  case (Cons m ms)
  let ?q = "extract_provider (gc_router cfg) m" and ?t = "(ae_breaker_now (envs 0), ae_latency_now (envs 0))"
  obtain x b l where gate: "seq_gate cb_before_call lg_before_call ?t ?q (gw_breaker g, gw_latency g) = (x, b, l)"
    by (cases "seq_gate cb_before_call lg_before_call ?t ?q (gw_breaker g, gw_latency g)") auto
  have stuck: "probe_stuck p b"
    using stuck_gate [of p "(gw_breaker g, gw_latency g)" ?t ?q] gate Cons.prems by simp
  show ?case
  proof (cases x)
    case (Inl e)
    with Cons.IH [of "g\<lparr>gw_breaker := b, gw_latency := l\<rparr>" "\<lambda>i. envs (Suc i)" err] stuck gate Cons.prems show ?thesis
      by (simp add: fallback_loop_Cons Let_def)
  next
    case (Inr u)
    have ne: "p \<noteq> ?q"
    proof
      assume "p = ?q"
      with stuck_blocked [OF Cons.prems] have "seq_blocked cb_blocked lg_blocked ?t ?q (gw_breaker g, gw_latency g)"
        by (simp add: seq_blocked_def)
      with gates.both.refuses_iff [of ?t ?q "(gw_breaker g, gw_latency g)"] gate Inr show False by simp
    qed
    obtain oc e b' where att: "attempt cfg rq (envs 0) m err b = ((oc, e), b')"
      by (cases "attempt cfg rq (envs 0) m err b") auto
    with stuck_attempt [OF stuck ne, of rq "envs 0" err] have stuck': "probe_stuck p b'" by simp
    show ?thesis
    proof (cases oc)
      case None
      with Cons.IH [of "g\<lparr>gw_breaker := b', gw_latency := l\<rparr>" "\<lambda>i. envs (Suc i)" e] stuck' gate att Inr Cons.prems
      show ?thesis by (simp add: fallback_loop_Cons Let_def)
    next
      case (Some r)
      with stuck' gate att Inr ne Cons.prems show ?thesis by (simp add: fallback_loop_Cons Let_def)
    qed
  qed
qed

text \<open>Any number of later calls through the same gateway.\<close>

type_synonym 'r run = "llm_request \<times> bool \<times> real \<times> (nat \<Rightarrow> 'r attempt_env) \<times> string"

fun chain_runs ::
  "gateway_cfg \<Rightarrow> 'r run list \<Rightarrow> gateway \<Rightarrow> (gateway_error + 'r llm_response) list" where
  "chain_runs cfg [] g = []"
| "chain_runs cfg ((rq, vision, start, envs, model) # runs) g =
     (let (res, g) = execute_with_fallback cfg rq vision start envs model g
      in res # chain_runs cfg runs g)"

definition served_by :: "string \<Rightarrow> gateway_error + 'r llm_response \<Rightarrow> bool" where
  "served_by p res = (case res of Inl _ \<Rightarrow> False | Inr r \<Rightarrow> lr_provider r = p)"

lemma execute_stuck:
  assumes "probe_stuck p (gw_breaker g)"
  shows "probe_stuck p (gw_breaker (snd (execute_with_fallback cfg rq vision start envs model g))) \<and>
     \<not> served_by p (fst (execute_with_fallback cfg rq vision start envs model g))"
proof -
  let ?run = "fallback_loop cfg rq (chain_deadline cfg start) envs (attempt_chain (gc_router cfg) model vision) None g"
  obtain x g' where "?run = (x, g')" by (cases ?run) auto
  with loop_stuck [OF assms, of cfg rq "chain_deadline cfg start" envs
      "attempt_chain (gc_router cfg) model vision" None] show ?thesis
    by (cases x) (simp_all add: execute_with_fallback_def served_by_def)
qed

lemma runs_stuck:
  "probe_stuck p (gw_breaker g) \<Longrightarrow> list_all (\<lambda>res. \<not> served_by p res) (chain_runs cfg runs g)"
proof (induction cfg runs g rule: chain_runs.induct)
  case (2 cfg rq vision start envs model runs g)
  obtain res g' where ex: "execute_with_fallback cfg rq vision start envs model g = (res, g')"
    by (cases "execute_with_fallback cfg rq vision start envs model g") auto
  from execute_stuck [OF 2(2), of cfg rq vision start envs model] ex 2(1) show ?case by simp
qed simp

text \<open>
  Fact (safety): a probe slot leaks when the two gates disagree.  The breaker counts the probe
  of a recovering provider before the latency gate is asked; when that one refuses, nobody
  records an outcome and the slot is never returned.  If it was the only slot, no later call
  through this gateway is ever served by that provider again, at any time and whatever the
  provider would answer.
\<close>

theorem probe_slot_leak:
  assumes "attempt_chain (gc_router cfg) model vision = m # ms" "extract_provider (gc_router cfg) m = p"
    and "\<not> past_deadline (chain_deadline cfg start) (envs 0)"
    and "cb_state (cb_peek (gw_breaker g) p) = OPEN"
    and "recovery_timeout (gw_breaker g) \<le> ae_breaker_now (envs 0) - opened_at (cb_peek (gw_breaker g) p)"
    and "half_open_max_calls (gw_breaker g) = half_open_in_flight (cb_peek (gw_breaker g) p) + 1"
    and "lg_blocked (ae_latency_now (envs 0)) p (gw_latency g)"
  shows "list_all (\<lambda>res. \<not> served_by p res)
     (chain_runs cfg ((rq, vision, start, envs, model) # runs) g)"
proof -
  let ?t = "(ae_breaker_now (envs 0), ae_latency_now (envs 0))"
  have nb: "\<not> cb_blocked (ae_breaker_now (envs 0)) p (gw_breaker g)"
    using assms(4-6) by (simp add: cb_blocked_def)
  with cb.admits_iff obtain b' where adm: "cb_before_call (ae_breaker_now (envs 0)) p (gw_breaker g) = (Inr (), b')"
    by blast
  obtain e l where "lg_before_call (ae_latency_now (envs 0)) p (gw_latency g) = (Inl e, l)"
    using assms(7) by (rule lg.refused_cases)
  with adm have gate: "seq_gate cb_before_call lg_before_call ?t p (gw_breaker g, gw_latency g) =
      (Inl (Inr e), b', l)" by (simp add: seq_gate_def)
  have "probe_stuck p b'"
    using assms(4-6) adm cb_before_call_peek [of "ae_breaker_now (envs 0)" p "gw_breaker g" p]
      cb_before_call_settings(3) [of "ae_breaker_now (envs 0)" p "gw_breaker g"]
    by (simp add: probe_stuck_def Let_def)
  then have rest: "probe_stuck p (gw_breaker (g\<lparr>gw_breaker := b', gw_latency := l\<rparr>))" by simp
  let ?loop = "fallback_loop cfg rq (chain_deadline cfg start) envs (m # ms) None g"
  have loop: "?loop = fallback_loop cfg rq (chain_deadline cfg start) (\<lambda>i. envs (Suc i)) ms None
      (g\<lparr>gw_breaker := b', gw_latency := l\<rparr>)"
    using assms(2,3) gate by (simp add: fallback_loop_Cons Let_def)
  obtain x g' where run: "?loop = (x, g')" by (cases ?loop) auto
  have "probe_stuck p (gw_breaker (snd ?loop)) \<and>
      (case fst ?loop of Inl _ \<Rightarrow> True | Inr res \<Rightarrow> lr_provider res \<noteq> p)"
    unfolding loop by (rule loop_stuck [OF rest])
  then have "probe_stuck p (gw_breaker g')" "case x of Inl _ \<Rightarrow> True | Inr res \<Rightarrow> lr_provider res \<noteq> p"
    unfolding run by simp_all
  with runs_stuck run assms(1) show ?thesis
    by (cases x) (simp_all add: execute_with_fallback_def served_by_def)
qed

text \<open>The provider was down at time 0 and slow just before; both gates know about it.\<close>

definition troubled_gateway :: gateway where
  "troubled_gateway =
     \<lparr>gw_breaker = cb_record_failure 0 True ''zai'' (new_breaker 1 60 1),
      gw_latency = lg_record_call 0 ''zai'' (Ms 5000) (new_latency_gate 1000 1 120 (1/2) True)\<rparr>"

theorem probe_slot_leak_witness:
  "list_all (\<lambda>res. \<not> served_by ''zai'' res)
     (chain_runs demo_cfg
        ((demo_request COMPLEX, False, 0, (\<lambda>_. (demo_env (\<lambda>_. Ok ''a''))\<lparr>ae_breaker_now := 90, ae_latency_now := 90\<rparr>),
          ''glm-5.2'') #
         replicate 50 (demo_request COMPLEX, False, 0,
            (\<lambda>_. (demo_env (\<lambda>_. Ok ''a''))\<lparr>ae_breaker_now := 100000, ae_latency_now := 100000\<rparr>), ''glm-5.2''))
        troubled_gateway)"
  by (rule probe_slot_leak [where m = "''glm-5.2''" and ms = "[''glm-5.1'', ''ds'', ''hk'']"])
     (simp_all add: troubled_gateway_def cb_record_failure_peek new_provider_state_def Let_def
        lg_blocked_def lg_record_call_def lg_get_or_create_def new_provider_latency_def
        past_deadline_def chain_deadline_def demo_cfg_def demo_env_def)

text \<open>
  Fact (error): a recovered probe still punishes its provider.  A probe of a half-open provider
  whose request is rejected because of its tool choice re-opens the breaker; when the
  recovery then succeeds, the caller gets the response but the breaker stays open, and the
  provider that just answered is refused for a whole recovery period.
\<close>

theorem recovered_probe_reopens:
  assumes "cb_state (cb_peek b (extract_provider (gc_router cfg) m)) = HALF_OPEN"
    and "provider_call cfg env 0 (attempt_kwargs (gc_llm cfg) (gc_router cfg) rq m) = Rejected msg"
    and "attempt cfg rq env m err b = ((Some r, e), b')"
    and "t - ae_record_now env 0 < recovery_timeout b"
  shows "cb_blocked t (extract_provider (gc_router cfg) m) b'"
proof -
  let ?p = "extract_provider (gc_router cfg) m"
  let ?kw = "attempt_kwargs (gc_llm cfg) (gc_router cfg) rq m"
  let ?b = "cb_record_failure (ae_record_now env 0) False ?p b"
  from assms(2,3) have "b' = snd (recover_tool_choice cfg env m ?p ?kw err ?b)"
    by (simp add: attempt_def Let_def split: if_splits)
  with recover_breaker [of ?b env ?p cfg m ?kw err] obtain b1 where
    "b1 = ?b \<or> b1 = cb_record_success (ae_record_now env 1) ?p ?b"
    "b' = b1 \<or> b' = cb_record_success (ae_record_now env 2) ?p b1" by blast
  moreover have "cb_state (cb_peek ?b ?p) = OPEN" "opened_at (cb_peek ?b ?p) = ae_record_now env 0"
    using assms(1) by (simp_all add: cb_record_failure_peek Let_def)
  ultimately have "cb_state (cb_peek b' ?p) = OPEN \<and> opened_at (cb_peek b' ?p) = ae_record_now env 0 \<and>
      recovery_timeout b' = recovery_timeout b"
    by (elim disjE) (simp_all add: cb_record_success_peek Let_def)
  with assms(4) show ?thesis by (simp add: cb_blocked_def)
qed

theorem recovered_probe_reopens_witness:
  "cb_blocked 30 ''anthropic'' (snd (attempt demo_cfg (demo_request COMPLEX)
     (demo_env (\<lambda>k. if k = 0 then Rejected ''tool_choice'' else Ok ''answer'')) ''hk'' None
     (cb_put (new_breaker 1 60 1) ''anthropic''
        \<lparr>cb_state = HALF_OPEN, failure_count = 1, opened_at = 0, half_open_in_flight = 1\<rparr>)))"
proof -
  let ?b = "cb_put (new_breaker 1 60 1) ''anthropic''
     \<lparr>cb_state = HALF_OPEN, failure_count = 1, opened_at = 0, half_open_in_flight = 1\<rparr>"
  let ?env = "demo_env (\<lambda>k. if k = 0 then Rejected ''tool_choice'' else Ok ''answer'')"
  let ?att = "attempt demo_cfg (demo_request COMPLEX) ?env ''hk'' None ?b"
  have "fst ?att = (Some ''answer'', None)"
    by (simp add: attempt_def Let_def demo_request_def recover_tool_choice_def recovery_call_def
        demo_cfg_def py_lower_def lower_char_def)
  then have att: "?att = ((Some ''answer'', None), snd ?att)" by (metis prod.collapse)
  show ?thesis
    using recovered_probe_reopens [OF _ _ att, of "''tool_choice''" 30] by simp
qed

section \<open>What the latency gate is told\<close>

definition lg_same :: "latency_gate \<Rightarrow> latency_gate \<Rightarrow> bool" where
  "lg_same l l' \<longleftrightarrow>
     enabled l = enabled l' \<and> alpha l = alpha l' \<and> threshold_ms l = threshold_ms l' \<and>
     min_samples l = min_samples l' \<and> cooldown_s l = cooldown_s l' \<and>
     (\<forall>p. ewma_ms (lg_peek l p) = ewma_ms (lg_peek l' p) \<and> samples (lg_peek l p) = samples (lg_peek l' p))"

lemma lg_same_refl [simp]: "lg_same l l"
  by (simp add: lg_same_def)

lemma lg_same_trans: "lg_same a b \<Longrightarrow> lg_same b c \<Longrightarrow> lg_same a c"
  by (simp add: lg_same_def)

lemma lg_same_before: "lg_same (snd (lg_before_call now p l)) l"
  by (simp add: lg_same_def lg_before_call_peek)

lemma lg_admitted:
  "lg_before_call now p l = (Inr u, l') \<Longrightarrow> enabled l \<Longrightarrow> demoted_until (lg_peek l' p) \<le> 0"
  by (auto simp: lg_before_call_def lg_get_or_create_def Let_def split: if_splits)

lemma gate_latency:
  assumes "seq_gate cb_before_call lg_before_call ts p (b0, l0) = (x, b, l)"
  shows "lg_same l l0" and "x = Inr u \<Longrightarrow> enabled l0 \<Longrightarrow> demoted_until (lg_peek l p) \<le> 0"
  using assms lg_same_before [of "snd ts" p l0] lg_admitted [of "snd ts" p l0]
  by (auto simp: seq_gate_def split: sum.splits prod.splits)

lemma loop_latency:
  "fallback_loop cfg rq deadline envs ms err g = (x, g') \<Longrightarrow>
   lg_same (gw_latency g') (gw_latency g) \<and>
   (case x of Inl _ \<Rightarrow> True
    | Inr res \<Rightarrow> enabled (gw_latency g) \<longrightarrow> demoted_until (lg_peek (gw_latency g') (lr_provider res)) \<le> 0)"
proof (induction ms arbitrary: envs err g)
  case Nil
  then show ?case by auto
next
  case (Cons m ms)
  let ?p = "extract_provider (gc_router cfg) m" and ?t = "(ae_breaker_now (envs 0), ae_latency_now (envs 0))"
  obtain y b l where gate: "seq_gate cb_before_call lg_before_call ?t ?p (gw_breaker g, gw_latency g) = (y, b, l)"
    by (cases "seq_gate cb_before_call lg_before_call ?t ?p (gw_breaker g, gw_latency g)") auto
  note same = gate_latency(1) [OF gate]
  then have en: "enabled l = enabled (gw_latency g)" by (simp add: lg_same_def)
  obtain oc e b' where att: "attempt cfg rq (envs 0) m err b = ((oc, e), b')"
    by (cases "attempt cfg rq (envs 0) m err b") auto
  show ?case
  proof (cases "past_deadline deadline (envs 0)")
    case True
    with Cons.prems show ?thesis by (auto simp: fallback_loop_Cons Let_def)
  next
    case False
    show ?thesis
    proof (cases "isl y \<or> oc = None")
      case True
      then obtain g1 err1 where "gw_latency g1 = l"
        "fallback_loop cfg rq deadline (\<lambda>i. envs (Suc i)) ms err1 g1 = (x, g')"
        using Cons.prems False gate att
        by (auto simp: fallback_loop_Cons Let_def isl_def split: sum.splits) (metis gateway.select_convs(2) gateway.surjective gateway.update_convs(1,2))+
      with Cons.IH [of "\<lambda>i. envs (Suc i)" err1 g1] same en show ?thesis
        by (auto dest: lg_same_trans split: sum.splits)
    next
      case (False)
      then obtain u r where "y = Inr u" "oc = Some r" by (cases y) auto
      with Cons.prems gate att \<open>\<not> past_deadline deadline (envs 0)\<close> same gate_latency(2) [OF gate, of u]
      show ?thesis by (auto simp: fallback_loop_Cons Let_def)
    qed
  qed
qed

text \<open>
  Fact (functional): the latency gate is told the time of the whole fallback chain.  The
  provider that served the response is charged the time since the call entered the chain,
  the timeouts of the providers before it included: if that total pushes its smoothed
  latency over the threshold it is demoted for a whole cooldown, however fast it answered.
\<close>

theorem chain_time_charged_to_server:
  assumes "acompletion cfg rq model node schema images env g = (Inr res, g')" "ce_cached env = None"
    and "enabled (gw_latency g)" "0 \<le> lat" "lat = elapsed_ms (ce_start env) (ce_end env)"
    and "s = lg_peek (gw_latency g) (lr_provider res)" "min_samples (gw_latency g) \<le> samples s + 1"
    and "threshold_ms (gw_latency g) <
      (if samples s = 0 then lat else alpha (gw_latency g) * lat + (1 - alpha (gw_latency g)) * ewma_ms s)"
    and "0 < ce_gate_now env + cooldown_s (gw_latency g)" "t < ce_gate_now env + cooldown_s (gw_latency g)"
  shows "lg_blocked t (lr_provider res) (gw_latency g')"
proof -
  from assms(1,2) obtain rq' vision m g1 where
    ex: "execute_with_fallback cfg rq' vision (ce_chain_start env) (ce_attempts env) m g = (Inr res, g1)"
    and g': "gw_latency g' = lg_record_call (ce_gate_now env) (lr_provider res) (Ms lat) (gw_latency g1)"
    by (auto simp: acompletion_def Let_def assms(5) split: sum.splits prod.splits if_splits)
  let ?loop = "fallback_loop cfg rq' (chain_deadline cfg (ce_chain_start env)) (ce_attempts env)
      (attempt_chain (gc_router cfg) m vision) None g"
  from ex have "?loop = (Inr res, g1)"
    by (auto simp: execute_with_fallback_def split: prod.splits sum.splits)
  from loop_latency [OF this] assms(3) have
    same: "lg_same (gw_latency g1) (gw_latency g)" and
    adm: "demoted_until (lg_peek (gw_latency g1) (lr_provider res)) \<le> 0" by simp_all
  from same assms(3,6) have kept: "enabled (gw_latency g1)" "alpha (gw_latency g1) = alpha (gw_latency g)"
    "threshold_ms (gw_latency g1) = threshold_ms (gw_latency g)"
    "min_samples (gw_latency g1) = min_samples (gw_latency g)"
    "cooldown_s (gw_latency g1) = cooldown_s (gw_latency g)"
    "ewma_ms (lg_peek (gw_latency g1) (lr_provider res)) = ewma_ms s"
    "samples (lg_peek (gw_latency g1) (lr_provider res)) = samples s"
    by (simp_all add: lg_same_def)
  show ?thesis using adm assms(4,7-10)
    by (auto simp: g' kept lg_blocked_def lg_record_call_peek lg_sample_def Let_def split: if_splits)
qed

definition demo_call_env :: "(bool \<times> string) option \<Rightarrow> (nat \<Rightarrow> string attempt_env) \<Rightarrow> string call_env" where
  "demo_call_env budget attempts = \<lparr>ce_cached = None, ce_budget = budget, ce_start = 0, ce_chain_start = 0,
     ce_end = 200, ce_gate_now = 200, ce_attempts = attempts\<rparr>"

lemma demo_call_env_simps [simp]:
  "ce_cached (demo_call_env budget attempts) = None" "ce_budget (demo_call_env budget attempts) = budget"
  "ce_start (demo_call_env budget attempts) = 0" "ce_chain_start (demo_call_env budget attempts) = 0"
  "ce_end (demo_call_env budget attempts) = 200" "ce_gate_now (demo_call_env budget attempts) = 200"
  "ce_attempts (demo_call_env budget attempts) = attempts"
  by (simp_all add: demo_call_env_def)

lemma demo_request_tokens [simp]:
  "rq_max_tokens (demo_request c) = None" "(demo_request c)\<lparr>rq_max_tokens := None\<rparr> = demo_request c"
  by (simp_all add: demo_request_def)

text \<open>A response comes from an entry of the chain whose own attempt produced it.\<close>

lemma loop_attribution:
  "fallback_loop cfg rq deadline envs ms err g = (Inr res, g') \<Longrightarrow>
   \<exists>i < length ms. lr_model res = ms ! i \<and> lr_provider res = extract_provider (gc_router cfg) (ms ! i) \<and>
     (\<exists>e b. fst (fst (attempt cfg rq (envs i) (ms ! i) e b)) = Some (lr_content res))"
proof (induction ms arbitrary: envs err g)
  case Nil
  then show ?case by simp
next
  case (Cons m ms)
  let ?p = "extract_provider (gc_router cfg) m" and ?t = "(ae_breaker_now (envs 0), ae_latency_now (envs 0))"
  obtain y b l where gate: "seq_gate cb_before_call lg_before_call ?t ?p (gw_breaker g, gw_latency g) = (y, b, l)"
    by (cases "seq_gate cb_before_call lg_before_call ?t ?p (gw_breaker g, gw_latency g)") auto
  obtain oc e b' where att: "attempt cfg rq (envs 0) m err b = ((oc, e), b')"
    by (cases "attempt cfg rq (envs 0) m err b") auto
  from Cons.prems have dl: "\<not> past_deadline deadline (envs 0)"
    by (auto simp: fallback_loop_Cons Let_def split: if_splits)
  show ?case
  proof (cases "\<exists>u r. y = Inr u \<and> oc = Some r")
    case True
    with Cons.prems gate att dl have "lr_model res = m" "lr_provider res = ?p" "oc = Some (lr_content res)"
      by (auto simp: fallback_loop_Cons Let_def)
    with att show ?thesis by (intro exI [of _ 0]) (auto intro!: exI [of _ err] exI [of _ b])
  next
    case False
    with Cons.prems gate att dl obtain err1 g1 where
      "fallback_loop cfg rq deadline (\<lambda>i. envs (Suc i)) ms err1 g1 = (Inr res, g')"
      by (cases y; cases oc) (auto simp: fallback_loop_Cons Let_def)
    from Cons.IH [OF this] show ?thesis by fastforce
  qed
qed

lemma demo_timed_out:
  "answers 0 = Timed_out e \<Longrightarrow> fst (fst (attempt cfg rq (demo_env answers) m err b)) = None"
  by (simp add: attempt_def Let_def)

lemma acompletion_plain:
  assumes "ce_cached env = None" "budget_gate cfg (ce_budget env) m = Inr m'" "rq_max_tokens rq = None"
  shows "acompletion cfg rq (Some m) None JNull False env g =
    (case execute_with_fallback cfg (rq\<lparr>rq_max_tokens := None\<rparr>) False (ce_chain_start env) (ce_attempts env) m' g of
       (Inl err, g) \<Rightarrow> (Inl err, g)
     | (Inr res, g) \<Rightarrow> (Inr res, g\<lparr>gw_latency := lg_record_call (ce_gate_now env) (lr_provider res)
          (Ms (elapsed_ms (ce_start env) (ce_end env))) (gw_latency g)\<rparr>))"
  using assms by (simp add: acompletion_def Let_def select_model_def node_max_tokens_def)

text \<open>Two timeouts of 100 s each, then an immediate answer of \<open>deepseek\<close>, which pays for them.\<close>

theorem chain_time_charged_to_server_witness:
  "lg_blocked 319 ''deepseek'' (gw_latency (snd (acompletion demo_cfg (demo_request COMPLEX) (Some ''glm-5.2'')
     None JNull False (demo_call_env None (\<lambda>i. demo_env (\<lambda>k. if i < 2 then Timed_out ''slow'' else Ok ''answer'')))
     demo_gateway)))"
proof -
  let ?envs = "\<lambda>i. demo_env (\<lambda>k. if i < (2::nat) then Timed_out ''slow'' else Ok ''answer'')"
  let ?run = "acompletion demo_cfg (demo_request COMPLEX) (Some ''glm-5.2'') None JNull False
      (demo_call_env None ?envs) demo_gateway"
  let ?rq = "demo_request COMPLEX"
  let ?ex = "execute_with_fallback demo_cfg ?rq False 0 ?envs ''glm-5.2'' demo_gateway"
  from fallback_serves_available [of demo_cfg "''glm-5.2''" False "[''glm-5.2'', ''glm-5.1'']" "''ds''" "[''hk'']"
      0 ?envs demo_gateway ?rq "''answer''"]
  obtain res g1 where ex: "?ex = (Inr res, g1)" and m: "lr_model res \<in> {''glm-5.2'', ''glm-5.1'', ''ds''}"
    by (cases ?ex) auto
  let ?loop = "fallback_loop demo_cfg ?rq (chain_deadline demo_cfg 0) ?envs
      [''glm-5.2'', ''glm-5.1'', ''ds'', ''hk''] None demo_gateway"
  from ex have "?loop = (Inr res, g1)"
    by (cases ?loop) (auto simp: execute_with_fallback_def split: sum.splits)
  let ?ch = "[''glm-5.2'', ''glm-5.1'', ''ds'', ''hk'']"
  from loop_attribution [OF \<open>?loop = (Inr res, g1)\<close>] obtain i e b where
    i: "i < length ?ch" "lr_model res = ?ch ! i" "lr_provider res = extract_provider (gc_router demo_cfg) (?ch ! i)"
    and served: "fst (fst (attempt demo_cfg ?rq (?envs i) (?ch ! i) e b)) = Some (lr_content res)"
    by blast
  from served have "\<not> i < 2" by (auto simp: demo_timed_out)
  with i(1) have "i = 2 \<or> i = 3" by auto
  with i(2) m have "i = 2" by auto
  with i(3) have p: "lr_provider res = ''deepseek''" by simp
  have run: "?run = (Inr res, g1\<lparr>gw_latency := lg_record_call 200 ''deepseek'' (Ms 200000) (gw_latency g1)\<rparr>)"
    by (subst acompletion_plain [where m' = "''glm-5.2''"])
       (simp_all add: budget_gate_def ex p elapsed_ms_def)
  have "lg_blocked 319 (lr_provider res)
      (gw_latency (g1\<lparr>gw_latency := lg_record_call 200 ''deepseek'' (Ms 200000) (gw_latency g1)\<rparr>))"
    by (rule chain_time_charged_to_server [OF run, where lat = 200000 and s = new_provider_latency])
       (simp_all add: demo_gateway_def elapsed_ms_def new_provider_latency_def)
  then show ?thesis unfolding run p by simp
qed

end
