(* ===== verification/Model_Registry.thy ===== *)
theory Model_Registry
  imports Model_Router
begin

text \<open>
  The curated tables of \<open>src/src/config/model_registry.py\<close> as data: the models, their
  fallback chains, and the functions that read them.  The tables are split by provider or
  tier in the order of the source, so that the dictionaries keep their insertion order.
  A parsed JSON overlay is an argument (\<open>None\<close>: empty or unparseable).
\<close>

section \<open>The models\<close>

definition model_spec_of ::
  "string \<Rightarrow> string \<Rightarrow> model_tier \<Rightarrow> int \<Rightarrow> int \<Rightarrow> bool \<Rightarrow> bool \<Rightarrow> bool \<Rightarrow> bool \<Rightarrow> real \<Rightarrow> real \<Rightarrow> model_spec"
  where
  "model_spec_of mid provider tier max_context max_output tool_calling json_mode streaming images
     input_cost output_cost =
     \<lparr>ms_model_id = mid, ms_provider = provider, ms_tier = tier, ms_max_context = max_context,
      ms_max_output = max_output, ms_tool_calling = tool_calling, ms_json_mode = json_mode,
      ms_streaming = streaming, ms_images = images, ms_input_cost = input_cost,
      ms_output_cost = output_cost\<rparr>"

definition registry_anthropic_deepseek_openai :: "(string \<times> model_spec) list" where
  "registry_anthropic_deepseek_openai = [
    (''claude-haiku-4-5-20251001'',
     model_spec_of ''claude-haiku-4-5-20251001'' ''anthropic'' CHEAP 200000 64000 True True True True (1 / 1000) (1 / 200)),
    (''claude-sonnet-4-6'',
     model_spec_of ''claude-sonnet-4-6'' ''anthropic'' MODERATE 1000000 128000 True True True True (3 / 1000) (3 / 200)),
    (''deepseek-v4-flash'',
     model_spec_of ''deepseek/deepseek-v4-flash'' ''deepseek'' CHEAP 128000 384000 True True True False (1 / 10000) (1 / 2500)),
    (''deepseek-v4-pro'',
     model_spec_of ''deepseek/deepseek-v4-pro'' ''deepseek'' MODERATE 128000 384000 True True True False (1 / 2000) (1 / 500)),
    (''gpt-4o-mini-2024-07-18'',
     model_spec_of ''gpt-4o-mini-2024-07-18'' ''openai'' VERY_CHEAP 128000 16000 True True True True (3 / 20000) (3 / 5000)),
    (''gpt-4.1-mini-2025-04-14'',
     model_spec_of ''gpt-4.1-mini-2025-04-14'' ''openai'' CHEAP 128000 32000 True True True True (1 / 2500) (1 / 625)),
    (''gpt-5-nano-2025-08-07'',
     model_spec_of ''gpt-5-nano-2025-08-07'' ''openai'' CHEAP 128000 128000 True True True False (1 / 10000) (1 / 2500))]"

definition registry_zai :: "(string \<times> model_spec) list" where
  "registry_zai = [
    (''glm-4.7-flash'',
     model_spec_of ''zai/glm-4.7-flash'' ''zai'' VERY_CHEAP 128000 131000 True True True False (1 / 20000) (1 / 10000)),
    (''glm-4.5-air'',
     model_spec_of ''zai/glm-4.5-air'' ''zai'' VERY_CHEAP 128000 96000 True True True False (1 / 10000) (1 / 5000)),
    (''glm-4.7'',
     model_spec_of ''zai/glm-4.7'' ''zai'' MODERATE 128000 128000 True True True True (1 / 2000) (1 / 1000)),
    (''glm-5-turbo'',
     model_spec_of ''zai/glm-5-turbo'' ''zai'' MODERATE 128000 131000 True True True True (1 / 1000) (3 / 1000)),
    (''glm-5.1'',
     model_spec_of ''zai/glm-5.1'' ''zai'' MODERATE 200000 131000 True True True False (1 / 1000) (3 / 1000)),
    (''glm-5.2'',
     model_spec_of ''zai/glm-5.2'' ''zai'' MODERATE 1000000 128000 True True True False (1 / 1000) (3 / 1000))]"

definition registry_minimax_mistral_moonshot :: "(string \<times> model_spec) list" where
  "registry_minimax_mistral_moonshot = [
    (''minimax-m2.5-highspeed'',
     model_spec_of ''minimax/minimax-m2.5-highspeed'' ''minimax'' CHEAP 128000 131000 True True True False (1 / 10000) (1 / 5000)),
    (''minimax-m2.5'',
     model_spec_of ''minimax/minimax-m2.5'' ''minimax'' MODERATE 128000 196000 True True True False (1 / 2000) (1 / 1000)),
    (''mistral-small-2603'',
     model_spec_of ''mistral/mistral-small-2603'' ''mistral'' CHEAP 64000 256000 True True True False (1 / 5000) (3 / 5000)),
    (''mistral-medium-3-5'',
     model_spec_of ''mistral/mistral-medium-3-5'' ''mistral'' MODERATE 128000 262000 True True True True (1 / 500) (3 / 500)),
    (''moonshot-v1-32k'',
     model_spec_of ''moonshot/moonshot-v1-32k'' ''moonshot'' CHEAP 32000 32000 True True True False (1 / 5000) (1 / 2500)),
    (''kimi-k2.6'',
     model_spec_of ''moonshot/kimi-k2.6'' ''moonshot'' MODERATE 128000 262000 True True True True (1 / 1000) (3 / 1000))]"

definition registry_alibaba :: "(string \<times> model_spec) list" where
  "registry_alibaba = [
    (''qwen3.5-flash'',
     model_spec_of ''openai/qwen3.5-flash'' ''alibaba'' VERY_CHEAP 1000000 65536 True True True True (1 / 20000) (1 / 10000)),
    (''qwen3.7-plus'',
     model_spec_of ''openai/qwen3.7-plus'' ''alibaba'' CHEAP 1000000 65500 True True True True (3 / 10000) (3 / 5000)),
    (''qwen3.6-flash'',
     model_spec_of ''openai/qwen3.6-flash'' ''alibaba'' VERY_CHEAP 1000000 65536 True True True True (1 / 20000) (1 / 10000)),
    (''qwen3.5-flash-2026-02-23'',
     model_spec_of ''openai/qwen3.5-flash-2026-02-23'' ''alibaba'' VERY_CHEAP 1000000 65536 True True True True (1 / 20000) (1 / 10000)),
    (''qwen-turbo'',
     model_spec_of ''openai/qwen-turbo'' ''alibaba'' CHEAP 1000000 8192 True True True False (1 / 10000) (1 / 5000)),
    (''qwen3-coder-next'',
     model_spec_of ''openai/qwen3-coder-next'' ''alibaba'' CHEAP 1000000 65536 True True True False (1 / 10000) (3 / 10000)),
    (''alibaba-deepseek-v4-flash'',
     model_spec_of ''openai/deepseek-v4-flash'' ''alibaba'' CHEAP 128000 65536 True True True False (1 / 10000) (1 / 2500))]"

definition registry_google_groq_openrouter_free :: "(string \<times> model_spec) list" where
  "registry_google_groq_openrouter_free = [
    (''gemini-2.5-flash-lite'',
     model_spec_of ''gemini/gemini-2.5-flash-lite'' ''google'' VERY_CHEAP 1000000 65500 True True True True (1 / 10000) (1 / 2500)),
    (''gemini-2.5-flash'',
     model_spec_of ''gemini/gemini-2.5-flash'' ''google'' CHEAP 1000000 65500 True True True True (3 / 20000) (3 / 5000)),
    (''gemini-3-flash-preview'',
     model_spec_of ''gemini/gemini-3-flash-preview'' ''google'' MODERATE 1000000 65500 True True True True (3 / 20000) (3 / 5000)),
    (''llama-3.1-8b-instant'',
     model_spec_of ''groq/llama-3.1-8b-instant'' ''groq'' VERY_CHEAP 128000 8000 True True True False (1 / 20000) (1 / 12500)),
    (''llama-3.3-70b-versatile'',
     model_spec_of ''groq/llama-3.3-70b-versatile'' ''groq'' MODERATE 128000 32000 True True True False (59 / 100000) (79 / 100000)),
    (''openrouter/qwen/qwen3-next-80b-a3b-instruct:free'',
     model_spec_of ''openrouter/qwen/qwen3-next-80b-a3b-instruct:free'' ''openrouter'' VERY_CHEAP 128000 262000 True True True False 0 0)]"

definition registry_openrouter_ollama :: "(string \<times> model_spec) list" where
  "registry_openrouter_ollama = [
    (''openrouter-glm-5-2'',
     model_spec_of ''openrouter/z-ai/glm-5.2'' ''openrouter'' MODERATE 1000000 128000 True True True False (1 / 1000) (3 / 1000)),
    (''openrouter-glm-5-1'',
     model_spec_of ''openrouter/z-ai/glm-5.1'' ''openrouter'' MODERATE 200000 131000 True True True False (1 / 1000) (3 / 1000)),
    (''openrouter-glm-4-7'',
     model_spec_of ''openrouter/z-ai/glm-4.7'' ''openrouter'' MODERATE 128000 128000 True True True True (1 / 2000) (1 / 1000)),
    (''openrouter-claude-sonnet-4-6'',
     model_spec_of ''openrouter/anthropic/claude-sonnet-4.6'' ''openrouter'' MODERATE 1000000 128000 True True True True (3 / 1000) (3 / 200)),
    (''openrouter-claude-haiku-4-5'',
     model_spec_of ''openrouter/anthropic/claude-haiku-4.5'' ''openrouter'' CHEAP 200000 64000 True True True True (1 / 1000) (1 / 200)),
    (''openrouter-deepseek-v4-flash'',
     model_spec_of ''openrouter/deepseek/deepseek-v4-flash'' ''openrouter'' CHEAP 128000 384000 True True True False (1 / 10000) (1 / 2500)),
    (''openrouter-deepseek-v4-pro'',
     model_spec_of ''openrouter/deepseek/deepseek-v4-pro'' ''openrouter'' MODERATE 128000 384000 True True True False (1 / 2000) (1 / 500)),
    (''ollama/qwen3.5:latest'',
     model_spec_of ''ollama/qwen3.5:latest'' ''ollama'' VERY_CHEAP 128000 262000 True True True False 0 0)]"

definition registry_nvidia_1 :: "(string \<times> model_spec) list" where
  "registry_nvidia_1 = [
    (''nvidia-nemotron-super-120b'',
     model_spec_of ''nvidia/nvidia/nemotron-3-super-120b-a12b'' ''nvidia'' VERY_CHEAP 128000 65000 True True True False 0 0),
    (''nvidia-nemotron-ultra-550b'',
     model_spec_of ''nvidia/nvidia/nemotron-3-ultra-550b-a55b'' ''nvidia'' VERY_CHEAP 128000 65000 True True True False 0 0),
    (''nvidia-nemotron-super-49b'',
     model_spec_of ''nvidia/nvidia/llama-3.3-nemotron-super-49b-v1'' ''nvidia'' VERY_CHEAP 128000 32000 True True True False 0 0),
    (''nvidia-nemotron-super-49b-v1.5'',
     model_spec_of ''nvidia/nvidia/llama-3.3-nemotron-super-49b-v1.5'' ''nvidia'' VERY_CHEAP 128000 32000 True True True False 0 0),
    (''nvidia-gpt-oss-120b'',
     model_spec_of ''nvidia/openai/gpt-oss-120b'' ''nvidia'' VERY_CHEAP 128000 65000 True True True False 0 0),
    (''nvidia-qwen3-next-80b'',
     model_spec_of ''nvidia/qwen/qwen3-next-80b-a3b-instruct'' ''nvidia'' VERY_CHEAP 128000 65000 True True True False 0 0),
    (''nvidia-qwen3.5-397b'',
     model_spec_of ''nvidia/qwen/qwen3.5-397b-a17b'' ''nvidia'' VERY_CHEAP 128000 65000 True True True False 0 0),
    (''nvidia-qwen3.5-122b'',
     model_spec_of ''nvidia/qwen/qwen3.5-122b-a10b'' ''nvidia'' VERY_CHEAP 128000 65000 True True True False 0 0),
    (''nvidia-glm-5-1'',
     model_spec_of ''nvidia/z-ai/glm-5.1'' ''nvidia'' VERY_CHEAP 128000 65000 True True True False 0 0)]"

definition registry_nvidia_2 :: "(string \<times> model_spec) list" where
  "registry_nvidia_2 = [
    (''nvidia-glm-5-2'',
     model_spec_of ''nvidia/z-ai/glm-5.2'' ''nvidia'' VERY_CHEAP 128000 65000 True True True False 0 0),
    (''nvidia-llama-3.3-70b'',
     model_spec_of ''nvidia/meta/llama-3.3-70b-instruct'' ''nvidia'' VERY_CHEAP 128000 32000 True True True False 0 0),
    (''nvidia-llama-3.2-90b-vision'',
     model_spec_of ''nvidia/meta/llama-3.2-90b-vision-instruct'' ''nvidia'' VERY_CHEAP 128000 32000 True True True True 0 0),
    (''nvidia-deepseek-v4-flash'',
     model_spec_of ''nvidia/deepseek-ai/deepseek-v4-flash'' ''nvidia'' VERY_CHEAP 128000 65000 True True True False 0 0),
    (''nvidia-deepseek-v4-pro'',
     model_spec_of ''nvidia/deepseek-ai/deepseek-v4-pro'' ''nvidia'' VERY_CHEAP 128000 65000 True True True False 0 0),
    (''nvidia-minimax-m2-7'',
     model_spec_of ''nvidia/minimaxai/minimax-m2.7'' ''nvidia'' VERY_CHEAP 128000 65000 True True True False 0 0),
    (''nvidia-kimi-k2.6'',
     model_spec_of ''nvidia/moonshotai/kimi-k2.6'' ''nvidia'' VERY_CHEAP 128000 65000 True True True False 0 0),
    (''nvidia-step-3.5-flash'',
     model_spec_of ''nvidia/stepfun-ai/step-3.5-flash'' ''nvidia'' VERY_CHEAP 128000 65000 True True True False 0 0)]"

definition model_registry :: "(string \<times> model_spec) list" where
  "model_registry = registry_anthropic_deepseek_openai @
     registry_zai @
     registry_minimax_mistral_moonshot @
     registry_alibaba @
     registry_google_groq_openrouter_free @
     registry_openrouter_ollama @
     registry_nvidia_1 @
     registry_nvidia_2"

section \<open>The fallback chains\<close>

definition chains_very_cheap :: "(string \<times> string list) list" where
  "chains_very_cheap = [
    (''qwen3.5-flash'', [''qwen3.6-flash'', ''gpt-4o-mini-2024-07-18'', ''glm-4.7-flash'',
       ''llama-3.1-8b-instant'', ''nvidia-qwen3-next-80b'']),
    (''qwen3.6-flash'', [''qwen3.5-flash'', ''gpt-4o-mini-2024-07-18'', ''glm-4.7-flash'',
       ''llama-3.1-8b-instant'']),
    (''qwen3.5-flash-2026-02-23'', [''qwen3.5-flash'', ''qwen3.6-flash'',
       ''gpt-4o-mini-2024-07-18'', ''glm-4.7-flash'']),
    (''gpt-4o-mini-2024-07-18'', [''qwen3.5-flash'', ''glm-4.7-flash'', ''llama-3.1-8b-instant'',
       ''nvidia-nemotron-ultra-550b'']),
    (''glm-4.7-flash'', [''qwen3.5-flash'', ''gpt-4o-mini-2024-07-18'', ''llama-3.1-8b-instant'']),
    (''llama-3.1-8b-instant'', [''qwen3.5-flash'', ''gpt-4o-mini-2024-07-18'', ''glm-4.7-flash'']),
    (''gemini-2.5-flash-lite'', [''qwen3.5-flash'', ''gpt-4o-mini-2024-07-18'', ''glm-4.7-flash''])]"

definition chains_cheap :: "(string \<times> string list) list" where
  "chains_cheap = [
    (''claude-haiku-4-5-20251001'', [''deepseek-v4-flash'', ''qwen3.7-plus'', ''glm-4.5-air'',
       ''gemini-2.5-flash'']),
    (''deepseek-v4-flash'', [''alibaba-deepseek-v4-flash'', ''claude-haiku-4-5-20251001'',
       ''qwen3.7-plus'', ''glm-4.5-air'', ''gpt-4.1-mini-2025-04-14'',
       ''nvidia-deepseek-v4-flash'']),
    (''qwen3.7-plus'', [''deepseek-v4-flash'', ''claude-haiku-4-5-20251001'', ''glm-4.5-air'',
       ''gemini-2.5-flash'']),
    (''qwen-turbo'', [''qwen3.5-flash'', ''qwen3.6-flash'', ''deepseek-v4-flash'',
       ''gpt-4o-mini-2024-07-18'']),
    (''qwen3-coder-next'', [''deepseek-v4-flash'', ''qwen3.5-flash'', ''gpt-4.1-mini-2025-04-14'',
       ''glm-4.5-air'']),
    (''alibaba-deepseek-v4-flash'', [''deepseek-v4-flash'', ''qwen3.5-flash'',
       ''claude-haiku-4-5-20251001'', ''glm-4.5-air'']),
    (''gpt-4.1-mini-2025-04-14'', [''deepseek-v4-flash'', ''claude-haiku-4-5-20251001'',
       ''qwen3.7-plus'', ''glm-4.5-air'']),
    (''gemini-2.5-flash'', [''claude-haiku-4-5-20251001'', ''deepseek-v4-flash'', ''qwen3.7-plus''])]"

definition chains_moderate :: "(string \<times> string list) list" where
  "chains_moderate = [
    (''claude-sonnet-4-6'', [''deepseek-v4-pro'', ''glm-5-turbo'', ''gemini-3-flash-preview'',
       ''kimi-k2.6'']),
    (''glm-4.7'', [''deepseek-v4-pro'', ''glm-5-turbo'', ''gemini-3-flash-preview'', ''kimi-k2.6'']),
    (''deepseek-v4-pro'', [''claude-sonnet-4-6'', ''glm-5-turbo'', ''gemini-3-flash-preview'',
       ''kimi-k2.6'']),
    (''glm-5-turbo'', [''claude-sonnet-4-6'', ''deepseek-v4-pro'', ''gemini-3-flash-preview'',
       ''kimi-k2.6'']),
    (''glm-5.1'', [''claude-sonnet-4-6'', ''glm-4.7'', ''deepseek-v4-pro'', ''glm-5-turbo'']),
    (''glm-5.2'', [''openrouter-glm-5-2'', ''nvidia-glm-5-2'', ''glm-5.1'', ''claude-sonnet-4-6'',
       ''deepseek-v4-pro'']),
    (''mistral-medium-3-5'', [''claude-sonnet-4-6'', ''deepseek-v4-pro'', ''glm-5-turbo'',
       ''kimi-k2.6'']),
    (''gemini-3-flash-preview'', [''claude-sonnet-4-6'', ''deepseek-v4-pro'', ''glm-5-turbo'']),
    (''kimi-k2.6'', [''deepseek-v4-pro'', ''claude-sonnet-4-6'', ''glm-5-turbo'']),
    (''gpt-5-nano-2025-08-07'', [''deepseek-v4-flash'', ''claude-haiku-4-5-20251001'',
       ''qwen3.7-plus''])]"

definition chains_nvidia :: "(string \<times> string list) list" where
  "chains_nvidia = [
    (''nvidia-nemotron-super-120b'', [''nvidia-nemotron-ultra-550b'', ''nvidia-gpt-oss-120b'',
       ''gpt-4o-mini-2024-07-18'']),
    (''nvidia-nemotron-ultra-550b'', [''nvidia-nemotron-super-120b'', ''nvidia-gpt-oss-120b'',
       ''qwen3.5-flash'']),
    (''nvidia-nemotron-super-49b'', [''nvidia-nemotron-super-49b-v1.5'', ''nvidia-llama-3.3-70b'',
       ''gpt-4o-mini-2024-07-18'']),
    (''nvidia-nemotron-super-49b-v1.5'', [''nvidia-nemotron-super-49b'', ''nvidia-llama-3.3-70b'',
       ''qwen3.5-flash'']),
    (''nvidia-gpt-oss-120b'', [''nvidia-nemotron-super-120b'', ''nvidia-qwen3.5-397b'',
       ''gpt-4o-mini-2024-07-18'']),
    (''nvidia-qwen3-next-80b'', [''nvidia-qwen3.5-122b'', ''nvidia-llama-3.3-70b'',
       ''qwen3.5-flash'']),
    (''nvidia-qwen3.5-397b'', [''nvidia-qwen3.5-122b'', ''nvidia-gpt-oss-120b'',
       ''gpt-4o-mini-2024-07-18'']),
    (''nvidia-qwen3.5-122b'', [''nvidia-qwen3-next-80b'', ''nvidia-llama-3.3-70b'',
       ''qwen3.5-flash'']),
    (''nvidia-glm-5-1'', [''nvidia-llama-3.3-70b'', ''nvidia-qwen3-next-80b'', ''glm-4.7-flash'']),
    (''nvidia-llama-3.3-70b'', [''nvidia-nemotron-super-49b'', ''nvidia-qwen3-next-80b'',
       ''llama-3.1-8b-instant'']),
    (''nvidia-llama-3.2-90b-vision'', [''nvidia-llama-3.3-70b'', ''nvidia-nemotron-super-49b'',
       ''gemini-2.5-flash-lite'']),
    (''nvidia-deepseek-v4-flash'', [''nvidia-deepseek-v4-pro'', ''nvidia-qwen3-next-80b'',
       ''deepseek-v4-flash'']),
    (''nvidia-deepseek-v4-pro'', [''nvidia-deepseek-v4-flash'', ''nvidia-nemotron-super-120b'',
       ''deepseek-v4-pro'']),
    (''nvidia-minimax-m2-7'', [''nvidia-kimi-k2.6'', ''nvidia-qwen3.5-397b'', ''qwen3.5-flash'']),
    (''nvidia-kimi-k2.6'', [''nvidia-minimax-m2-7'', ''nvidia-qwen3.5-397b'', ''kimi-k2.6'']),
    (''nvidia-step-3.5-flash'', [''nvidia-qwen3-next-80b'', ''nvidia-llama-3.3-70b'',
       ''qwen3.5-flash''])]"

definition chains_openrouter :: "(string \<times> string list) list" where
  "chains_openrouter = [
    (''openrouter-glm-5-2'', [''glm-5.2'', ''nvidia-glm-5-2'', ''glm-5.1'', ''claude-sonnet-4-6'']),
    (''openrouter-glm-5-1'', [''glm-5.1'', ''openrouter-glm-5-2'', ''glm-4.7'',
       ''deepseek-v4-pro'']),
    (''openrouter-glm-4-7'', [''glm-4.7'', ''openrouter-glm-5-2'', ''deepseek-v4-pro'',
       ''glm-5-turbo'']),
    (''openrouter-claude-sonnet-4-6'', [''claude-sonnet-4-6'', ''deepseek-v4-pro'',
       ''glm-5-turbo'', ''kimi-k2.6'']),
    (''openrouter-claude-haiku-4-5'', [''claude-haiku-4-5-20251001'', ''deepseek-v4-flash'',
       ''qwen3.7-plus'', ''glm-4.5-air'']),
    (''openrouter-deepseek-v4-flash'', [''deepseek-v4-flash'', ''alibaba-deepseek-v4-flash'',
       ''nvidia-deepseek-v4-flash'', ''claude-haiku-4-5-20251001'']),
    (''openrouter-deepseek-v4-pro'', [''deepseek-v4-pro'', ''claude-sonnet-4-6'', ''glm-5-turbo'',
       ''kimi-k2.6'']),
    (''nvidia-glm-5-2'', [''openrouter-glm-5-2'', ''glm-5.2'', ''glm-5.1'',
       ''nvidia-deepseek-v4-pro''])]"

definition fallback_chains :: "(string \<times> string list) list" where
  "fallback_chains = chains_very_cheap @
     chains_cheap @
     chains_moderate @
     chains_nvidia @
     chains_openrouter"

section \<open>Reading them\<close>

fun json_strings :: "json list \<Rightarrow> string list option" where
  "json_strings [] = Some []"
| "json_strings (JStr s # vs) = map_option (Cons s) (json_strings vs)"
| "json_strings (_ # vs) = None"

definition effective_fallback_chains :: "json option \<Rightarrow> (string \<times> string list) list" where
  "effective_fallback_chains overlay =
     (case overlay of
        Some (JObj kvs) \<Rightarrow>
          fold (\<lambda>(k, v) merged.
                  case v of
                    JList items \<Rightarrow>
                      (case json_strings items of
                         Some chain \<Rightarrow> AList.update k chain merged
                       | None \<Rightarrow> merged)
                  | _ \<Rightarrow> merged)
            kvs fallback_chains
      | _ \<Rightarrow> fallback_chains)"

definition registry_fallback_chain :: "string \<Rightarrow> string list" where
  "registry_fallback_chain mid =
     (case map_of fallback_chains mid of
        Some chain \<Rightarrow> chain
      | None \<Rightarrow>
          (case map_of model_registry mid of
             None \<Rightarrow> []
           | Some spec \<Rightarrow>
               take 4 (map fst (filter (\<lambda>(m, sp). ms_tier sp = ms_tier spec \<and> ms_provider sp \<noteq> ms_provider spec)
                 model_registry))))"

definition get_model_spec :: "string \<Rightarrow> model_spec option" where
  "get_model_spec mid = map_of model_registry mid"

section \<open>Consistency of the tables\<close>

lemmas registry_defs = model_registry_def registry_anthropic_deepseek_openai_def
  registry_zai_def
  registry_minimax_mistral_moonshot_def
  registry_alibaba_def
  registry_google_groq_openrouter_free_def
  registry_openrouter_ollama_def
  registry_nvidia_1_def
  registry_nvidia_2_def

lemmas chain_defs = fallback_chains_def chains_very_cheap_def
  chains_cheap_def
  chains_moderate_def
  chains_nvidia_def
  chains_openrouter_def

text \<open>A router over the curated tables.\<close>

definition curated_router :: "string set \<Rightarrow> router" where
  "curated_router keys =
     \<lparr>rt_registry = model_registry, rt_chains = map_of fallback_chains, rt_exclude_providers = {},
      rt_disabled_env = None, rt_has_key = (\<lambda>p. p \<in> keys), rt_reasoning_model = ''deepseek-v4-pro'',
      rt_default_tier = [], rt_node_overrides = (\<lambda>_. None), rt_complexity_overrides = (\<lambda>_. None)\<rparr>"

lemma curated_router_simps [simp]:
  "rt_registry (curated_router keys) = model_registry"
  "rt_chains (curated_router keys) = map_of fallback_chains"
  "has_provider_key (curated_router keys) p = (p \<in> keys)"
  "resolved_disabled_providers (curated_router keys) = {}"
  by (simp_all add: curated_router_def has_provider_key_def resolved_disabled_providers_def)

text \<open>Tier and provider of each model, as an executable table without the costs.\<close>

definition spec_table :: "(string \<times> model_tier \<times> string) list" where
  "spec_table = map (\<lambda>(m, sp). (m, ms_tier sp, ms_provider sp)) model_registry"

lemma spec_table_eq [code]: "spec_table = [
    (''claude-haiku-4-5-20251001'', CHEAP, ''anthropic''),
    (''claude-sonnet-4-6'', MODERATE, ''anthropic''),
    (''deepseek-v4-flash'', CHEAP, ''deepseek''),
    (''deepseek-v4-pro'', MODERATE, ''deepseek''),
    (''gpt-4o-mini-2024-07-18'', VERY_CHEAP, ''openai''),
    (''gpt-4.1-mini-2025-04-14'', CHEAP, ''openai''),
    (''gpt-5-nano-2025-08-07'', CHEAP, ''openai''),
    (''glm-4.7-flash'', VERY_CHEAP, ''zai''),
    (''glm-4.5-air'', VERY_CHEAP, ''zai''),
    (''glm-4.7'', MODERATE, ''zai''),
    (''glm-5-turbo'', MODERATE, ''zai''),
    (''glm-5.1'', MODERATE, ''zai''),
    (''glm-5.2'', MODERATE, ''zai''),
    (''minimax-m2.5-highspeed'', CHEAP, ''minimax''),
    (''minimax-m2.5'', MODERATE, ''minimax''),
    (''mistral-small-2603'', CHEAP, ''mistral''),
    (''mistral-medium-3-5'', MODERATE, ''mistral''),
    (''moonshot-v1-32k'', CHEAP, ''moonshot''),
    (''kimi-k2.6'', MODERATE, ''moonshot''),
    (''qwen3.5-flash'', VERY_CHEAP, ''alibaba''),
    (''qwen3.7-plus'', CHEAP, ''alibaba''),
    (''qwen3.6-flash'', VERY_CHEAP, ''alibaba''),
    (''qwen3.5-flash-2026-02-23'', VERY_CHEAP, ''alibaba''),
    (''qwen-turbo'', CHEAP, ''alibaba''),
    (''qwen3-coder-next'', CHEAP, ''alibaba''),
    (''alibaba-deepseek-v4-flash'', CHEAP, ''alibaba''),
    (''gemini-2.5-flash-lite'', VERY_CHEAP, ''google''),
    (''gemini-2.5-flash'', CHEAP, ''google''),
    (''gemini-3-flash-preview'', MODERATE, ''google''),
    (''llama-3.1-8b-instant'', VERY_CHEAP, ''groq''),
    (''llama-3.3-70b-versatile'', MODERATE, ''groq''),
    (''openrouter/qwen/qwen3-next-80b-a3b-instruct:free'', VERY_CHEAP, ''openrouter''),
    (''openrouter-glm-5-2'', MODERATE, ''openrouter''),
    (''openrouter-glm-5-1'', MODERATE, ''openrouter''),
    (''openrouter-glm-4-7'', MODERATE, ''openrouter''),
    (''openrouter-claude-sonnet-4-6'', MODERATE, ''openrouter''),
    (''openrouter-claude-haiku-4-5'', CHEAP, ''openrouter''),
    (''openrouter-deepseek-v4-flash'', CHEAP, ''openrouter''),
    (''openrouter-deepseek-v4-pro'', MODERATE, ''openrouter''),
    (''ollama/qwen3.5:latest'', VERY_CHEAP, ''ollama''),
    (''nvidia-nemotron-super-120b'', VERY_CHEAP, ''nvidia''),
    (''nvidia-nemotron-ultra-550b'', VERY_CHEAP, ''nvidia''),
    (''nvidia-nemotron-super-49b'', VERY_CHEAP, ''nvidia''),
    (''nvidia-nemotron-super-49b-v1.5'', VERY_CHEAP, ''nvidia''),
    (''nvidia-gpt-oss-120b'', VERY_CHEAP, ''nvidia''),
    (''nvidia-qwen3-next-80b'', VERY_CHEAP, ''nvidia''),
    (''nvidia-qwen3.5-397b'', VERY_CHEAP, ''nvidia''),
    (''nvidia-qwen3.5-122b'', VERY_CHEAP, ''nvidia''),
    (''nvidia-glm-5-1'', VERY_CHEAP, ''nvidia''),
    (''nvidia-glm-5-2'', VERY_CHEAP, ''nvidia''),
    (''nvidia-llama-3.3-70b'', VERY_CHEAP, ''nvidia''),
    (''nvidia-llama-3.2-90b-vision'', VERY_CHEAP, ''nvidia''),
    (''nvidia-deepseek-v4-flash'', VERY_CHEAP, ''nvidia''),
    (''nvidia-deepseek-v4-pro'', VERY_CHEAP, ''nvidia''),
    (''nvidia-minimax-m2-7'', VERY_CHEAP, ''nvidia''),
    (''nvidia-kimi-k2.6'', VERY_CHEAP, ''nvidia''),
    (''nvidia-step-3.5-flash'', VERY_CHEAP, ''nvidia'')]"
  by (simp add: spec_table_def registry_defs model_spec_of_def)

lemma map_of_map_value: "map_of (map (\<lambda>(k, v). (k, f v)) xs) k = map_option f (map_of xs k)"
  by (induction xs) auto

lemma spec_table_lookup:
  "map_of spec_table m = map_option (\<lambda>sp. (ms_tier sp, ms_provider sp)) (map_of model_registry m)"
  by (simp add: spec_table_def map_of_map_value)

definition provider_of :: "string \<Rightarrow> string option" where
  "provider_of m = map_option snd (map_of spec_table m)"

lemma provider_of_spec: "provider_of m = map_option ms_provider (map_of model_registry m)"
  by (simp add: provider_of_def spec_table_lookup option.map_comp comp_def)

text \<open>
  What the gateway needs of one row: the chain is not empty, repeats nothing, does not lead
  back to its head, names registered models only and leaves the head's provider.
\<close>

definition chain_ok :: "string \<times> string list \<Rightarrow> bool" where
  "chain_ok row =
     (case row of (h, chain) \<Rightarrow>
        provider_of h \<noteq> None \<and> chain \<noteq> [] \<and> distinct (h # chain) \<and>
        list_all (\<lambda>m. provider_of m \<noteq> None) chain \<and>
        list_ex (\<lambda>m. provider_of m \<noteq> provider_of h) chain)"

lemma chains_very_cheap_ok: "list_all chain_ok chains_very_cheap"
  by code_simp

lemma chains_cheap_ok: "list_all chain_ok chains_cheap"
  by code_simp

lemma chains_moderate_ok: "list_all chain_ok chains_moderate"
  by code_simp

lemma chains_nvidia_ok: "list_all chain_ok chains_nvidia"
  by code_simp

lemma chains_openrouter_ok: "list_all chain_ok chains_openrouter"
  by code_simp

lemmas chains_ok = chains_very_cheap_ok chains_cheap_ok chains_moderate_ok chains_nvidia_ok chains_openrouter_ok

lemma keys_distinct: "distinct (map fst spec_table)"
  by code_simp

lemma registry_keys: "map fst spec_table = map fst model_registry"
  by (simp add: spec_table_def case_prod_beta comp_def)

text \<open>
  Fact (invariant): the routing tables are closed.  Model names are unique, every fallback
  chain starts at a registered model, names registered models only, without repetition and
  without leading back to its head, and reaches at least one other provider, so an outage of
  one provider never exhausts a chain.
\<close>

theorem routing_tables_closed:
  "distinct (map fst model_registry) \<and> list_all chain_ok fallback_chains"
  using keys_distinct chains_ok by (simp add: registry_keys fallback_chains_def)

definition overlay_chain :: "json option \<Rightarrow> string \<Rightarrow> string list option" where
  "overlay_chain overlay m =
     (case overlay of
        Some (JObj kvs) \<Rightarrow>
          map_of (rev (List.map_filter (\<lambda>(k, v). case v of
            JList items \<Rightarrow> map_option (Pair k) (json_strings items) | _ \<Rightarrow> None) kvs)) m
      | _ \<Rightarrow> None)"

lemma overlay_fold:
  "map_of (fold (\<lambda>(k, v) merged. case v of
       JList items \<Rightarrow> (case json_strings items of Some chain \<Rightarrow> AList.update k chain merged | None \<Rightarrow> merged)
     | _ \<Rightarrow> merged) kvs base) m =
   (case map_of (rev (List.map_filter (\<lambda>(k, v). case v of
       JList items \<Rightarrow> map_option (Pair k) (json_strings items) | _ \<Rightarrow> None) kvs)) m of
      Some chain \<Rightarrow> Some chain | None \<Rightarrow> map_of base m)"
proof (induction kvs arbitrary: base)
  case Nil
  then show ?case by (simp add: map_filter_simps)
next
  case (Cons kv kvs)
  obtain k v where "kv = (k, v)" by (cases kv)
  then show ?case
    by (cases v) (auto simp: Cons.IH map_filter_simps map_add_def split: option.splits)
qed

text \<open>
  Fact (functional): a bad overlay cannot break routing.  Whatever JSON the operator supplies,
  a model keeps its curated chain unless the overlay is an object that lists the model with
  a list of strings, and then that list is its chain (the last one, should the object repeat
  the key).
\<close>

theorem overlay_merges:
  "map_of (effective_fallback_chains overlay) m =
     (case overlay_chain overlay m of Some chain \<Rightarrow> Some chain | None \<Rightarrow> map_of fallback_chains m)"
  by (simp add: effective_fallback_chains_def overlay_chain_def overlay_fold split: option.split json.split)

lemma spec_table_filter:
  "map fst (filter (\<lambda>(m, t', p'). t' = t \<and> p' \<noteq> p) spec_table) =
   map fst (filter (\<lambda>(m, sp). ms_tier sp = t \<and> ms_provider sp \<noteq> p) model_registry)"
  by (simp add: spec_table_def filter_map comp_def case_prod_unfold)

lemma registry_fallback_chain_table [code]:
  "registry_fallback_chain mid =
     (case map_of fallback_chains mid of
        Some chain \<Rightarrow> chain
      | None \<Rightarrow>
          (case map_of spec_table mid of
             None \<Rightarrow> []
           | Some (t, p) \<Rightarrow> take 4 (map fst (filter (\<lambda>(m, t', p'). t' = t \<and> p' \<noteq> p) spec_table))))"
  by (simp add: registry_fallback_chain_def spec_table_lookup spec_table_filter split: option.split)

definition curated_chain :: "string \<Rightarrow> string list" where
  "curated_chain m = (case map_of fallback_chains m of None \<Rightarrow> [] | Some ms \<Rightarrow> ms)"

lemma curated_chain_eq: "get_fallback_chain (curated_router keys) m = curated_chain m"
  by (simp add: get_fallback_chain_def curated_chain_def)

definition uncurated :: "string list" where
  "uncurated = [''glm-4.5-air'', ''minimax-m2.5-highspeed'', ''minimax-m2.5'', ''mistral-small-2603'',
     ''moonshot-v1-32k'', ''llama-3.3-70b-versatile'', ''openrouter/qwen/qwen3-next-80b-a3b-instruct:free'',
     ''ollama/qwen3.5:latest'']"

lemma uncurated_chains: "list_all (\<lambda>m. curated_chain m = [] \<and> registry_fallback_chain m \<noteq> []) uncurated"
  by code_simp

text \<open>
  Fact (equivalence): the two definitions of a model's fallback chain disagree.  The registry's
  own function gives every model of a tier that spans several providers a chain; the router
  that the gateway asks gives none to a model without a curated chain, so the call has a
  single attempt.
\<close>

theorem uncurated_models_lose_fallback:
  "list_all (\<lambda>m. get_fallback_chain (curated_router keys) m = [] \<and> registry_fallback_chain m \<noteq> []) uncurated"
  using uncurated_chains by (simp add: curated_chain_eq)

end
