(* ===== verification/Gateway_Budget.thy ===== *)
theory Gateway_Budget
  imports Gateway Model_Registry
begin

text \<open>
  The budget check in front of the fallback chain (\<open>acompletion\<close>, \<open>_get_cheaper_fallback\<close>)
  and the streaming fallback (\<open>astream\<close>) of \<open>src/src/llm/gateway.py\<close>: what a downgrade
  guarantees, and where it does not hold.
\<close>

section \<open>The downgrade\<close>

lemma map_of_in_set: "map_of xs k = Some v \<Longrightarrow> (k, v) \<in> set xs"
  by (rule map_of_SomeD)

lemma find_Some_sat: "List.find P xs = Some x \<Longrightarrow> P x \<and> x \<in> set xs"
  by (auto simp: find_Some_iff)

definition is_cheaper :: "router \<Rightarrow> string \<Rightarrow> string \<Rightarrow> bool" where
  "is_cheaper rt model fb =
     (case (map_of (rt_registry rt) model, map_of (rt_registry rt) fb) of
        (Some spec, Some sp) \<Rightarrow> cheaper_than rt (tier_order (ms_tier spec)) sp
      | _ \<Rightarrow> False)"

lemma tier_order_nonneg: "0 \<le> tier_order t"
  by (cases t) auto

text \<open>
  Fact (functional): the budget fallback is sound and complete.  The model it picks is
  registered, in a strictly cheaper tier and of a provider that is not disabled; it picks
  none only when the registry holds no such model.
\<close>

theorem cheaper_fallback_correct:
  assumes "dict_wf (rt_registry rt)" "map_of (rt_registry rt) model = Some spec"
  shows "case get_cheaper_fallback rt model of
      Some fb \<Rightarrow> is_cheaper rt model fb
    | None \<Rightarrow> \<not> (\<exists>fb. is_cheaper rt model fb)"
proof (cases "get_cheaper_fallback rt model")
  case (Some fb)
  let ?order = "tier_order (ms_tier spec)"
  let ?P = "\<lambda>fb. case map_of (rt_registry rt) fb of None \<Rightarrow> False | Some sp \<Rightarrow> cheaper_than rt ?order sp"
  let ?Q = "\<lambda>(mid, sp). mid \<noteq> model \<and> cheaper_than rt ?order sp"
  show ?thesis
  proof (cases "List.find ?P (get_fallback_chain rt model)")
    case (Some c)
    with find_Some_sat [OF Some] assms(2) \<open>get_cheaper_fallback rt model = Some fb\<close> show ?thesis
      by (auto simp: get_cheaper_fallback_def is_cheaper_def Let_def split: if_splits option.splits)
  next
    case None
    with Some assms(2) obtain sp where "List.find ?Q (rt_registry rt) = Some (fb, sp)"
      by (auto simp: get_cheaper_fallback_def Let_def split: if_splits)
    from find_Some_sat [OF this] have "cheaper_than rt ?order sp" "(fb, sp) \<in> set (rt_registry rt)" by auto
    moreover then have "map_of (rt_registry rt) fb = Some sp"
      using assms(1) by (simp add: dict_wf_def)
    ultimately show ?thesis using Some assms(2) by (simp add: is_cheaper_def)
  qed
next
  case None
  have "\<not> is_cheaper rt model fb" for fb
  proof
    assume "is_cheaper rt model fb"
    with assms(2) obtain sp where fb: "map_of (rt_registry rt) fb = Some sp"
      and cheap: "cheaper_than rt (tier_order (ms_tier spec)) sp"
      by (auto simp: is_cheaper_def split: option.splits)
    then have "tier_order (ms_tier spec) \<noteq> 0" using tier_order_nonneg [of "ms_tier sp"]
      by (simp add: cheaper_than_def)
    with None assms(2) have "\<forall>x \<in> set (rt_registry rt).
        \<not> (\<lambda>(mid, sp). mid \<noteq> model \<and> cheaper_than rt (tier_order (ms_tier spec)) sp) x"
      by (auto simp: get_cheaper_fallback_def Let_def find_None_iff split: option.splits)
    moreover have "(fb, sp) \<in> set (rt_registry rt)" using fb by (rule map_of_SomeD)
    ultimately have "fb = model" using cheap by auto
    with fb assms(2) cheap show False by (simp add: cheaper_than_def)
  qed
  with None show ?thesis by simp
qed

text \<open>The flagship model in the curated tables: its cheaper stand-in leads back to it.\<close>

lemma curated_glm:
  "map_of model_registry ''glm-5.2'' = Some (model_spec_of ''zai/glm-5.2'' ''zai'' MODERATE 1000000 128000
     True True True False (1 / 1000) (3 / 1000))"
  "\<exists>sp. map_of model_registry ''openrouter-glm-5-2'' = Some sp \<and> ms_tier sp = MODERATE \<and> ms_provider sp = ''openrouter''"
  "\<exists>sp. map_of model_registry ''nvidia-glm-5-2'' = Some sp \<and> ms_tier sp = VERY_CHEAP \<and> ms_provider sp = ''nvidia''"
  by (simp_all add: registry_defs model_spec_of_def)

lemma curated_glm_chains:
  "get_fallback_chain (curated_router keys) ''glm-5.2'' =
     [''openrouter-glm-5-2'', ''nvidia-glm-5-2'', ''glm-5.1'', ''claude-sonnet-4-6'', ''deepseek-v4-pro'']"
  "get_fallback_chain (curated_router keys) ''nvidia-glm-5-2'' =
     [''openrouter-glm-5-2'', ''glm-5.2'', ''glm-5.1'', ''nvidia-deepseek-v4-pro'']"
  by (simp_all add: get_fallback_chain_def chain_defs)

lemma curated_providers:
  "provider_of ''glm-5.2'' = Some ''zai''" "provider_of ''glm-5.1'' = Some ''zai''"
  "provider_of ''openrouter-glm-5-2'' = Some ''openrouter''" "provider_of ''nvidia-glm-5-2'' = Some ''nvidia''"
  "provider_of ''nvidia-deepseek-v4-pro'' = Some ''nvidia''"
  by code_simp+

lemma extract_curated: "provider_of m = Some p \<Longrightarrow> extract_provider (curated_router keys) m = p"
  unfolding provider_of_spec
  by (elim map_option_eq_Some [THEN iffD1, elim_format] exE conjE)
     (simp only: extract_provider_def curated_router_simps option.case)

lemmas extract_glm [simp] = curated_providers [THEN extract_curated]

lemma glm_cheaper: "get_cheaper_fallback (curated_router keys) ''glm-5.2'' = Some ''nvidia-glm-5-2''"
proof -
  obtain sp1 sp2 where
    "map_of model_registry ''openrouter-glm-5-2'' = Some sp1" "ms_tier sp1 = MODERATE"
    "map_of model_registry ''nvidia-glm-5-2'' = Some sp2" "ms_tier sp2 = VERY_CHEAP"
    using curated_glm(2,3) by blast
  moreover have "ms_tier (model_spec_of ''zai/glm-5.2'' ''zai'' MODERATE 1000000 128000
     True True True False (1 / 1000) (3 / 1000)) = MODERATE" by (simp add: model_spec_of_def)
  ultimately show ?thesis
    by (simp add: get_cheaper_fallback_def curated_glm_chains curated_glm(1) cheaper_than_def is_provider_disabled_def)
qed

lemma curated_wf: "dict_wf model_registry"
  using keys_distinct by (simp add: dict_wf_def registry_keys)

theorem cheaper_fallback_correct_witness: "is_cheaper (curated_router {}) ''glm-5.2'' ''nvidia-glm-5-2''"
  using cheaper_fallback_correct [of "curated_router {}" "''glm-5.2''", unfolded curated_router_simps,
      OF curated_wf curated_glm(1)] by (simp add: glm_cheaper)

text \<open>
  Fact (safety): the budget downgrade can be undone by the chain it starts.  The cheaper model
  is picked without asking whether its provider has a key; the fallback chain then drops it,
  and when the expensive model leads what is left of the cheaper model's own chain, the call
  that was over budget is served by the very model it was downgraded from.
\<close>

theorem budget_downgrade_returns_to_primary:
  assumes "ce_cached env = None" "ce_budget env = Some (False, msg)" "\<not> gc_budget_hard_stop cfg"
    and "get_cheaper_fallback (gc_router cfg) model = Some fb" "fb \<noteq> []"
    and "\<not> keyed (gc_router cfg) fb"
    and "filter (keyed (gc_router cfg)) (get_fallback_chain (gc_router cfg) fb) = model # rest"
    and "\<not> past_deadline (chain_deadline cfg (ce_chain_start env)) (ce_attempts env 0)"
    and "\<not> gw_blocked (ce_attempts env 0) (extract_provider (gc_router cfg) model) g"
    and "\<And>kw. provider_call cfg (ce_attempts env 0) 0 kw = Ok r"
  shows "\<exists>res. fst (acompletion cfg rq (Some model) node schema False env g) = Inr res \<and> lr_model res = model"
proof -
  have chain: "attempt_chain (gc_router cfg) fb False = [] @ model # rest"
    using assms(6,7) by (simp add: attempt_chain_def)
  obtain rq' where run: "acompletion cfg rq (Some model) node schema False env g =
    (case execute_with_fallback cfg rq' False (ce_chain_start env) (ce_attempts env) fb g of
       (Inl err, g) \<Rightarrow> (Inl err, g)
     | (Inr res, g) \<Rightarrow> (Inr res, g\<lparr>gw_latency := lg_record_call (ce_gate_now env) (lr_provider res)
          (Ms (elapsed_ms (ce_start env) (ce_end env))) (gw_latency g)\<rparr>))"
    using assms(1-5) by (simp add: acompletion_def budget_gate_def select_model_def Let_def)
  from fallback_serves_available [OF chain, where start = "ce_chain_start env" and envs = "ce_attempts env"
      and r = r and rq = rq' and g = g] assms(8-10)
  obtain res g' where "execute_with_fallback cfg rq' False (ce_chain_start env) (ce_attempts env) fb g = (Inr res, g')"
    "lr_model res = model"
    by (cases "execute_with_fallback cfg rq' False (ce_chain_start env) (ce_attempts env) fb g") auto
  then show ?thesis by (simp add: run)
qed

theorem budget_downgrade_returns_to_primary_witness:
  "\<exists>res. fst (acompletion (demo_cfg\<lparr>gc_router := curated_router {''zai''}\<rparr>) (demo_request COMPLEX) (Some ''glm-5.2'')
      None JNull False (demo_call_env (Some (False, ''over budget'')) (\<lambda>_. demo_env (\<lambda>_. Ok ''answer'')))
      demo_gateway) = Inr res \<and> lr_model res = ''glm-5.2''"
  by (rule budget_downgrade_returns_to_primary [where fb = "''nvidia-glm-5-2''" and rest = "[''glm-5.1'']"
        and msg = "''over budget''" and r = "''answer''"])
     (simp_all add: glm_cheaper curated_glm_chains keyed_def demo_cfg_def past_deadline_def chain_deadline_def)

section \<open>Streaming\<close>

lemma stream_fallbacks_tokens:
  assumes "\<forall>i < n. snd (answers i) \<noteq> Finished" "snd (answers n) = Finished" "n < length ms"
  shows "stream_fallbacks model answers ms = (concat (map (\<lambda>i. fst (answers i)) [0..<Suc n]), Inr ())"
  using assms
proof (induction n arbitrary: answers ms)
  case 0
  then show ?case by (cases ms; cases "answers 0") auto
next
  case (Suc n)
  then obtain m ms' where ms: "ms = m # ms'" by (cases ms) auto
  obtain toks ended where a0: "answers 0 = (toks, ended)" by (cases "answers 0") auto
  from Suc.prems(1) a0 have "ended \<noteq> Finished" by auto
  moreover have "stream_fallbacks model (\<lambda>i. answers (Suc i)) ms' =
      (concat (map (\<lambda>i. fst (answers (Suc i))) [0..<Suc n]), Inr ())"
    using Suc.IH [of "\<lambda>i. answers (Suc i)" ms'] Suc.prems ms by auto
  moreover have "map (\<lambda>i. fst (answers i)) [0..<Suc (Suc n)] = fst (answers 0) # map (\<lambda>i. fst (answers (Suc i))) [0..<Suc n]"
    by (simp add: upt_conv_Cons map_Suc_upt [symmetric] del: upt_Suc)
  ultimately show ?case by (simp add: ms a0 del: upt_Suc)
qed

text \<open>
  Fact (functional): a stream that breaks is replayed, not resumed.  When the first model's
  stream ends in a transient error and the \<open>n\<close>-th fallback is the first to finish, the
  consumer receives the tokens of every attempt one after the other: the partial answers of
  the models that broke stay in front of the complete one.
\<close>

theorem stream_replays_after_break:
  assumes "model = select_model cfg requested complexity node" "snd (answers 0) = Broke_transient e"
    and "\<forall>i < n. snd (answers (Suc i)) \<noteq> Finished" "snd (answers (Suc n)) = Finished"
    and "n < length (get_fallback_chain (gc_router cfg) model)"
  shows "astream cfg requested complexity node answers =
    (concat (map (\<lambda>i. filter (\<lambda>t. t \<noteq> []) (fst (answers i))) [0..<Suc (Suc n)]), Inr ())"
proof -
  have "map (\<lambda>i. filter (\<lambda>t. t \<noteq> []) (fst (answers i))) [0..<Suc (Suc n)] =
      filter (\<lambda>t. t \<noteq> []) (fst (answers 0)) # map (\<lambda>i. filter (\<lambda>t. t \<noteq> []) (fst (answers (Suc i)))) [0..<Suc n]"
    by (simp add: upt_conv_Cons map_Suc_upt [symmetric] del: upt_Suc)
  with stream_fallbacks_tokens [of n "\<lambda>i. (filter (\<lambda>t. t \<noteq> []) (fst (answers (Suc i))), snd (answers (Suc i)))"
      "get_fallback_chain (gc_router cfg) model" model] assms
  show ?thesis by (simp add: astream_def Let_def del: upt_Suc)
qed

theorem stream_replays_after_break_witness:
  "astream demo_cfg (Some ''glm-5.2'') None None
     (\<lambda>i. if i = 0 then ([''The'', ''ans''], Broke_transient ''reset'') else ([''The'', ''answer''], Finished)) =
   ([''The'', ''ans'', ''The'', ''answer''], Inr ())"
  by (subst stream_replays_after_break [where n = 0 and e = "''reset''", OF refl])
     (simp_all add: select_model_def)

end
