(* ===== verification/Rate_Limiter.thy ===== *)
theory Rate_Limiter
  imports Prelude
begin

text \<open>
  The two-layer rate limiter of \<open>src/src/llm/rate_limiter.py\<close>.  The in-memory limiters
  (\<open>aiolimiter\<close>) and Redis are outside the code: an in-memory acquisition either succeeds or
  raises (an argument), and Redis is the map of its counters, on which the Lua script runs
  atomically.  \<open>EXPIRE\<close> is left out: the window of a key is one minute and its time to live
  two, so a key is not reaped while its minute lasts.  The clock is an argument, the
  back-off sleeps are a result.
\<close>

section \<open>Limits\<close>

definition provider_limits :: "(string \<times> int \<times> int) list" where
  "provider_limits =
     [(''anthropic'', 50, 40000), (''openai'', 60, 150000), (''deepseek'', 60, 200000),
      (''alibaba'', 60, 100000), (''google'', 60, 120000), (''mistral'', 60, 80000),
      (''groq'', 60, 30000), (''zai'', 60, 100000), (''moonshot'', 60, 80000),
      (''minimax'', 60, 80000), (''openrouter'', 30, 50000), (''nvidia'', 40, 60000)]"

record rate_settings =
  rs_default_rpm :: int
  rs_default_tpm :: int
  rs_overrides :: "(string \<times> int list) list"
  rs_cross_process :: bool
  rs_max_wait_attempts :: int

text \<open>An override that is not a pair is ignored.\<close>

definition build_limits :: "rate_settings \<Rightarrow> (string \<times> int \<times> int) list" where
  "build_limits st =
     fold (\<lambda>(p, pair) limits.
             case pair of [rpm, tpm] \<Rightarrow> AList.update p (rpm, tpm) limits | _ \<Rightarrow> limits)
       (rs_overrides st) provider_limits"

definition get_limits :: "rate_settings \<Rightarrow> string \<Rightarrow> int \<times> int" where
  "get_limits st p =
     (case map_of (build_limits st) p of
        Some l \<Rightarrow> l | None \<Rightarrow> (rs_default_rpm st, rs_default_tpm st))"

definition max_attempts :: "rate_settings \<Rightarrow> nat" where
  "max_attempts st = nat (max 1 (rs_max_wait_attempts st))"

section \<open>The shared counters\<close>

type_synonym redis = "string \<Rightarrow> int option"

definition counter :: "redis \<Rightarrow> string \<Rightarrow> int" where
  "counter r k = (case r k of None \<Rightarrow> 0 | Some n \<Rightarrow> n)"

text \<open>\<open>_RATE_RESERVE_LUA\<close>: reserve in both windows or in none.\<close>

definition rate_reserve ::
  "string \<Rightarrow> string \<Rightarrow> int \<Rightarrow> int \<Rightarrow> int \<Rightarrow> redis \<Rightarrow> bool \<times> redis" where
  "rate_reserve rpm_key tpm_key rpm tpm tokens r =
     (if counter r rpm_key + 1 > rpm then (False, r)
      else if counter r tpm_key + tokens > tpm then (False, r)
      else
        let r = r(rpm_key \<mapsto> counter r rpm_key + 1)
        in (True, r(tpm_key \<mapsto> counter r tpm_key + tokens)))"

definition minute_of :: "real \<Rightarrow> int" where
  "minute_of now = \<lfloor>now\<rfloor> div 60"

definition rpm_key :: "string \<Rightarrow> int \<Rightarrow> string" where
  "rpm_key p minute = ''turing:ratelimit:rpm:'' @ p @ '':'' @ py_str minute"

definition tpm_key :: "string \<Rightarrow> int \<Rightarrow> string" where
  "tpm_key p minute = ''turing:ratelimit:tpm:'' @ p @ '':'' @ py_str minute"

definition reserve_at ::
  "rate_settings \<Rightarrow> string \<Rightarrow> int \<Rightarrow> real \<Rightarrow> redis \<Rightarrow> bool \<times> redis" where
  "reserve_at st p estimated now r =
     (let (rpm, tpm) = get_limits st p; minute = minute_of now
      in rate_reserve (rpm_key p minute) (tpm_key p minute) rpm tpm (max 1 estimated) r)"

section \<open>Acquiring\<close>

datatype acquired = Reserved | Best_effort | Redis_failed

text \<open>
  The loop of \<open>_acquire_cross_process\<close>.  Each iteration sees the time, whether Redis answers,
  and the counters as the other processes of the fleet have left them (\<open>world\<close>).
\<close>

record turn =
  tn_now :: real
  tn_redis_ok :: bool
  tn_others :: "redis \<Rightarrow> redis"

fun reserve_loop ::
  "nat \<Rightarrow> rate_settings \<Rightarrow> string \<Rightarrow> int \<Rightarrow> (nat \<Rightarrow> turn) \<Rightarrow> real \<Rightarrow> redis
    \<Rightarrow> (acquired \<times> real list) \<times> redis" where
  "reserve_loop 0 st p estimated turns backoff r = ((Best_effort, []), r)"
| "reserve_loop (Suc n) st p estimated turns backoff r =
     (let r = tn_others (turns 0) r in
      if \<not> tn_redis_ok (turns 0) then ((Redis_failed, []), r)
      else case reserve_at st p estimated (tn_now (turns 0)) r of
        (True, r) \<Rightarrow> ((Reserved, []), r)
      | (False, r) \<Rightarrow>
          (let ((res, sleeps), r) =
             reserve_loop n st p estimated (\<lambda>i. turns (Suc i)) (min (backoff * 2) 2) r
           in ((res, backoff # sleeps), r)))"

definition acquire_cross_process ::
  "rate_settings \<Rightarrow> string \<Rightarrow> int \<Rightarrow> (nat \<Rightarrow> turn) \<Rightarrow> redis \<Rightarrow> (acquired \<times> real list) \<times> redis" where
  "acquire_cross_process st p estimated turns r =
     reserve_loop (max_attempts st) st p estimated turns (1 / 10) r"

record limiter =
  rl_settings :: rate_settings
  rl_redis_attached :: bool

text \<open>\<open>attach_redis\<close>: \<open>registered\<close> says whether registering the script succeeds.\<close>

definition attach_redis :: "limiter \<Rightarrow> bool \<Rightarrow> bool \<Rightarrow> limiter" where
  "attach_redis lm client registered =
     (if \<not> rs_cross_process (rl_settings lm) \<or> \<not> client then lm
      else lm\<lparr>rl_redis_attached := registered\<rparr>)"

text \<open>\<open>Inl\<close> is the exception of the in-memory limiter; the shared budget is then not asked.\<close>

definition acquire ::
  "limiter \<Rightarrow> (string \<Rightarrow> int \<times> int \<Rightarrow> int \<Rightarrow> bool) \<Rightarrow> string \<Rightarrow> int \<Rightarrow> (nat \<Rightarrow> turn) \<Rightarrow> redis
    \<Rightarrow> (unit + (acquired \<times> real list) option) \<times> redis" where
  "acquire lm in_memory_ok p estimated turns r =
     (if \<not> in_memory_ok p (get_limits (rl_settings lm) p) estimated then (Inl (), r)
      else if rs_cross_process (rl_settings lm) \<and> rl_redis_attached lm then
        (let (res, r) = acquire_cross_process (rl_settings lm) p estimated turns r in (Inr (Some res), r))
      else (Inr None, r))"

section \<open>The keys\<close>

lemma takeWhile_sep: "x \<notin> set xs \<Longrightarrow> takeWhile (\<lambda>c. c \<noteq> x) (xs @ x # ys) = xs"
  by (induction xs) auto

lemma colon_split:
  assumes "p @ CHR '':'' # a = q @ CHR '':'' # b" "CHR '':'' \<notin> set a" "CHR '':'' \<notin> set b"
  shows "p = q \<and> a = b"
proof -
  have "takeWhile (\<lambda>c. c \<noteq> CHR '':'') (rev a @ CHR '':'' # rev p) = rev a"
    "takeWhile (\<lambda>c. c \<noteq> CHR '':'') (rev b @ CHR '':'' # rev q) = rev b"
    using assms(2,3) by (simp_all add: takeWhile_sep)
  moreover have "rev a @ CHR '':'' # rev p = rev (p @ CHR '':'' # a)"
    "rev b @ CHR '':'' # rev q = rev (q @ CHR '':'' # b)" by simp_all
  ultimately have "rev a = rev b" using assms(1) by (metis (no_types, lifting))
  then have "a = b" by simp
  with assms(1) show ?thesis by simp
qed

lemma key_inj:
  "rpm_key p m = rpm_key q n \<longleftrightarrow> p = q \<and> m = n"
  "tpm_key p m = tpm_key q n \<longleftrightarrow> p = q \<and> m = n"
  "rpm_key p m \<noteq> tpm_key q n" "tpm_key p m \<noteq> rpm_key q n"
  using colon_split [of p "py_str m" q "py_str n"] py_str_no_colon
  by (auto simp: rpm_key_def tpm_key_def dest: py_str_inj)

section \<open>The shared quota\<close>

text \<open>A reservation that some process of the fleet attempts: provider, minute, estimate.\<close>

type_synonym reservation = "string \<times> real \<times> int"

definition fleet_step ::
  "rate_settings \<Rightarrow> reservation \<Rightarrow> (string \<times> int \<times> int) list \<times> redis
    \<Rightarrow> (string \<times> int \<times> int) list \<times> redis" where
  "fleet_step st ev s =
     (case ev of (p, now, estimated) \<Rightarrow>
        (case reserve_at st p estimated now (snd s) of
           (True, r) \<Rightarrow> ((p, minute_of now, max 1 estimated) # fst s, r)
         | (False, r) \<Rightarrow> (fst s, r)))"

definition fleet_run :: "rate_settings \<Rightarrow> reservation list \<Rightarrow> (string \<times> int \<times> int) list \<times> redis" where
  "fleet_run st evs = fold (fleet_step st) evs ([], Map.empty)"

definition requests_in :: "string \<Rightarrow> int \<Rightarrow> (string \<times> int \<times> int) list \<Rightarrow> int" where
  "requests_in p m granted = int (length (filter (\<lambda>(q, n, _). q = p \<and> n = m) granted))"

definition tokens_in :: "string \<Rightarrow> int \<Rightarrow> (string \<times> int \<times> int) list \<Rightarrow> int" where
  "tokens_in p m granted = sum_list (map (\<lambda>(_, _, t). t) (filter (\<lambda>(q, n, _). q = p \<and> n = m) granted))"

text \<open>The counters are the grants of the minute, and the grants respect the limits.\<close>

definition quota_inv :: "rate_settings \<Rightarrow> (string \<times> int \<times> int) list \<times> redis \<Rightarrow> bool" where
  "quota_inv st s \<longleftrightarrow> (\<forall>p m.
     counter (snd s) (rpm_key p m) = requests_in p m (fst s) \<and>
     counter (snd s) (tpm_key p m) = tokens_in p m (fst s) \<and>
     requests_in p m (fst s) \<le> max 0 (fst (get_limits st p)) \<and>
     tokens_in p m (fst s) \<le> max 0 (snd (get_limits st p)))"

lemma requests_in_Cons:
  "requests_in p m ((q, n, t) # gs) = (if q = p \<and> n = m then 1 + requests_in p m gs else requests_in p m gs)"
  by (simp add: requests_in_def)

lemma tokens_in_Cons:
  "tokens_in p m ((q, n, t) # gs) = (if q = p \<and> n = m then t + tokens_in p m gs else tokens_in p m gs)"
  by (simp add: tokens_in_def)

lemma counter_upd [simp]: "counter (r(k \<mapsto> v)) k' = (if k' = k then v else counter r k')"
  by (simp add: counter_def)

lemma reserve_at_cases:
  obtains (refused) "reserve_at st p e now r = (False, r)"
  | (granted) "reserve_at st p e now r =
        (True, r(rpm_key p (minute_of now) \<mapsto> counter r (rpm_key p (minute_of now)) + 1,
                 tpm_key p (minute_of now) \<mapsto> counter r (tpm_key p (minute_of now)) + max 1 e))"
      "counter r (rpm_key p (minute_of now)) + 1 \<le> fst (get_limits st p)"
      "counter r (tpm_key p (minute_of now)) + max 1 e \<le> snd (get_limits st p)"
proof -
  let ?m = "minute_of now" and ?l = "get_limits st p"
  have eq: "reserve_at st p e now r =
      (if counter r (rpm_key p ?m) + 1 > fst ?l then (False, r)
       else if counter r (tpm_key p ?m) + max 1 e > snd ?l then (False, r)
       else (True, r(rpm_key p ?m \<mapsto> counter r (rpm_key p ?m) + 1,
                     tpm_key p ?m \<mapsto> counter r (tpm_key p ?m) + max 1 e)))"
    by (simp add: reserve_at_def rate_reserve_def Let_def key_inj split: prod.split)
  show thesis
  proof (cases "counter r (rpm_key p ?m) + 1 > fst ?l \<or> counter r (tpm_key p ?m) + max 1 e > snd ?l")
    case True
    then have "reserve_at st p e now r = (False, r)" unfolding eq by auto
    then show thesis by (rule refused)
  next
    case False
    then have no: "\<not> counter r (rpm_key p ?m) + 1 > fst ?l" "\<not> counter r (tpm_key p ?m) + max 1 e > snd ?l"
      by auto
    then have "reserve_at st p e now r =
      (True, r(rpm_key p ?m \<mapsto> counter r (rpm_key p ?m) + 1, tpm_key p ?m \<mapsto> counter r (tpm_key p ?m) + max 1 e))"
      by (simp only: eq if_False)
    then show thesis by (rule granted) (use no in \<open>simp_all only: not_less\<close>)
  qed
qed

lemma quota_step: "quota_inv st s \<Longrightarrow> quota_inv st (fleet_step st ev s)"
proof -
  assume inv: "quota_inv st s"
  obtain p now e where ev: "ev = (p, now, e)" by (cases ev) auto
  show ?thesis
  proof (cases rule: reserve_at_cases [of st p e now "snd s"])
    case refused
    with inv ev show ?thesis by (simp add: fleet_step_def)
  next
    case granted
    with inv ev show ?thesis
      by (auto simp: fleet_step_def quota_inv_def requests_in_Cons tokens_in_Cons key_inj)
  qed
qed

text \<open>
  C18 (invariant): the fleet stays within a provider's quota.  Whatever reservations any
  number of processes attempt in whatever order, the requests and the tokens reserved for a
  provider within one minute never exceed its limits.
\<close>

theorem fleet_within_quota:
  "requests_in p m (fst (fleet_run st evs)) \<le> max 0 (fst (get_limits st p)) \<and>
   tokens_in p m (fst (fleet_run st evs)) \<le> max 0 (snd (get_limits st p))"
proof -
  have "quota_inv st ([], Map.empty)"
    by (simp add: quota_inv_def counter_def requests_in_def tokens_in_def)
  then have "quota_inv st (fold (fleet_step st) evs ([], Map.empty))"
  proof (induction evs arbitrary: rule: rev_induct)
    case (snoc ev evs)
    then show ?case by (simp add: quota_step)
  qed simp
  then show ?thesis by (simp add: fleet_run_def quota_inv_def)
qed

section \<open>Bounded waiting\<close>

lemma reserve_loop_waits:
  assumes "0 \<le> backoff" "backoff \<le> 2"
  shows "length (snd (fst (reserve_loop n st p e turns backoff r))) \<le> n \<and>
     (\<forall>w \<in> set (snd (fst (reserve_loop n st p e turns backoff r))). 0 \<le> w \<and> w \<le> 2)"
  using assms
proof (induction n arbitrary: turns backoff r)
  case 0
  then show ?case by simp
next
  case (Suc n)
  obtain ok r' where res: "reserve_at st p e (tn_now (turns 0)) (tn_others (turns 0) r) = (ok, r')"
    by (cases "reserve_at st p e (tn_now (turns 0)) (tn_others (turns 0) r)") auto
  obtain a ws r2 where rest: "reserve_loop n st p e (\<lambda>i. turns (Suc i)) (min (backoff * 2) 2) r' = ((a, ws), r2)"
    by (cases "reserve_loop n st p e (\<lambda>i. turns (Suc i)) (min (backoff * 2) 2) r'") auto
  from Suc.IH [of "min (backoff * 2) 2" "\<lambda>i. turns (Suc i)" r'] rest Suc.prems res show ?case
    by (cases ok) (auto simp: Let_def)
qed

lemma sum_list_bound: "(\<forall>w \<in> set ws. w \<le> (c::real)) \<Longrightarrow> sum_list ws \<le> c * length ws"
  by (induction ws) (auto simp: algebra_simps)

text \<open>
  Fact (termination): rate limiting delays a call but never blocks it.  Whatever the other
  processes do to the shared counters, an acquisition returns after at most the configured
  number of waits (at least one attempt is made), of at most two seconds each.
\<close>

theorem acquire_wait_bounded:
  "length (snd (fst (acquire_cross_process st p e turns r))) \<le> max_attempts st \<and>
   sum_list (snd (fst (acquire_cross_process st p e turns r))) \<le> 2 * real (max_attempts st)"
proof -
  let ?ws = "snd (fst (acquire_cross_process st p e turns r))"
  have "(0::real) \<le> 1 / 10" "1 / 10 \<le> (2::real)" by simp_all
  note waits = reserve_loop_waits [OF this, of "max_attempts st" st p e turns r]
  then have len: "length ?ws \<le> max_attempts st" unfolding acquire_cross_process_def by (rule conjunct1)
  from waits have "\<forall>w \<in> set ?ws. w \<le> 2" unfolding acquire_cross_process_def by blast
  then have "sum_list ?ws \<le> 2 * real (length ?ws)" by (rule sum_list_bound)
  moreover from len have "2 * real (length ?ws) \<le> 2 * real (max_attempts st)" by simp
  ultimately have "sum_list ?ws \<le> 2 * real (max_attempts st)" by (rule order_trans)
  with len show ?thesis by (rule conjI)
qed

lemma oversize_refused: "snd (get_limits st p) < e \<Longrightarrow> counter r (tpm_key p (minute_of now)) \<ge> 0 \<Longrightarrow>
  reserve_at st p e now r = (False, r)"
  by (cases rule: reserve_at_cases [of st p e now r]) auto

lemma oversize_loop:
  assumes "snd (get_limits st p) < e" "\<forall>i. tn_redis_ok (turns i) \<and> tn_others (turns i) = id"
    and "\<forall>k. 0 \<le> counter r k"
  shows "fst (fst (reserve_loop n st p e turns b r)) = Best_effort \<and>
     length (snd (fst (reserve_loop n st p e turns b r))) = n \<and> snd (reserve_loop n st p e turns b r) = r"
  using assms(2)
proof (induction n arbitrary: turns b)
  case (Suc n)
  have "reserve_at st p e (tn_now (turns 0)) r = (False, r)" using oversize_refused assms(1,3) by blast
  moreover obtain a ws r2 where rest:
    "reserve_loop n st p e (\<lambda>i. turns (Suc i)) (min (b * 2) 2) r = ((a, ws), r2)"
    by (cases "reserve_loop n st p e (\<lambda>i. turns (Suc i)) (min (b * 2) 2) r") auto
  ultimately show ?case using Suc.IH [of "\<lambda>i. turns (Suc i)" "min (b * 2) 2"] Suc.prems
    by (simp add: Let_def)
qed simp

text \<open>
  Fact (error): an oversized request is never accounted for.  If a call's estimate exceeds the
  provider's tokens per minute, no window however empty admits it: it sleeps through every
  attempt and then goes out best-effort, leaving the shared counters as they were.
\<close>

theorem oversize_request_unaccounted:
  assumes "snd (get_limits st p) < e" "\<forall>i. tn_redis_ok (turns i) \<and> tn_others (turns i) = id"
    and "\<forall>k. 0 \<le> counter r k"
  shows "fst (fst (acquire_cross_process st p e turns r)) = Best_effort \<and>
     length (snd (fst (acquire_cross_process st p e turns r))) = max_attempts st \<and>
     snd (acquire_cross_process st p e turns r) = r"
  using oversize_loop [OF assms] by (simp add: acquire_cross_process_def)

definition default_rate_settings :: rate_settings where
  "default_rate_settings = \<lparr>rs_default_rpm = 60, rs_default_tpm = 100000, rs_overrides = [],
     rs_cross_process = True, rs_max_wait_attempts = 5\<rparr>"

theorem oversize_request_unaccounted_witness:
  "length (snd (fst (acquire_cross_process default_rate_settings ''groq'' 30001
     (\<lambda>_. \<lparr>tn_now = 0, tn_redis_ok = True, tn_others = id\<rparr>) Map.empty))) = 5"
proof -
  have l: "snd (get_limits default_rate_settings ''groq'') = 30000"
    by (simp add: get_limits_def build_limits_def default_rate_settings_def provider_limits_def)
  show ?thesis
    using oversize_request_unaccounted [of default_rate_settings "''groq''" 30001
        "\<lambda>_. \<lparr>tn_now = 0, tn_redis_ok = True, tn_others = id\<rparr>" Map.empty] l
    by (simp add: counter_def max_attempts_def default_rate_settings_def)
qed

end
