(* ===== verification/Run_Status.thy ===== *)
theory Run_Status
  imports Prelude
begin

text \<open>
  Per-run records of the worker: the payloads of \<open>src/src/worker/schema.py\<close> and the status
  store of \<open>src/src/worker/status.py\<close>.  A Redis hash is an association list of strings, the
  store a map from run id to hash (no entry: unknown or expired), the cancel flags a set.
  Whether Redis answers a command is an argument (\<open>ok\<close>): the store swallows its errors.
  Time stamps are the strings \<open>utc_now_iso\<close> returns.
\<close>

section \<open>Schema\<close>

datatype job_status = QUEUED | RUNNING | COMPLETED | FAILED | TIMEOUT | BUDGET_EXHAUSTED | CANCELLED

record run_job =
  job_run_id :: string
  job_goal :: string
  job_max_iterations :: "int option"
  job_no_evolution :: bool
  job_model :: "string option"
  job_run_timeout_s :: "real option"
  job_results_per_run_subdir :: "bool option"
  job_clear_flat_subdirs :: "string list"

record run_status =
  st_run_id :: string
  st_thread_id :: string
  st_status :: job_status
  st_final_output :: string
  st_is_complete :: bool
  st_iteration_count :: int
  st_error :: string
  st_started_at :: string
  st_finished_at :: string
  st_entry_id :: string
  st_results_dir :: string

definition new_run_status :: "string \<Rightarrow> string \<Rightarrow> run_status" where
  "new_run_status run_id thread_id =
     \<lparr>st_run_id = run_id, st_thread_id = thread_id, st_status = QUEUED, st_final_output = [],
      st_is_complete = False, st_iteration_count = 0, st_error = [], st_started_at = [],
      st_finished_at = [], st_entry_id = [], st_results_dir = []\<rparr>"

fun job_status_value :: "job_status \<Rightarrow> string" where
  "job_status_value QUEUED = ''queued''"
| "job_status_value RUNNING = ''running''"
| "job_status_value COMPLETED = ''completed''"
| "job_status_value FAILED = ''failed''"
| "job_status_value TIMEOUT = ''timeout''"
| "job_status_value BUDGET_EXHAUSTED = ''budget_exhausted''"
| "job_status_value CANCELLED = ''cancelled''"

definition job_status_of :: "string \<Rightarrow> job_status option" where
  "job_status_of s =
     List.find (\<lambda>js. job_status_value js = s)
       [QUEUED, RUNNING, COMPLETED, FAILED, TIMEOUT, BUDGET_EXHAUSTED, CANCELLED]"

type_synonym redis_hash = "(string \<times> string) list"

definition to_hash :: "run_status \<Rightarrow> redis_hash" where
  "to_hash s =
     [(''run_id'', st_run_id s), (''thread_id'', st_thread_id s),
      (''status'', job_status_value (st_status s)), (''final_output'', st_final_output s),
      (''is_complete'', if st_is_complete s then ''True'' else ''False''),
      (''iteration_count'', py_str (st_iteration_count s)), (''error'', st_error s),
      (''started_at'', st_started_at s), (''finished_at'', st_finished_at s),
      (''entry_id'', st_entry_id s), (''results_dir'', st_results_dir s)]"

definition hash_get :: "redis_hash \<Rightarrow> string \<Rightarrow> string \<Rightarrow> string" where
  "hash_get h k d = (case map_of h k of None \<Rightarrow> d | Some v \<Rightarrow> v)"

text \<open>
  \<open>None\<close> stands for the exceptions: an empty hash, a missing required field, a status that is
  not a member of the enumeration.  A missing status or string field takes its default.
\<close>

definition from_hash :: "redis_hash \<Rightarrow> run_status option" where
  "from_hash h =
     (if h = [] then None
      else
        let is_complete = hash_get h ''is_complete'' ''False'' \<in> {''True'', ''true'', ''1''};
            count = hash_get h ''iteration_count'' ''0'';
            iterations = (case py_int (if count = [] then ''0'' else count) of Some n \<Rightarrow> n | None \<Rightarrow> 0)
        in case (map_of h ''run_id'', map_of h ''thread_id'',
                 job_status_of (hash_get h ''status'' ''queued'')) of
             (Some run_id, Some thread_id, Some status) \<Rightarrow>
               Some \<lparr>st_run_id = run_id, st_thread_id = thread_id, st_status = status,
                 st_final_output = hash_get h ''final_output'' [], st_is_complete = is_complete,
                 st_iteration_count = iterations, st_error = hash_get h ''error'' [],
                 st_started_at = hash_get h ''started_at'' [], st_finished_at = hash_get h ''finished_at'' [],
                 st_entry_id = hash_get h ''entry_id'' [], st_results_dir = hash_get h ''results_dir'' []\<rparr>
           | _ \<Rightarrow> None)"

section \<open>The store\<close>

record status_store =
  ss_hashes :: "string \<Rightarrow> redis_hash option"
  ss_cancel :: "string set"

definition request_cancel :: "bool \<Rightarrow> string \<Rightarrow> status_store \<Rightarrow> status_store" where
  "request_cancel ok run_id s = (if ok then s\<lparr>ss_cancel := insert run_id (ss_cancel s)\<rparr> else s)"

definition is_cancelled :: "bool \<Rightarrow> string \<Rightarrow> status_store \<Rightarrow> bool" where
  "is_cancelled ok run_id s = (ok \<and> run_id \<in> ss_cancel s)"

text \<open>\<open>HSET\<close> writes every field of the record and keeps other fields of an existing hash.\<close>

definition hset :: "redis_hash \<Rightarrow> redis_hash \<Rightarrow> redis_hash" where
  "hset h new = fold (\<lambda>(k, v). AList.update k v) new h"

definition status_put :: "bool \<Rightarrow> run_status \<Rightarrow> status_store \<Rightarrow> status_store" where
  "status_put ok st s =
     (if ok then
        let h = (case ss_hashes s (st_run_id st) of None \<Rightarrow> [] | Some h \<Rightarrow> h)
        in s\<lparr>ss_hashes := (ss_hashes s)(st_run_id st \<mapsto> hset h (to_hash st))\<rparr>
      else s)"

definition status_get :: "bool \<Rightarrow> string \<Rightarrow> status_store \<Rightarrow> run_status option" where
  "status_get ok run_id s =
     (if ok then (case ss_hashes s run_id of None \<Rightarrow> None | Some h \<Rightarrow> from_hash h) else None)"

datatype status_field =
    F_final_output string
  | F_is_complete bool
  | F_iteration_count int
  | F_error string
  | F_entry_id string
  | F_results_dir string

fun set_field :: "status_field \<Rightarrow> run_status \<Rightarrow> run_status" where
  "set_field (F_final_output v) s = s\<lparr>st_final_output := v\<rparr>"
| "set_field (F_is_complete v) s = s\<lparr>st_is_complete := v\<rparr>"
| "set_field (F_iteration_count v) s = s\<lparr>st_iteration_count := v\<rparr>"
| "set_field (F_error v) s = s\<lparr>st_error := v\<rparr>"
| "set_field (F_entry_id v) s = s\<lparr>st_entry_id := v\<rparr>"
| "set_field (F_results_dir v) s = s\<lparr>st_results_dir := v\<rparr>"

definition terminal_statuses :: "job_status set" where
  "terminal_statuses = {COMPLETED, FAILED, TIMEOUT, BUDGET_EXHAUSTED, CANCELLED}"

definition patch_status ::
  "string \<Rightarrow> job_status \<Rightarrow> status_field list \<Rightarrow> string \<Rightarrow> run_status \<Rightarrow> run_status" where
  "patch_status thread_id status patch now base =
     (let base = fold set_field patch (base\<lparr>st_thread_id := thread_id, st_status := status\<rparr>);
          base = (if status = RUNNING \<and> st_started_at base = [] then base\<lparr>st_started_at := now\<rparr> else base)
      in if status \<in> terminal_statuses \<and> st_finished_at base = []
         then base\<lparr>st_finished_at := now\<rparr> else base)"

definition mark ::
  "bool \<Rightarrow> bool \<Rightarrow> string \<Rightarrow> string \<Rightarrow> job_status \<Rightarrow> status_field list \<Rightarrow> string \<Rightarrow> status_store
    \<Rightarrow> run_status \<times> status_store" where
  "mark get_ok put_ok run_id thread_id status patch now s =
     (let current = status_get get_ok run_id s;
          base = (case current of None \<Rightarrow> new_run_status run_id thread_id | Some c \<Rightarrow> c);
          base = patch_status thread_id status patch now base
      in (base, status_put put_ok base s))"

section \<open>Round trip\<close>

lemma job_status_of_value: "job_status_of (job_status_value js) = Some js"
  by (cases js) (simp_all add: job_status_of_def)

lemma py_str_ne [simp]: "py_str n \<noteq> []"
  using length_py_str_nat by (auto simp: py_str_def)

lemma from_hash_to_hash: "from_hash (to_hash s) = Some s"
  by (simp add: from_hash_def to_hash_def hash_get_def Let_def job_status_of_value py_int_py_str)

text \<open>
  C36 (roundtrip): a status record survives its Redis hash.  Flattening a record to strings
  and reading it back gives the record, whatever its texts are and for every iteration
  count, negative ones included.
\<close>

theorem status_hash_roundtrip: "from_hash (to_hash s) = Some s"
  by (rule from_hash_to_hash)

lemma hset_lookup: "map_of (hset h new) k = (case map_of (rev new) k of None \<Rightarrow> map_of h k | Some v \<Rightarrow> Some v)"
  by (induction new arbitrary: h) (auto simp: hset_def map_add_def split: option.splits)

lemma update_ne: "AList.update k v h \<noteq> []"
  by (cases h) auto

lemma fold_update_ne: "h \<noteq> [] \<Longrightarrow> fold (\<lambda>(k, v). AList.update k v) new h \<noteq> []"
proof (induction new arbitrary: h)
  case (Cons p new)
  obtain k v where p: "p = (k, v)" by (cases p)
  show ?case using Cons.IH [OF update_ne] by (simp add: p)
qed simp

lemma hset_ne: "new \<noteq> [] \<Longrightarrow> hset h new \<noteq> []"
proof (cases new)
  case (Cons p rest)
  obtain k v where p: "p = (k, v)" by (cases p)
  show ?thesis using fold_update_ne [OF update_ne] by (simp add: hset_def Cons p)
qed simp

definition status_keys :: "string list" where
  "status_keys = [''run_id'', ''thread_id'', ''status'', ''final_output'', ''is_complete'', ''iteration_count'',
     ''error'', ''started_at'', ''finished_at'', ''entry_id'', ''results_dir'']"

lemma from_hash_cong:
  assumes "h \<noteq> []" "h' \<noteq> []" and eq: "\<And>k. k \<in> set status_keys \<Longrightarrow> map_of h k = map_of h' k"
  shows "from_hash h = from_hash h'"
proof -
  have get: "hash_get h k d = hash_get h' k d" if "k \<in> set status_keys" for k d
    using eq [OF that] by (simp add: hash_get_def)
  have "map_of h ''run_id'' = map_of h' ''run_id''" "map_of h ''thread_id'' = map_of h' ''thread_id''"
    by (rule eq; simp add: status_keys_def)+
  moreover have "hash_get h ''status'' d = hash_get h' ''status'' d"
    "hash_get h ''final_output'' d = hash_get h' ''final_output'' d"
    "hash_get h ''is_complete'' d = hash_get h' ''is_complete'' d"
    "hash_get h ''iteration_count'' d = hash_get h' ''iteration_count'' d"
    "hash_get h ''error'' d = hash_get h' ''error'' d"
    "hash_get h ''started_at'' d = hash_get h' ''started_at'' d"
    "hash_get h ''finished_at'' d = hash_get h' ''finished_at'' d"
    "hash_get h ''entry_id'' d = hash_get h' ''entry_id'' d"
    "hash_get h ''results_dir'' d = hash_get h' ''results_dir'' d" for d
    by (rule get; simp add: status_keys_def)+
  ultimately show ?thesis using assms(1,2) unfolding from_hash_def by (simp only: if_False)
qed

lemma to_hash_keys: "k \<in> set status_keys \<Longrightarrow> map_of (to_hash st) k \<noteq> None"
  by (auto simp: to_hash_def status_keys_def)

lemma from_hash_hset: "from_hash (hset h (to_hash st)) = Some st"
proof -
  have "map_of (hset h (to_hash st)) k = map_of (to_hash st) k" if "k \<in> set status_keys" for k
  proof -
    have "map_of (rev (to_hash st)) k = map_of (to_hash st) k" by (simp add: to_hash_def)
    with to_hash_keys [OF that, of st] show ?thesis by (auto simp: hset_lookup split: option.split)
  qed
  then have "from_hash (hset h (to_hash st)) = from_hash (to_hash st)"
    by (intro from_hash_cong) (auto simp: hset_ne to_hash_def)
  then show ?thesis by (simp add: from_hash_to_hash)
qed

lemma status_get_put [simp]:
  "status_get True r (status_put True st s) = (if r = st_run_id st then Some st else status_get True r s)"
  by (simp add: status_get_def status_put_def from_hash_hset Let_def)

lemma set_field_frame [simp]:
  "st_run_id (set_field f s) = st_run_id s" "st_thread_id (set_field f s) = st_thread_id s"
  "st_status (set_field f s) = st_status s" "st_started_at (set_field f s) = st_started_at s"
  "st_finished_at (set_field f s) = st_finished_at s"
  by (cases f; simp)+

lemma fold_set_field_frame [simp]:
  "st_run_id (fold set_field fs s) = st_run_id s"
  "st_thread_id (fold set_field fs s) = st_thread_id s"
  "st_status (fold set_field fs s) = st_status s"
  "st_started_at (fold set_field fs s) = st_started_at s"
  "st_finished_at (fold set_field fs s) = st_finished_at s"
  by (induction fs arbitrary: s) simp_all

lemma patch_status_simps [simp]:
  "st_run_id (patch_status thread_id status patch now base) = st_run_id base"
  "st_status (patch_status thread_id status patch now base) = status"
  by (simp_all add: patch_status_def Let_def)

lemma patch_status_finished [simp]:
  "st_finished_at (patch_status thread_id status patch now base) =
     (if status \<in> terminal_statuses \<and> st_finished_at base = [] then now else st_finished_at base)"
  by (simp add: patch_status_def Let_def)

lemma new_run_status_simps [simp]:
  "st_run_id (new_run_status r t) = r" "st_status (new_run_status r t) = QUEUED"
  "st_finished_at (new_run_status r t) = []" "st_error (new_run_status r t) = []"
  by (simp_all add: new_run_status_def)

lemma mark_fst:
  "fst (mark True put_ok r t status patch now s) =
     patch_status t status patch now
       (case status_get True r s of None \<Rightarrow> new_run_status r t | Some c \<Rightarrow> c)"
  by (simp add: mark_def Let_def)

text \<open>Every record of the store is filed under its own run id.\<close>

definition store_ok :: "status_store \<Rightarrow> bool" where
  "store_ok s = (\<forall>r st. status_get True r s = Some st \<longrightarrow> st_run_id st = r)"

lemma store_okD: "store_ok s \<Longrightarrow> status_get True r s = Some st \<Longrightarrow> st_run_id st = r"
  by (simp add: store_ok_def)

lemma status_put_ok_store: "store_ok s \<Longrightarrow> store_ok (status_put ok st s)"
  by (cases ok) (auto simp: store_ok_def status_put_def [of False] split: if_splits)

lemma mark_store_ok: "store_ok s \<Longrightarrow> store_ok (snd (mark g p r t status patch now s))"
  by (simp add: mark_def Let_def status_put_ok_store)

lemma mark_run_id:
  "store_ok s \<Longrightarrow> st_run_id (fst (mark g p r t status patch now s)) = r"
  by (cases g) (auto simp: mark_def Let_def status_get_def [of False] dest: store_okD split: option.splits)

lemma status_get_mark:
  assumes "store_ok s"
  shows "status_get True q (snd (mark g True r t status patch now s)) =
    (if q = r then Some (fst (mark g True r t status patch now s)) else status_get True q s)"
  using mark_run_id [OF assms, of g True r t status patch now] by (simp add: mark_def Let_def)

lemma ss_cancel_mark [simp]: "ss_cancel (snd (mark g p r t status patch now s)) = ss_cancel s"
  by (simp add: mark_def status_put_def Let_def)

lemma mark_status [simp]: "st_status (fst (mark g p r t status patch now s)) = status"
  by (simp add: mark_def Let_def)

end
