(* ===== verification/Run_Queue.thy ===== *)
theory Run_Queue
  imports Run_Status
begin

text \<open>
  The run queue of \<open>src/src/worker/queue.py\<close>: enqueueing, claiming, acknowledging, the
  delivery-attempt counter and the per-run lease.  Redis is outside the code; the state here
  is what its commands are documented to keep: the stream body with the entry ids \<open>XADD\<close>
  returned, the group's pending entries, the counters and the lease keys with their expiry.
  Which entries a read returns and whether a command is answered are arguments; an operation
  whose exception reaches the caller returns \<open>None\<close>.  Times are seconds.
\<close>

section \<open>State\<close>

record worker_settings =
  ws_status_ttl_s :: int
  ws_dead_letter_max_attempts :: int
  ws_lock_ttl_s :: int
  ws_run_timeout_s :: real

record run_queue =
  rq_body :: "(string \<times> run_job) list"
  rq_pending :: "string set"
  rq_attempts :: "string \<Rightarrow> (int \<times> real option) option"
  rq_locks :: "string \<Rightarrow> (string \<times> real) option"

section \<open>Entries\<close>

definition enqueue :: "string \<Rightarrow> run_job \<Rightarrow> run_queue \<Rightarrow> run_queue" where
  "enqueue entry_id job q = q\<lparr>rq_body := rq_body q @ [(entry_id, job)]\<rparr>"

text \<open>\<open>XREADGROUP\<close> and \<open>XAUTOCLAIM\<close> return entries of the stream and leave them pending.\<close>

definition claim_entries :: "string set \<Rightarrow> run_queue \<Rightarrow> (string \<times> run_job) list \<times> run_queue" where
  "claim_entries ids q =
     (let entries = filter (\<lambda>(i, _). i \<in> ids) (rq_body q)
      in (entries, q\<lparr>rq_pending := rq_pending q \<union> fst ` set entries\<rparr>))"

definition xack :: "string list \<Rightarrow> run_queue \<Rightarrow> int \<times> run_queue" where
  "xack ids q = (int (card (rq_pending q \<inter> set ids)), q\<lparr>rq_pending := rq_pending q - set ids\<rparr>)"

definition xdel :: "string list \<Rightarrow> run_queue \<Rightarrow> run_queue" where
  "xdel ids q = q\<lparr>rq_body := filter (\<lambda>(i, _). i \<notin> set ids) (rq_body q)\<rparr>"

definition ack :: "bool \<Rightarrow> string list \<Rightarrow> run_queue \<Rightarrow> int option \<times> run_queue" where
  "ack ok entry_ids q =
     (let ids = filter (\<lambda>i. i \<noteq> []) entry_ids in
      if ids = [] then (Some 0, q)
      else if \<not> ok then (None, q)
      else let (n, q) = xack ids q in (Some n, q))"

definition ack_and_delete :: "bool \<Rightarrow> bool \<Rightarrow> string list \<Rightarrow> run_queue \<Rightarrow> int option \<times> run_queue" where
  "ack_and_delete ack_ok del_ok entry_ids q =
     (let ids = filter (\<lambda>i. i \<noteq> []) entry_ids in
      if ids = [] then (Some 0, q)
      else if \<not> ack_ok then (None, q)
      else
        let (acked, q) = xack ids q
        in (Some acked, if acked \<noteq> 0 \<and> del_ok then xdel ids q else q))"

definition delete_entry :: "bool \<Rightarrow> bool \<Rightarrow> string \<Rightarrow> run_queue \<Rightarrow> bool \<times> run_queue" where
  "delete_entry ack_ok del_ok entry_id q =
     (if entry_id = [] then (False, q)
      else if \<not> ack_ok then (False, q)
      else
        let q = snd (xack [entry_id] q)
        in if del_ok then (True, xdel [entry_id] q) else (False, q))"

section \<open>Attempts\<close>

definition live_value :: "real \<Rightarrow> ('v \<times> real option) option \<Rightarrow> ('v \<times> real option) option" where
  "live_value now x =
     (case x of
        None \<Rightarrow> None
      | Some (v, ex) \<Rightarrow> (case ex of None \<Rightarrow> Some (v, None)
                        | Some e \<Rightarrow> if now < e then Some (v, Some e) else None))"

definition record_attempt ::
  "worker_settings \<Rightarrow> bool \<Rightarrow> bool \<Rightarrow> real \<Rightarrow> string \<Rightarrow> run_queue \<Rightarrow> int \<times> run_queue" where
  "record_attempt ws incr_ok expire_ok now run_id q =
     (if \<not> incr_ok then (0, q)
      else
        let (n, ex) = (case live_value now (rq_attempts q run_id) of None \<Rightarrow> (0, None) | Some p \<Rightarrow> p);
            q1 = q\<lparr>rq_attempts := (rq_attempts q)(run_id \<mapsto> (n + 1, ex))\<rparr>
        in if ws_status_ttl_s ws > 0
           then (if expire_ok
                 then (n + 1, q1\<lparr>rq_attempts :=
                        (rq_attempts q)(run_id \<mapsto> (n + 1, Some (now + real_of_int (ws_status_ttl_s ws))))\<rparr>)
                 else (0, q1))
           else (n + 1, q1))"

section \<open>The lease\<close>

definition lock_owner :: "real \<Rightarrow> string \<Rightarrow> run_queue \<Rightarrow> string option" where
  "lock_owner now run_id q =
     (case rq_locks q run_id of None \<Rightarrow> None | Some (t, e) \<Rightarrow> if now < e then Some t else None)"

definition norm_token :: "string option \<Rightarrow> string" where
  "norm_token value = (case value of None \<Rightarrow> [] | Some v \<Rightarrow> v)"

text \<open>The lease keys carry the stream's name, which is fixed here, and the run id.\<close>

definition try_lock ::
  "bool \<Rightarrow> real \<Rightarrow> string \<Rightarrow> string \<Rightarrow> int \<Rightarrow> run_queue \<Rightarrow> bool option \<times> run_queue" where
  "try_lock ok now run_id token ttl_s q =
     (if ttl_s \<le> 0 then (Some True, q)
      else if \<not> ok then (None, q)
      else if lock_owner now run_id q \<noteq> None then (Some False, q)
      else (Some True,
            q\<lparr>rq_locks := (rq_locks q)(run_id \<mapsto> (token, now + real_of_int ttl_s))\<rparr>))"

text \<open>\<open>quiet\<close>: no other client touches the key between \<open>WATCH\<close> and \<open>EXEC\<close>.\<close>

definition renew_lock ::
  "bool \<Rightarrow> bool \<Rightarrow> real \<Rightarrow> string \<Rightarrow> string \<Rightarrow> int \<Rightarrow> run_queue \<Rightarrow> bool option \<times> run_queue" where
  "renew_lock ok quiet now run_id token ttl_s q =
     (if ttl_s \<le> 0 then (Some True, q)
      else if \<not> ok then (None, q)
      else if norm_token (lock_owner now run_id q) \<noteq> token then (Some False, q)
      else if \<not> quiet then (Some False, q)
      else (Some True,
            q\<lparr>rq_locks := (rq_locks q)(run_id \<mapsto> (token, now + real_of_int ttl_s))\<rparr>))"

definition release_lock ::
  "bool \<Rightarrow> bool \<Rightarrow> real \<Rightarrow> string \<Rightarrow> string \<Rightarrow> run_queue \<Rightarrow> bool option \<times> run_queue" where
  "release_lock ok quiet now run_id token q =
     (if \<not> ok then (None, q)
      else if norm_token (lock_owner now run_id q) \<noteq> token then (Some False, q)
      else if \<not> quiet then (Some False, q)
      else (Some True, q\<lparr>rq_locks := (rq_locks q)(run_id := None)\<rparr>))"

section \<open>Facts about the operations\<close>

lemma xack_simps [simp]:
  "rq_body (snd (xack ids q)) = rq_body q" "rq_attempts (snd (xack ids q)) = rq_attempts q"
  "rq_locks (snd (xack ids q)) = rq_locks q" "rq_pending (snd (xack ids q)) = rq_pending q - set ids"
  by (simp_all add: xack_def)

lemma xdel_simps [simp]:
  "rq_pending (xdel ids q) = rq_pending q" "rq_attempts (xdel ids q) = rq_attempts q"
  "rq_locks (xdel ids q) = rq_locks q"
  "rq_body (xdel ids q) = filter (\<lambda>(i, _). i \<notin> set ids) (rq_body q)"
  by (simp_all add: xdel_def)

lemma ack_and_delete_frame [simp]:
  "rq_attempts (snd (ack_and_delete a d ids q)) = rq_attempts q"
  "rq_locks (snd (ack_and_delete a d ids q)) = rq_locks q"
  by (simp_all add: ack_and_delete_def Let_def split_beta)

lemma ack_and_delete_one:
  assumes "i \<noteq> []"
  shows "ack_and_delete True True [i] q =
    (if i \<in> rq_pending q
     then (Some 1, q\<lparr>rq_pending := rq_pending q - {i}, rq_body := filter (\<lambda>(j, _). j \<noteq> i) (rq_body q)\<rparr>)
     else (Some 0, q\<lparr>rq_pending := rq_pending q - {i}\<rparr>))"
  using assms by (auto simp: ack_and_delete_def xack_def xdel_def Let_def)

lemma ack_and_delete_pos:
  assumes "fst (ack_and_delete a d [i] q) = Some n" "n > 0"
  shows "i \<notin> rq_pending (snd (ack_and_delete a d [i] q))"
  using assms by (auto simp: ack_and_delete_def Let_def split_beta xdel_def xack_def split: if_splits)

lemma release_lock_frame [simp]:
  "rq_body (snd (release_lock ok quiet now r t q)) = rq_body q"
  "rq_pending (snd (release_lock ok quiet now r t q)) = rq_pending q"
  "rq_attempts (snd (release_lock ok quiet now r t q)) = rq_attempts q"
  by (simp_all add: release_lock_def)

lemma try_lock_frame [simp]:
  "rq_body (snd (try_lock ok now r t ttl q)) = rq_body q"
  "rq_pending (snd (try_lock ok now r t ttl q)) = rq_pending q"
  "rq_attempts (snd (try_lock ok now r t ttl q)) = rq_attempts q"
  by (simp_all add: try_lock_def)

lemma record_attempt_frame [simp]:
  "rq_body (snd (record_attempt ws i e now r q)) = rq_body q"
  "rq_pending (snd (record_attempt ws i e now r q)) = rq_pending q"
  "rq_locks (snd (record_attempt ws i e now r q)) = rq_locks q"
  by (simp_all add: record_attempt_def Let_def split_beta split: option.split)

lemma renew_lock_frame [simp]:
  "rq_body (snd (renew_lock ok quiet now r t ttl q)) = rq_body q"
  "rq_pending (snd (renew_lock ok quiet now r t ttl q)) = rq_pending q"
  "rq_attempts (snd (renew_lock ok quiet now r t ttl q)) = rq_attempts q"
  by (simp_all add: renew_lock_def)

end
