(* ===== verification/Run_Worker.thy ===== *)
theory Run_Worker
  imports Run_Queue
begin

text \<open>
  The consumer of \<open>src/src/worker/runner.py\<close> and the run routes of
  \<open>src/src/api/routes/agent.py\<close> over the queue and the status store.  \<open>_process\<close> is cut where
  the event loop may run something else: the claim (lease, terminal guard, RUNNING mark), each
  progress report, the watchdog and the settlement of the executor's outcome.  An \<open>env\<close> gives
  each piece its clock reading, its time stamp, which Redis commands are answered, and the text
  of the Redis exception.  The executor is outside: its outcome is an argument.
\<close>

section \<open>The world of one fleet\<close>

datatype redis_call =
    Call_lock | Call_prior | Call_mark_get | Call_mark_put | Call_flag | Call_ack | Call_del
  | Call_incr | Call_expire | Call_renew | Call_release | Call_xadd | Call_group

record env =
  ev_now :: real
  ev_stamp :: string
  ev_up :: "redis_call \<Rightarrow> bool"
  ev_quiet :: bool
  ev_error :: string

record world =
  wd_queue :: run_queue
  wd_status :: status_store

record run_result =
  rr_final_output :: string
  rr_is_complete :: bool
  rr_iteration_count :: "int option"

text \<open>
  How the executor task ends; \<open>Exec_cancelled\<close> is the task found cancelled.  The messages are
  \<open>str(exc)\<close>.
\<close>

datatype exec_outcome =
    Returned run_result
  | Raised_cancelled string
  | Raised_budget string
  | Raised_other string
  | Exec_cancelled

definition thread_id_for :: "string \<Rightarrow> string" where
  "thread_id_for run_id = ''api-'' @ run_id"

definition resolve_timeout :: "worker_settings \<Rightarrow> run_job \<Rightarrow> real" where
  "resolve_timeout ws job =
     (let timeout = (case job_run_timeout_s job of Some t \<Rightarrow> t | None \<Rightarrow> ws_run_timeout_s ws)
      in if timeout > 0 then timeout else 0)"

definition mark_run ::
  "env \<Rightarrow> string \<Rightarrow> job_status \<Rightarrow> status_field list \<Rightarrow> world \<Rightarrow> world" where
  "mark_run ev run_id status patch w =
     w\<lparr>wd_status := snd (mark (ev_up ev Call_mark_get) (ev_up ev Call_mark_put) run_id
         (thread_id_for run_id) status patch (ev_stamp ev) (wd_status w))\<rparr>"

definition ack_run :: "env \<Rightarrow> string \<Rightarrow> world \<Rightarrow> int option \<times> world" where
  "ack_run ev entry_id w =
     (let (n, q) = ack_and_delete (ev_up ev Call_ack) (ev_up ev Call_del) [entry_id] (wd_queue w)
      in (n, w\<lparr>wd_queue := q\<rparr>))"

definition release_run :: "env \<Rightarrow> string \<Rightarrow> string \<Rightarrow> world \<Rightarrow> world" where
  "release_run ev run_id token w =
     w\<lparr>wd_queue :=
         snd (release_lock (ev_up ev Call_release) (ev_quiet ev) (ev_now ev) run_id token (wd_queue w))\<rparr>"

section \<open>Claiming\<close>

datatype claim =
    Claim_raised
  | Skipped
  | Duplicate bool
  | Started

definition guard_statuses :: "job_status set" where
  "guard_statuses = {COMPLETED, CANCELLED, BUDGET_EXHAUSTED, TIMEOUT}"

definition process_claim ::
  "worker_settings \<Rightarrow> env \<Rightarrow> string \<Rightarrow> string \<Rightarrow> run_job \<Rightarrow> string \<Rightarrow> world \<Rightarrow> claim \<times> world" where
  "process_claim ws ev token entry_id job results_dir w =
     (let run_id = job_run_id job in
      case try_lock (ev_up ev Call_lock) (ev_now ev) run_id token (ws_lock_ttl_s ws) (wd_queue w) of
        (None, q) \<Rightarrow> (Claim_raised, w)
      | (Some False, q) \<Rightarrow> (Skipped, w\<lparr>wd_queue := q\<rparr>)
      | (Some True, q) \<Rightarrow>
          (let w = w\<lparr>wd_queue := q\<rparr>;
               prior = (if ws_lock_ttl_s ws > 0
                        then status_get (ev_up ev Call_prior) run_id (wd_status w) else None)
           in if (case prior of None \<Rightarrow> False | Some st \<Rightarrow> st_status st \<in> guard_statuses)
              then (case ack_run ev entry_id w of
                      (None, w) \<Rightarrow> (Claim_raised, release_run ev run_id token w)
                    | (Some n, w) \<Rightarrow> (Duplicate (n > 0), release_run ev run_id token w))
              else (Started, mark_run ev run_id RUNNING [F_results_dir results_dir] w)))"

section \<open>While it runs\<close>

definition report_progress :: "env \<Rightarrow> string \<Rightarrow> int \<Rightarrow> world \<Rightarrow> bool \<times> world" where
  "report_progress ev run_id iteration w =
     (let w = mark_run ev run_id RUNNING [F_iteration_count iteration] w
      in (is_cancelled (ev_up ev Call_flag) run_id (wd_status w), w))"

definition cancel_message :: "string \<Rightarrow> string" where
  "cancel_message run_id = ''cancelled via POST /runs/'' @ run_id @ ''/cancel''"

definition renewal_interval :: "worker_settings \<Rightarrow> real" where
  "renewal_interval ws = max 1 (real_of_int (ws_lock_ttl_s ws) / 3)"

text \<open>
  The renewal loop, one answer per tick; it stops when the lease is lost and keeps looping on an
  error.  The result is whether it still loops.
\<close>

fun renew_lease ::
  "worker_settings \<Rightarrow> string \<Rightarrow> string \<Rightarrow> env list \<Rightarrow> run_queue \<Rightarrow> bool \<times> run_queue" where
  "renew_lease ws run_id token [] q = (True, q)"
| "renew_lease ws run_id token (ev # evs) q =
     (case renew_lock (ev_up ev Call_renew) (ev_quiet ev) (ev_now ev) run_id token (ws_lock_ttl_s ws) q of
        (Some False, q) \<Rightarrow> (False, q)
      | (_, q) \<Rightarrow> renew_lease ws run_id token evs q)"

text \<open>The watchdog at the deadline; \<open>exec_done\<close> is the race guard, \<open>timeout_text\<close> the bound as text.\<close>

definition watchdog ::
  "env \<Rightarrow> string \<Rightarrow> string \<Rightarrow> string \<Rightarrow> string \<Rightarrow> bool \<Rightarrow> world \<Rightarrow> bool \<times> world" where
  "watchdog ev run_id entry_id token timeout_text exec_done w =
     (if exec_done then (False, w)
      else
        let w = mark_run ev run_id TIMEOUT [F_error (''Run timeout after '' @ timeout_text @ ''s'')] w;
            w = snd (ack_run ev entry_id w)
        in (True, release_run ev run_id token w))"

section \<open>Settling\<close>

text \<open>\<open>None\<close>: the exception leaves \<open>_process\<close>.  The first \<open>env\<close> serves the handler.\<close>

definition dead_letter ::
  "worker_settings \<Rightarrow> env \<Rightarrow> string \<Rightarrow> string \<Rightarrow> string \<Rightarrow> world \<Rightarrow> bool option \<times> world" where
  "dead_letter ws ev run_id entry_id msg w =
     (let (attempts, q) = record_attempt ws (ev_up ev Call_incr) (ev_up ev Call_expire) (ev_now ev)
                            run_id (wd_queue w);
          w = w\<lparr>wd_queue := q\<rparr>
      in if attempts \<ge> ws_dead_letter_max_attempts ws
         then (let w = mark_run ev run_id FAILED
                         [F_error (msg @ '' (dead-lettered after '' @ py_str attempts @ '' attempts)'')] w
               in case ack_run ev entry_id w of
                    (None, w) \<Rightarrow> (None, w)
                  | (Some n, w) \<Rightarrow> (Some (n > 0), w))
         else (Some False, mark_run ev run_id FAILED [F_error msg] w))"

text \<open>
  A failing acknowledgement inside the handlers of a cancelled or exhausted run is itself caught
  by the dead-letter handler; the one after COMPLETED is outside it.
\<close>

definition settle_terminal ::
  "worker_settings \<Rightarrow> env \<Rightarrow> env \<Rightarrow> string \<Rightarrow> string \<Rightarrow> job_status \<Rightarrow> string \<Rightarrow> world
    \<Rightarrow> bool option \<times> world" where
  "settle_terminal ws ev ev' run_id entry_id status msg w =
     (case ack_run ev entry_id (mark_run ev run_id status [F_error msg] w) of
        (None, w) \<Rightarrow> dead_letter ws ev' run_id entry_id (ev_error ev) w
      | (Some n, w) \<Rightarrow> (Some (n > 0), w))"

fun settle_outcome ::
  "worker_settings \<Rightarrow> env \<Rightarrow> env \<Rightarrow> string \<Rightarrow> string \<Rightarrow> exec_outcome \<Rightarrow> world \<Rightarrow> bool option \<times> world" where
  "settle_outcome ws ev ev' run_id entry_id (Returned r) w =
     (case ack_run ev entry_id
             (mark_run ev run_id COMPLETED
               [F_final_output (rr_final_output r), F_is_complete (rr_is_complete r),
                F_iteration_count (case rr_iteration_count r of None \<Rightarrow> 0 | Some n \<Rightarrow> n)] w) of
        (None, w) \<Rightarrow> (None, w)
      | (Some n, w) \<Rightarrow> (Some (n > 0), w))"
| "settle_outcome ws ev ev' run_id entry_id (Raised_cancelled msg) w =
     settle_terminal ws ev ev' run_id entry_id CANCELLED msg w"
| "settle_outcome ws ev ev' run_id entry_id (Raised_budget msg) w =
     settle_terminal ws ev ev' run_id entry_id BUDGET_EXHAUSTED msg w"
| "settle_outcome ws ev ev' run_id entry_id (Raised_other msg) w =
     dead_letter ws ev' run_id entry_id msg w"
| "settle_outcome ws ev ev' run_id entry_id Exec_cancelled w = (None, w)"

text \<open>The outcome followed by the \<open>finally\<close> clause.\<close>

definition process_settle ::
  "worker_settings \<Rightarrow> env \<Rightarrow> env \<Rightarrow> string \<Rightarrow> string \<Rightarrow> run_job \<Rightarrow> exec_outcome \<Rightarrow> world
    \<Rightarrow> bool option \<times> world" where
  "process_settle ws ev ev' token entry_id job out w =
     (let (res, w) = settle_outcome ws ev ev' (job_run_id job) entry_id out w
      in (res, release_run ev' (job_run_id job) token w))"

section \<open>One delivery\<close>

text \<open>
  The executor reports progress and lets \<open>RunCancelled\<close> through, as \<open>execute_run\<close> does; then it
  ends by itself, or the deadline finds it running.
\<close>

fun run_reports :: "(env \<times> int) list \<Rightarrow> string \<Rightarrow> world \<Rightarrow> bool \<times> world" where
  "run_reports [] run_id w = (False, w)"
| "run_reports ((ev, n) # rest) run_id w =
     (case report_progress ev run_id n w of
        (True, w) \<Rightarrow> (True, w)
      | (False, w) \<Rightarrow> run_reports rest run_id w)"

record delivery =
  dv_token :: string
  dv_results_dir :: string
  dv_claim :: env
  dv_reports :: "(env \<times> int) list"
  dv_deadline :: bool
  dv_timeout_text :: string
  dv_outcome :: exec_outcome
  dv_settle :: env
  dv_handler :: env

definition process ::
  "worker_settings \<Rightarrow> string \<Rightarrow> run_job \<Rightarrow> delivery \<Rightarrow> world \<Rightarrow> bool option \<times> world" where
  "process ws entry_id job d w =
     (case process_claim ws (dv_claim d) (dv_token d) entry_id job (dv_results_dir d) w of
        (Claim_raised, w) \<Rightarrow> (None, w)
      | (Skipped, w) \<Rightarrow> (Some False, w)
      | (Duplicate acked, w) \<Rightarrow> (Some acked, w)
      | (Started, w) \<Rightarrow>
          (case run_reports (dv_reports d) (job_run_id job) w of
             (True, w) \<Rightarrow>
               process_settle ws (dv_settle d) (dv_handler d) (dv_token d) entry_id job
                 (Raised_cancelled (cancel_message (job_run_id job))) w
           | (False, w) \<Rightarrow>
               if dv_deadline d \<and> resolve_timeout ws job > 0
               then (let w = snd (watchdog (dv_settle d) (job_run_id job) entry_id (dv_token d)
                               (dv_timeout_text d) False w)
                     in (Some True, release_run (dv_handler d) (job_run_id job) (dv_token d) w))
               else process_settle ws (dv_settle d) (dv_handler d) (dv_token d) entry_id job
                      (dv_outcome d) w))"

text \<open>One drain pass: the reclaimed entries, then the new ones; an exception ends the pass.\<close>

fun process_all ::
  "worker_settings \<Rightarrow> (string \<times> run_job \<times> delivery) list \<Rightarrow> world \<Rightarrow> nat option \<times> world" where
  "process_all ws [] w = (Some 0, w)"
| "process_all ws ((entry_id, job, d) # rest) w =
     (case process ws entry_id job d w of
        (None, w) \<Rightarrow> (None, w)
      | (Some acked, w) \<Rightarrow>
          (case process_all ws rest w of
             (None, w) \<Rightarrow> (None, w)
           | (Some n, w) \<Rightarrow> (Some (if acked then Suc n else n), w)))"

definition run_once ::
  "worker_settings \<Rightarrow> string set \<Rightarrow> string set \<Rightarrow> (string \<Rightarrow> delivery) \<Rightarrow> world \<Rightarrow> nat option \<times> world" where
  "run_once ws stale new d w =
     (let (entries, q) = claim_entries (stale \<inter> rq_pending (wd_queue w)) (wd_queue w)
      in case process_all ws (map (\<lambda>(i, job). (i, job, d i)) entries) (w\<lparr>wd_queue := q\<rparr>) of
           (None, w) \<Rightarrow> (None, w)
         | (Some m, w) \<Rightarrow>
             (let (entries, q) = claim_entries (new - rq_pending (wd_queue w)) (wd_queue w)
              in case process_all ws (map (\<lambda>(i, job). (i, job, d i)) entries) (w\<lparr>wd_queue := q\<rparr>) of
                   (None, w) \<Rightarrow> (None, w)
                 | (Some n, w) \<Rightarrow> (Some (m + n), w)))"

section \<open>The routes\<close>

datatype response =
    Accepted string
  | Conflict job_status
  | Unavailable
  | Unknown_run
  | Found run_status
  | Cancel_requested

text \<open>
  \<open>enqueue_run\<close> in its two halves: the worker may run between the stream append and the mark.
\<close>

definition enqueue_entry :: "env \<Rightarrow> run_job \<Rightarrow> string \<Rightarrow> world \<Rightarrow> response option \<times> world" where
  "enqueue_entry ev job entry_id w =
     (case status_get (ev_up ev Call_prior) (job_run_id job) (wd_status w) of
        Some st \<Rightarrow>
          (if st_status st \<in> {QUEUED, RUNNING} then (Some (Conflict (st_status st)), w)
           else if \<not> ev_up ev Call_group \<or> \<not> ev_up ev Call_xadd then (Some Unavailable, w)
           else (None, w\<lparr>wd_queue := enqueue entry_id job (wd_queue w)\<rparr>))
      | None \<Rightarrow>
          (if \<not> ev_up ev Call_group \<or> \<not> ev_up ev Call_xadd then (Some Unavailable, w)
           else (None, w\<lparr>wd_queue := enqueue entry_id job (wd_queue w)\<rparr>)))"

definition enqueue_mark :: "env \<Rightarrow> run_job \<Rightarrow> string \<Rightarrow> world \<Rightarrow> response \<times> world" where
  "enqueue_mark ev job entry_id w =
     (Accepted (job_run_id job), mark_run ev (job_run_id job) QUEUED [F_entry_id entry_id] w)"

definition enqueue_run :: "env \<Rightarrow> run_job \<Rightarrow> string \<Rightarrow> world \<Rightarrow> response \<times> world" where
  "enqueue_run ev job entry_id w =
     (case enqueue_entry ev job entry_id w of
        (Some r, w) \<Rightarrow> (r, w)
      | (None, w) \<Rightarrow> enqueue_mark ev job entry_id w)"

definition get_run_status :: "env \<Rightarrow> string \<Rightarrow> world \<Rightarrow> response" where
  "get_run_status ev run_id w =
     (case status_get (ev_up ev Call_prior) run_id (wd_status w) of
        None \<Rightarrow> Unknown_run | Some st \<Rightarrow> Found st)"

definition cancel_run :: "env \<Rightarrow> string \<Rightarrow> world \<Rightarrow> response \<times> world" where
  "cancel_run ev run_id w =
     (case status_get (ev_up ev Call_prior) run_id (wd_status w) of
        None \<Rightarrow> (Unknown_run, w)
      | Some st \<Rightarrow>
          (let w = w\<lparr>wd_status := request_cancel (ev_up ev Call_flag) run_id (wd_status w)\<rparr>;
               w = (if st_entry_id st \<noteq> []
                    then w\<lparr>wd_queue := snd (delete_entry (ev_up ev Call_ack) (ev_up ev Call_del)
                                            (st_entry_id st) (wd_queue w))\<rparr>
                    else w)
           in (Cancel_requested, w)))"

end
