(* ===== verification/Run_Lifecycle.thy ===== *)
theory Run_Lifecycle
  imports Run_Worker
begin

text \<open>
  Theorems about the life of a run: what an acknowledged delivery leaves behind, the bound on
  the deliveries of a failing job, and the places where status, stream and cancel flag part.
\<close>

section \<open>Frames\<close>

lemma world_eqI: "wd_queue w = wd_queue v \<Longrightarrow> wd_status w = wd_status v \<Longrightarrow> w = (v :: world)"
  by simp

lemma mark_run_queue [simp]: "wd_queue (mark_run ev r s p w) = wd_queue w"
  by (simp add: mark_run_def)

lemma ack_run_status [simp]: "wd_status (snd (ack_run ev i w)) = wd_status w"
  by (simp add: ack_run_def split_beta Let_def)

lemma release_run_status [simp]: "wd_status (release_run ev r t w) = wd_status w"
  by (simp add: release_run_def)

lemma release_run_queue [simp]:
  "rq_body (wd_queue (release_run ev r t w)) = rq_body (wd_queue w)"
  "rq_pending (wd_queue (release_run ev r t w)) = rq_pending (wd_queue w)"
  "rq_attempts (wd_queue (release_run ev r t w)) = rq_attempts (wd_queue w)"
  by (simp_all add: release_run_def)

definition status_of :: "world \<Rightarrow> string \<Rightarrow> job_status option" where
  "status_of w r = map_option st_status (status_get True r (wd_status w))"

definition pending :: "world \<Rightarrow> string \<Rightarrow> bool" where
  "pending w i = (i \<in> rq_pending (wd_queue w))"

definition world_ok :: "world \<Rightarrow> bool" where
  "world_ok w = store_ok (wd_status w)"

lemma world_ok_mark_run [simp]: "world_ok w \<Longrightarrow> world_ok (mark_run ev r s p w)"
  by (simp add: world_ok_def mark_run_def mark_store_ok)

lemma world_ok_ack_run [simp]: "world_ok (snd (ack_run ev i w)) = world_ok w"
  by (simp add: world_ok_def)

lemma world_ok_release_run [simp]: "world_ok (release_run ev r t w) = world_ok w"
  by (simp add: world_ok_def)

lemma world_ok_queue [simp]: "world_ok (w\<lparr>wd_queue := q\<rparr>) = world_ok w"
  by (simp add: world_ok_def)

lemma status_of_mark_run [simp]:
  assumes "world_ok w" "ev_up ev Call_mark_put"
  shows "status_of (mark_run ev r s p w) q = (if q = r then Some s else status_of w q)"
  using assms by (simp add: status_of_def mark_run_def world_ok_def status_get_mark)

lemma status_of_ack_run [simp]: "status_of (snd (ack_run ev i w)) q = status_of w q"
  by (simp add: status_of_def)

lemma status_of_release_run [simp]: "status_of (release_run ev r t w) q = status_of w q"
  by (simp add: status_of_def)

lemma status_of_queue [simp]: "status_of (w\<lparr>wd_queue := q\<rparr>) r = status_of w r"
  by (simp add: status_of_def)

lemma pending_mark_run [simp]: "pending (mark_run ev r s p w) i = pending w i"
  by (simp add: pending_def)

lemma pending_release_run [simp]: "pending (release_run ev r t w) i = pending w i"
  by (simp add: pending_def)

lemma ack_run_pending:
  assumes "fst (ack_run ev i w) = Some n" "n > 0"
  shows "\<not> pending (snd (ack_run ev i w)) i"
proof -
  have "fst (ack_and_delete (ev_up ev Call_ack) (ev_up ev Call_del) [i] (wd_queue w)) = Some n"
    using assms(1) by (simp add: ack_run_def split_beta Let_def)
  from ack_and_delete_pos [OF this assms(2)] show ?thesis
    by (simp add: pending_def ack_run_def split_beta Let_def)
qed

section \<open>Acknowledged runs are terminal\<close>

definition terminal_acked :: "world \<Rightarrow> string \<Rightarrow> string \<Rightarrow> bool" where
  "terminal_acked w r i = ((\<exists>s \<in> terminal_statuses. status_of w r = Some s) \<and> \<not> pending w i)"

lemma terminal_acked_release [simp]: "terminal_acked (release_run ev r' t w) r i = terminal_acked w r i"
  by (simp add: terminal_acked_def)

lemma ack_terminal:
  assumes "world_ok w" "status_of w r = Some s" "s \<in> terminal_statuses"
    "ack_run ev i w = (Some n, w')" "n > 0"
  shows "terminal_acked w' r i"
  using assms ack_run_pending [of ev i w n] status_of_ack_run [of ev i w r]
  by (auto simp: terminal_acked_def)

lemma mark_ack_terminal:
  assumes "world_ok w" "ev_up ev Call_mark_put" "s \<in> terminal_statuses"
    "ack_run ev i (mark_run ev r s p w) = (Some n, w')" "n > 0"
  shows "terminal_acked w' r i"
  using assms by (intro ack_terminal [of "mark_run ev r s p w" r s ev i n]) auto

lemma mark_ack_terminalE:
  "ack_run ev i (mark_run ev r s p w) = (Some n, w') \<Longrightarrow> n > 0 \<Longrightarrow> world_ok w \<Longrightarrow>
     ev_up ev Call_mark_put \<Longrightarrow> s \<in> terminal_statuses \<Longrightarrow> terminal_acked w' r i"
  by (rule mark_ack_terminal)

lemma dead_letter_terminal:
  assumes "world_ok w" "ev_up ev Call_mark_put" "dead_letter ws ev r i msg w = (Some True, w')"
  shows "terminal_acked w' r i"
  using assms
  by (auto simp: dead_letter_def Let_def split: prod.splits option.splits if_splits
      elim!: mark_ack_terminalE) (simp_all add: terminal_statuses_def)

lemma settle_terminal_terminal:
  assumes "world_ok w" "ev_up ev Call_mark_put" "ev_up ev' Call_mark_put" "s \<in> terminal_statuses"
    "settle_terminal ws ev ev' r i s msg w = (Some True, w')"
  shows "terminal_acked w' r i"
proof -
  obtain n v where a: "ack_run ev i (mark_run ev r s [F_error msg] w) = (n, v)" by fastforce
  have v: "world_ok v" using assms(1) world_ok_ack_run [of ev i "mark_run ev r s [F_error msg] w"] a by simp
  show ?thesis
  proof (cases n)
    case None
    with assms(5) a v dead_letter_terminal [OF v assms(3)] show ?thesis by (simp add: settle_terminal_def)
  next
    case (Some m)
    with assms a mark_ack_terminal [OF assms(1,2,4), of i r "[F_error msg]" m] show ?thesis
      by (auto simp: settle_terminal_def)
  qed
qed

lemma settle_outcome_terminal:
  assumes "world_ok w" "ev_up ev Call_mark_put" "ev_up ev' Call_mark_put"
    "settle_outcome ws ev ev' r i out w = (Some True, w')"
  shows "terminal_acked w' r i"
proof (cases out)
  case (Returned x)
  with assms show ?thesis
    by (auto split: prod.splits option.splits elim!: mark_ack_terminalE)
       (simp_all add: terminal_statuses_def)
next
  case (Raised_cancelled x)
  with assms settle_terminal_terminal [OF assms(1-3), of CANCELLED] show ?thesis
    by (simp add: terminal_statuses_def)
next
  case (Raised_budget x)
  with assms settle_terminal_terminal [OF assms(1-3), of BUDGET_EXHAUSTED] show ?thesis
    by (simp add: terminal_statuses_def)
next
  case (Raised_other x)
  with assms dead_letter_terminal [OF assms(1,3)] show ?thesis by simp
next
  case Exec_cancelled
  with assms show ?thesis by simp
qed

lemma run_reports_ok: "world_ok w \<Longrightarrow> world_ok (snd (run_reports rs r w))"
  by (induction rs r w rule: run_reports.induct)
     (auto simp: report_progress_def Let_def split: prod.splits bool.splits)

lemma ack_run_okD: "ack_run ev i w = (n, u) \<Longrightarrow> world_ok u = world_ok w"
  using world_ok_ack_run [of ev i w] by simp

lemma process_claim_ok:
  assumes "world_ok w" "process_claim ws ev token i job dir w = (c, w')"
  shows "world_ok w'"
  using assms
  by (auto simp: process_claim_def Let_def world_ok_def [symmetric] dest: ack_run_okD
      split: prod.splits option.splits bool.splits if_splits)

lemma guard_terminal: "s \<in> guard_statuses \<Longrightarrow> s \<in> terminal_statuses"
  by (auto simp: guard_statuses_def terminal_statuses_def)

lemma process_claim_duplicate:
  assumes "world_ok w" "process_claim ws ev token i job dir w = (Duplicate True, w')"
  shows "terminal_acked w' (job_run_id job) i"
proof -
  let ?r = "job_run_id job"
  obtain st q n u where prior: "status_get (ev_up ev Call_prior) ?r (wd_status w) = Some st"
    and guard: "st_status st \<in> guard_statuses"
    and ack: "ack_run ev i (w\<lparr>wd_queue := q\<rparr>) = (Some n, u)" and n: "n > 0"
    and w': "w' = release_run ev ?r token u"
    using assms(2)
    by (auto simp: process_claim_def Let_def split: prod.splits option.splits bool.splits if_splits)
  have "status_of (w\<lparr>wd_queue := q\<rparr>) ?r = Some (st_status st)"
    using prior by (cases "ev_up ev Call_prior") (simp_all add: status_of_def status_get_def [of False])
  then have "terminal_acked u ?r i"
    using assms(1) guard_terminal [OF guard] n by (intro ack_terminal [OF _ _ _ ack]) auto
  with w' show ?thesis by simp
qed


section \<open>A failing job is delivered a bounded number of times\<close>

text \<open>
  A delivery whose executor raises: every Redis command is answered, the lease is still held at
  the end, and the run's counter has not expired (all happens before \<open>t1\<close>).
\<close>

definition failing_delivery :: "worker_settings \<Rightarrow> real \<Rightarrow> delivery \<Rightarrow> bool" where
  "failing_delivery ws t1 d =
     ((\<exists>msg. dv_outcome d = Raised_other msg) \<and> \<not> dv_deadline d \<and> dv_token d \<noteq> [] \<and>
      (\<forall>c. ev_up (dv_claim d) c) \<and> (\<forall>c. ev_up (dv_handler d) c) \<and> ev_quiet (dv_handler d) \<and>
      (\<forall>(ev, n) \<in> set (dv_reports d). \<forall>c. ev_up ev c) \<and>
      ev_now (dv_handler d) < ev_now (dv_claim d) + real_of_int (ws_lock_ttl_s ws) \<and>
      ev_now (dv_handler d) < t1 \<and> t1 \<le> ev_now (dv_handler d) + real_of_int (ws_status_ttl_s ws))"

definition counter_at :: "run_queue \<Rightarrow> string \<Rightarrow> int \<Rightarrow> real \<Rightarrow> bool" where
  "counter_at q r k t1 =
     (case rq_attempts q r of
         None \<Rightarrow> k = 0
       | Some (n, ex) \<Rightarrow> n = k \<and> (case ex of None \<Rightarrow> True | Some e \<Rightarrow> t1 \<le> e))"

text \<open>The state of such a run after \<open>k\<close> failed deliveries.\<close>

definition failed_times :: "world \<Rightarrow> string \<Rightarrow> int \<Rightarrow> real \<Rightarrow> bool" where
  "failed_times w r k t1 =
     (world_ok w \<and> rq_locks (wd_queue w) r = None \<and> r \<notin> ss_cancel (wd_status w) \<and>
      (\<forall>s. status_of w r = Some s \<longrightarrow> s \<notin> guard_statuses) \<and>
      counter_at (wd_queue w) r k t1)"

fun deliveries ::
  "worker_settings \<Rightarrow> string \<Rightarrow> run_job \<Rightarrow> delivery list \<Rightarrow> world \<Rightarrow> bool option list \<times> world" where
  "deliveries ws i job [] w = ([], w)"
| "deliveries ws i job (d # ds) w =
     (let (res, w) = process ws i job d w; (rest, w) = deliveries ws i job ds w in (res # rest, w))"

lemma ss_cancel_mark_run [simp]: "ss_cancel (wd_status (mark_run ev r s p w)) = ss_cancel (wd_status w)"
  by (simp add: mark_run_def)

lemma run_reports_frame:
  assumes "\<forall>(ev, n) \<in> set rs. \<forall>c. ev_up ev c" "r \<notin> ss_cancel (wd_status w)" "world_ok w"
    "status_of w r = Some RUNNING"
  shows "\<exists>w'. run_reports rs r w = (False, w') \<and> wd_queue w' = wd_queue w \<and> world_ok w' \<and>
    ss_cancel (wd_status w') = ss_cancel (wd_status w) \<and> status_of w' r = Some RUNNING"
  using assms
proof (induction rs arbitrary: w)
  case (Cons x rs)
  obtain ev n where x: "x = (ev, n)" by fastforce
  let ?w = "mark_run ev r RUNNING [F_iteration_count n] w"
  have up: "ev_up ev c" for c using Cons.prems(1) x by auto
  have "report_progress ev r n w = (False, ?w)"
    using Cons.prems(2) by (simp add: report_progress_def Let_def is_cancelled_def)
  moreover have "\<exists>w'. run_reports rs r ?w = (False, w') \<and> wd_queue w' = wd_queue ?w \<and> world_ok w' \<and>
      ss_cancel (wd_status w') = ss_cancel (wd_status ?w) \<and> status_of w' r = Some RUNNING"
    by (rule Cons.IH) (use Cons.prems up in auto)
  ultimately show ?case by (auto simp: x)
qed auto

lemma claim_failing:
  assumes "failing_delivery ws t1 d" "failed_times w r k t1" "job_run_id job = r"
  shows "process_claim ws (dv_claim d) (dv_token d) i job dir w =
    (Started, mark_run (dv_claim d) r RUNNING [F_results_dir dir]
       (w\<lparr>wd_queue := snd (try_lock True (ev_now (dv_claim d)) r (dv_token d) (ws_lock_ttl_s ws) (wd_queue w))\<rparr>))"
proof -
  have up: "ev_up (dv_claim d) c" for c using assms(1) by (simp add: failing_delivery_def)
  have free: "lock_owner (ev_now (dv_claim d)) r (wd_queue w) = None"
    using assms(2) by (simp add: failed_times_def lock_owner_def)
  have "\<not> (case status_get True r (wd_status w) of None \<Rightarrow> False | Some st \<Rightarrow> st_status st \<in> guard_statuses)"
    using assms(2) by (auto simp: failed_times_def status_of_def split: option.splits)
  with up free assms(3) show ?thesis
    by (auto simp: process_claim_def Let_def try_lock_def split: option.splits)
qed

lemma attempt_failing:
  assumes "counter_at q r k t1" "now < t1" "t1 \<le> now + real_of_int (ws_status_ttl_s ws)"
  shows "record_attempt ws True True now r q =
    (k + 1, q\<lparr>rq_attempts := (rq_attempts q)
       (r \<mapsto> (k + 1, Some (now + real_of_int (ws_status_ttl_s ws))))\<rparr>)"
proof -
  have "ws_status_ttl_s ws > 0" using assms(2,3) by linarith
  with assms show ?thesis
    by (auto simp: counter_at_def record_attempt_def live_value_def Let_def split: option.splits)
qed

definition leased :: "worker_settings \<Rightarrow> delivery \<Rightarrow> string \<Rightarrow> run_queue \<Rightarrow> run_queue" where
  "leased ws d r q = q\<lparr>rq_locks := rq_locks
     (snd (try_lock True (ev_now (dv_claim d)) r (dv_token d) (ws_lock_ttl_s ws) q))\<rparr>"

lemma lease_released:
  assumes "failing_delivery ws t1 d" "rq_locks q r = None" "rq_locks q' r = rq_locks (leased ws d r q) r"
  shows "rq_locks (snd (release_lock True True (ev_now (dv_handler d)) r (dv_token d) q')) r = None"
  using assms
  by (auto simp: failing_delivery_def release_lock_def try_lock_def lock_owner_def norm_token_def leased_def)

lemma snd_try_lock: "snd (try_lock True (ev_now (dv_claim d)) r (dv_token d) (ws_lock_ttl_s ws) q) = leased ws d r q"
  by (simp add: leased_def try_lock_def)

lemma leased_simps [simp]:
  "rq_body (leased ws d r q) = rq_body q" "rq_pending (leased ws d r q) = rq_pending q"
  "rq_attempts (leased ws d r q) = rq_attempts q"
  by (simp_all add: leased_def)

lemma process_failing:
  assumes d: "failing_delivery ws t1 d" and w: "failed_times w r k t1" and r: "job_run_id job = r"
  obtains w2 msg where "wd_queue w2 = leased ws d r (wd_queue w)" "world_ok w2"
    "ss_cancel (wd_status w2) = ss_cancel (wd_status w)"
    "process ws i job d w =
      (let (res, w3) = dead_letter ws (dv_handler d) r i msg w2
       in (res, release_run (dv_handler d) r (dv_token d) w3))"
proof -
  have up: "ev_up (dv_claim d) c" for c using d by (simp add: failing_delivery_def)
  obtain msg where msg: "dv_outcome d = Raised_other msg" "\<not> dv_deadline d"
    using d by (auto simp: failing_delivery_def)
  have ok: "world_ok w" and nc: "r \<notin> ss_cancel (wd_status w)" using w by (auto simp: failed_times_def)
  let ?w1 = "mark_run (dv_claim d) r RUNNING [F_results_dir (dv_results_dir d)]
     (w\<lparr>wd_queue := leased ws d r (wd_queue w)\<rparr>)"
  have claim: "process_claim ws (dv_claim d) (dv_token d) i job (dv_results_dir d) w = (Started, ?w1)"
    using claim_failing [OF d w r] by (simp add: snd_try_lock)
  have "\<exists>w2. run_reports (dv_reports d) r ?w1 = (False, w2) \<and> wd_queue w2 = wd_queue ?w1 \<and> world_ok w2 \<and>
      ss_cancel (wd_status w2) = ss_cancel (wd_status ?w1) \<and> status_of w2 r = Some RUNNING"
    by (rule run_reports_frame) (use d ok nc up in \<open>auto simp: failing_delivery_def\<close>)
  then obtain w2 where w2: "run_reports (dv_reports d) r ?w1 = (False, w2)" "wd_queue w2 = wd_queue ?w1"
      "world_ok w2" "ss_cancel (wd_status w2) = ss_cancel (wd_status ?w1)" by blast
  show ?thesis
    by (rule that [of w2 msg])
       (use w2 msg claim r in \<open>simp_all add: process_def process_settle_def split_beta Let_def\<close>)
qed

lemma leased_counter [simp]: "counter_at (leased ws d r q) r k t1 = counter_at q r k t1"
  by (simp add: counter_at_def)

text \<open>The state the dead-letter handler leaves, before and at the cap.\<close>

lemma process_failing_step:
  assumes d: "failing_delivery ws t1 d" and w: "failed_times w r k t1" and r: "job_run_id job = r"
  shows "\<exists>w3. rq_locks (wd_queue (release_run (dv_handler d) r (dv_token d) w3)) r = None \<and>
    world_ok w3 \<and> r \<notin> ss_cancel (wd_status w3) \<and> counter_at (wd_queue w3) r (k + 1) t1 \<and>
    status_of w3 r = Some FAILED \<and> rq_pending (wd_queue w3) = rq_pending (wd_queue w) \<and>
    process ws i job d w =
      (if k + 1 < ws_dead_letter_max_attempts ws
       then (Some False, release_run (dv_handler d) r (dv_token d) w3)
       else (map_option (\<lambda>n. n > 0) (fst (ack_run (dv_handler d) i w3)),
             release_run (dv_handler d) r (dv_token d) (snd (ack_run (dv_handler d) i w3))))"
proof -
  obtain w2 msg where w2: "wd_queue w2 = leased ws d r (wd_queue w)" "world_ok w2"
    "ss_cancel (wd_status w2) = ss_cancel (wd_status w)"
    and p: "process ws i job d w =
      (let (res, w3) = dead_letter ws (dv_handler d) r i msg w2
       in (res, release_run (dv_handler d) r (dv_token d) w3))"
    by (rule process_failing [OF d w r])
  have up: "ev_up (dv_handler d) c" "ev_quiet (dv_handler d)" for c
    using d by (auto simp: failing_delivery_def)
  have t: "ev_now (dv_handler d) < t1" "t1 \<le> ev_now (dv_handler d) + real_of_int (ws_status_ttl_s ws)"
    using d by (auto simp: failing_delivery_def)
  have free: "rq_locks (wd_queue w) r = None" and nc: "r \<notin> ss_cancel (wd_status w)"
    and ct: "counter_at (leased ws d r (wd_queue w)) r k t1"
    using w by (simp_all add: failed_times_def)
  define q3 where "q3 = (leased ws d r (wd_queue w))\<lparr>rq_attempts := (rq_attempts (wd_queue w))
       (r \<mapsto> (k + 1, Some (ev_now (dv_handler d) + real_of_int (ws_status_ttl_s ws))))\<rparr>"
  have att: "record_attempt ws True True (ev_now (dv_handler d)) r (wd_queue w2) = (k + 1, q3)"
    using attempt_failing [OF ct t] w2(1) by (simp add: q3_def)
  define msg' where "msg' = (if k + 1 < ws_dead_letter_max_attempts ws then msg
    else msg @ '' (dead-lettered after '' @ py_str (k + 1) @ '' attempts)'')"
  define w3 where "w3 = mark_run (dv_handler d) r FAILED [F_error msg'] (w2\<lparr>wd_queue := q3\<rparr>)"
  have "rq_locks (wd_queue (release_run (dv_handler d) r (dv_token d) w3)) r = None"
    using lease_released [OF d free, of q3] up by (simp add: w3_def release_run_def q3_def)
  moreover have "world_ok w3" "r \<notin> ss_cancel (wd_status w3)" "status_of w3 r = Some FAILED"
    "rq_pending (wd_queue w3) = rq_pending (wd_queue w)" "counter_at (wd_queue w3) r (k + 1) t1"
    using w2 up nc t by (simp_all add: w3_def q3_def counter_at_def)
  moreover have "process ws i job d w =
      (if k + 1 < ws_dead_letter_max_attempts ws
       then (Some False, release_run (dv_handler d) r (dv_token d) w3)
       else (map_option (\<lambda>n. n > 0) (fst (ack_run (dv_handler d) i w3)),
             release_run (dv_handler d) r (dv_token d) (snd (ack_run (dv_handler d) i w3))))"
    using p up by (auto simp: dead_letter_def att w3_def msg'_def Let_def split: prod.splits option.splits)
  ultimately show ?thesis by blast
qed

lemma ack_failed:
  assumes "\<forall>c. ev_up ev c" "i \<noteq> []" "pending w i"
  shows "fst (ack_run ev i w) = Some 1" "\<not> pending (snd (ack_run ev i w)) i"
  using assms ack_and_delete_one [of i "wd_queue w"] by (simp_all add: ack_run_def pending_def)

lemma deliveries_failing:
  assumes "\<forall>d \<in> set ds. failing_delivery ws t1 d" "job_run_id job = r" "i \<noteq> []"
    "failed_times w r k t1" "pending w i" "int (length ds) = ws_dead_letter_max_attempts ws - k" "ds \<noteq> []"
  shows "\<exists>w'. deliveries ws i job ds w = (replicate (length ds - 1) (Some False) @ [Some True], w') \<and>
    \<not> pending w' i \<and> status_of w' r = Some FAILED"
  using assms
proof (induction ds arbitrary: w k)
  case (Cons d ds)
  have d: "failing_delivery ws t1 d" using Cons.prems(1) by simp
  obtain w3 where w3: "rq_locks (wd_queue (release_run (dv_handler d) r (dv_token d) w3)) r = None"
    "world_ok w3" "r \<notin> ss_cancel (wd_status w3)" "counter_at (wd_queue w3) r (k + 1) t1"
    "status_of w3 r = Some FAILED" "rq_pending (wd_queue w3) = rq_pending (wd_queue w)"
    and p: "process ws i job d w =
      (if k + 1 < ws_dead_letter_max_attempts ws
       then (Some False, release_run (dv_handler d) r (dv_token d) w3)
       else (map_option (\<lambda>n. n > 0) (fst (ack_run (dv_handler d) i w3)),
             release_run (dv_handler d) r (dv_token d) (snd (ack_run (dv_handler d) i w3))))"
    using process_failing_step [OF d Cons.prems(4,2), of i] by (elim exE conjE) (rule that)
  show ?case
  proof (cases "ds = []")
    case True
    have "pending w3 i" using Cons.prems(5) w3(6) by (simp add: pending_def)
    moreover have "\<forall>c. ev_up (dv_handler d) c" using d by (simp add: failing_delivery_def)
    ultimately show ?thesis
      using True p Cons.prems(3,6) w3(5) ack_failed [of "dv_handler d" i w3] by simp
  next
    case False
    let ?w = "release_run (dv_handler d) r (dv_token d) w3"
    have len: "int (length ds) = ws_dead_letter_max_attempts ws - (k + 1)" using Cons.prems(6) by simp
    with False have k: "k + 1 < ws_dead_letter_max_attempts ws" by (cases ds) auto
    have "failed_times ?w r (k + 1) t1"
      using w3 by (simp add: failed_times_def guard_statuses_def counter_at_def)
    moreover have "pending ?w i" using Cons.prems(5) w3(6) by (simp add: pending_def)
    ultimately have "\<exists>w'. deliveries ws i job ds ?w =
        (replicate (length ds - 1) (Some False) @ [Some True], w') \<and>
        \<not> pending w' i \<and> status_of w' r = Some FAILED"
      by (intro Cons.IH [of ?w "k + 1"]) (use Cons.prems(1-3) False len in simp_all)
    then obtain w' where w': "deliveries ws i job ds ?w =
        (replicate (length ds - 1) (Some False) @ [Some True], w')"
      "\<not> pending w' i" "status_of w' r = Some FAILED" by blast
    have "replicate (length ds) x = x # replicate (length ds - 1) x" for x :: "bool option"
      using False by (cases ds) simp_all
    with w' p k show ?thesis by simp
  qed
qed simp


definition all_up :: "real \<Rightarrow> string \<Rightarrow> env" where
  "all_up now stamp = \<lparr>ev_now = now, ev_stamp = stamp, ev_up = \<lambda>_. True, ev_quiet = True, ev_error = []\<rparr>"

definition sample_ws :: worker_settings where
  "sample_ws = \<lparr>ws_status_ttl_s = 86400, ws_dead_letter_max_attempts = 3, ws_lock_ttl_s = 120,
     ws_run_timeout_s = 0\<rparr>"

definition sample_job :: run_job where
  "sample_job = \<lparr>job_run_id = ''r'', job_goal = ''g'', job_max_iterations = None,
     job_no_evolution = False, job_model = None, job_run_timeout_s = None,
     job_results_per_run_subdir = None, job_clear_flat_subdirs = []\<rparr>"

definition sample_delivery :: "real \<Rightarrow> exec_outcome \<Rightarrow> delivery" where
  "sample_delivery now out = \<lparr>dv_token = ''t'', dv_results_dir = [], dv_claim = all_up now ''c'',
     dv_reports = [(all_up (now + 1) ''p'', 1)], dv_deadline = False, dv_timeout_text = ''0'',
     dv_outcome = out, dv_settle = all_up (now + 2) ''s'', dv_handler = all_up (now + 3) ''h''\<rparr>"

definition sample_world :: world where
  "sample_world = \<lparr>wd_queue = \<lparr>rq_body = [(''1-0'', sample_job)], rq_pending = {''1-0''},
       rq_attempts = Map.empty, rq_locks = Map.empty\<rparr>,
     wd_status = \<lparr>ss_hashes = Map.empty, ss_cancel = {}\<rparr>\<rparr>"

lemmas sample_defs = sample_ws_def sample_job_def sample_delivery_def sample_world_def all_up_def

lemma sample_store_ok [simp]: "store_ok \<lparr>ss_hashes = Map.empty, ss_cancel = c\<rparr>"
  by (simp add: store_ok_def status_get_def)

lemma sample_status_get [simp]: "status_get ok r \<lparr>ss_hashes = Map.empty, ss_cancel = c\<rparr> = None"
  by (simp add: status_get_def)



section \<open>Where status and stream part\<close>

lemma status_get_mark_run:
  assumes "world_ok w" "ev_up ev Call_mark_put" "ev_up ev Call_mark_get"
  shows "status_get True q (wd_status (mark_run ev r s p w)) =
    (if q = r then Some (patch_status (thread_id_for r) s p (ev_stamp ev)
       (case status_get True r (wd_status w) of None \<Rightarrow> new_run_status r (thread_id_for r) | Some c \<Rightarrow> c))
     else status_get True q (wd_status w))"
  using assms by (simp add: mark_run_def world_ok_def status_get_mark mark_fst)

lemma patch_entry_id [simp]:
  "st_entry_id (patch_status t s [F_entry_id i] now base) = i"
  by (simp add: patch_status_def Let_def)

lemma enqueue_entry_fresh:
  assumes "ev_up ev Call_group" "ev_up ev Call_xadd" "ev_up ev Call_prior"
    "\<forall>s. status_of w (job_run_id job) = Some s \<longrightarrow> s \<notin> {QUEUED, RUNNING}"
  shows "enqueue_entry ev job i w = (None, w\<lparr>wd_queue := enqueue i job (wd_queue w)\<rparr>)"
  using assms by (auto simp: enqueue_entry_def status_of_def split: option.split)

lemma enqueue_conflict:
  assumes "ev_up ev Call_prior" "status_of w (job_run_id job) = Some s" "s \<in> {QUEUED, RUNNING}"
  shows "enqueue_run ev job i w = (Conflict s, w)"
  using assms by (auto simp: enqueue_run_def enqueue_entry_def status_of_def)

lemma filter_fresh: "i \<notin> fst ` set xs \<Longrightarrow> filter (\<lambda>(j, _). j \<noteq> i) xs = xs"
  by (induction xs) auto

text \<open>
  Fact (safety): cancelling a run before a worker has claimed it strands it.  The cancel route
  deletes the stream entry and sets a flag that only a running worker reads, and writes no
  status: the run stays QUEUED with nothing left in the stream to claim, and posting the same
  run id again is refused as already queued.
\<close>

theorem cancel_unclaimed_strands:
  assumes w2_def: "w2 = snd (cancel_run ev' (job_run_id job) (snd (enqueue_run ev job entry_id w)))"
    and "store_ok (wd_status w)" "status_get True (job_run_id job) (wd_status w) = None"
    and "entry_id \<noteq> []" "entry_id \<notin> fst ` set (rq_body (wd_queue w))" "entry_id \<notin> rq_pending (wd_queue w)"
    and "\<forall>c. ev_up ev c" "\<forall>c. ev_up ev' c" "ev_up ev'' Call_prior"
  shows "fst (cancel_run ev' (job_run_id job) (snd (enqueue_run ev job entry_id w))) = Cancel_requested \<and>
    rq_body (wd_queue w2) = rq_body (wd_queue w) \<and> entry_id \<notin> rq_pending (wd_queue w2) \<and>
    status_of w2 (job_run_id job) = Some QUEUED \<and>
    enqueue_run ev'' job entry_id' w2 = (Conflict QUEUED, w2)"
proof -
  let ?r = "job_run_id job"
  let ?v = "mark_run ev ?r QUEUED [F_entry_id entry_id] (w\<lparr>wd_queue := enqueue entry_id job (wd_queue w)\<rparr>)"
  have ok: "world_ok w" using assms(2) by (simp add: world_ok_def)
  have e: "enqueue_run ev job entry_id w = (Accepted ?r, ?v)"
    using enqueue_entry_fresh [of ev w job entry_id] assms(3,7)
    by (simp add: enqueue_run_def enqueue_mark_def status_of_def)
  have g: "\<exists>st. status_get True ?r (wd_status ?v) = Some st \<and> st_entry_id st = entry_id"
    using ok assms(7) by (simp add: status_get_mark_run)
  then obtain st where st: "status_get True ?r (wd_status ?v) = Some st" "st_entry_id st = entry_id" by blast
  have v: "status_of ?v ?r = Some QUEUED" using ok assms(7) by simp
  have w2: "cancel_run ev' ?r ?v = (Cancel_requested, ?v\<lparr>
      wd_status := request_cancel True ?r (wd_status ?v),
      wd_queue := snd (delete_entry True True entry_id (wd_queue ?v))\<rparr>)"
    using st assms(4,8) by (simp add: cancel_run_def Let_def)
  have "w2 = snd (cancel_run ev' ?r ?v)" using e by (simp add: w2_def)
  with w2 have w2_eq: "w2 = ?v\<lparr>wd_status := request_cancel True ?r (wd_status ?v),
      wd_queue := snd (delete_entry True True entry_id (wd_queue ?v))\<rparr>" by simp
  have "status_of w2 ?r = Some QUEUED"
    using v by (simp add: w2_eq status_of_def request_cancel_def status_get_def)
  moreover have "rq_body (wd_queue w2) = rq_body (wd_queue w)" "entry_id \<notin> rq_pending (wd_queue w2)"
    using assms(4,5,6) by (simp_all add: w2_eq delete_entry_def enqueue_def Let_def filter_fresh)
  ultimately show ?thesis
    using e w2 enqueue_conflict [OF assms(9), of w2 job QUEUED entry_id'] by simp
qed

theorem cancel_unclaimed_strands_witness:
  "status_of (snd (cancel_run (all_up 1 ''b'') ''r'' (snd (enqueue_run (all_up 0 ''a'') sample_job ''2-0'' sample_world))))
     ''r'' = Some QUEUED"
  using cancel_unclaimed_strands [OF refl, of sample_world sample_job "''2-0''" "all_up 0 ''a''" "all_up 1 ''b''" "all_up 2 ''c''"]
  by (simp add: sample_defs)

text \<open>
  Fact (safety): the watchdog's verdict does not last when the executor absorbs the cancellation.
  The watchdog marks TIMEOUT, acknowledges and deletes the entry; the next progress report of
  the executor it could not stop writes RUNNING over it.  The record then says the run is
  running, carries a finishing time, no entry exists for it and a new post is refused.
\<close>

theorem zombie_report_revives:
  assumes w1_def: "w1 = snd (watchdog ev (job_run_id job) entry_id token bound False w)"
    and w2_def: "w2 = snd (report_progress ev' (job_run_id job) n w1)"
    and "store_ok (wd_status w)" "entry_id \<noteq> []" "ev_stamp ev \<noteq> []"
    and "\<forall>c. ev_up ev c" "\<forall>c. ev_up ev' c" "ev_up ev'' Call_prior"
  shows "status_of w1 (job_run_id job) = Some TIMEOUT \<and> entry_id \<notin> rq_pending (wd_queue w1) \<and>
    status_of w2 (job_run_id job) = Some RUNNING \<and> wd_queue w2 = wd_queue w1 \<and>
    (\<exists>st. status_get True (job_run_id job) (wd_status w2) = Some st \<and> st_finished_at st \<noteq> []) \<and>
    enqueue_run ev'' job entry_id' w2 = (Conflict RUNNING, w2)"
proof -
  let ?r = "job_run_id job"
  let ?m = "mark_run ev ?r TIMEOUT [F_error (''Run timeout after '' @ bound @ ''s'')] w"
  have ok: "world_ok w" using assms(3) by (simp add: world_ok_def)
  have w1: "w1 = release_run ev ?r token (snd (ack_run ev entry_id ?m))"
    by (simp add: w1_def watchdog_def Let_def)
  have w2: "w2 = mark_run ev' ?r RUNNING [F_iteration_count n] w1"
    by (simp add: w2_def report_progress_def Let_def)
  have ok1: "world_ok w1" using ok by (simp add: w1)
  have s1: "status_of w1 ?r = Some TIMEOUT" using ok assms(6) by (simp add: w1)
  have p1: "entry_id \<notin> rq_pending (wd_queue w1)"
    using assms(4,6) by (simp add: w1 ack_run_def ack_and_delete_def xack_def xdel_def Let_def split: if_splits)
  have s2: "status_of w2 ?r = Some RUNNING" using ok1 assms(7) by (simp add: w2)
  have "\<exists>st. status_get True ?r (wd_status w1) = Some st \<and> st_finished_at st \<noteq> []"
    using ok assms(5,6) by (simp add: w1 status_get_mark_run terminal_statuses_def)
  then have f2: "\<exists>st. status_get True ?r (wd_status w2) = Some st \<and> st_finished_at st \<noteq> []"
    using ok1 assms(7) by (auto simp: w2 status_get_mark_run terminal_statuses_def)
  have "wd_queue w2 = wd_queue w1" by (simp add: w2)
  with s1 p1 s2 f2 enqueue_conflict [OF assms(8) s2] show ?thesis by simp
qed

theorem zombie_report_revives_witness:
  "status_of (snd (report_progress (all_up 2 ''z'') ''r'' 7
      (snd (watchdog (all_up 1 ''y'') ''r'' ''1-0'' ''t'' ''60'' False sample_world)))) ''r'' = Some RUNNING"
  using zombie_report_revives [OF refl refl, of sample_world "''1-0''" "all_up 1 ''y''" "all_up 2 ''z''" "all_up 3 ''x''" sample_job "''t''" "''60''" 7]
  by (simp add: sample_defs)

lemma claim_one:
  "i \<notin> fst ` set (rq_body q) \<Longrightarrow>
   claim_entries {i} (enqueue i job q) =
     ([(i, job)], q\<lparr>rq_body := rq_body q @ [(i, job)], rq_pending := insert i (rq_pending q)\<rparr>)"
proof -
  assume "i \<notin> fst ` set (rq_body q)"
  then have "filter (\<lambda>(j, _). j \<in> {i}) (rq_body q @ [(i, job)]) = [(i, job)]"
    by (force simp: filter_empty_conv)
  then show ?thesis by (simp add: claim_entries_def enqueue_def Let_def del: filter_append)
qed

text \<open>
  Fact (safety): posting a finished run again races with the workers.  The route appends the
  entry before it marks the run QUEUED.  When a worker claims the entry in between, it still
  sees the old terminal status, acknowledges the new entry as a duplicate without running it,
  and the late mark leaves the run QUEUED with no entry; every further post is refused.
\<close>

theorem repost_race_strands:
  assumes w1: "(None, w1) = enqueue_entry ev job entry_id w"
    and w2: "w2 = snd (process ws entry_id job d (w1\<lparr>wd_queue := snd (claim_entries {entry_id} (wd_queue w1))\<rparr>))"
    and w3: "w3 = snd (enqueue_mark ev job entry_id w2)"
    and "store_ok (wd_status w)" "status_of w (job_run_id job) = Some s" "s \<in> guard_statuses"
    and "entry_id \<noteq> []" "entry_id \<notin> fst ` set (rq_body (wd_queue w))"
    and "rq_locks (wd_queue w) (job_run_id job) = None" "ws_lock_ttl_s ws > 0"
    and "\<forall>c. ev_up ev c" "\<forall>c. ev_up (dv_claim d) c" "ev_up ev' Call_prior"
  shows "fst (process ws entry_id job d (w1\<lparr>wd_queue := snd (claim_entries {entry_id} (wd_queue w1))\<rparr>)) = Some True \<and>
    status_of w3 (job_run_id job) = Some QUEUED \<and> rq_body (wd_queue w3) = rq_body (wd_queue w) \<and>
    entry_id \<notin> rq_pending (wd_queue w3) \<and> enqueue_run ev' job entry_id' w3 = (Conflict QUEUED, w3)"
proof -
  let ?r = "job_run_id job"
  let ?q = "(wd_queue w)\<lparr>rq_body := rq_body (wd_queue w) @ [(entry_id, job)],
      rq_pending := insert entry_id (rq_pending (wd_queue w))\<rparr>"
  let ?c = "w\<lparr>wd_queue := ?q\<rparr>"
  have ok: "world_ok w" using assms(4) by (simp add: world_ok_def)
  have w1_eq: "w1 = w\<lparr>wd_queue := enqueue entry_id job (wd_queue w)\<rparr>"
    using w1 assms(5,6,11) by (auto simp: enqueue_entry_def status_of_def guard_statuses_def split: option.splits if_splits)
  have c: "w1\<lparr>wd_queue := snd (claim_entries {entry_id} (wd_queue w1))\<rparr> = ?c"
    using claim_one [OF assms(8), of job] by (simp add: w1_eq)
  obtain st where st: "status_get True ?r (wd_status w) = Some st" "st_status st \<in> guard_statuses"
    using assms(5,6) by (auto simp: status_of_def)
  define q1 where "q1 = ?q\<lparr>rq_locks := (rq_locks (wd_queue w))
      (?r \<mapsto> (dv_token d, ev_now (dv_claim d) + real_of_int (ws_lock_ttl_s ws)))\<rparr>"
  define u where "u = w\<lparr>wd_queue := q1\<lparr>rq_pending := rq_pending (wd_queue w) - {entry_id},
      rq_body := rq_body (wd_queue w)\<rparr>\<rparr>"
  have ack: "ack_run (dv_claim d) entry_id (w\<lparr>wd_queue := q1\<rparr>) = (Some 1, u)"
    using assms(12) ack_and_delete_one [OF assms(7), of q1] filter_fresh [OF assms(8)]
    by (simp add: ack_run_def q1_def u_def)
  have lock: "try_lock True (ev_now (dv_claim d)) ?r (dv_token d) (ws_lock_ttl_s ws) ?q = (Some True, q1)"
    using assms(9,10) by (simp add: try_lock_def lock_owner_def q1_def)
  have p: "process ws entry_id job d ?c = (Some True, release_run (dv_claim d) ?r (dv_token d) u)"
    using assms(10,12) st ack lock by (simp add: process_def process_claim_def)
  have w2_eq: "w2 = release_run (dv_claim d) ?r (dv_token d) u" using w2 c p by simp
  have w3_eq: "w3 = mark_run ev ?r QUEUED [F_entry_id entry_id] w2"
    by (simp add: w3 enqueue_mark_def)
  have "world_ok w2" using ok by (simp add: w2_eq u_def)
  then have s3: "status_of w3 ?r = Some QUEUED" using assms(11) by (simp add: w3_eq)
  moreover have "rq_body (wd_queue w3) = rq_body (wd_queue w)" "entry_id \<notin> rq_pending (wd_queue w3)"
    by (simp_all add: w3_eq w2_eq u_def)
  ultimately show ?thesis using c p enqueue_conflict [OF assms(13) s3] by simp
qed

definition finished_world :: world where
  "finished_world = mark_run (all_up 0 ''f'') ''r'' COMPLETED []
     (sample_world\<lparr>wd_queue := \<lparr>rq_body = [], rq_pending = {}, rq_attempts = Map.empty, rq_locks = Map.empty\<rparr>\<rparr>)"

lemma finished_world_simps [simp]:
  "store_ok (wd_status finished_world)" "status_of finished_world ''r'' = Some COMPLETED"
  "rq_body (wd_queue finished_world) = []" "rq_locks (wd_queue finished_world) = Map.empty"
proof -
  have "world_ok (sample_world\<lparr>wd_queue := q\<rparr>)" for q by (simp add: world_ok_def sample_world_def)
  then show "store_ok (wd_status finished_world)" "status_of finished_world ''r'' = Some COMPLETED"
    using world_ok_mark_run unfolding finished_world_def world_ok_def [symmetric]
    by (auto simp: all_up_def)
  show "rq_body (wd_queue finished_world) = []" "rq_locks (wd_queue finished_world) = Map.empty"
    by (simp_all add: finished_world_def)
qed

theorem repost_race_strands_witness:
  "\<exists>w2. status_of (snd (enqueue_mark (all_up 1 ''m'') sample_job ''2-0'' w2)) ''r'' = Some QUEUED \<and>
     ''2-0'' \<notin> rq_pending (wd_queue w2)"
proof -
  let ?e = "all_up 1 ''m''"
  let ?d = "sample_delivery 2 Exec_cancelled"
  have r: "job_run_id sample_job = ''r''" by (simp add: sample_job_def)
  have e: "(None, finished_world\<lparr>wd_queue := enqueue ''2-0'' sample_job (wd_queue finished_world)\<rparr>)
      = enqueue_entry ?e sample_job ''2-0'' finished_world"
    by (rule enqueue_entry_fresh [symmetric]) (simp_all add: r, simp_all add: all_up_def)
  show ?thesis
    using repost_race_strands [OF e refl refl, of COMPLETED sample_ws ?d ?e]
    by (auto simp: r guard_statuses_def enqueue_mark_def) (auto simp: sample_defs)
qed

text \<open>
  Fact (error): a run that failed once and then completes keeps the failure in its record.  The
  terminal mark after a redelivery neither clears the error text nor moves the finishing time,
  so the API reports COMPLETED with the error, and the finishing time, of the failed attempt.
\<close>

theorem completed_run_keeps_failure:
  assumes "store_ok (wd_status w)" "\<forall>c. ev_up ev1 c" "\<forall>c. ev_up ev2 c" "\<forall>c. ev_up ev3 c"
    and "ev_stamp ev1 \<noteq> []" "status_get True r (wd_status w) = None"
    and "w' = mark_run ev3 r COMPLETED [F_final_output out, F_is_complete True, F_iteration_count n]
           (mark_run ev2 r RUNNING [F_results_dir dir] (mark_run ev1 r FAILED [F_error msg] w))"
  shows "\<exists>st. get_run_status ev1 r w' = Found st \<and> st_status st = COMPLETED \<and> st_is_complete st \<and>
    st_error st = msg \<and> st_finished_at st = ev_stamp ev1"
proof -
  have ok: "world_ok w" using assms(1) by (simp add: world_ok_def)
  show ?thesis
    using ok assms(2-6)
    by (simp add: assms(7) get_run_status_def status_get_mark_run patch_status_def terminal_statuses_def
        new_run_status_def Let_def)
qed

theorem completed_run_keeps_failure_witness:
  "\<exists>st. get_run_status (all_up 0 ''t1'') ''r''
      (mark_run (all_up 2 ''t3'') ''r'' COMPLETED [F_final_output ''ok'', F_is_complete True, F_iteration_count 5]
        (mark_run (all_up 1 ''t2'') ''r'' RUNNING [F_results_dir []]
          (mark_run (all_up 0 ''t1'') ''r'' FAILED [F_error ''boom''] sample_world))) = Found st \<and>
    st_error st = ''boom'' \<and> st_finished_at st = ''t1''"
  using completed_run_keeps_failure [OF _ _ _ _ _ _ refl, of sample_world "all_up 0 ''t1''" "all_up 1 ''t2''"
      "all_up 2 ''t3''" "''r''" "''ok''" 5 "[]" "''boom''"]
  by (auto simp: sample_defs)

text \<open>
  Fact (safety): a cancelled run cannot be run again while the cancel flag lives.  Nothing removes
  the flag: a delivery of the same run id that reports progress once is cancelled at its first
  report, whatever its executor would have returned, and ends CANCELLED and acknowledged.
\<close>

theorem cancel_flag_outlives_run:
  assumes "store_ok (wd_status w)" "job_run_id job \<in> ss_cancel (wd_status w)"
    and "status_of w (job_run_id job) = Some QUEUED" "rq_locks (wd_queue w) (job_run_id job) = None"
    and "entry_id \<noteq> []" "entry_id \<in> rq_pending (wd_queue w)" "dv_reports d \<noteq> []"
    and "\<forall>c. ev_up (dv_claim d) c" "\<forall>c. ev_up (fst (hd (dv_reports d))) c" "\<forall>c. ev_up (dv_settle d) c"
  shows "fst (process ws entry_id job d w) = Some True \<and>
    status_of (snd (process ws entry_id job d w)) (job_run_id job) = Some CANCELLED"
proof -
  let ?r = "job_run_id job"
  obtain ev n rest where rs: "dv_reports d = (ev, n) # rest" using assms(7) by (cases "dv_reports d") auto
  let ?q = "snd (try_lock True (ev_now (dv_claim d)) ?r (dv_token d) (ws_lock_ttl_s ws) (wd_queue w))"
  let ?w1 = "mark_run (dv_claim d) ?r RUNNING [F_results_dir (dv_results_dir d)] (w\<lparr>wd_queue := ?q\<rparr>)"
  let ?w2 = "mark_run ev ?r RUNNING [F_iteration_count n] ?w1"
  let ?w3 = "mark_run (dv_settle d) ?r CANCELLED [F_error (cancel_message ?r)] ?w2"
  have ok: "world_ok w" using assms(1) by (simp add: world_ok_def)
  obtain st where "status_get True ?r (wd_status w) = Some st" "st_status st = QUEUED"
    using assms(3) by (auto simp: status_of_def)
  then have claim: "process_claim ws (dv_claim d) (dv_token d) entry_id job (dv_results_dir d) w = (Started, ?w1)"
    using assms(4,8) by (auto simp: process_claim_def try_lock_def lock_owner_def guard_statuses_def Let_def)
  have rep: "run_reports (dv_reports d) ?r ?w1 = (True, ?w2)"
    using rs assms(2,9) by (simp add: report_progress_def is_cancelled_def Let_def)
  have pend: "pending ?w3 entry_id" using assms(6) by (simp add: pending_def)
  have ack: "fst (ack_run (dv_settle d) entry_id ?w3) = Some 1"
    by (rule ack_failed(1) [OF assms(10,5) pend])
  have stat: "status_of ?w3 ?r = Some CANCELLED" using ok rs assms(8,9,10) by simp
  show ?thesis
    using claim rep ack stat
    by (auto simp: process_def process_settle_def settle_terminal_def split_beta Let_def split: option.split)
qed

theorem cancel_flag_outlives_run_witness:
  "\<exists>w. fst (process sample_ws ''1-0'' sample_job
      (sample_delivery 1 (Returned \<lparr>rr_final_output = ''done'', rr_is_complete = True, rr_iteration_count = None\<rparr>)) w)
      = Some True \<and>
    status_of (snd (process sample_ws ''1-0'' sample_job
      (sample_delivery 1 (Returned \<lparr>rr_final_output = ''done'', rr_is_complete = True, rr_iteration_count = None\<rparr>)) w))
      ''r'' = Some CANCELLED"
proof -
  let ?d = "sample_delivery 1 (Returned \<lparr>rr_final_output = ''done'', rr_is_complete = True, rr_iteration_count = None\<rparr>)"
  let ?w = "mark_run (all_up 0 ''q'') ''r'' QUEUED [] (sample_world\<lparr>wd_status := \<lparr>ss_hashes = Map.empty, ss_cancel = {''r''}\<rparr>\<rparr>)"
  have ok: "world_ok (sample_world\<lparr>wd_status := \<lparr>ss_hashes = Map.empty, ss_cancel = {''r''}\<rparr>\<rparr>)"
    by (simp add: world_ok_def)
  have "store_ok (wd_status ?w)" using world_ok_mark_run [OF ok] by (simp add: world_ok_def)
  moreover have "status_of ?w ''r'' = Some QUEUED" using ok by (simp add: all_up_def)
  moreover have "''1-0'' \<in> rq_pending (wd_queue ?w)" "rq_locks (wd_queue ?w) ''r'' = None"
    "''r'' \<in> ss_cancel (wd_status ?w)" by (simp_all add: sample_world_def)
  moreover have "job_run_id sample_job = ''r''" by (simp add: sample_job_def)
  ultimately show ?thesis
    using cancel_flag_outlives_run [of ?w sample_job "''1-0''" ?d sample_ws]
    by (auto simp: sample_delivery_def all_up_def)
qed

end
