(* ===== verification/Run_Lease.thy ===== *)
theory Run_Lease
  imports Run_Lifecycle
begin

text \<open>
  The per-run lease between the workers of a fleet: deliveries of the same runs on several
  workers, interleaved at the lease operations of \<open>src/src/worker/queue.py\<close>, and the renewal
  loop of \<open>src/src/worker/runner.py\<close> that keeps a lease alive.
\<close>

section \<open>The lease as an interface\<close>

text \<open>
  What \<open>RunConsumer\<close> relies on: an owner at each time, an acquisition that succeeds only on a
  free lease and then owns it until its expiry, and a compare-and-delete release.
\<close>

locale lease =
  fixes owner :: "real \<Rightarrow> string \<Rightarrow> 'q \<Rightarrow> string option"
    and acquire :: "real \<Rightarrow> string \<Rightarrow> string \<Rightarrow> 'q \<Rightarrow> 'q option"
    and release :: "real \<Rightarrow> string \<Rightarrow> string \<Rightarrow> 'q \<Rightarrow> 'q"
    and ttl :: real
  assumes acquire_free: "acquire now r t q = Some q' \<Longrightarrow> owner now r q = None"
    and acquire_owns: "acquire now r t q = Some q' \<Longrightarrow> now \<le> now' \<Longrightarrow> now' < now + ttl \<Longrightarrow>
          owner now' r q' = Some t"
    and acquire_other: "acquire now r t q = Some q' \<Longrightarrow> r' \<noteq> r \<Longrightarrow> owner now' r' q' = owner now' r' q"
    and release_keeps: "owner now r q \<noteq> Some t \<Longrightarrow> t \<noteq> [] \<Longrightarrow> release now r t q = q"
    and release_other: "r' \<noteq> r \<Longrightarrow> owner now' r' (release now r t q) = owner now' r' q"
begin

lemma second_refused:
  assumes "acquire now r t q = Some q'" "now \<le> now'" "now' < now + ttl"
  shows "acquire now' r t' q' = None"
proof (cases "acquire now' r t' q'")
  case (Some q'')
  with acquire_free [OF Some] acquire_owns [OF assms] show ?thesis by simp
qed

lemma stale_release_harmless:
  assumes "acquire now r t q = Some q'" "now \<le> now'" "now' < now + ttl" "t' \<noteq> t" "t' \<noteq> []"
  shows "release now' r t' q' = q'"
  using acquire_owns [OF assms(1-3)] assms(4,5) by (intro release_keeps) auto

end

definition lease_acquire :: "int \<Rightarrow> real \<Rightarrow> string \<Rightarrow> string \<Rightarrow> run_queue \<Rightarrow> run_queue option" where
  "lease_acquire ttl now r t q =
     (case try_lock True now r t ttl q of (Some True, q') \<Rightarrow> Some q' | _ \<Rightarrow> None)"

definition lease_release :: "real \<Rightarrow> string \<Rightarrow> string \<Rightarrow> run_queue \<Rightarrow> run_queue" where
  "lease_release now r t q = snd (release_lock True True now r t q)"

lemma lease_acquire_eq:
  "ttl > 0 \<Longrightarrow> lease_acquire ttl now r t q =
     (if lock_owner now r q = None
      then Some (q\<lparr>rq_locks := (rq_locks q)(r \<mapsto> (t, now + real_of_int ttl))\<rparr>) else None)"
  by (simp add: lease_acquire_def try_lock_def)

lemma lock_owner_update:
  "lock_owner now r (q\<lparr>rq_locks := (rq_locks q)(r' \<mapsto> (t, e))\<rparr>) =
     (if r = r' then (if now < e then Some t else None) else lock_owner now r q)"
  by (simp add: lock_owner_def)

interpretation run_lease: lease lock_owner "lease_acquire 120" lease_release 120
  by unfold_locales
     (auto simp: lease_acquire_eq lock_owner_update lease_release_def release_lock_def norm_token_def
        lock_owner_def split: if_splits option.splits)

section \<open>The fleet\<close>

record fleet =
  fl_now :: real
  fl_queue :: run_queue
  fl_running :: "(string \<times> string) set"
  fl_tokens :: "string set"

text \<open>
  \<open>fl_running\<close> holds the deliveries being executed, as lease token and run id.  A clock step is
  taken only as far as every running delivery still holds its lease: renewals come in time.  A
  crashed worker stops running and releases nothing; a late release may come from any token
  ever drawn.
\<close>

inductive lease_step :: "int \<Rightarrow> fleet \<Rightarrow> fleet \<Rightarrow> bool" for ttl :: int where
  Claim: "t \<noteq> [] \<Longrightarrow> t \<notin> fl_tokens f \<Longrightarrow>
    try_lock True (fl_now f) r t ttl (fl_queue f) = (Some True, q) \<Longrightarrow>
    lease_step ttl f (f\<lparr>fl_queue := q, fl_running := insert (t, r) (fl_running f),
      fl_tokens := insert t (fl_tokens f)\<rparr>)"
| Refused: "t \<notin> fl_tokens f \<Longrightarrow>
    try_lock ok (fl_now f) r t ttl (fl_queue f) = (res, q) \<Longrightarrow> res \<noteq> Some True \<Longrightarrow>
    lease_step ttl f (f\<lparr>fl_queue := q, fl_tokens := insert t (fl_tokens f)\<rparr>)"
| Renew: "(t, r) \<in> fl_running f \<Longrightarrow>
    lease_step ttl f (f\<lparr>fl_queue := snd (renew_lock ok quiet (fl_now f) r t ttl (fl_queue f))\<rparr>)"
| Finish: "(t, r) \<in> fl_running f \<Longrightarrow>
    lease_step ttl f (f\<lparr>fl_queue := snd (release_lock ok quiet (fl_now f) r t (fl_queue f)),
      fl_running := fl_running f - {(t, r)}\<rparr>)"
| Late_release: "t \<in> fl_tokens f \<Longrightarrow> (t, r) \<notin> fl_running f \<Longrightarrow>
    lease_step ttl f (f\<lparr>fl_queue := snd (release_lock ok quiet (fl_now f) r t (fl_queue f))\<rparr>)"
| Crash: "lease_step ttl f (f\<lparr>fl_running := fl_running f - {(t, r)}\<rparr>)"
| Tick: "fl_now f \<le> now \<Longrightarrow>
    (\<And>t r. (t, r) \<in> fl_running f \<Longrightarrow> lock_owner now r (fl_queue f) = Some t) \<Longrightarrow>
    lease_step ttl f (f\<lparr>fl_now := now\<rparr>)"

inductive lease_reach :: "int \<Rightarrow> run_queue \<Rightarrow> fleet \<Rightarrow> bool" for ttl :: int and q0 :: run_queue where
  Start: "lease_reach ttl q0 \<lparr>fl_now = now, fl_queue = q0, fl_running = {}, fl_tokens = {}\<rparr>"
| Step: "lease_reach ttl q0 f \<Longrightarrow> lease_step ttl f f' \<Longrightarrow> lease_reach ttl q0 f'"

definition lease_inv :: "fleet \<Rightarrow> bool" where
  "lease_inv f =
     (\<forall>t r. (t, r) \<in> fl_running f \<longrightarrow>
        t \<noteq> [] \<and> t \<in> fl_tokens f \<and> lock_owner (fl_now f) r (fl_queue f) = Some t)"

lemma release_owner:
  assumes "lock_owner now r' q = Some t'" "t' \<noteq> t \<or> r' \<noteq> r"
  shows "lock_owner now r' (snd (release_lock ok quiet now r t q)) = Some t'"
  using assms by (auto simp: release_lock_def lock_owner_def norm_token_def)

lemma renew_owner:
  assumes "0 < ttl" "lock_owner now r q = Some t" "lock_owner now r' q = Some t'"
  shows "lock_owner now r' (snd (renew_lock ok quiet now r t ttl q)) = Some t'"
  using assms by (auto simp: renew_lock_def lock_owner_update norm_token_def)

lemma try_lock_owner:
  assumes "0 < ttl" "try_lock ok now r t ttl q = (res, q')"
  shows "lock_owner now r' q' = (if r' = r \<and> res = Some True then Some t else lock_owner now r' q)"
    and "res = Some True \<Longrightarrow> lock_owner now r q = None"
  using assms by (auto simp: try_lock_def lock_owner_update split: if_splits)

lemma lease_inv_step:
  assumes "0 < ttl" "lease_step ttl f f'" "lease_inv f"
  shows "lease_inv f'"
  using assms(2,3)
proof cases
  case (Claim t r q)
  from assms(3) try_lock_owner [OF assms(1) Claim(4)] show ?thesis
    by (auto simp: lease_inv_def Claim(1,2))
next
  case (Refused t ok r res q)
  from assms(3) try_lock_owner(1) [OF assms(1) Refused(3)] Refused(4) show ?thesis
    by (auto simp: lease_inv_def Refused(1))
next
  case (Renew t r ok quiet)
  from assms(3) Renew(2) have "lock_owner (fl_now f) r (fl_queue f) = Some t" by (simp add: lease_inv_def)
  from assms(3) renew_owner [OF assms(1) this] show ?thesis
    by (auto simp: lease_inv_def Renew(1))
next
  case (Finish t r ok quiet)
  have "lock_owner (fl_now f) r' (snd (release_lock ok quiet (fl_now f) r t (fl_queue f))) = Some t'"
    if "(t', r') \<in> fl_running f" "(t', r') \<noteq> (t, r)" for t' r'
    using assms(3) that by (intro release_owner) (auto simp: lease_inv_def)
  with assms(3) show ?thesis by (auto simp: lease_inv_def Finish(1))
next
  case (Late_release t r ok quiet)
  have "lock_owner (fl_now f) r' (snd (release_lock ok quiet (fl_now f) r t (fl_queue f))) = Some t'"
    if "(t', r') \<in> fl_running f" for t' r'
    using assms(3) that Late_release(3) by (intro release_owner) (auto simp: lease_inv_def)
  with assms(3) show ?thesis by (auto simp: lease_inv_def Late_release(1))
next
  case (Crash t r)
  with assms(3) show ?thesis by (auto simp: lease_inv_def)
next
  case (Tick now)
  with assms(3) show ?thesis by (auto simp: lease_inv_def)
qed

lemma lease_reach_inv: "lease_reach ttl q0 f \<Longrightarrow> 0 < ttl \<Longrightarrow> lease_inv f"
  by (induction rule: lease_reach.induct) (auto simp: lease_inv_def [of "fleet.make _ _ _ _"] lease_inv_step, simp add: lease_inv_def)

text \<open>
  C17 (invariant): no run is executed by two workers at once while leases are renewed in time.
  In every state a fleet reaches from any queue by claims, refusals, renewals, completions,
  late releases and crashes, two executing deliveries of the same run are the same delivery.
  In particular a release that comes after its lease was lost never evicts the new holder.
\<close>

theorem run_executed_once_at_a_time:
  assumes "lease_reach ttl q0 f" "0 < ttl" "(t, r) \<in> fl_running f" "(t', r) \<in> fl_running f"
  shows "t = t'"
proof -
  have "lock_owner (fl_now f) r (fl_queue f) = Some t" "lock_owner (fl_now f) r (fl_queue f) = Some t'"
    using lease_reach_inv [OF assms(1,2)] assms(3,4) unfolding lease_inv_def by blast+
  then show ?thesis by simp
qed

theorem run_executed_once_at_a_time_witness:
  "\<exists>f t t'. lease_reach 120 (wd_queue sample_world) f \<and> (t, ''r'') \<in> fl_running f \<and>
     (t', ''r'') \<in> fl_running f \<and> t = t'"
proof -
  let ?f0 = "\<lparr>fl_now = 0, fl_queue = wd_queue sample_world, fl_running = {}, fl_tokens = {}\<rparr>"
  let ?q = "snd (try_lock True 0 ''r'' ''t'' 120 (wd_queue sample_world))"
  let ?f1 = "?f0\<lparr>fl_queue := ?q, fl_running := insert (''t'', ''r'') (fl_running ?f0),
      fl_tokens := insert ''t'' (fl_tokens ?f0)\<rparr>"
  have "lease_step 120 ?f0 ?f1"
    by (rule lease_step.Claim) (simp_all add: try_lock_def lock_owner_def sample_world_def)
  then have reach: "lease_reach 120 (wd_queue sample_world) ?f1"
    by (rule lease_reach.Step [OF lease_reach.Start])
  have run: "(''t'', ''r'') \<in> fl_running ?f1" by simp
  have eq: "''t'' = ''t''"
    by (rule run_executed_once_at_a_time [OF reach _ run run]) simp
  show ?thesis by (rule exI [of _ ?f1], intro exI conjI) (rule reach run eq)+
qed

section \<open>Renewal\<close>

text \<open>Ticks one interval apart, in quiet, never two in a row that Redis fails to answer.\<close>

fun renewals_fit :: "bool \<Rightarrow> real \<Rightarrow> real \<Rightarrow> env list \<Rightarrow> bool" where
  "renewals_fit prev now step [] = True"
| "renewals_fit prev now step (ev # evs) =
     (ev_now ev = now + step \<and> ev_quiet ev \<and> (prev \<or> ev_up ev Call_renew) \<and>
      renewals_fit (ev_up ev Call_renew) (now + step) step evs)"

lemma renewal_interval_bounds:
  assumes "3 \<le> ws_lock_ttl_s ws"
  shows "0 < renewal_interval ws" "2 * renewal_interval ws < real_of_int (ws_lock_ttl_s ws)"
  using assms by (auto simp: renewal_interval_def max_def)

lemma renew_lease_survives:
  assumes "3 \<le> ws_lock_ttl_s ws" "renewals_fit prev now (renewal_interval ws) evs"
    "rq_locks q r = Some (token, e)"
    "now + real_of_int (ws_lock_ttl_s ws) - (if prev then 0 else renewal_interval ws) \<le> e"
  shows "fst (renew_lease ws r token evs q) \<and>
    (\<exists>e'. rq_locks (snd (renew_lease ws r token evs q)) r = Some (token, e') \<and>
       now + real (length evs) * renewal_interval ws + real_of_int (ws_lock_ttl_s ws)
         - renewal_interval ws \<le> e')"
  using assms(2-4)
proof (induction evs arbitrary: prev now q e)
  case Nil
  then show ?case using renewal_interval_bounds [OF assms(1)] by (auto split: if_splits)
next
  case (Cons ev evs)
  note I = renewal_interval_bounds [OF assms(1)]
  have t: "ev_now ev = now + renewal_interval ws" "ev_quiet ev" "prev \<or> ev_up ev Call_renew"
    and fit: "renewals_fit (ev_up ev Call_renew) (now + renewal_interval ws) (renewal_interval ws) evs"
    using Cons.prems(1) by auto
  have live: "now + renewal_interval ws < e" using Cons.prems(3) I by (auto split: if_splits)
  have shift: "now + real (length (ev # evs)) * renewal_interval ws =
      now + renewal_interval ws + real (length evs) * renewal_interval ws"
    by (simp add: algebra_simps)
  show ?case
  proof (cases "ev_up ev Call_renew")
    case True
    let ?e = "now + renewal_interval ws + real_of_int (ws_lock_ttl_s ws)"
    let ?q = "q\<lparr>rq_locks := (rq_locks q)(r \<mapsto> (token, ?e))\<rparr>"
    have "renew_lock True True (now + renewal_interval ws) r token (ws_lock_ttl_s ws) q = (Some True, ?q)"
      using live Cons.prems(2) assms(1) by (simp add: renew_lock_def lock_owner_def norm_token_def)
    moreover have "rq_locks ?q r = Some (token, ?e)" by simp
    ultimately show ?thesis using Cons.IH [OF fit, of ?q ?e] True t shift by simp
  next
    case False
    then have "renew_lock (ev_up ev Call_renew) (ev_quiet ev) (ev_now ev) r token (ws_lock_ttl_s ws) q = (None, q)"
      using assms(1) by (simp add: renew_lock_def)
    moreover have "prev" using False t(3) by simp
    ultimately show ?thesis using Cons.IH [OF fit Cons.prems(2)] Cons.prems(3) False shift by simp
  qed
qed

text \<open>
  C35 (bounds): the renewal interval leaves room for one lost renewal.  With a lease of at least
  three seconds, renewed every third of it, the loop keeps running and the worker owns the
  lease at every moment up to the next tick, however long the run is, as long as no two
  renewals in a row fail.
\<close>

theorem renewed_lease_survives:
  assumes "3 \<le> ws_lock_ttl_s ws" "try_lock True now r token (ws_lock_ttl_s ws) q = (Some True, q')"
    and "renewals_fit True now (renewal_interval ws) evs" "0 \<le> x" "x \<le> renewal_interval ws"
  shows "fst (renew_lease ws r token evs q') \<and>
    lock_owner (now + real (length evs) * renewal_interval ws + x) r (snd (renew_lease ws r token evs q'))
      = Some token"
proof -
  have "rq_locks q' r = Some (token, now + real_of_int (ws_lock_ttl_s ws))"
    using assms(1,2) by (auto simp: try_lock_def split: if_splits)
  from renew_lease_survives [OF assms(1,3) this] obtain e where
    "fst (renew_lease ws r token evs q')" "rq_locks (snd (renew_lease ws r token evs q')) r = Some (token, e)"
    "now + real (length evs) * renewal_interval ws + real_of_int (ws_lock_ttl_s ws)
         - renewal_interval ws \<le> e" by auto
  then show ?thesis using renewal_interval_bounds [OF assms(1)] assms(4,5) by (simp add: lock_owner_def)
qed

theorem renewed_lease_survives_witness:
  "lock_owner 150 ''r'' (snd (renew_lease sample_ws ''r'' ''t''
      [all_up 40 [], (all_up 80 [])\<lparr>ev_up := \<lambda>_. False\<rparr>, all_up 120 []]
      (snd (try_lock True 0 ''r'' ''t'' 120 (wd_queue sample_world))))) = Some ''t''"
  using renewed_lease_survives [of sample_ws 0 "''r''" "''t''" "wd_queue sample_world"
      "snd (try_lock True 0 ''r'' ''t'' 120 (wd_queue sample_world))"
      "[all_up 40 [], (all_up 80 [])\<lparr>ev_up := \<lambda>_. False\<rparr>, all_up 120 []]" 30]
  by (simp add: sample_defs renewal_interval_def try_lock_def lock_owner_def)

text \<open>
  Fact (bounds): two lost renewals lose the lease.  Three intervals are exactly the lease, so the
  renewal after two that Redis does not answer finds the key expired and the loop ends, while
  the run goes on.
\<close>

theorem two_lost_renewals_lose_lease:
  assumes "3 \<le> ws_lock_ttl_s ws" "try_lock True now r token (ws_lock_ttl_s ws) q = (Some True, q')"
    and "token \<noteq> []" "\<not> ev_up e1 Call_renew" "\<not> ev_up e2 Call_renew" "ev_up e3 Call_renew"
    and "ev_now e3 = now + 3 * renewal_interval ws"
  shows "\<not> fst (renew_lease ws r token [e1, e2, e3] q')"
  using assms
  by (auto simp: renew_lock_def try_lock_def lock_owner_def norm_token_def renewal_interval_def split: if_splits)

theorem two_lost_renewals_lose_lease_witness:
  "\<not> fst (renew_lease sample_ws ''r'' ''t''
      [(all_up 40 [])\<lparr>ev_up := \<lambda>_. False\<rparr>, (all_up 80 [])\<lparr>ev_up := \<lambda>_. False\<rparr>, all_up 120 []]
      (snd (try_lock True 0 ''r'' ''t'' 120 (wd_queue sample_world))))"
  using two_lost_renewals_lose_lease [of sample_ws 0 "''r''" "''t''" "wd_queue sample_world"
      "snd (try_lock True 0 ''r'' ''t'' 120 (wd_queue sample_world))"
      "(all_up 40 [])\<lparr>ev_up := \<lambda>_. False\<rparr>" "(all_up 80 [])\<lparr>ev_up := \<lambda>_. False\<rparr>" "all_up 120 []"]
  by (simp add: sample_defs renewal_interval_def try_lock_def lock_owner_def)

end
