(* ===== verification/Battery.thy ===== *)
theory Battery
  imports Run_Lifecycle
begin

text \<open>
  The nightly battery of \<open>src/src/scheduler/battery.py\<close>: job construction, the dependency
  graph between the goals and the release loop.  The specs come from the golden list and are an
  argument; each pass of the loop sees the clock, the answers of the status store and the
  entries the queue returns (a \<open>pass\<close>).
\<close>

section \<open>Jobs\<close>

record goal_spec =
  gs_spec_id :: string
  gs_goal_text :: string
  gs_max_iterations :: int
  gs_expected_deliverables :: "string list"

record scheduler_settings =
  sc_model :: string
  sc_no_evolution :: bool
  sc_spec_limit :: int
  sc_release_wait_s :: real

definition battery_dependencies :: "(string \<times> string list) list" where
  "battery_dependencies =
     [(''battery04_q02'', [''battery04_q01'']),
      (''battery04_q03'', [''battery04_q01'']),
      (''battery04_q04'', [''battery04_q01'', ''battery04_q02'', ''battery04_q03'']),
      (''battery04_q06'', [''battery04_q05''])]"

definition battery_terminal :: "job_status set" where
  "battery_terminal = {COMPLETED, FAILED, TIMEOUT, BUDGET_EXHAUSTED, CANCELLED}"

definition build_run_id :: "string \<Rightarrow> string \<Rightarrow> string" where
  "build_run_id spec_id date_str = spec_id @ ''-'' @ date_str"

text \<open>\<open>rsplit("-", 1)[0]\<close>.\<close>

definition spec_id_from_run :: "string \<Rightarrow> string" where
  "spec_id_from_run run_id =
     (if CHR ''-'' \<in> set run_id
      then rev (tl (dropWhile (\<lambda>c. c \<noteq> CHR ''-'') (rev run_id))) else run_id)"

definition flat_clear_subdirs :: "goal_spec \<Rightarrow> string list" where
  "flat_clear_subdirs spec =
     sort (remdups
       (map (\<lambda>d. split_on CHR ''/'' d ! 1)
         (filter (\<lambda>d. prefix ''results/'' d \<and> length (split_on CHR ''/'' d) > 2)
           (gs_expected_deliverables spec))))"

definition build_battery_jobs :: "goal_spec list \<Rightarrow> scheduler_settings \<Rightarrow> string \<Rightarrow> run_job list" where
  "build_battery_jobs specs st date_str =
     map (\<lambda>spec. \<lparr>job_run_id = build_run_id (gs_spec_id spec) date_str, job_goal = gs_goal_text spec,
            job_max_iterations = Some (gs_max_iterations spec), job_no_evolution = sc_no_evolution st,
            job_model = (if sc_model st = [] then None else Some (sc_model st)),
            job_run_timeout_s = None, job_results_per_run_subdir = Some False,
            job_clear_flat_subdirs = flat_clear_subdirs spec\<rparr>)
       (if sc_spec_limit st > 0 then take (nat (sc_spec_limit st)) specs else specs)"

section \<open>Release\<close>

text \<open>
  One pass: the answer the status store gives while a spec is considered (\<open>None\<close> also for an
  error), and the entry id an append returns (\<open>None\<close> for an error).
\<close>

record release_pass =
  rp_now :: real
  rp_status :: "string \<Rightarrow> string \<Rightarrow> run_status option"
  rp_enqueue :: "string \<Rightarrow> string option"

definition battery_is_terminal :: "run_status option \<Rightarrow> bool" where
  "battery_is_terminal status =
     (case status of None \<Rightarrow> False | Some st \<Rightarrow> st_status st \<in> battery_terminal)"

definition upstreams :: "string \<Rightarrow> string list" where
  "upstreams spec_id = (case map_of battery_dependencies spec_id of None \<Rightarrow> [] | Some us \<Rightarrow> us)"

definition deps_satisfied :: "release_pass \<Rightarrow> string \<Rightarrow> string \<Rightarrow> bool" where
  "deps_satisfied p spec_id date_str =
     list_all (\<lambda>u. battery_is_terminal (rp_status p spec_id (build_run_id u date_str))) (upstreams spec_id)"

definition enqueue_spec :: "release_pass \<Rightarrow> run_job \<Rightarrow> string" where
  "enqueue_spec p job = (case rp_enqueue p (job_run_id job) of None \<Rightarrow> [] | Some i \<Rightarrow> i)"

text \<open>The released specs in order, each with its entry id (empty when the append failed).\<close>

type_synonym released = "(string \<times> string) list"

fun release_ready :: "string \<Rightarrow> release_pass \<Rightarrow> (string \<times> run_job) list \<Rightarrow> released \<Rightarrow> released" where
  "release_ready date_str p [] out = out"
| "release_ready date_str p ((spec_id, job) # rest) out =
     (if spec_id \<in> fst ` set out then release_ready date_str p rest out
      else if deps_satisfied p spec_id date_str
      then release_ready date_str p rest (out @ [(spec_id, enqueue_spec p job)])
      else release_ready date_str p rest out)"

definition release_rest :: "release_pass \<Rightarrow> (string \<times> run_job) list \<Rightarrow> released \<Rightarrow> released" where
  "release_rest p by_spec out =
     out @ map (\<lambda>(spec_id, job). (spec_id, enqueue_spec p job))
             (filter (\<lambda>(spec_id, _). spec_id \<notin> fst ` set out) by_spec)"

text \<open>
  The polling loop with fuel: \<open>n\<close> is the number of jobs, \<open>None\<close> that the loop still polls.
\<close>

fun release_loop ::
  "nat \<Rightarrow> nat \<Rightarrow> real \<Rightarrow> string \<Rightarrow> (string \<times> run_job) list \<Rightarrow> (nat \<Rightarrow> release_pass) \<Rightarrow> released
    \<Rightarrow> released option" where
  "release_loop 0 n deadline date_str by_spec passes out = (if n \<le> length out then Some out else None)"
| "release_loop (Suc fuel) n deadline date_str by_spec passes out =
     (if n \<le> length out then Some out
      else if deadline \<le> rp_now (passes 0) then Some (release_rest (passes 0) by_spec out)
      else
        let out = release_ready date_str (passes 0) by_spec out
        in if n \<le> length out then Some out
           else release_loop fuel n deadline date_str by_spec (\<lambda>i. passes (Suc i)) out)"

definition by_spec_of :: "run_job list \<Rightarrow> (string \<times> run_job) list" where
  "by_spec_of jobs = fold (\<lambda>job. AList.update (spec_id_from_run (job_run_id job)) job) jobs []"

definition enqueue_battery ::
  "nat \<Rightarrow> scheduler_settings \<Rightarrow> goal_spec list \<Rightarrow> string \<Rightarrow> bool \<Rightarrow> (nat \<Rightarrow> release_pass) \<Rightarrow> released option" where
  "enqueue_battery fuel st specs date_str status_store passes =
     (let jobs = build_battery_jobs specs st date_str;
          by_spec = by_spec_of jobs
      in if \<not> status_store
         then Some (map (\<lambda>job. (spec_id_from_run (job_run_id job), enqueue_spec (passes 0) job)) jobs)
         else
           release_loop fuel (length jobs) (rp_now (passes 0) + sc_release_wait_s st) date_str by_spec
             (\<lambda>i. passes (Suc i)) (release_ready date_str (passes 0) by_spec []))"

section \<open>Run ids\<close>

lemma spec_id_from_build:
  assumes "CHR ''-'' \<notin> set date_str"
  shows "spec_id_from_run (build_run_id spec_id date_str) = spec_id"
proof -
  have "dropWhile (\<lambda>c. c \<noteq> CHR ''-'') (rev date_str @ CHR ''-'' # rev spec_id) = CHR ''-'' # rev spec_id"
    using assms by (subst dropWhile_append2) auto
  then show ?thesis by (simp add: spec_id_from_run_def build_run_id_def)
qed

lemma build_run_id_inj: "build_run_id a d = build_run_id b d \<longleftrightarrow> a = b"
  by (simp add: build_run_id_def)

section \<open>The loop\<close>

definition newly_released :: "string \<Rightarrow> release_pass \<Rightarrow> (string \<times> run_job) list \<Rightarrow> released \<Rightarrow> released \<Rightarrow> bool" where
  "newly_released date_str p by_spec out new =
     ((\<forall>s \<in> fst ` set new. deps_satisfied p s date_str) \<and> fst ` set new \<subseteq> fst ` set by_spec \<and>
      distinct (map fst new) \<and> fst ` set new \<inter> fst ` set out = {})"

lemma release_ready_cases:
  "\<exists>new. release_ready date_str p by_spec out = out @ new \<and> newly_released date_str p by_spec out new"
proof (induction by_spec arbitrary: out)
  case Nil
  then show ?case by (simp add: newly_released_def)
next
  case (Cons x by_spec)
  obtain s job where x: "x = (s, job)" by fastforce
  show ?case
  proof (cases "s \<notin> fst ` set out \<and> deps_satisfied p s date_str")
    case True
    let ?e = "(s, enqueue_spec p job)"
    obtain new where new: "release_ready date_str p by_spec (out @ [?e]) = (out @ [?e]) @ new"
      "newly_released date_str p by_spec (out @ [?e]) new"
      using Cons.IH [of "out @ [?e]"] by blast
    have "newly_released date_str p (x # by_spec) out (?e # new)"
      using new(2) True by (auto simp: newly_released_def x)
    with new(1) True show ?thesis by (intro exI [of _ "?e # new"]) (simp add: x)
  next
    case False
    then have eq: "release_ready date_str p (x # by_spec) out = release_ready date_str p by_spec out"
      by (auto simp: x)
    obtain new where "release_ready date_str p by_spec out = out @ new" "newly_released date_str p by_spec out new"
      using Cons.IH [of out] by blast
    with eq show ?thesis by (intro exI [of _ new]) (auto simp: newly_released_def)
  qed
qed

text \<open>What a release sequence keeps: specs of the dictionary, each at most once.\<close>

definition released_ok :: "(string \<times> run_job) list \<Rightarrow> released \<Rightarrow> bool" where
  "released_ok by_spec out = (distinct (map fst out) \<and> fst ` set out \<subseteq> fst ` set by_spec)"

lemma release_ready_ok: "released_ok by_spec out \<Longrightarrow> released_ok by_spec (release_ready date_str p by_spec out)"
proof -
  assume ok: "released_ok by_spec out"
  obtain new where "release_ready date_str p by_spec out = out @ new" "newly_released date_str p by_spec out new"
    using release_ready_cases by blast
  with ok show ?thesis
    by (simp add: released_ok_def newly_released_def image_Un Int_commute)
qed

lemma release_rest_ok:
  assumes "released_ok by_spec out" "distinct (map fst by_spec)"
  shows "released_ok by_spec (release_rest p by_spec out)"
    and "fst ` set (release_rest p by_spec out) = fst ` set by_spec"
proof -
  let ?f = "filter (\<lambda>(s, _). s \<notin> fst ` set out) by_spec"
  have eq: "map fst (release_rest p by_spec out) = map fst out @ map fst ?f"
    by (auto simp: release_rest_def)
  have "distinct (map fst ?f)" using assms(2) by (rule distinct_map_filter)
  moreover have "fst ` set ?f = fst ` set by_spec - fst ` set out" by force
  ultimately have d: "distinct (map fst (release_rest p by_spec out))"
    using assms(1) unfolding eq by (simp add: released_ok_def)
  have "fst ` set (release_rest p by_spec out) = fst ` set out \<union> fst ` set ?f"
    using arg_cong [OF eq, of set] by (simp add: image_Un)
  then show s: "fst ` set (release_rest p by_spec out) = fst ` set by_spec"
    using assms(1) \<open>fst ` set ?f = _\<close> by (auto simp: released_ok_def)
  show "released_ok by_spec (release_rest p by_spec out)" using d s by (simp add: released_ok_def)
qed

lemma released_all:
  assumes "released_ok by_spec out" "distinct (map fst by_spec)" "length by_spec \<le> length out"
  shows "fst ` set out = fst ` set by_spec"
proof (rule card_subset_eq)
  show "fst ` set out \<subseteq> fst ` set by_spec" using assms(1) by (simp add: released_ok_def)
  have "card (fst ` set out) = length out" "card (fst ` set by_spec) = length by_spec"
    using assms(1,2) distinct_card [of "map fst out"] distinct_card [of "map fst by_spec"]
    by (simp_all add: released_ok_def)
  moreover have "card (fst ` set out) \<le> card (fst ` set by_spec)"
    using assms(1) by (intro card_mono) (auto simp: released_ok_def)
  ultimately show "card (fst ` set out) = card (fst ` set by_spec)" using assms(3) by simp
qed simp

lemma release_loop_cases:
  assumes "release_loop (Suc fuel) n deadline date_str by_spec passes out = Some res"
  obtains "n \<le> length out" "res = out" | "res = release_rest (passes 0) by_spec out"
    | "n \<le> length (release_ready date_str (passes 0) by_spec out)"
      "res = release_ready date_str (passes 0) by_spec out"
    | "release_loop fuel n deadline date_str by_spec (\<lambda>i. passes (Suc i))
         (release_ready date_str (passes 0) by_spec out) = Some res"
  using assms unfolding release_loop.simps Let_def by (metis option.inject)

lemma release_loop_complete:
  assumes "released_ok by_spec out" "distinct (map fst by_spec)" "n = length by_spec"
    "release_loop fuel n deadline date_str by_spec passes out = Some res"
  shows "distinct (map fst res) \<and> fst ` set res = fst ` set by_spec"
  using assms
proof (induction fuel arbitrary: passes out)
  case 0
  then show ?case using released_all by (auto simp: released_ok_def split: if_splits)
next
  case (Suc fuel)
  let ?out = "release_ready date_str (passes 0) by_spec out"
  have ok: "released_ok by_spec ?out" by (rule release_ready_ok [OF Suc.prems(1)])
  from Suc.prems(4) show ?case
  proof (cases rule: release_loop_cases)
    case 1
    then show ?thesis using released_all Suc.prems by (auto simp: released_ok_def)
  next
    case 2
    then show ?thesis using release_rest_ok [OF Suc.prems(1,2)] by (auto simp: released_ok_def)
  next
    case 3
    then show ?thesis using released_all [OF ok] ok Suc.prems by (auto simp: released_ok_def)
  next
    case 4
    then show ?thesis using Suc.IH [OF ok Suc.prems(2,3)] by blast
  qed
qed

lemma release_loop_returns:
  assumes "deadline \<le> rp_now (passes k)" "k < fuel"
  shows "\<exists>res. release_loop fuel n deadline date_str by_spec passes out = Some res"
  using assms
proof (induction fuel arbitrary: k passes out)
  case (Suc fuel)
  show ?case
  proof (cases k)
    case 0
    with Suc.prems show ?thesis by simp
  next
    case (Suc k')
    with Suc.prems Suc.IH [of "\<lambda>i. passes (i + 1)" k'] show ?thesis by (auto simp: Let_def)
  qed
qed simp

section \<open>The jobs as a dictionary\<close>

lemma fold_update_keys:
  "distinct (map fst d) \<Longrightarrow> distinct (map fst (fold (\<lambda>j. AList.update (f j) j) js d)) \<and>
     fst ` set (fold (\<lambda>j. AList.update (f j) j) js d) = fst ` set d \<union> f ` set js"
proof (induction js arbitrary: d)
  case (Cons j js)
  have "distinct (map fst (AList.update (f j) j d))" using Cons.prems by (rule distinct_update)
  moreover have "fst ` set (AList.update (f j) j d) = insert (f j) (fst ` set d)"
    by (simp add: dom_map_of_conv_image_fst [symmetric] update_conv')
  ultimately show ?case using Cons.IH [of "AList.update (f j) j d"] by auto
qed simp

lemma by_spec_of_keys:
  "distinct (map fst (by_spec_of jobs))"
  "fst ` set (by_spec_of jobs) = (\<lambda>j. spec_id_from_run (job_run_id j)) ` set jobs"
  using fold_update_keys [of "[]" "\<lambda>j. spec_id_from_run (job_run_id j)" jobs] by (simp_all add: by_spec_of_def)

definition selected :: "scheduler_settings \<Rightarrow> goal_spec list \<Rightarrow> goal_spec list" where
  "selected st specs = (if sc_spec_limit st > 0 then take (nat (sc_spec_limit st)) specs else specs)"

lemma job_spec_ids:
  assumes "CHR ''-'' \<notin> set date_str"
  shows "map (\<lambda>j. spec_id_from_run (job_run_id j)) (build_battery_jobs specs st date_str) =
    map gs_spec_id (selected st specs)"
  using assms by (simp add: build_battery_jobs_def selected_def o_def spec_id_from_build)

lemma length_by_spec:
  assumes "CHR ''-'' \<notin> set date_str" "distinct (map gs_spec_id (selected st specs))"
  shows "length (by_spec_of (build_battery_jobs specs st date_str)) =
    length (build_battery_jobs specs st date_str)"
proof -
  let ?jobs = "build_battery_jobs specs st date_str"
  have "length (by_spec_of ?jobs) = card (set (map fst (by_spec_of ?jobs)))"
    using distinct_card [OF by_spec_of_keys(1)] by simp
  also have "set (map fst (by_spec_of ?jobs)) = set (map (\<lambda>j. spec_id_from_run (job_run_id j)) ?jobs)"
    using by_spec_of_keys(2) by simp
  also have "card \<dots> = length ?jobs"
    using assms(2) unfolding job_spec_ids [OF assms(1), symmetric] by (subst distinct_card) simp_all
  finally show ?thesis .
qed

section \<open>Properties\<close>

text \<open>
  C25 (termination): the battery is enqueued completely and once.  With a compact date suffix and
  distinct spec ids the release loop returns as soon as a pass sees the deadline, whatever the
  status store and the queue answer, and has then released every selected spec exactly once.
\<close>

theorem battery_released_once:
  assumes "CHR ''-'' \<notin> set date_str" "distinct (map gs_spec_id (selected st specs))"
    and "rp_now (passes 0) + sc_release_wait_s st \<le> rp_now (passes (Suc k))" "k < fuel"
  shows "\<exists>res. enqueue_battery fuel st specs date_str True passes = Some res \<and>
    distinct (map fst res) \<and> fst ` set res = gs_spec_id ` set (selected st specs)"
proof -
  let ?jobs = "build_battery_jobs specs st date_str"
  let ?d = "rp_now (passes 0) + sc_release_wait_s st"
  let ?out = "release_ready date_str (passes 0) (by_spec_of ?jobs) []"
  obtain res where res: "release_loop fuel (length ?jobs) ?d date_str (by_spec_of ?jobs)
      (\<lambda>i. passes (Suc i)) ?out = Some res"
    using release_loop_returns [of ?d "\<lambda>i. passes (Suc i)" k fuel] assms(3,4) by blast
  have "released_ok (by_spec_of ?jobs) ?out" by (rule release_ready_ok) (simp add: released_ok_def)
  from release_loop_complete [OF this by_spec_of_keys(1) length_by_spec [OF assms(1,2), symmetric] res]
  have "distinct (map fst res)" "fst ` set res = fst ` set (by_spec_of ?jobs)" by auto
  moreover have "fst ` set (by_spec_of ?jobs) = set (map gs_spec_id (selected st specs))"
    by (simp only: by_spec_of_keys(2) job_spec_ids [OF assms(1), of specs st, symmetric] set_map)
  ultimately show ?thesis using res by (auto simp: enqueue_battery_def Let_def)
qed

lemma release_loop_respects:
  assumes "\<forall>i. rp_now (passes i) < deadline" "\<forall>s \<in> fst ` set out. P s"
    "\<forall>i s. deps_satisfied (passes i) s date_str \<longrightarrow> P s"
    "release_loop fuel n deadline date_str by_spec passes out = Some res"
  shows "\<forall>s \<in> fst ` set res. P s"
  using assms
proof (induction fuel arbitrary: passes out)
  case 0
  then show ?case by (auto split: if_splits)
next
  case (Suc fuel)
  let ?out = "release_ready date_str (passes 0) by_spec out"
  obtain new where new: "?out = out @ new" "newly_released date_str (passes 0) by_spec out new"
    using release_ready_cases by blast
  have "P s" if "s \<in> fst ` set new" for s
    using new(2) that Suc.prems(3) unfolding newly_released_def by blast
  then have out: "\<forall>s \<in> fst ` set ?out. P s"
    using Suc.prems(2) unfolding new(1) set_append image_Un by blast
  have "\<not> deadline \<le> rp_now (passes 0)" using Suc.prems(1) by (simp add: not_le)
  then have "res = out \<or> res = ?out \<or>
      release_loop fuel n deadline date_str by_spec (\<lambda>i. passes (Suc i)) ?out = Some res"
    using Suc.prems(4) unfolding release_loop.simps Let_def by (metis option.inject)
  moreover have ?case if "release_loop fuel n deadline date_str by_spec (\<lambda>i. passes (Suc i)) ?out = Some res"
    by (rule Suc.IH [OF _ out _ that]) (use Suc.prems(1,3) in auto)
  ultimately show ?case using out Suc.prems(2) by blast
qed

text \<open>
  Fact (safety): before the deadline no goal is released ahead of its upstreams.  If no pass sees
  the deadline, every released spec was released at a pass that read a terminal status for each
  of its upstreams of the same night.
\<close>

theorem battery_respects_dependencies:
  assumes "enqueue_battery fuel st specs date_str True passes = Some res"
    and "\<forall>i. rp_now (passes i) < rp_now (passes 0) + sc_release_wait_s st"
    and "s \<in> fst ` set res" "u \<in> set (upstreams s)"
  shows "\<exists>i r. rp_status (passes i) s (build_run_id u date_str) = Some r \<and> st_status r \<in> battery_terminal"
proof -
  let ?jobs = "build_battery_jobs specs st date_str"
  let ?P = "\<lambda>s. \<exists>i. deps_satisfied (passes i) s date_str"
  let ?out = "release_ready date_str (passes 0) (by_spec_of ?jobs) []"
  obtain new where new: "?out = [] @ new" "newly_released date_str (passes 0) (by_spec_of ?jobs) [] new"
    using release_ready_cases by blast
  have out: "\<forall>s \<in> fst ` set ?out. ?P s" using new unfolding newly_released_def by auto
  have loop: "release_loop fuel (length ?jobs) (rp_now (passes 0) + sc_release_wait_s st) date_str
      (by_spec_of ?jobs) (\<lambda>i. passes (Suc i)) ?out = Some res"
    using assms(1) by (simp add: enqueue_battery_def Let_def)
  have "\<forall>s \<in> fst ` set res. ?P s"
    by (rule release_loop_respects [OF _ out _ loop]) (use assms(2) in auto)
  with assms(3) obtain i where "deps_satisfied (passes i) s date_str" by blast
  with assms(4) show ?thesis
    by (fastforce simp: deps_satisfied_def list_all_iff battery_is_terminal_def split: option.splits)
qed

lemma failing_retry:
  assumes "failing_delivery ws t1 d" "failed_times w r k t1" "job_run_id job = r"
    "k + 1 < ws_dead_letter_max_attempts ws"
  shows "status_of (snd (process ws i job d w)) r = Some FAILED \<and>
    rq_pending (wd_queue (snd (process ws i job d w))) = rq_pending (wd_queue w)"
proof -
  obtain w3 where "status_of w3 r = Some FAILED" "rq_pending (wd_queue w3) = rq_pending (wd_queue w)"
    "process ws i job d w = (Some False, release_run (dv_handler d) r (dv_token d) w3)"
    using process_failing_step [OF assms(1-3), of i] unfolding if_P [OF assms(4)]
    by (elim exE conjE) (rule that)
  then show ?thesis by simp
qed

text \<open>
  Fact (safety): a goal that failed once and will be retried releases its dependents.  While the
  dead-letter cap is not reached the worker marks the run FAILED and leaves its entry pending;
  the release loop counts FAILED as done, so the dependents of the goal may start beside, or
  before, the retry whose output they read.
\<close>

theorem retry_releases_dependents:
  assumes "failing_delivery ws t1 d" "failed_times w (build_run_id ''battery04_q01'' date_str) k t1"
    and "job_run_id job = build_run_id ''battery04_q01'' date_str"
    and "k + 1 < ws_dead_letter_max_attempts ws" "entry_id \<in> rq_pending (wd_queue w)"
    and "w' = snd (process ws entry_id job d w)"
    and "\<forall>s r. rp_status p s r = status_get True r (wd_status w')"
  shows "entry_id \<in> rq_pending (wd_queue w') \<and> deps_satisfied p ''battery04_q02'' date_str \<and>
    deps_satisfied p ''battery04_q03'' date_str"
proof -
  let ?r = "build_run_id ''battery04_q01'' date_str"
  have w': "status_of w' ?r = Some FAILED" "rq_pending (wd_queue w') = rq_pending (wd_queue w)"
    using failing_retry [OF assms(1-4), of entry_id] by (simp_all add: assms(6))
  from w'(1) obtain st where "status_get True ?r (wd_status w') = Some st" "st_status st = FAILED"
    by (auto simp: status_of_def)
  then show ?thesis
    using w' assms(5,7)
    by (simp add: deps_satisfied_def upstreams_def battery_dependencies_def battery_is_terminal_def
        battery_terminal_def)
qed

section \<open>Witnesses\<close>

definition sample_specs :: "goal_spec list" where
  "sample_specs =
     [\<lparr>gs_spec_id = ''battery04_q01'', gs_goal_text = ''a'', gs_max_iterations = 25,
        gs_expected_deliverables = [''results/q01/x.csv'']\<rparr>,
      \<lparr>gs_spec_id = ''battery04_q02'', gs_goal_text = ''b'', gs_max_iterations = 25,
        gs_expected_deliverables = []\<rparr>]"

definition sample_sched :: scheduler_settings where
  "sample_sched = \<lparr>sc_model = [], sc_no_evolution = False, sc_spec_limit = 0, sc_release_wait_s = 10\<rparr>"

definition sample_pass :: "real \<Rightarrow> bool \<Rightarrow> release_pass" where
  "sample_pass now over =
     \<lparr>rp_now = now,
      rp_status = (\<lambda>s r. if over then Some ((new_run_status r [])\<lparr>st_status := COMPLETED\<rparr>) else None),
      rp_enqueue = (\<lambda>r. Some ''1-0'')\<rparr>"

theorem battery_released_once_witness:
  "\<exists>res. enqueue_battery 1 sample_sched sample_specs ''20260101'' True
       (\<lambda>i. sample_pass (20 * real i) False) = Some res \<and>
     fst ` set res = {''battery04_q01'', ''battery04_q02''}"
  using battery_released_once [of "''20260101''" sample_sched sample_specs
      "\<lambda>i. sample_pass (20 * real i) False" 0 1]
  by (auto simp: sample_sched_def sample_specs_def sample_pass_def selected_def)

lemma sample_battery_run:
  "enqueue_battery 1 sample_sched sample_specs ''20260101'' True (\<lambda>i. sample_pass 0 (0 < i)) =
     Some [(''battery04_q01'', ''1-0''), (''battery04_q02'', ''1-0'')]"
  by (simp add: enqueue_battery_def by_spec_of_def build_battery_jobs_def sample_specs_def sample_sched_def
      sample_pass_def spec_id_from_build Let_def deps_satisfied_def upstreams_def battery_dependencies_def
      battery_is_terminal_def enqueue_spec_def battery_terminal_def)

theorem battery_respects_dependencies_witness:
  "\<exists>i r. rp_status (sample_pass 0 (0 < (i::nat))) ''battery04_q02'' (build_run_id ''battery04_q01'' ''20260101'') = Some r \<and>
     st_status r \<in> battery_terminal"
  using battery_respects_dependencies [OF sample_battery_run, of "''battery04_q02''" "''battery04_q01''"]
  by (simp add: sample_pass_def sample_sched_def upstreams_def battery_dependencies_def)

theorem retry_releases_dependents_witness:
  "\<exists>w' :: world. deps_satisfied \<lparr>rp_now = 0, rp_status = \<lambda>s r. status_get True r (wd_status w'), rp_enqueue = \<lambda>_. None\<rparr>
      ''battery04_q02'' ''20260101'' \<and> ''1-0'' \<in> rq_pending (wd_queue w')"
proof -
  let ?job = "sample_job\<lparr>job_run_id := build_run_id ''battery04_q01'' ''20260101''\<rparr>"
  let ?d = "sample_delivery 0 (Raised_other ''boom'')"
  define w' where "w' = snd (process sample_ws ''1-0'' ?job ?d sample_world)"
  have f: "failing_delivery sample_ws 86400 ?d" by (simp add: failing_delivery_def sample_defs)
  have t: "failed_times sample_world (build_run_id ''battery04_q01'' ''20260101'') 0 86400"
    by (simp add: failed_times_def world_ok_def counter_at_def status_of_def sample_defs)
  have "''1-0'' \<in> rq_pending (wd_queue w') \<and>
      deps_satisfied \<lparr>rp_now = 0, rp_status = \<lambda>s r. status_get True r (wd_status w'), rp_enqueue = \<lambda>_. None\<rparr>
        ''battery04_q02'' ''20260101'' \<and>
      deps_satisfied \<lparr>rp_now = 0, rp_status = \<lambda>s r. status_get True r (wd_status w'), rp_enqueue = \<lambda>_. None\<rparr>
        ''battery04_q03'' ''20260101''"
    by (rule retry_releases_dependents [OF f t _ _ _ w'_def]) (simp_all add: sample_ws_def sample_world_def)
  then show ?thesis by (intro exI [of _ w']) simp
qed

end
