(* ===== verification/Tool_Catalog.thy ===== *)
theory Tool_Catalog
  imports Prelude "HOL-Library.Product_Lexorder"
begin

text \<open>
  The persisted catalog of generated tools: \<open>src/src/tools/dynamic/persister.py\<close>.  The tables
  \<open>tool_registrations\<close> (with each tool's \<open>tool_versions\<close>) and \<open>sub_agents\<close> are lists in insertion
  order; a query is a filter, an update a map.  An operation either commits or, when the database
  fails (\<open>ok\<close> false), changes nothing and returns what its handler returns.  Times are seconds;
  the cosine distance of the vector index is the exact cosine.
\<close>

section \<open>Rows\<close>

datatype review_status = Approved | Pending_review | Rejected

record tool_version =
  tv_version :: int
  tv_code :: string
  tv_active :: bool
  tv_status :: review_status

record registration =
  tr_name :: string
  tr_type :: string
  tr_description :: string
  tr_active :: bool
  tr_created :: real
  tr_embedding :: "real list option"
  tr_calls :: int
  tr_success_rate :: real
  tr_empty_output_rate :: real
  tr_versions :: "tool_version list"

record catalog =
  ct_tools :: "registration list"
  ct_subsets :: "(string \<times> string list) list"

definition update_tools :: "(registration \<Rightarrow> bool) \<Rightarrow> (registration \<Rightarrow> registration) \<Rightarrow> catalog \<Rightarrow> catalog" where
  "update_tools p f c = c\<lparr>ct_tools := map (\<lambda>r. if p r then f r else r) (ct_tools c)\<rparr>"

definition get_registration :: "catalog \<Rightarrow> string \<Rightarrow> registration option" where
  "get_registration c name = List.find (\<lambda>r. tr_name r = name) (ct_tools c)"

text \<open>\<open>ORDER BY version DESC LIMIT 1\<close>.\<close>

definition newer_version :: "tool_version \<Rightarrow> tool_version option \<Rightarrow> tool_version option" where
  "newer_version v best =
     (case best of None \<Rightarrow> Some v | Some b \<Rightarrow> if tv_version b < tv_version v then Some v else best)"

definition latest_version :: "tool_version list \<Rightarrow> tool_version option" where
  "latest_version vs = fold newer_version vs None"

definition next_version :: "tool_version list \<Rightarrow> int" where
  "next_version vs = (case latest_version vs of None \<Rightarrow> 1 | Some v \<Rightarrow> tv_version v + 1)"

definition deactivate :: "tool_version \<Rightarrow> tool_version" where
  "deactivate v = v\<lparr>tv_active := False\<rparr>"

definition new_registration :: "string \<Rightarrow> string \<Rightarrow> real list option \<Rightarrow> real \<Rightarrow> tool_version \<Rightarrow> registration" where
  "new_registration name desc emb now v =
     \<lparr>tr_name = name, tr_type = ''generated'', tr_description = desc, tr_active = True, tr_created = now,
      tr_embedding = emb, tr_calls = 0, tr_success_rate = 1, tr_empty_output_rate = 0, tr_versions = [v]\<rparr>"

section \<open>Creating and reviewing\<close>

text \<open>A version bump never replaces a stored embedding by none.\<close>

definition keep_embedding :: "real list option \<Rightarrow> registration \<Rightarrow> registration" where
  "keep_embedding emb r = (if emb = None then r else r\<lparr>tr_embedding := emb\<rparr>)"

definition persist ::
  "bool \<Rightarrow> string \<Rightarrow> string \<Rightarrow> string \<Rightarrow> real list option \<Rightarrow> real \<Rightarrow> catalog \<Rightarrow> bool \<times> catalog" where
  "persist ok name desc code emb now c =
     (if \<not> ok then (False, c)
      else case get_registration c name of
        Some _ \<Rightarrow>
          (True, update_tools (\<lambda>r. tr_name r = name)
             (\<lambda>r. (keep_embedding emb r)\<lparr>tr_active := True,
                tr_versions := map deactivate (tr_versions r) @
                  [\<lparr>tv_version = next_version (tr_versions r), tv_code = code, tv_active = True,
                    tv_status = Approved\<rparr>]\<rparr>) c)
      | None \<Rightarrow>
          (True, c\<lparr>ct_tools := ct_tools c @
             [new_registration name desc emb now
               \<lparr>tv_version = 1, tv_code = code, tv_active = True, tv_status = Approved\<rparr>]\<rparr>))"

definition submit_pending_version ::
  "bool \<Rightarrow> string \<Rightarrow> string \<Rightarrow> string \<Rightarrow> real list option \<Rightarrow> real \<Rightarrow> catalog \<Rightarrow> bool \<times> catalog" where
  "submit_pending_version ok name desc code emb now c =
     (if \<not> ok then (False, c)
      else case get_registration c name of
        Some _ \<Rightarrow>
          (True, update_tools (\<lambda>r. tr_name r = name)
             (\<lambda>r. (keep_embedding emb r)\<lparr>tr_description := desc,
                tr_versions := tr_versions r @
                  [\<lparr>tv_version = next_version (tr_versions r), tv_code = code, tv_active = False,
                    tv_status = Pending_review\<rparr>]\<rparr>) c)
      | None \<Rightarrow>
          (True, c\<lparr>ct_tools := ct_tools c @
             [new_registration name desc emb now
               \<lparr>tv_version = 1, tv_code = code, tv_active = False, tv_status = Pending_review\<rparr>]\<rparr>))"

definition pending_of :: "registration \<Rightarrow> tool_version option" where
  "pending_of r = latest_version (filter (\<lambda>v. tv_status v = Pending_review) (tr_versions r))"

text \<open>\<open>Some n\<close>: version \<open>n\<close> was approved.\<close>

definition approve_pending :: "bool \<Rightarrow> string \<Rightarrow> catalog \<Rightarrow> int option \<times> catalog" where
  "approve_pending ok name c =
     (if \<not> ok then (None, c)
      else case get_registration c name of
        None \<Rightarrow> (None, c)
      | Some r \<Rightarrow>
          (case pending_of r of
             None \<Rightarrow> (None, c)
           | Some p \<Rightarrow>
               (Some (tv_version p),
                update_tools (\<lambda>r. tr_name r = name)
                  (\<lambda>r. r\<lparr>tr_versions := map (\<lambda>v.
                     if tv_version v = tv_version p then v\<lparr>tv_status := Approved, tv_active := True\<rparr>
                     else deactivate v) (tr_versions r)\<rparr>) c)))"

definition reject_pending :: "bool \<Rightarrow> string \<Rightarrow> catalog \<Rightarrow> bool \<times> catalog" where
  "reject_pending ok name c =
     (if \<not> ok then (False, c)
      else case get_registration c name of
        None \<Rightarrow> (False, c)
      | Some r \<Rightarrow>
          (case pending_of r of
             None \<Rightarrow> (False, c)
           | Some p \<Rightarrow>
               (True, update_tools (\<lambda>r. tr_name r = name)
                  (\<lambda>r. r\<lparr>tr_versions := map (\<lambda>v.
                     if tv_version v = tv_version p then v\<lparr>tv_status := Rejected\<rparr> else v)
                     (tr_versions r)\<rparr>) c)))"

section \<open>Similarity\<close>

definition dot :: "real list \<Rightarrow> real list \<Rightarrow> real" where
  "dot u v = (\<Sum>(a, b) \<leftarrow> zip u v. a * b)"

definition cosine :: "real list \<Rightarrow> real list \<Rightarrow> real" where
  "cosine u v =
     (if dot u u = 0 \<or> dot v v = 0 then 0 else dot u v / (sqrt (dot u u) * sqrt (dot v v)))"

text \<open>The index answers with the nearest active embedded tools; names with their similarity.\<close>

definition find_similar :: "bool \<Rightarrow> real list \<Rightarrow> real \<Rightarrow> nat \<Rightarrow> catalog \<Rightarrow> (string \<times> real) list" where
  "find_similar ok emb threshold limit c =
     (if \<not> ok then []
      else filter (\<lambda>(_, s). threshold \<le> s)
        (take limit
          (sort_key (\<lambda>(_, s). - s)
            (map (\<lambda>r. (tr_name r, case tr_embedding r of None \<Rightarrow> 0 | Some e \<Rightarrow> cosine e emb))
              (filter (\<lambda>r. tr_embedding r \<noteq> None \<and> tr_active r) (ct_tools c))))))"

section \<open>Retirement\<close>

text \<open>Tools created within the protection window are spared.\<close>

definition retire :: "bool \<Rightarrow> real \<Rightarrow> real \<Rightarrow> string list \<Rightarrow> catalog \<Rightarrow> nat \<times> catalog" where
  "retire ok window now names c =
     (if names = [] \<or> \<not> ok then (0, c)
      else
        let protected = (if window > 0
              then map tr_name (filter (\<lambda>r. tr_name r \<in> set names \<and> now - window \<le> tr_created r) (ct_tools c))
              else []);
            retire_names = filter (\<lambda>n. n \<notin> set protected) names
        in if retire_names = [] then (0, c)
           else (length retire_names,
                 update_tools (\<lambda>r. tr_name r \<in> set retire_names) (\<lambda>r. r\<lparr>tr_active := False\<rparr>) c))"

definition merge_alias :: "bool \<Rightarrow> string \<Rightarrow> string \<Rightarrow> catalog \<Rightarrow> nat \<times> catalog" where
  "merge_alias ok source target c =
     (if source = [] \<or> source = target \<or> \<not> ok then (0, c)
      else
        (length (filter (\<lambda>(_, ts). source \<in> set ts) (ct_subsets c)),
         c\<lparr>ct_subsets := map (\<lambda>(a, ts).
             (a, if source \<in> set ts then dedup {} (map (\<lambda>t. if t = source then target else t) ts) else ts))
             (ct_subsets c)\<rparr>))"

definition live_generated :: "registration \<Rightarrow> bool" where
  "live_generated r = (tr_active r \<and> tr_type r = ''generated'')"

record 's cap_row =
  cr_name :: string
  cr_embedding :: "real list option"
  cr_score :: 's

definition active_tool_capability_rows :: "catalog \<Rightarrow> (int \<times> real) cap_row list" where
  "active_tool_capability_rows c =
     map (\<lambda>r. \<lparr>cr_name = tr_name r, cr_embedding = tr_embedding r,
            cr_score = ((case latest_version (tr_versions r) of None \<Rightarrow> 1
                         | Some v \<Rightarrow> if tv_version v = 0 then 1 else tv_version v), tr_created r)\<rparr>)
       (filter live_generated (ct_tools c))"

text \<open>The loops of \<open>retire_redundant\<close>: one row against the later ones, then every row.\<close>

fun redundant_against ::
  "real \<Rightarrow> string \<Rightarrow> real list \<Rightarrow> 's :: linorder \<Rightarrow> 's cap_row list \<Rightarrow> string set \<Rightarrow> string set" where
  "redundant_against threshold a ea sa [] retired = retired"
| "redundant_against threshold a ea sa (b # bs) retired =
     redundant_against threshold a ea sa bs
       (case cr_embedding b of
          None \<Rightarrow> retired
        | Some eb \<Rightarrow>
            if cr_name b \<in> retired then retired
            else if threshold \<le> cosine ea eb
            then insert (if sa < cr_score b then a else cr_name b) retired
            else retired)"

fun redundant_rows :: "real \<Rightarrow> 's :: linorder cap_row list \<Rightarrow> string set \<Rightarrow> string set" where
  "redundant_rows threshold [] retired = retired"
| "redundant_rows threshold (a # rows) retired =
     redundant_rows threshold rows
       (case cr_embedding a of
          None \<Rightarrow> retired
        | Some ea \<Rightarrow>
            if cr_name a \<in> retired then retired
            else redundant_against threshold (cr_name a) ea (cr_score a) rows retired)"

definition retire_redundant :: "bool \<Rightarrow> real \<Rightarrow> real \<Rightarrow> real \<Rightarrow> catalog \<Rightarrow> string set \<times> catalog" where
  "retire_redundant ok window now threshold c =
     (if \<not> ok then ({}, c)
      else
        let rows = active_tool_capability_rows c;
            retired = redundant_rows threshold rows {};
            names = sort (remdups (filter (\<lambda>n. n \<in> retired) (map cr_name rows)))
        in (retired, if names = [] then c else snd (retire ok window now names c)))"

text \<open>Newest first; what lies beyond the cap is retired.\<close>

definition retire_excess_tools :: "bool \<Rightarrow> int \<Rightarrow> catalog \<Rightarrow> nat \<times> catalog" where
  "retire_excess_tools ok max_active c =
     (if \<not> ok then (0, c)
      else
        let newest = rev (sort_key tr_created (rev (filter live_generated (ct_tools c))));
            k = (if 0 \<le> max_active then nat max_active else length newest - nat (- max_active));
            excess = map tr_name (drop k newest)
        in if excess = [] then (0, c)
           else (length excess, update_tools (\<lambda>r. tr_name r \<in> set excess) (\<lambda>r. r\<lparr>tr_active := False\<rparr>) c))"

definition underperforming_tools :: "bool \<Rightarrow> int \<Rightarrow> real \<Rightarrow> real option \<Rightarrow> catalog \<Rightarrow> string list" where
  "underperforming_tools ok min_runs success_floor empty_floor c =
     (if \<not> ok then []
      else sort (map tr_name (filter (\<lambda>r. live_generated r \<and> min_runs \<le> tr_calls r \<and>
        (tr_success_rate r < success_floor \<or>
         (case empty_floor of None \<Rightarrow> False | Some e \<Rightarrow> e \<le> tr_empty_output_rate r))) (ct_tools c))))"

definition retire_underperforming ::
  "bool \<Rightarrow> real \<Rightarrow> real \<Rightarrow> int \<Rightarrow> real \<Rightarrow> real option \<Rightarrow> catalog \<Rightarrow> nat \<times> catalog" where
  "retire_underperforming ok window now min_runs success_floor empty_floor c =
     (let names = underperforming_tools ok min_runs success_floor empty_floor c
      in if names = [] then (0, c) else retire ok window now names c)"

definition unused_tools :: "bool \<Rightarrow> real \<Rightarrow> int \<Rightarrow> int \<Rightarrow> catalog \<Rightarrow> string list" where
  "unused_tools ok now min_age_days max_calls c =
     (if min_age_days \<le> 0 \<or> \<not> ok then []
      else sort (map tr_name (filter (\<lambda>r. live_generated r \<and> tr_calls r \<le> max_calls \<and>
        tr_created r < now - 86400 * real_of_int min_age_days) (ct_tools c))))"

definition retire_unused :: "bool \<Rightarrow> real \<Rightarrow> real \<Rightarrow> int \<Rightarrow> int \<Rightarrow> catalog \<Rightarrow> nat \<times> catalog" where
  "retire_unused ok window now min_age_days max_calls c =
     (let names = unused_tools ok now min_age_days max_calls c
      in if names = [] then (0, c) else retire ok window now names c)"

section \<open>Loading\<close>

record tool_settings =
  ts_redundancy_threshold :: real
  ts_max_active_tools :: int
  ts_retire_min_runs :: int
  ts_retire_success_floor :: real
  ts_retire_empty_output_floor :: "real option"
  ts_protection_window :: real
  ts_retire_unused_days :: int
  ts_retire_unused_max_calls :: int

definition live_version :: "registration \<Rightarrow> tool_version option" where
  "live_version r = latest_version (filter (\<lambda>v. tv_active v \<and> tv_status v = Approved) (tr_versions r))"

text \<open>
  The registered tools with the code of their handler; \<open>materializes\<close> says whether the source
  yields a handler.
\<close>

definition load_tools :: "(string \<Rightarrow> bool) \<Rightarrow> catalog \<Rightarrow> (string \<times> string) list" where
  "load_tools materializes c =
     List.map_filter (\<lambda>r. if \<not> live_generated r then None
       else case live_version r of
         None \<Rightarrow> None
       | Some v \<Rightarrow> if materializes (tv_code v) then Some (tr_name r, tv_code v) else None) (ct_tools c)"

definition load_active_tools ::
  "bool \<Rightarrow> real \<Rightarrow> tool_settings option \<Rightarrow> (string \<Rightarrow> bool) \<Rightarrow> catalog \<Rightarrow> (string \<times> string) list \<times> catalog" where
  "load_active_tools ok now settings materializes c =
     (let c = (case settings of
          None \<Rightarrow> c
        | Some s \<Rightarrow>
            (let c = snd (retire_redundant ok (ts_protection_window s) now (ts_redundancy_threshold s) c);
                 c = snd (retire_excess_tools ok (ts_max_active_tools s) c)
             in snd (retire_underperforming ok (ts_protection_window s) now (ts_retire_min_runs s)
                       (ts_retire_success_floor s) (ts_retire_empty_output_floor s) c)))
      in (if ok then load_tools materializes c else [], c))"

section \<open>Versions\<close>

lemma fold_newer:
  "fold newer_version vs b = Some v \<Longrightarrow>
     (v \<in> set vs \<or> b = Some v) \<and> (\<forall>w \<in> set vs. tv_version w \<le> tv_version v) \<and>
     (\<forall>w. b = Some w \<longrightarrow> tv_version w \<le> tv_version v)"
proof (induction vs arbitrary: b)
  case (Cons x vs)
  have IH: "(v \<in> set vs \<or> newer_version x b = Some v) \<and> (\<forall>w \<in> set vs. tv_version w \<le> tv_version v) \<and>
     (\<forall>w. newer_version x b = Some w \<longrightarrow> tv_version w \<le> tv_version v)"
    by (rule Cons.IH) (use Cons.prems in simp)
  then show ?case by (cases b) (auto simp: newer_version_def split: if_splits)
qed simp

lemma fold_newer_None: "fold newer_version vs b = None \<longleftrightarrow> vs = [] \<and> b = None"
proof (induction vs arbitrary: b)
  case (Cons x vs)
  have "newer_version x b \<noteq> None" by (cases b) (auto simp: newer_version_def)
  with Cons.IH show ?case by simp
qed simp

lemma latest_version_None [simp]: "latest_version vs = None \<longleftrightarrow> vs = []"
  by (simp add: latest_version_def fold_newer_None)

lemma latest_versionD:
  assumes "latest_version vs = Some v"
  shows "v \<in> set vs" "w \<in> set vs \<Longrightarrow> tv_version w \<le> tv_version v"
  using fold_newer [of vs None v] assms by (auto simp: latest_version_def)

lemma next_version_above: "v \<in> set vs \<Longrightarrow> tv_version v < next_version vs"
  using latest_versionD(2) [of vs _ v]
  by (cases "latest_version vs") (auto simp: next_version_def intro: le_less_trans)

text \<open>At most one version is live, live versions are approved, and numbers are not reused.\<close>

definition versions_ok :: "tool_version list \<Rightarrow> bool" where
  "versions_ok vs =
     (distinct (map tv_version vs) \<and> (\<forall>v \<in> set vs. tv_active v \<longrightarrow> tv_status v = Approved) \<and>
      length (filter tv_active vs) \<le> 1)"

definition catalog_ok :: "catalog \<Rightarrow> bool" where
  "catalog_ok c = (distinct (map tr_name (ct_tools c)) \<and> (\<forall>r \<in> set (ct_tools c). versions_ok (tr_versions r)))"

lemma deactivate_simps [simp]:
  "tv_version (deactivate v) = tv_version v" "tv_code (deactivate v) = tv_code v"
  "tv_status (deactivate v) = tv_status v" "tv_active (deactivate v) = False"
  by (simp_all add: deactivate_def)

lemma map_version_deactivate [simp]: "map tv_version (map deactivate vs) = map tv_version vs"
  by simp

lemma filter_deactivate [simp]: "filter tv_active (map deactivate vs) = []"
  by (induction vs) auto

lemma versions_ok_append:
  assumes "versions_ok vs" "\<forall>w \<in> set vs. tv_version w < tv_version v"
    "tv_active v \<longrightarrow> tv_status v = Approved \<and> filter tv_active vs = []"
  shows "versions_ok (vs @ [v])"
  using assms by (auto simp: versions_ok_def)

lemma versions_ok_deactivate: "versions_ok vs \<Longrightarrow> versions_ok (map deactivate vs)"
  by (auto simp: versions_ok_def simp del: map_map)

lemma distinct_filter_le1: "distinct (map f xs) \<Longrightarrow> length (filter (\<lambda>x. f x = k) xs) \<le> 1"
proof (induction xs)
  case (Cons x xs)
  show ?case
  proof (cases "f x = k")
    case True
    then have "filter (\<lambda>x. f x = k) xs = []" using Cons.prems by (auto simp: filter_empty_conv image_iff)
    with True show ?thesis by simp
  qed (use Cons in simp)
qed simp

lemma versions_ok_approve:
  assumes "versions_ok vs"
  shows "versions_ok (map (\<lambda>v. if tv_version v = n then v\<lparr>tv_status := Approved, tv_active := True\<rparr>
    else deactivate v) vs)" (is "versions_ok (map ?f vs)")
proof -
  have v: "map tv_version (map ?f vs) = map tv_version vs" by simp
  have "filter tv_active (map ?f vs) = map ?f (filter (\<lambda>v. tv_version v = n) vs)"
    by (induction vs) auto
  moreover have "length (filter (\<lambda>v. tv_version v = n) vs) \<le> 1"
    using assms by (intro distinct_filter_le1) (simp add: versions_ok_def)
  ultimately show ?thesis using assms v by (auto simp: versions_ok_def simp del: map_map)
qed

lemma versions_ok_reject:
  assumes "versions_ok vs" "\<forall>v \<in> set vs. tv_version v = n \<longrightarrow> \<not> tv_active v"
  shows "versions_ok (map (\<lambda>v. if tv_version v = n then v\<lparr>tv_status := Rejected\<rparr> else v) vs)" (is "versions_ok (map ?f vs)")
proof -
  have v: "map tv_version (map ?f vs) = map tv_version vs" by simp
  have "length (filter tv_active (map ?f vs)) = length (filter tv_active vs)"
    by (induction vs) auto
  with assms v show ?thesis by (auto simp: versions_ok_def simp del: map_map)
qed

section \<open>Registrations\<close>

lemma update_tools_ok:
  assumes "catalog_ok c" "\<And>r. p r \<Longrightarrow> tr_name (f r) = tr_name r"
    "\<And>r. r \<in> set (ct_tools c) \<Longrightarrow> p r \<Longrightarrow> versions_ok (tr_versions r) \<Longrightarrow> versions_ok (tr_versions (f r))"
  shows "catalog_ok (update_tools p f c)"
proof -
  have "map tr_name (map (\<lambda>r. if p r then f r else r) xs) = map tr_name xs" for xs
    using assms(2) by simp
  with assms show ?thesis by (auto simp: catalog_ok_def update_tools_def simp del: map_map)
qed

lemma find_Some: "List.find p xs = Some x \<Longrightarrow> x \<in> set xs \<and> p x"
  by (induction xs) (auto split: if_splits)

lemma find_None: "List.find p xs = None \<longleftrightarrow> (\<forall>x \<in> set xs. \<not> p x)"
  by (induction xs) auto

lemma get_registrationD: "get_registration c name = Some r \<Longrightarrow> r \<in> set (ct_tools c) \<and> tr_name r = name"
  using find_Some by (fastforce simp: get_registration_def)

lemma get_registration_None: "get_registration c name = None \<longleftrightarrow> name \<notin> tr_name ` set (ct_tools c)"
  by (auto simp: get_registration_def find_None)

lemma catalog_unique:
  "catalog_ok c \<Longrightarrow> r \<in> set (ct_tools c) \<Longrightarrow> r' \<in> set (ct_tools c) \<Longrightarrow> tr_name r = tr_name r' \<Longrightarrow> r = r'"
  by (auto simp: catalog_ok_def distinct_map inj_on_def)

lemma keep_embedding_simps [simp]:
  "tr_name (keep_embedding e r) = tr_name r" "tr_versions (keep_embedding e r) = tr_versions r"
  "tr_active (keep_embedding e r) = tr_active r" "tr_type (keep_embedding e r) = tr_type r"
  by (simp_all add: keep_embedding_def)

lemma new_registration_simps [simp]:
  "tr_name (new_registration n d e t v) = n" "tr_versions (new_registration n d e t v) = [v]"
  "tr_active (new_registration n d e t v)" "tr_type (new_registration n d e t v) = ''generated''"
  "tr_embedding (new_registration n d e t v) = e"
  by (simp_all add: new_registration_def)

lemma catalog_ok_add:
  "catalog_ok c \<Longrightarrow> get_registration c name = None \<Longrightarrow> versions_ok [v] \<Longrightarrow>
     catalog_ok (c\<lparr>ct_tools := ct_tools c @ [new_registration name d e t v]\<rparr>)"
  by (auto simp: catalog_ok_def get_registration_None)

lemma pending_ofD:
  assumes "pending_of r = Some p"
  shows "p \<in> set (tr_versions r)" "tv_status p = Pending_review"
  using latest_versionD(1) [of "filter (\<lambda>v. tv_status v = Pending_review) (tr_versions r)" p] assms
  by (auto simp: pending_of_def)

text \<open>The operations of the catalog, to state what all of them keep.\<close>

datatype catalog_op =
    Op_persist string string string "real list option" real
  | Op_submit string string string "real list option" real
  | Op_approve string
  | Op_reject string
  | Op_retire real real "string list"
  | Op_merge string string
  | Op_load real tool_settings

fun catalog_do :: "bool \<Rightarrow> catalog_op \<Rightarrow> catalog \<Rightarrow> catalog" where
  "catalog_do ok (Op_persist n d code e now) c = snd (persist ok n d code e now c)"
| "catalog_do ok (Op_submit n d code e now) c = snd (submit_pending_version ok n d code e now c)"
| "catalog_do ok (Op_approve n) c = snd (approve_pending ok n c)"
| "catalog_do ok (Op_reject n) c = snd (reject_pending ok n c)"
| "catalog_do ok (Op_retire window now names) c = snd (retire ok window now names c)"
| "catalog_do ok (Op_merge a b) c = snd (merge_alias ok a b c)"
| "catalog_do ok (Op_load now st) c = snd (load_active_tools ok now (Some st) (\<lambda>_. True) c)"

lemma persist_ok: "catalog_ok c \<Longrightarrow> catalog_ok (snd (persist ok n d code e now c))"
  by (auto simp: persist_def next_version_above versions_ok_deactivate versions_ok_def [of "[_]"]
      split: option.split intro!: update_tools_ok catalog_ok_add versions_ok_append)

lemma submit_ok: "catalog_ok c \<Longrightarrow> catalog_ok (snd (submit_pending_version ok n d code e now c))"
  by (auto simp: submit_pending_version_def next_version_above versions_ok_def [of "[_]"]
      split: option.split intro!: update_tools_ok catalog_ok_add versions_ok_append)

lemma approve_ok: "catalog_ok c \<Longrightarrow> catalog_ok (snd (approve_pending ok n c))"
  by (auto simp: approve_pending_def versions_ok_approve split: option.split intro!: update_tools_ok)

lemma reject_ok:
  assumes "catalog_ok c"
  shows "catalog_ok (snd (reject_pending ok n c))"
proof (cases "ok \<and> (\<exists>r p. get_registration c n = Some r \<and> pending_of r = Some p)")
  case True
  then obtain r p where r: "get_registration c n = Some r" and p: "pending_of r = Some p" by blast
  have rin: "r \<in> set (ct_tools c)" "tr_name r = n" using get_registrationD [OF r] by auto
  have vok: "versions_ok (tr_versions r)" using assms rin by (simp add: catalog_ok_def)
  have "\<not> tv_active v" if "v \<in> set (tr_versions r)" "tv_version v = tv_version p" for v
  proof -
    have "v = p" using vok pending_ofD(1) [OF p] that by (auto simp: versions_ok_def distinct_map inj_on_def)
    then show ?thesis using vok pending_ofD [OF p] by (auto simp: versions_ok_def)
  qed
  moreover have "x = r" if "x \<in> set (ct_tools c)" "tr_name x = n" for x
    using catalog_unique [OF assms that(1) rin(1)] that(2) rin(2) by simp
  ultimately show ?thesis
    using True r p assms
    by (auto simp: reject_pending_def intro!: update_tools_ok versions_ok_reject)
next
  case False
  then have "snd (reject_pending ok n c) = c"
    by (auto simp: reject_pending_def split: option.splits)
  with assms show ?thesis by simp
qed

lemma retire_ok: "catalog_ok c \<Longrightarrow> catalog_ok (snd (retire ok window now names c))"
  by (auto simp: retire_def Let_def intro!: update_tools_ok)

lemma merge_ok: "catalog_ok c \<Longrightarrow> catalog_ok (snd (merge_alias ok a b c))"
  by (simp add: merge_alias_def catalog_ok_def)

lemma retire_redundant_ok: "catalog_ok c \<Longrightarrow> catalog_ok (snd (retire_redundant ok window now th c))"
  by (simp add: retire_redundant_def Let_def retire_ok)

lemma retire_excess_ok: "catalog_ok c \<Longrightarrow> catalog_ok (snd (retire_excess_tools ok n c))"
  by (auto simp: retire_excess_tools_def Let_def intro!: update_tools_ok)

lemma load_ok: "catalog_ok c \<Longrightarrow> catalog_ok (snd (load_active_tools ok now st m c))"
  by (auto simp: load_active_tools_def Let_def retire_underperforming_def retire_ok retire_redundant_ok
      retire_excess_ok split: option.split)

lemma catalog_do_ok: "catalog_ok c \<Longrightarrow> catalog_ok (catalog_do ok op c)"
  by (cases op) (simp_all add: persist_ok submit_ok approve_ok reject_ok retire_ok merge_ok load_ok)

text \<open>
  C31 (invariant): a tool never has two live versions.  Every sequence of catalog operations,
  failing ones included, keeps tool names and version numbers unique, at most one live version
  per tool, and only approved versions live.
\<close>

theorem catalog_invariant:
  "catalog_ok c \<Longrightarrow> catalog_ok (fold (\<lambda>(ok, op). catalog_do ok op) ops c)"
  by (induction ops arbitrary: c) (auto simp: catalog_do_ok)

section \<open>What the review does to the live code\<close>

lemma get_registration_update:
  assumes "\<And>r. tr_name (f r) = tr_name r"
  shows "get_registration (update_tools (\<lambda>r. tr_name r = name) f c) name = map_option f (get_registration c name)"
proof -
  have "List.find (\<lambda>r. tr_name r = name) (map (\<lambda>r. if tr_name r = name then f r else r) xs) =
      map_option f (List.find (\<lambda>r. tr_name r = name) xs)" for xs
    by (induction xs) (auto simp: assms)
  then show ?thesis by (simp add: get_registration_def update_tools_def)
qed

lemma get_registration_add:
  "get_registration c (tr_name r) = None \<Longrightarrow>
     get_registration (c\<lparr>ct_tools := ct_tools c @ [r]\<rparr>) (tr_name r) = Some r"
proof -
  have "List.find (\<lambda>x. tr_name x = n) xs = None \<Longrightarrow> List.find (\<lambda>x. tr_name x = n) (xs @ [r]) =
      (if tr_name r = n then Some r else None)" for xs n
    by (induction xs) (auto split: if_splits)
  then show "get_registration c (tr_name r) = None \<Longrightarrow>
     get_registration (c\<lparr>ct_tools := ct_tools c @ [r]\<rparr>) (tr_name r) = Some r"
    by (simp add: get_registration_def)
qed

definition versions_of :: "catalog \<Rightarrow> string \<Rightarrow> tool_version list" where
  "versions_of c name = (case get_registration c name of None \<Rightarrow> [] | Some r \<Rightarrow> tr_versions r)"

text \<open>The tool is new or was generated.\<close>

definition generated_name :: "catalog \<Rightarrow> string \<Rightarrow> bool" where
  "generated_name c name =
     (case get_registration c name of None \<Rightarrow> True | Some r \<Rightarrow> tr_type r = ''generated'')"

lemma next_version_Nil [simp]: "next_version [] = 1"
  by (simp add: next_version_def latest_version_def)

lemma submit_registration:
  assumes "generated_name c name"
  shows "\<exists>r. get_registration (snd (submit_pending_version True name desc code emb now c)) name = Some r \<and>
    tr_type r = ''generated'' \<and>
    tr_active r = (case get_registration c name of None \<Rightarrow> True | Some r \<Rightarrow> tr_active r) \<and>
    tr_versions r = versions_of c name @
      [\<lparr>tv_version = next_version (versions_of c name), tv_code = code, tv_active = False,
        tv_status = Pending_review\<rparr>]"
proof (cases "get_registration c name")
  case None
  with get_registration_add [of c "new_registration name desc emb now
      \<lparr>tv_version = 1, tv_code = code, tv_active = False, tv_status = Pending_review\<rparr>"]
  show ?thesis by (simp add: submit_pending_version_def versions_of_def)
next
  case (Some r)
  with assms show ?thesis
    by (simp add: submit_pending_version_def versions_of_def generated_name_def get_registration_update)
qed

lemma persist_registration:
  assumes "generated_name c name"
  shows "\<exists>r. get_registration (snd (persist True name desc code emb now c)) name = Some r \<and>
    tr_type r = ''generated'' \<and> tr_active r \<and>
    tr_versions r = map deactivate (versions_of c name) @
      [\<lparr>tv_version = next_version (versions_of c name), tv_code = code, tv_active = True,
        tv_status = Approved\<rparr>]"
proof (cases "get_registration c name")
  case None
  with get_registration_add [of c "new_registration name desc emb now
      \<lparr>tv_version = 1, tv_code = code, tv_active = True, tv_status = Approved\<rparr>"]
  show ?thesis by (simp add: persist_def versions_of_def)
next
  case (Some r)
  with assms show ?thesis
    by (simp add: persist_def versions_of_def generated_name_def get_registration_update)
qed

lemma mem_map_filter: "y \<in> set (List.map_filter f xs) \<longleftrightarrow> (\<exists>x \<in> set xs. f x = Some y)"
  by (induction xs) (auto simp: List.map_filter_simps split: option.split)

lemma load_tools_iff:
  "(n, code) \<in> set (load_tools m c) \<longleftrightarrow>
     (\<exists>r \<in> set (ct_tools c). live_generated r \<and> tr_name r = n \<and>
        (\<exists>v. live_version r = Some v \<and> m (tv_code v) \<and> tv_code v = code))"
  by (auto simp: load_tools_def mem_map_filter split: option.splits if_splits)

lemma load_tools_registration:
  assumes "catalog_ok c" "get_registration c n = Some r"
  shows "(n, code) \<in> set (load_tools m c) \<longleftrightarrow>
    live_generated r \<and> (\<exists>v. live_version r = Some v \<and> m (tv_code v) \<and> tv_code v = code)"
proof -
  have r: "r \<in> set (ct_tools c)" "tr_name r = n" using get_registrationD [OF assms(2)] by auto
  have u: "x = r" if "x \<in> set (ct_tools c)" "tr_name x = n" for x
    using catalog_unique [OF assms(1) that(1) r(1)] that(2) r(2) by simp
  show ?thesis
  proof
    assume "(n, code) \<in> set (load_tools m c)"
    then obtain x v where x: "x \<in> set (ct_tools c)" "tr_name x = n" "live_generated x"
        "live_version x = Some v" "m (tv_code v)" "tv_code v = code"
      unfolding load_tools_iff by blast
    with u [OF x(1,2)] show "live_generated r \<and> (\<exists>v. live_version r = Some v \<and> m (tv_code v) \<and> tv_code v = code)"
      by simp
  next
    assume "live_generated r \<and> (\<exists>v. live_version r = Some v \<and> m (tv_code v) \<and> tv_code v = code)"
    with r show "(n, code) \<in> set (load_tools m c)" unfolding load_tools_iff by blast
  qed
qed

lemma latest_single [simp]: "latest_version [v] = Some v"
  by (simp add: latest_version_def newer_version_def)

lemma latest_append: "latest_version (vs @ [v]) = newer_version v (latest_version vs)"
  by (simp add: latest_version_def)

lemma live_version_filter:
  "filter (\<lambda>v. tv_active v \<and> tv_status v = Approved) (tr_versions r) = [v] \<Longrightarrow> live_version r = Some v"
  by (simp add: live_version_def)

lemma filter_dead [simp]: "filter (\<lambda>v. tv_active v \<and> P v) (map deactivate vs) = []"
  by (induction vs) auto

lemma pending_submitted:
  assumes "filter (\<lambda>v. tv_status v = Pending_review) (tr_versions r) = ps @ [p]"
    "\<forall>q \<in> set ps. tv_version q < tv_version p"
  shows "pending_of r = Some p"
  using assms latest_versionD(1) [of ps]
  by (cases "latest_version ps") (auto simp: pending_of_def latest_append newer_version_def)

text \<open>
  Fact (safety): approving an edit rolls back a tool that was regenerated meanwhile.  An edit is
  parked for review, then the agent generates the tool anew, which makes the new code live under
  a higher version.  Approval promotes the newest version still pending, that is the parked one,
  and deactivates the rest, so the next load runs the older code and the newer one is gone.
\<close>

theorem stale_approval_rolls_back:
  assumes ok: "catalog_ok c" and gen: "generated_name c name"
    and c1: "c1 = snd (submit_pending_version True name desc old emb t1 c)"
    and c2: "c2 = snd (persist True name desc' new emb' t2 c1)"
    and c3: "(n, c3) = approve_pending True name c2"
    and code: "old \<noteq> new" "materializes old" "materializes new"
  shows "(name, new) \<in> set (load_tools materializes c2) \<and> n \<noteq> None \<and>
    (name, old) \<in> set (load_tools materializes c3) \<and> (name, new) \<notin> set (load_tools materializes c3)"
proof -
  let ?vs = "versions_of c name"
  let ?p = "\<lparr>tv_version = next_version ?vs, tv_code = old, tv_active = False, tv_status = Pending_review\<rparr>"
  obtain r1 where r1: "get_registration c1 name = Some r1" "tr_type r1 = ''generated''" "tr_versions r1 = ?vs @ [?p]"
    using submit_registration [OF gen, of desc old emb t1] c1 by auto
  let ?vs1 = "?vs @ [?p]"
  let ?q = "\<lparr>tv_version = next_version ?vs1, tv_code = new, tv_active = True, tv_status = Approved\<rparr>"
  have gen1: "generated_name c1 name" "versions_of c1 name = ?vs1" using r1 by (simp_all add: generated_name_def versions_of_def)
  obtain r2 where r2: "get_registration c2 name = Some r2" "tr_type r2 = ''generated''" "tr_active r2"
      "tr_versions r2 = map deactivate ?vs1 @ [?q]"
    using persist_registration [OF gen1(1), of desc' new emb' t2] c2 gen1(2) by auto
  have ok1: "catalog_ok c1" using submit_ok [OF ok] c1 by simp
  have ok2: "catalog_ok c2" using persist_ok [OF ok1] c2 by simp
  have vok: "versions_ok ?vs1" using ok1 r1 get_registrationD [OF r1(1)] by (auto simp: catalog_ok_def)
  have live2: "live_version r2 = Some ?q"
    by (rule live_version_filter) (simp add: r2(4) del: map_append)
  have pend: "pending_of r2 = Some (deactivate ?p)"
  proof (rule pending_submitted)
    show "filter (\<lambda>v. tv_status v = Pending_review) (tr_versions r2) =
        filter (\<lambda>v. tv_status v = Pending_review) (map deactivate ?vs) @ [deactivate ?p]"
      by (simp add: r2(4) del: filter_deactivate)
    show "\<forall>q \<in> set (filter (\<lambda>v. tv_status v = Pending_review) (map deactivate ?vs)). tv_version q < tv_version (deactivate ?p)"
      using next_version_above by auto
  qed
  have c3_eq: "n = Some (next_version ?vs)" "get_registration c3 name = Some (r2\<lparr>tr_versions := map (\<lambda>v.
      if tv_version v = next_version ?vs then v\<lparr>tv_status := Approved, tv_active := True\<rparr> else deactivate v)
      (tr_versions r2)\<rparr>)"
    using c3 r2(1) pend by (simp_all add: approve_pending_def get_registration_update)
  have ne: "tv_version v \<noteq> next_version ?vs" if "v \<in> set ?vs" for v using next_version_above [OF that] by simp
  have nq: "next_version ?vs1 \<noteq> next_version ?vs" using next_version_above [of ?p ?vs1] by auto
  have "filter (\<lambda>v. tv_active v \<and> tv_status v = Approved) (map (\<lambda>v.
      if tv_version v = next_version ?vs then v\<lparr>tv_status := Approved, tv_active := True\<rparr> else deactivate v)
      (tr_versions r2)) = [(deactivate ?p)\<lparr>tv_status := Approved, tv_active := True\<rparr>]"
  proof -
    have "filter (\<lambda>v. tv_active v \<and> tv_status v = Approved) (map (\<lambda>v.
        if tv_version v = next_version ?vs then v\<lparr>tv_status := Approved, tv_active := True\<rparr> else deactivate v)
        (map deactivate ?vs)) = []"
      using ne by (simp add: filter_empty_conv)
    then show ?thesis using nq by (simp add: r2(4) del: map_map)
  qed
  then have live3: "live_version (r2\<lparr>tr_versions := map (\<lambda>v.
      if tv_version v = next_version ?vs then v\<lparr>tv_status := Approved, tv_active := True\<rparr> else deactivate v)
      (tr_versions r2)\<rparr>) = Some ((deactivate ?p)\<lparr>tv_status := Approved, tv_active := True\<rparr>)"
    by (intro live_version_filter) simp
  have "catalog_ok c3" using approve_ok [OF ok2, of True name] c3 by (metis snd_conv)
  from load_tools_registration [OF this c3_eq(2)] load_tools_registration [OF ok2 r2(1)] live2 live3 r2 code c3_eq(1)
  show ?thesis by (simp add: live_generated_def)
qed

definition empty_catalog :: catalog where
  "empty_catalog = \<lparr>ct_tools = [], ct_subsets = []\<rparr>"

lemma empty_catalog_simps [simp]:
  "catalog_ok empty_catalog" "generated_name empty_catalog n" "get_registration empty_catalog n = None"
  "ct_tools empty_catalog = []"
  by (simp_all add: empty_catalog_def catalog_ok_def generated_name_def get_registration_def)

theorem catalog_invariant_witness:
  "catalog_ok (fold (\<lambda>(ok, op). catalog_do ok op)
     [(True, Op_submit ''t'' ''d'' ''old'' None 1), (True, Op_persist ''t'' ''d'' ''new'' None 2), (False, Op_approve ''t'')]
     empty_catalog)"
  by (rule catalog_invariant) simp

theorem stale_approval_rolls_back_witness:
  "\<exists>c3. (''t'', ''old'') \<in> set (load_tools (\<lambda>_. True) c3) \<and> (''t'', ''new'') \<notin> set (load_tools (\<lambda>_. True) c3)"
proof -
  let ?c2 = "snd (persist True ''t'' ''d'' ''new'' None 2
    (snd (submit_pending_version True ''t'' ''d'' ''old'' None 1 empty_catalog)))"
  obtain n c3 where c3: "(n, c3) = approve_pending True ''t'' ?c2" by (metis surj_pair)
  from stale_approval_rolls_back [OF _ _ refl refl c3, of "\<lambda>_. True"] show ?thesis by auto
qed

lemma find_similar_all:
  assumes "length (ct_tools c) \<le> limit"
  shows "set (find_similar True e threshold limit c) =
    {(n, s) \<in> (\<lambda>r. (tr_name r, case tr_embedding r of None \<Rightarrow> 0 | Some x \<Rightarrow> cosine x e)) `
       {r \<in> set (ct_tools c). tr_embedding r \<noteq> None \<and> tr_active r}. threshold \<le> s}"
proof -
  let ?fs = "filter (\<lambda>r. tr_embedding r \<noteq> None \<and> tr_active r) (ct_tools c)"
  have "length ?fs \<le> limit" using assms length_filter_le order_trans by blast
  then have "take limit (sort_key k (map f ?fs)) = sort_key k (map f ?fs)" for k :: "string \<times> real \<Rightarrow> real" and f
    by simp
  then show ?thesis by (auto simp: find_similar_def)
qed

text \<open>
  Fact (safety): a tool that was never approved stops the agent from creating the capability.  An
  operator's edit of a new name registers the tool as active with its embedding while its only
  version waits for review, or was rejected.  The similarity search then reports the tool to the
  creation step as reusable, though no load ever registers it.
\<close>

theorem unapproved_tool_shadows:
  assumes "catalog_ok c" "get_registration c name = None" "dot e e \<noteq> 0" "threshold \<le> 1"
    and c1: "c1 = snd (submit_pending_version True name desc code (Some e) now c)"
    and c2: "c2 = c1 \<or> c2 = snd (reject_pending True name c1)"
    and "length (ct_tools c2) \<le> limit"
  shows "(name, 1) \<in> set (find_similar True e threshold limit c2) \<and>
    name \<notin> fst ` set (load_tools materializes c2)"
proof -
  let ?v = "\<lparr>tv_version = 1, tv_code = code, tv_active = False, tv_status = Pending_review\<rparr>"
  let ?r = "new_registration name desc (Some e) now ?v"
  have c1_eq: "c1 = c\<lparr>ct_tools := ct_tools c @ [?r]\<rparr>" using assms(2) c1 by (simp add: submit_pending_version_def)
  have g1: "get_registration c1 name = Some ?r"
    using get_registration_add [of c ?r] assms(2) c1_eq by simp
  have ok1: "catalog_ok c1" using submit_ok [OF assms(1)] c1 by simp
  have "\<exists>r. get_registration c2 name = Some r \<and> tr_embedding r = Some e \<and> tr_active r \<and>
      list_all (\<lambda>v. \<not> tv_active v) (tr_versions r)"
    using c2 g1
    by (auto simp: reject_pending_def pending_of_def get_registration_update)
  then obtain r where r: "get_registration c2 name = Some r" "tr_embedding r = Some e" "tr_active r"
      "list_all (\<lambda>v. \<not> tv_active v) (tr_versions r)" by blast
  have rin: "r \<in> set (ct_tools c2)" "tr_name r = name" using get_registrationD [OF r(1)] by auto
  have ok2: "catalog_ok c2" using c2 ok1 reject_ok [OF ok1] by auto
  have "filter (\<lambda>v. tv_active v \<and> tv_status v = Approved) (tr_versions r) = []"
    using r(4) by (auto simp: filter_empty_conv list_all_iff)
  then have "live_version r = None" by (simp add: live_version_def)
  then have "name \<notin> fst ` set (load_tools materializes c2)"
    using load_tools_registration [OF ok2 r(1)] by (auto simp del: split_paired_All)
  moreover have "dot e e > 0"
  proof -
    have "dot e e = (\<Sum>x \<leftarrow> e. x * x)" by (simp add: dot_def zip_same_conv_map o_def)
    moreover have "(\<Sum>x \<leftarrow> e. x * x) \<ge> 0" by (intro sum_list_nonneg) auto
    ultimately show ?thesis using assms(3) by linarith
  qed
  then have "cosine e e = 1" by (simp add: cosine_def)
  then have "(name, 1) \<in> set (find_similar True e threshold limit c2)"
    using rin r(2,3) assms(4,7) find_similar_all [of c2 limit e threshold]
    by (force simp: image_iff)
  ultimately show ?thesis by blast
qed

theorem unapproved_tool_shadows_witness:
  "(''t'', 1) \<in> set (find_similar True [1, 0] (85 / 100) 5
      (snd (submit_pending_version True ''t'' ''d'' ''code'' (Some [1, 0]) 1 empty_catalog)))"
  using unapproved_tool_shadows [of empty_catalog "''t''" "[1, 0]" "85 / 100" _ "''d''" "''code''" 1, OF _ _ _ _ refl, OF _ _ _ _ disjI1 [OF refl], of 5]
  by (simp add: dot_def submit_pending_version_def)

text \<open>
  Fact (safety): approving an edit of a retired tool does not bring it back.  The approval
  reports success, but the registration stays inactive, so no load registers the tool.
\<close>

theorem approved_retired_tool_not_loaded:
  assumes "catalog_ok c" "get_registration c name = Some r" "\<not> tr_active r"
    and "(Some n, c') = approve_pending True name c"
  shows "name \<notin> fst ` set (load_tools materializes c')"
proof -
  have ok: "catalog_ok c'" using approve_ok [OF assms(1), of True name] assms(4) by (metis snd_conv)
  obtain r' where "get_registration c' name = Some r'" "\<not> tr_active r'"
    using assms(2-4) by (auto simp: approve_pending_def get_registration_update split: option.splits)
  with load_tools_registration [OF ok] show ?thesis by (auto simp: live_generated_def)
qed

section \<open>The cap\<close>

definition newest_first :: "catalog \<Rightarrow> registration list" where
  "newest_first c = rev (sort_key tr_created (rev (filter live_generated (ct_tools c))))"

lemma newest_first_sorted: "sorted_wrt (\<lambda>x y. tr_created y \<le> tr_created x) (newest_first c)"
  using sorted_sort_key [of tr_created "rev (filter live_generated (ct_tools c))"]
  by (simp add: newest_first_def sorted_wrt_rev sorted_map)

lemma newest_first_facts:
  "set (newest_first c) = {r \<in> set (ct_tools c). live_generated r}"
  "length (newest_first c) = length (filter live_generated (ct_tools c))"
  by (auto simp: newest_first_def)

lemma newest_first_distinct: "catalog_ok c \<Longrightarrow> distinct (newest_first c)"
  by (auto simp: newest_first_def catalog_ok_def distinct_map)

lemma excess_live:
  assumes "catalog_ok c"
  shows "{x \<in> set (map (\<lambda>r. if tr_name r \<in> tr_name ` set (drop k (newest_first c)) then r\<lparr>tr_active := False\<rparr> else r)
      (ct_tools c)). live_generated x} = set (take k (newest_first c))" (is "?L = _")
proof -
  let ?n = "newest_first c"
  have disj: "set (take k ?n) \<inter> set (drop k ?n) = {}" using newest_first_distinct [OF assms] by (rule set_take_disj_set_drop_if_distinct) simp
  have un: "set ?n = set (take k ?n) \<union> set (drop k ?n)" by (metis append_take_drop_id set_append)
  have name: "tr_name x \<in> tr_name ` set (drop k ?n) \<longleftrightarrow> x \<in> set (drop k ?n)" if "x \<in> set (ct_tools c)" for x
  proof
    assume "tr_name x \<in> tr_name ` set (drop k ?n)"
    then obtain y where y: "y \<in> set (drop k ?n)" "tr_name x = tr_name y" by blast
    then have "y \<in> set (ct_tools c)" using un newest_first_facts(1) [of c] by blast
    with catalog_unique [OF assms that _ y(2)] y(1) show "x \<in> set (drop k ?n)" by simp
  qed simp
  have dead: "\<not> live_generated (r\<lparr>tr_active := False\<rparr>)" for r by (simp add: live_generated_def)
  have "x \<in> ?L \<longleftrightarrow> x \<in> set (take k ?n)" for x
  proof -
    have "x \<in> ?L \<longleftrightarrow> x \<in> set (ct_tools c) \<and> live_generated x \<and> x \<notin> set (drop k ?n)"
      using dead name by auto
    also have "\<dots> \<longleftrightarrow> x \<in> set ?n \<and> x \<notin> set (drop k ?n)" using newest_first_facts(1) [of c] by blast
    also have "\<dots> \<longleftrightarrow> x \<in> set (take k ?n)" using un disj by blast
    finally show ?thesis .
  qed
  then show ?thesis by blast
qed

text \<open>
  Fact (bounds): the load enforces the population cap by age.  After the cap pass at most
  \<open>max_active\<close> generated tools are active, and every retired one is at least as old as every one
  kept.
\<close>

theorem cap_keeps_newest:
  assumes "catalog_ok c" "0 \<le> max_active" "(n, c') = retire_excess_tools True max_active c"
  shows "int (length (filter live_generated (ct_tools c'))) \<le> max_active \<and>
    (\<forall>r \<in> set (ct_tools c). \<forall>k \<in> set (ct_tools c'). live_generated r \<longrightarrow>
       r \<notin> set (ct_tools c') \<longrightarrow> live_generated k \<longrightarrow> tr_created r \<le> tr_created k)"
proof -
  let ?k = "nat max_active"
  let ?f = "\<lambda>r. if tr_name r \<in> tr_name ` set (drop ?k (newest_first c)) then r\<lparr>tr_active := False\<rparr> else r"
  have c': "ct_tools c' = map ?f (ct_tools c)"
  proof (cases "drop ?k (newest_first c) = []")
    case True
    with assms(2,3) show ?thesis by (simp add: retire_excess_tools_def Let_def newest_first_def)
  next
    case False
    with assms(2,3) show ?thesis
      by (simp add: retire_excess_tools_def Let_def newest_first_def update_tools_def split: if_splits)
  qed
  have live: "{x \<in> set (ct_tools c'). live_generated x} = set (take ?k (newest_first c))"
    using excess_live [OF assms(1), of ?k] c' by simp
  have ok: "catalog_ok c'" using retire_excess_ok [OF assms(1), of True max_active] assms(3) by (metis snd_conv)
  have "distinct (filter live_generated (ct_tools c'))" using ok by (auto simp: catalog_ok_def distinct_map)
  then have "length (filter live_generated (ct_tools c')) = card (set (take ?k (newest_first c)))"
    using distinct_card [of "filter live_generated (ct_tools c')"] live by simp
  also have "\<dots> \<le> ?k" using card_length [of "take ?k (newest_first c)"] by simp
  finally have len: "int (length (filter live_generated (ct_tools c'))) \<le> max_active" using assms(2) by simp
  have "tr_created r \<le> tr_created k"
    if r: "r \<in> set (ct_tools c)" "live_generated r" "r \<notin> set (ct_tools c')"
      and k: "k \<in> set (ct_tools c')" "live_generated k" for r k
  proof -
    have kt: "k \<in> set (take ?k (newest_first c))" using live k by blast
    have "r \<notin> set (take ?k (newest_first c))" using live r(3) by blast
    moreover have "r \<in> set (newest_first c)" using newest_first_facts(1) [of c] r by blast
    moreover have un: "set (newest_first c) = set (take ?k (newest_first c)) \<union> set (drop ?k (newest_first c))"
      by (metis append_take_drop_id set_append)
    ultimately have "r \<in> set (drop ?k (newest_first c))" by blast
    with kt newest_first_sorted [of c] show ?thesis
      by (metis append_take_drop_id sorted_wrt_append)
  qed
  with len show ?thesis by blast
qed

definition aged_tool :: "string \<Rightarrow> real \<Rightarrow> registration" where
  "aged_tool n t = new_registration n [] None t \<lparr>tv_version = 1, tv_code = [], tv_active = True, tv_status = Approved\<rparr>"

theorem cap_keeps_newest_witness:
  "length (filter live_generated (ct_tools (snd (retire_excess_tools True 1
      \<lparr>ct_tools = [aged_tool ''a'' 1, aged_tool ''b'' 2], ct_subsets = []\<rparr>)))) \<le> 1"
proof -
  have ok: "catalog_ok \<lparr>ct_tools = [aged_tool ''a'' 1, aged_tool ''b'' 2], ct_subsets = []\<rparr>"
    by (simp add: catalog_ok_def aged_tool_def versions_ok_def)
  show ?thesis
    using cap_keeps_newest [OF ok _ prod.collapse, of 1] by simp
qed

end
