(* ===== verification/Governance.thy ===== *)
theory Governance
  imports Tool_Catalog
begin

text \<open>
  Capability governance: clustering and consolidation of \<open>src/src/governance/consolidate.py\<close> and the
  prune of \<open>src/src/governance/prune.py\<close>, over the tool catalog.  The sub-agents' capability rows
  and their retirement are arguments.  Stored embeddings all have the column's dimension, so the
  strict \<open>zip\<close> of the cosine does not fail.
\<close>

section \<open>Clustering\<close>

record merge_plan =
  mp_target :: string
  mp_embedding :: "real list"
  mp_retired :: "string list"
  mp_similarity :: real

text \<open>
  The survivors in order are the targets of the plans.  The best match so far is kept with its
  similarity; a later survivor wins a tie.
\<close>

fun best_survivor ::
  "real list \<Rightarrow> real \<Rightarrow> nat option \<Rightarrow> nat \<Rightarrow> merge_plan list \<Rightarrow> nat option \<times> real" where
  "best_survivor emb best_sim match i [] = (match, best_sim)"
| "best_survivor emb best_sim match i (p # ps) =
     (let sim = cosine emb (mp_embedding p)
      in if best_sim \<le> sim then best_survivor emb sim (Some i) (Suc i) ps
         else best_survivor emb best_sim match (Suc i) ps)"

definition new_plan :: "string \<Rightarrow> real list \<Rightarrow> merge_plan" where
  "new_plan name emb = \<lparr>mp_target = name, mp_embedding = emb, mp_retired = [], mp_similarity = 1\<rparr>"

definition plan_row :: "real \<Rightarrow> 's cap_row \<Rightarrow> merge_plan list \<Rightarrow> merge_plan list" where
  "plan_row threshold row plans =
     (case cr_embedding row of
        None \<Rightarrow> plans
      | Some emb \<Rightarrow>
          (case best_survivor emb threshold None 0 plans of
             (None, _) \<Rightarrow> plans @ [new_plan (cr_name row) emb]
           | (Some i, sim) \<Rightarrow>
               plans[i := (plans ! i)\<lparr>mp_retired := mp_retired (plans ! i) @ [cr_name row],
                                       mp_similarity := max (mp_similarity (plans ! i)) sim\<rparr>]))"

definition by_score_desc :: "'s :: linorder cap_row list \<Rightarrow> 's cap_row list" where
  "by_score_desc rows = rev (sort_key cr_score (rev rows))"

definition plan_clusters :: "'s :: linorder cap_row list \<Rightarrow> real \<Rightarrow> merge_plan list" where
  "plan_clusters rows threshold =
     filter (\<lambda>p. mp_retired p \<noteq> []) (fold (plan_row threshold) (by_score_desc rows) [])"

section \<open>Consolidation\<close>

record consolidation_report =
  cn_tools :: "merge_plan list"
  cn_agents :: "merge_plan list"
  cn_performance_retired :: "string list"
  cn_dry_run :: bool

definition empty_report :: "bool \<Rightarrow> consolidation_report" where
  "empty_report dry_run = \<lparr>cn_tools = [], cn_agents = [], cn_performance_retired = [], cn_dry_run = dry_run\<rparr>"

definition total_retired :: "consolidation_report \<Rightarrow> nat" where
  "total_retired rep =
     sum_list (map (length \<circ> mp_retired) (cn_tools rep @ cn_agents rep)) + length (cn_performance_retired rep)"

definition apply_plan :: "bool \<Rightarrow> real \<Rightarrow> real \<Rightarrow> merge_plan \<Rightarrow> catalog \<Rightarrow> catalog" where
  "apply_plan ok window now p c =
     fold (\<lambda>loser c. snd (merge_alias ok loser (mp_target p) c)) (mp_retired p)
       (snd (retire ok window now (mp_retired p) c))"

text \<open>\<open>fetch_ok\<close> and \<open>ok\<close>: the capability query and the later statements reach the database.\<close>

definition consolidate_tools ::
  "bool \<Rightarrow> bool \<Rightarrow> real \<Rightarrow> real \<Rightarrow> real \<Rightarrow> bool \<Rightarrow> catalog \<Rightarrow> consolidation_report \<times> catalog" where
  "consolidate_tools fetch_ok ok window now threshold dry_run c =
     (if \<not> fetch_ok then (empty_report dry_run, c)
      else
        let plans = plan_clusters (active_tool_capability_rows c) threshold
        in ((empty_report dry_run)\<lparr>cn_tools := plans\<rparr>,
            if dry_run then c else fold (apply_plan ok window now) plans c))"

text \<open>Sub-agents are retired by name; what the retirement does is outside.\<close>

definition consolidate_sub_agents ::
  "real cap_row list option \<Rightarrow> real \<Rightarrow> bool \<Rightarrow> consolidation_report \<times> string list list" where
  "consolidate_sub_agents rows threshold dry_run =
     (case rows of
        None \<Rightarrow> (empty_report dry_run, [])
      | Some rs \<Rightarrow>
          (let plans = plan_clusters rs threshold
           in ((empty_report dry_run)\<lparr>cn_agents := plans\<rparr>, if dry_run then [] else map mp_retired plans)))"

definition consolidate_performance ::
  "bool \<Rightarrow> real \<Rightarrow> real \<Rightarrow> int \<Rightarrow> real \<Rightarrow> real option \<Rightarrow> bool \<Rightarrow> catalog \<Rightarrow> consolidation_report \<times> catalog" where
  "consolidate_performance ok window now min_runs success_floor empty_floor dry_run c =
     (let names = underperforming_tools ok min_runs success_floor empty_floor c
      in ((empty_report dry_run)\<lparr>cn_performance_retired := names\<rparr>,
          if \<not> dry_run \<and> names \<noteq> [] then snd (retire ok window now names c) else c))"

definition consolidate_all ::
  "bool \<Rightarrow> bool \<Rightarrow> real \<Rightarrow> real \<Rightarrow> tool_settings \<Rightarrow> real cap_row list option \<Rightarrow> bool \<Rightarrow> catalog
    \<Rightarrow> consolidation_report \<times> string list list \<times> catalog" where
  "consolidate_all fetch_ok ok window now st agents dry_run c =
     (let (tools, c) = consolidate_tools fetch_ok ok window now (ts_redundancy_threshold st) dry_run c;
          (ag, retired_agents) = consolidate_sub_agents agents (ts_redundancy_threshold st) dry_run;
          (perf, c) = consolidate_performance ok window now (ts_retire_min_runs st)
             (ts_retire_success_floor st) (ts_retire_empty_output_floor st) dry_run c
      in (\<lparr>cn_tools = cn_tools tools, cn_agents = cn_agents ag,
           cn_performance_retired = cn_performance_retired perf, cn_dry_run = dry_run\<rparr>, retired_agents, c))"

section \<open>The prune\<close>

record prune_report =
  pr_total_freed :: nat
  pr_redundant_tools :: nat
  pr_redundant_agents :: nat
  pr_underperformers :: nat
  pr_unused :: nat
  pr_tool_cap_excess :: nat

definition prune_run ::
  "bool \<Rightarrow> bool \<Rightarrow> real \<Rightarrow> tool_settings \<Rightarrow> real cap_row list option \<Rightarrow> catalog \<Rightarrow> prune_report \<times> catalog" where
  "prune_run fetch_ok ok now st agents c =
     (let (rep, _, c) = consolidate_all fetch_ok ok (ts_protection_window st) now st agents False c;
          (unused, c) = (if ts_retire_unused_days st \<le> 0 then (0, c)
             else retire_unused ok (ts_protection_window st) now (ts_retire_unused_days st)
                    (ts_retire_unused_max_calls st) c);
          (excess, c) = retire_excess_tools ok (ts_max_active_tools st) c;
          tools = length (cn_tools rep); ags = length (cn_agents rep);
          under = length (cn_performance_retired rep)
      in (\<lparr>pr_total_freed = tools + ags + under + unused + excess, pr_redundant_tools = tools,
           pr_redundant_agents = ags, pr_underperformers = under, pr_unused = unused,
           pr_tool_cap_excess = excess\<rparr>, c))"

section \<open>The clustering is correct\<close>

lemma dot_commute: "dot u v = dot v u"
  by (induction u v rule: list_induct2') (auto simp: dot_def)

lemma cosine_commute: "cosine u v = cosine v u"
  by (simp add: cosine_def dot_commute [of u v] mult.commute)

lemma best_survivor_cases:
  "(best_survivor emb b m i ps = (m, b) \<and> (\<forall>p \<in> set ps. cosine emb (mp_embedding p) < b)) \<or>
   (\<exists>j < length ps. best_survivor emb b m i ps = (Some (i + j), cosine emb (mp_embedding (ps ! j))) \<and>
      b \<le> cosine emb (mp_embedding (ps ! j)))"
proof (induction ps arbitrary: b m i)
  case (Cons p ps)
  let ?s = "cosine emb (mp_embedding p)"
  show ?case
  proof (cases "b \<le> ?s")
    case True
    from Cons.IH [of ?s "Some i" "Suc i"] show ?thesis
    proof
      assume "best_survivor emb ?s (Some i) (Suc i) ps = (Some i, ?s) \<and> (\<forall>p \<in> set ps. cosine emb (mp_embedding p) < ?s)"
      with True show ?thesis by (intro disjI2 exI [of _ 0]) (simp add: Let_def)
    next
      assume "\<exists>j < length ps. best_survivor emb ?s (Some i) (Suc i) ps =
          (Some (Suc i + j), cosine emb (mp_embedding (ps ! j))) \<and> ?s \<le> cosine emb (mp_embedding (ps ! j))"
      then obtain j where "j < length ps" "best_survivor emb ?s (Some i) (Suc i) ps =
          (Some (Suc i + j), cosine emb (mp_embedding (ps ! j)))" "?s \<le> cosine emb (mp_embedding (ps ! j))" by blast
      with True show ?thesis by (intro disjI2 exI [of _ "Suc j"]) (simp add: Let_def)
    qed
  next
    case False
    from Cons.IH [of b m "Suc i"] show ?thesis
    proof
      assume "best_survivor emb b m (Suc i) ps = (m, b) \<and> (\<forall>p \<in> set ps. cosine emb (mp_embedding p) < b)"
      with False show ?thesis by (intro disjI1) (simp add: Let_def)
    next
      assume "\<exists>j < length ps. best_survivor emb b m (Suc i) ps =
          (Some (Suc i + j), cosine emb (mp_embedding (ps ! j))) \<and> b \<le> cosine emb (mp_embedding (ps ! j))"
      then obtain j where "j < length ps" "best_survivor emb b m (Suc i) ps =
          (Some (Suc i + j), cosine emb (mp_embedding (ps ! j)))" "b \<le> cosine emb (mp_embedding (ps ! j))" by blast
      with False show ?thesis by (intro disjI2 exI [of _ "Suc j"]) (simp add: Let_def)
    qed
  qed
qed simp

definition plan_names :: "merge_plan list \<Rightarrow> string list" where
  "plan_names plans = concat (map (\<lambda>p. mp_target p # mp_retired p) plans)"

text \<open>What a plan promises: its target is a row, and every retired row is close to it and scores no higher.\<close>

definition plan_sound :: "real \<Rightarrow> 's :: linorder cap_row list \<Rightarrow> merge_plan \<Rightarrow> bool" where
  "plan_sound threshold rows p =
     (\<exists>t \<in> set rows. cr_name t = mp_target p \<and> cr_embedding t = Some (mp_embedding p) \<and>
        (\<forall>n \<in> set (mp_retired p). \<exists>r \<in> set rows. \<exists>e. cr_name r = n \<and> cr_embedding r = Some e \<and>
           threshold \<le> cosine e (mp_embedding p) \<and> cr_score r \<le> cr_score t))"

definition plans_inv :: "real \<Rightarrow> 's :: linorder cap_row list \<Rightarrow> merge_plan list \<Rightarrow> bool" where
  "plans_inv threshold rows plans =
     (mset (plan_names plans) = mset (map cr_name (filter (\<lambda>r. cr_embedding r \<noteq> None) rows)) \<and>
      (\<forall>p \<in> set plans. plan_sound threshold rows p) \<and>
      sorted_wrt (\<lambda>p q. cosine (mp_embedding q) (mp_embedding p) < threshold) plans)"

lemma plan_sound_mono: "plan_sound threshold rows p \<Longrightarrow> set rows \<subseteq> set rows' \<Longrightarrow> plan_sound threshold rows' p"
  unfolding plan_sound_def by (meson subsetD)

lemma plan_names_snoc [simp]: "plan_names (ps @ [p]) = plan_names ps @ mp_target p # mp_retired p"
  by (simp add: plan_names_def)

lemma plan_names_retire:
  "j < length ps \<Longrightarrow>
     mset (plan_names (ps[j := (ps ! j)\<lparr>mp_retired := mp_retired (ps ! j) @ [n], mp_similarity := s\<rparr>])) =
     add_mset n (mset (plan_names ps))"
proof (induction ps arbitrary: j)
  case (Cons p ps)
  then show ?case by (cases j) (auto simp: plan_names_def)
qed simp

lemma plans_inv_step:
  assumes inv: "plans_inv threshold rows plans" and ord: "\<forall>r \<in> set rows. cr_score x \<le> cr_score r"
  shows "plans_inv threshold (rows @ [x]) (plan_row threshold x plans)"
proof (cases "cr_embedding x")
  case None
  with inv show ?thesis
    by (auto simp: plans_inv_def plan_row_def intro: plan_sound_mono)
next
  case (Some e)
  have sound: "plan_sound threshold (rows @ [x]) p" if "p \<in> set plans" for p
    using inv that plan_sound_mono [of threshold rows p "rows @ [x]"] by (auto simp: plans_inv_def)
  from best_survivor_cases [of e threshold None 0 plans] show ?thesis
  proof
    assume b: "best_survivor e threshold None 0 plans = (None, threshold) \<and>
      (\<forall>p \<in> set plans. cosine e (mp_embedding p) < threshold)"
    then have row: "plan_row threshold x plans = plans @ [new_plan (cr_name x) e]"
      using Some by (simp add: plan_row_def)
    have "plan_sound threshold (rows @ [x]) (new_plan (cr_name x) e)"
      using Some by (simp add: plan_sound_def new_plan_def)
    with sound b inv Some show ?thesis
      unfolding row by (auto simp: plans_inv_def sorted_wrt_append new_plan_def)
  next
    assume "\<exists>j < length plans. best_survivor e threshold None 0 plans =
        (Some (0 + j), cosine e (mp_embedding (plans ! j))) \<and> threshold \<le> cosine e (mp_embedding (plans ! j))"
    then obtain j where j: "j < length plans" "threshold \<le> cosine e (mp_embedding (plans ! j))"
      "best_survivor e threshold None 0 plans = (Some j, cosine e (mp_embedding (plans ! j)))" by auto
    let ?s = "max (mp_similarity (plans ! j)) (cosine e (mp_embedding (plans ! j)))"
    let ?p = "(plans ! j)\<lparr>mp_retired := mp_retired (plans ! j) @ [cr_name x], mp_similarity := ?s\<rparr>"
    have row: "plan_row threshold x plans = plans[j := ?p]" using j(3) Some by (simp add: plan_row_def)
    obtain t where t: "t \<in> set rows" "cr_name t = mp_target (plans ! j)" "cr_embedding t = Some (mp_embedding (plans ! j))"
      "\<forall>n \<in> set (mp_retired (plans ! j)). \<exists>r \<in> set rows. \<exists>e. cr_name r = n \<and> cr_embedding r = Some e \<and>
         threshold \<le> cosine e (mp_embedding (plans ! j)) \<and> cr_score r \<le> cr_score t"
    proof -
      have "plan_sound threshold rows (plans ! j)" using inv nth_mem [OF j(1)] by (simp add: plans_inv_def)
      then show thesis using that unfolding plan_sound_def by blast
    qed
    have close: "\<exists>r \<in> set (rows @ [x]). \<exists>e. cr_name r = n \<and> cr_embedding r = Some e \<and>
        threshold \<le> cosine e (mp_embedding ?p) \<and> cr_score r \<le> cr_score t" if "n \<in> set (mp_retired ?p)" for n
    proof -
      from that consider "n \<in> set (mp_retired (plans ! j))" | "n = cr_name x" by auto
      then show ?thesis
      proof cases
        case 1
        with t(4) show ?thesis by fastforce
      next
        case 2
        with j(2) Some ord t(1) show ?thesis by (intro bexI [of _ x]) auto
      qed
    qed
    have "t \<in> set (rows @ [x])" "cr_name t = mp_target ?p" "cr_embedding t = Some (mp_embedding ?p)"
      using t by simp_all
    with close have "plan_sound threshold (rows @ [x]) ?p" unfolding plan_sound_def by blast
    then have "\<forall>p \<in> set (plans[j := ?p]). plan_sound threshold (rows @ [x]) p"
      using sound set_update_subset_insert [of plans j ?p] by blast
    moreover have emb: "map mp_embedding (plans[j := ?p]) = map mp_embedding plans"
      using j(1) by (simp add: map_update list_update_same_conv)
    have "sorted_wrt (\<lambda>u v. cosine v u < threshold) (map mp_embedding (plans[j := ?p]))"
      unfolding emb using inv by (simp add: plans_inv_def sorted_wrt_map)
    then have "sorted_wrt (\<lambda>p q. cosine (mp_embedding q) (mp_embedding p) < threshold) (plans[j := ?p])"
      by (simp only: sorted_wrt_map)
    moreover have "mset (plan_names (plans[j := ?p])) = mset (map cr_name (filter (\<lambda>r. cr_embedding r \<noteq> None) (rows @ [x])))"
      using inv Some plan_names_retire [OF j(1)] by (simp add: plans_inv_def)
    ultimately show ?thesis unfolding row plans_inv_def by blast
  qed
qed

lemma plans_inv_fold:
  assumes "plans_inv threshold prev plans" "sorted_wrt (\<lambda>a b. cr_score b \<le> cr_score a) (prev @ rows)"
  shows "plans_inv threshold (prev @ rows) (fold (plan_row threshold) rows plans)"
  using assms
proof (induction rows arbitrary: prev plans)
  case (Cons x rows)
  have "plans_inv threshold (prev @ [x]) (plan_row threshold x plans)"
    using Cons.prems by (intro plans_inv_step) (auto simp: sorted_wrt_append)
  then show ?case using Cons.IH [of "prev @ [x]"] Cons.prems(2) by simp
qed simp

lemma by_score_desc_facts:
  "sorted_wrt (\<lambda>a b. cr_score b \<le> cr_score a) (by_score_desc rows)" "set (by_score_desc rows) = set rows"
  "mset (by_score_desc rows) = mset rows"
  using sorted_sort_key [of cr_score "rev rows"]
  by (simp_all add: by_score_desc_def sorted_wrt_rev sorted_map)

lemma plan_sound_set: "set rows = set rows' \<Longrightarrow> plan_sound threshold rows p = plan_sound threshold rows' p"
  by (simp add: plan_sound_def)

lemma all_plans:
  fixes rows :: "'s :: linorder cap_row list" and threshold :: real
  defines "plans \<equiv> fold (plan_row threshold) (by_score_desc rows) []"
  shows "\<forall>p \<in> set plans. plan_sound threshold rows p"
    and "mset (plan_names plans) = mset (map cr_name (filter (\<lambda>r. cr_embedding r \<noteq> None) rows))"
    and "sorted_wrt (\<lambda>p q. cosine (mp_embedding q) (mp_embedding p) < threshold) plans"
proof -
  have "plans_inv threshold ([] @ by_score_desc rows) plans"
    unfolding plans_def using by_score_desc_facts(1) [of rows]
    by (intro plans_inv_fold) (simp_all add: plans_inv_def plan_names_def)
  then have inv: "mset (plan_names plans) = image_mset cr_name (filter_mset (\<lambda>r. cr_embedding r \<noteq> None) (mset (by_score_desc rows)))"
    "\<forall>p \<in> set plans. plan_sound threshold (by_score_desc rows) p"
    "sorted_wrt (\<lambda>p q. cosine (mp_embedding q) (mp_embedding p) < threshold) plans"
    by (auto simp: plans_inv_def)
  from inv(2) show "\<forall>p \<in> set plans. plan_sound threshold rows p"
    using plan_sound_set [OF by_score_desc_facts(2) [of rows]] by blast
  from inv(1) show "mset (plan_names plans) = mset (map cr_name (filter (\<lambda>r. cr_embedding r \<noteq> None) rows))"
    by (simp only: by_score_desc_facts(3) mset_map mset_filter)
  from inv(3) show "sorted_wrt (\<lambda>p q. cosine (mp_embedding q) (mp_embedding p) < threshold) plans" .
qed

lemma sorted_wrt_pair:
  "sorted_wrt P xs \<Longrightarrow> x \<in> set xs \<Longrightarrow> y \<in> set xs \<Longrightarrow> x \<noteq> y \<Longrightarrow> P x y \<or> P y x"
  by (induction xs) auto

lemma in_plan_names: "n \<in> set (plan_names plans) \<longleftrightarrow> (\<exists>p \<in> set plans. n = mp_target p \<or> n \<in> set (mp_retired p))"
  by (auto simp: plan_names_def)

lemma distinct_plan_names_filter: "distinct (plan_names plans) \<Longrightarrow> distinct (plan_names (filter P plans))"
  by (induction plans) (auto simp: plan_names_def)

lemma embedding_none: "filter (\<lambda>r. cr_embedding r \<noteq> None) rows = filter (\<lambda>r. \<exists>e. cr_embedding r = Some e) rows"
  by simp

lemma plan_clusters_sound:
  fixes rows :: "'s :: linorder cap_row list"
  assumes dist: "distinct (map cr_name rows)" and plans: "plans = plan_clusters rows threshold"
  shows "\<forall>p \<in> set plans. plan_sound threshold rows p" and "distinct (plan_names plans)"
proof -
  let ?all = "fold (plan_row threshold) (by_score_desc rows) []"
  have sub: "plans = filter (\<lambda>p. mp_retired p \<noteq> []) ?all" by (simp add: plans plan_clusters_def)
  have "distinct (map cr_name (filter (\<lambda>r. cr_embedding r \<noteq> None) rows))"
    using dist by (rule distinct_map_filter)
  then have "distinct (plan_names ?all)" using all_plans(2) [of threshold rows] by (metis mset_eq_imp_distinct_iff)
  then show "distinct (plan_names plans)" using distinct_plan_names_filter sub by blast
  show "\<forall>p \<in> set plans. plan_sound threshold rows p" using all_plans(1) [of threshold rows] sub by simp
qed

text \<open>
  C32 (functional): consolidation never loses a capability.  Of uniquely named rows, every retired
  one has a surviving target of at least its score within the threshold, no row is retired twice
  and no target is retired, and the embedded rows that stay are pairwise below the threshold.
\<close>

theorem plan_clusters_correct:
  fixes rows :: "'s :: linorder cap_row list"
  assumes dist: "distinct (map cr_name rows)" and plans: "plans = plan_clusters rows threshold"
  shows "(\<forall>p \<in> set plans. plan_sound threshold rows p) \<and> distinct (plan_names plans) \<and>
    (\<forall>r \<in> set rows. \<forall>r' \<in> set rows. \<forall>e e'. r \<noteq> r' \<longrightarrow> cr_embedding r = Some e \<longrightarrow> cr_embedding r' = Some e' \<longrightarrow>
       cr_name r \<notin> (\<Union>p \<in> set plans. set (mp_retired p)) \<longrightarrow>
       cr_name r' \<notin> (\<Union>p \<in> set plans. set (mp_retired p)) \<longrightarrow> cosine e e' < threshold)"
proof -
  let ?all = "fold (plan_row threshold) (by_score_desc rows) []"
  note all = all_plans [of threshold rows]
  have sub: "plans = filter (\<lambda>p. mp_retired p \<noteq> []) ?all" by (simp add: plans plan_clusters_def)
  have target: "\<exists>p \<in> set ?all. mp_target p = cr_name r \<and> mp_embedding p = e"
    if r: "r \<in> set rows" "cr_embedding r = Some e" "cr_name r \<notin> (\<Union>p \<in> set plans. set (mp_retired p))" for r e
  proof -
    have "cr_name r \<in> set (map cr_name (filter (\<lambda>r. cr_embedding r \<noteq> None) rows))" using r(1,2) by auto
    then have "cr_name r \<in> set (plan_names ?all)" using all(2) by (metis set_mset_mset)
    then obtain p where p: "p \<in> set ?all" "cr_name r = mp_target p \<or> cr_name r \<in> set (mp_retired p)"
      unfolding in_plan_names by blast
    have "cr_name r \<notin> set (mp_retired p)" using r(3) p(1) sub by auto
    with p(2) have "cr_name r = mp_target p" by blast
    moreover obtain t where "t \<in> set rows" "cr_name t = mp_target p" "cr_embedding t = Some (mp_embedding p)"
      using all(1) p(1) unfolding plan_sound_def by blast
    moreover have "t = r" if "t \<in> set rows" "cr_name t = cr_name r" for t
      using dist that r(1) by (auto simp: distinct_map inj_on_def)
    ultimately show ?thesis using p(1) r(2) by auto
  qed
  have "cosine e e' < threshold"
    if r: "r \<in> set rows" "r' \<in> set rows" "r \<noteq> r'" "cr_embedding r = Some e" "cr_embedding r' = Some e'"
      "cr_name r \<notin> (\<Union>p \<in> set plans. set (mp_retired p))" "cr_name r' \<notin> (\<Union>p \<in> set plans. set (mp_retired p))"
    for r r' e e'
  proof -
    obtain p p' where p: "p \<in> set ?all" "mp_target p = cr_name r" "mp_embedding p = e"
      "p' \<in> set ?all" "mp_target p' = cr_name r'" "mp_embedding p' = e'"
      using target [OF r(1,4,6)] target [OF r(2,5,7)] by blast
    have "cr_name r \<noteq> cr_name r'" using dist r(1-3) by (auto simp: distinct_map inj_on_def)
    then have "p \<noteq> p'" using p by auto
    from sorted_wrt_pair [OF all(3) p(1,4) this] p show ?thesis by (auto simp: cosine_commute)
  qed
  then have "\<forall>r \<in> set rows. \<forall>r' \<in> set rows. \<forall>e e'. r \<noteq> r' \<longrightarrow> cr_embedding r = Some e \<longrightarrow> cr_embedding r' = Some e' \<longrightarrow>
       cr_name r \<notin> (\<Union>p \<in> set plans. set (mp_retired p)) \<longrightarrow>
       cr_name r' \<notin> (\<Union>p \<in> set plans. set (mp_retired p)) \<longrightarrow> cosine e e' < threshold"
    by (intro ballI allI impI)
  then show ?thesis using plan_clusters_sound(1) [OF dist plans] plan_clusters_sound(2) [OF dist plans] by (intro conjI)
qed

definition twin_rows :: "int cap_row list" where
  "twin_rows = [\<lparr>cr_name = ''a'', cr_embedding = Some [1, 0], cr_score = 2\<rparr>,
     \<lparr>cr_name = ''c'', cr_embedding = Some [4 / 5, 3 / 5], cr_score = 3\<rparr>,
     \<lparr>cr_name = ''b'', cr_embedding = Some [4 / 5, - (3 / 5)], cr_score = 1\<rparr>]"

lemma twin_cosines:
  "cosine [1, 0] [4 / 5, 3 / 5] = 4 / 5" "cosine [1, 0] [4 / 5, - (3 / 5)] = 4 / 5"
  "cosine [4 / 5, - (3 / 5)] [4 / 5, 3 / 5] = 7 / 25" "cosine [4 / 5, 3 / 5] [4 / 5, - (3 / 5)] = 7 / 25"
  "cosine [4 / 5, 3 / 5] [1, 0] = 4 / 5"
  by (simp_all add: cosine_def dot_def)

lemma twin_plans: "plan_clusters twin_rows (3 / 4) =
    [\<lparr>mp_target = ''c'', mp_embedding = [4 / 5, 3 / 5], mp_retired = [''a''], mp_similarity = 1\<rparr>]"
  by (simp add: plan_clusters_def by_score_desc_def twin_rows_def plan_row_def new_plan_def twin_cosines Let_def)

theorem plan_clusters_correct_witness:
  "plan_sound (3 / 4) twin_rows \<lparr>mp_target = ''c'', mp_embedding = [4 / 5, 3 / 5], mp_retired = [''a''], mp_similarity = 1\<rparr>"
proof -
  have "distinct (map cr_name twin_rows)" by (simp add: twin_rows_def)
  from plan_clusters_correct [OF this twin_plans [symmetric]] show ?thesis by simp
qed

text \<open>
  Fact (safety): the load-time pass can lose a capability.  Among three tools where the first is
  close to the two others and these are not close to each other, \<open>retire_redundant\<close> retires the
  first for its better twin and, still comparing with it, the third as well: no surviving tool is
  within the threshold of the third.  The offline consolidation keeps it.
\<close>

theorem redundancy_pass_orphans:
  "redundant_rows (3 / 4) twin_rows {} = {''a'', ''b''} \<and>
   cosine [4 / 5, - (3 / 5)] [4 / 5, 3 / 5] < 3 / 4 \<and>
   concat (map mp_retired (plan_clusters twin_rows (3 / 4))) = [''a'']"
  unfolding twin_plans by (auto simp: twin_rows_def twin_cosines)

lemma dot_nonneg: "0 \<le> dot u u"
  by (induction u) (simp_all add: dot_def)

lemma cauchy_step:
  fixes d A B a b :: real
  assumes "d\<^sup>2 \<le> A * B" "0 \<le> A" "0 \<le> B"
  shows "(a * b + d)\<^sup>2 \<le> (a * a + A) * (b * b + B)"
proof -
  have "\<bar>d\<bar> \<le> sqrt A * sqrt B"
    using assms real_sqrt_le_mono [OF assms(1)] by (simp add: real_sqrt_mult)
  then have "2 * (a * b) * d \<le> 2 * (\<bar>a\<bar> * \<bar>b\<bar>) * (sqrt A * sqrt B)"
  proof -
    have "(a * b) * d \<le> \<bar>(a * b) * d\<bar>" by simp
    also have "\<dots> = (\<bar>a\<bar> * \<bar>b\<bar>) * \<bar>d\<bar>" by (simp add: abs_mult)
    also have "\<dots> \<le> (\<bar>a\<bar> * \<bar>b\<bar>) * (sqrt A * sqrt B)"
      using \<open>\<bar>d\<bar> \<le> sqrt A * sqrt B\<close> by (intro mult_left_mono) auto
    finally show ?thesis by simp
  qed
  also have "\<dots> = 2 * (\<bar>b\<bar> * sqrt A) * (\<bar>a\<bar> * sqrt B)" by simp
  also have "\<dots> \<le> (\<bar>b\<bar> * sqrt A)\<^sup>2 + (\<bar>a\<bar> * sqrt B)\<^sup>2" by (rule sum_squares_bound)
  also have "\<dots> = b * b * A + a * a * B" using assms(2,3)
    by (simp add: power_mult_distrib) (simp add: power2_eq_square)
  finally have "2 * (a * b) * d \<le> b * b * A + a * a * B" .
  with assms(1) show ?thesis by (simp add: power2_eq_square algebra_simps)
qed

lemma cauchy: "(dot u v)\<^sup>2 \<le> dot u u * dot v v"
proof (induction u v rule: list_induct2')
  case (4 a u b v)
  have c: "dot (a # u) (b # v) = a * b + dot u v" "dot (a # u) (a # u) = a * a + dot u u"
    "dot (b # v) (b # v) = b * b + dot v v" by (simp_all add: dot_def)
  show ?case unfolding c by (rule cauchy_step [OF 4 dot_nonneg dot_nonneg])
qed (auto simp: dot_def)

lemma cosine_le_1: "cosine u v \<le> 1"
proof (cases "dot u u = 0 \<or> dot v v = 0")
  case False
  then have pos: "0 < dot u u" "0 < dot v v" using dot_nonneg [of u] dot_nonneg [of v] by auto
  have "dot u v \<le> sqrt (dot u u) * sqrt (dot v v)"
    using real_sqrt_le_mono [OF cauchy [of u v]] by (simp add: real_sqrt_mult)
  with pos False show ?thesis by (simp add: cosine_def divide_le_eq)
qed (auto simp: cosine_def)

lemma plan_row_similarity:
  assumes "\<forall>p \<in> set plans. mp_similarity p = 1"
  shows "\<forall>p \<in> set (plan_row threshold x plans). mp_similarity p = 1"
proof (cases "cr_embedding x")
  case (Some e)
  from best_survivor_cases [of e threshold None 0 plans] show ?thesis
  proof
    assume "best_survivor e threshold None 0 plans = (None, threshold) \<and>
      (\<forall>p \<in> set plans. cosine e (mp_embedding p) < threshold)"
    with Some assms show ?thesis by (simp add: plan_row_def new_plan_def)
  next
    assume "\<exists>j < length plans. best_survivor e threshold None 0 plans =
        (Some (0 + j), cosine e (mp_embedding (plans ! j))) \<and> threshold \<le> cosine e (mp_embedding (plans ! j))"
    then obtain j where j: "j < length plans"
      "best_survivor e threshold None 0 plans = (Some j, cosine e (mp_embedding (plans ! j)))" by auto
    have "max (mp_similarity (plans ! j)) (cosine e (mp_embedding (plans ! j))) = 1"
      using assms nth_mem [OF j(1)] cosine_le_1 [of e "mp_embedding (plans ! j)"] by (auto simp: max_def)
    with Some j(2) assms show ?thesis by (auto simp: plan_row_def dest!: set_update_subset_insert [THEN subsetD])
  qed
qed (use assms in \<open>simp add: plan_row_def\<close>)

text \<open>
  Fact (bounds): the reported similarity of a merge is never below one.  A plan starts at one and
  keeps the maximum, while no cosine exceeds one, so the log and the report show 1.000 for every
  merge whatever the tools' similarity was.
\<close>

theorem reported_similarity_constant:
  "\<forall>p \<in> set (plan_clusters rows threshold). mp_similarity p = 1"
proof -
  have "\<forall>p \<in> set (fold (plan_row threshold) xs plans). mp_similarity p = 1"
    if "\<forall>p \<in> set plans. mp_similarity p = 1" for xs and plans :: "merge_plan list"
    using that
  proof (induction xs arbitrary: plans)
    case (Cons x xs)
    from Cons.IH [OF plan_row_similarity [OF Cons.prems]] show ?case by simp
  qed simp
  from this [of "[]" "by_score_desc rows"] show ?thesis by (auto simp: plan_clusters_def)
qed

section \<open>Retired tools are re-pointed\<close>

definition mentioned :: "catalog \<Rightarrow> string set" where
  "mentioned c = (\<Union>(a, ts) \<in> set (ct_subsets c). set ts)"

lemma merge_alias_mentioned:
  assumes "s \<noteq> []" "s \<noteq> t"
  shows "mentioned (snd (merge_alias True s t c)) \<subseteq> (mentioned c - {s}) \<union> {t}"
proof
  fix n assume "n \<in> mentioned (snd (merge_alias True s t c))"
  then obtain a ts where ts: "(a, ts) \<in> set (ct_subsets c)"
      "n \<in> set (if s \<in> set ts then dedup {} (map (\<lambda>x. if x = s then t else x) ts) else ts)"
    using assms by (auto simp: merge_alias_def mentioned_def)
  have "n = t \<or> n \<in> set ts \<and> n \<noteq> s"
    using ts(2) by (auto simp: set_dedup split: if_splits)
  then show "n \<in> (mentioned c - {s}) \<union> {t}" using ts(1) by (auto simp: mentioned_def)
qed

lemma merge_alias_tools [simp]: "ct_tools (snd (merge_alias ok s t c)) = ct_tools c"
  by (simp add: merge_alias_def)

lemma retire_unprotected:
  "names \<noteq> [] \<Longrightarrow> snd (retire True 0 now names c) =
     update_tools (\<lambda>r. tr_name r \<in> set names) (\<lambda>r. r\<lparr>tr_active := False\<rparr>) c"
  by (simp add: retire_def Let_def)

lemma fold_merge_mentioned:
  assumes "\<forall>s \<in> set ss. s \<noteq> [] \<and> s \<noteq> t" "t \<notin> R"
  shows "mentioned (fold (\<lambda>s c. snd (merge_alias True s t c)) ss c) \<inter> (R \<union> set ss) \<subseteq> mentioned c \<inter> R"
    and "ct_tools (fold (\<lambda>s c. snd (merge_alias True s t c)) ss c) = ct_tools c"
proof -
  have "mentioned (fold (\<lambda>s c. snd (merge_alias True s t c)) ss c) \<subseteq> (mentioned c - set ss) \<union> {t}"
    using assms(1)
  proof (induction ss arbitrary: c)
    case (Cons s ss)
    let ?c = "snd (merge_alias True s t c)"
    have "mentioned (fold (\<lambda>s c. snd (merge_alias True s t c)) ss ?c) \<subseteq> (mentioned ?c - set ss) \<union> {t}"
      by (rule Cons.IH) (use Cons.prems in simp)
    also have "\<dots> \<subseteq> (mentioned c - set (s # ss)) \<union> {t}"
      using merge_alias_mentioned [of s t c] Cons.prems by auto
    finally show ?case by simp
  qed auto
  moreover have "t \<notin> set ss" using assms(1) by blast
  ultimately show "mentioned (fold (\<lambda>s c. snd (merge_alias True s t c)) ss c) \<inter> (R \<union> set ss) \<subseteq> mentioned c \<inter> R"
    using assms(2) by blast
  show "ct_tools (fold (\<lambda>s c. snd (merge_alias True s t c)) ss c) = ct_tools c"
    by (induction ss arbitrary: c) simp_all
qed

definition inactivate :: "string set \<Rightarrow> registration \<Rightarrow> registration" where
  "inactivate R r = (if tr_name r \<in> R then r\<lparr>tr_active := False\<rparr> else r)"

lemma inactivate_compose [simp]: "inactivate R (inactivate S r) = inactivate (S \<union> R) r"
  by (simp add: inactivate_def)

lemma apply_plan_facts:
  assumes "\<forall>s \<in> set (mp_retired p). s \<noteq> [] \<and> s \<noteq> mp_target p" "mp_target p \<notin> R" "mp_retired p \<noteq> []"
  shows "mentioned (apply_plan True 0 now p c) \<inter> (R \<union> set (mp_retired p)) \<subseteq> mentioned c \<inter> R"
    and "ct_tools (apply_plan True 0 now p c) = map (inactivate (set (mp_retired p))) (ct_tools c)"
proof -
  let ?c = "update_tools (\<lambda>r. tr_name r \<in> set (mp_retired p)) (\<lambda>r. r\<lparr>tr_active := False\<rparr>) c"
  have "mentioned ?c = mentioned c" by (simp add: mentioned_def update_tools_def)
  with fold_merge_mentioned [OF assms(1,2), of ?c]
  show "mentioned (apply_plan True 0 now p c) \<inter> (R \<union> set (mp_retired p)) \<subseteq> mentioned c \<inter> R"
    by (simp add: apply_plan_def retire_unprotected [OF assms(3)])
  show "ct_tools (apply_plan True 0 now p c) = map (inactivate (set (mp_retired p))) (ct_tools c)"
    using fold_merge_mentioned(2) [OF assms(1,2), of ?c]
    by (simp add: apply_plan_def retire_unprotected [OF assms(3)] update_tools_def inactivate_def)
qed

lemma fold_apply_facts:
  assumes "\<forall>p \<in> set ps. mp_retired p \<noteq> [] \<and> (\<forall>s \<in> set (mp_retired p). s \<noteq> [])"
    "distinct (plan_names ps)" "R \<inter> set (map mp_target ps) = {}" "mentioned c \<inter> R = {}"
  shows "mentioned (fold (apply_plan True 0 now) ps c) \<inter> (R \<union> (\<Union>p \<in> set ps. set (mp_retired p))) = {} \<and>
    ct_tools (fold (apply_plan True 0 now) ps c) =
      map (inactivate (\<Union>p \<in> set ps. set (mp_retired p))) (ct_tools c)"
  using assms
proof (induction ps arbitrary: R c)
  case Nil
  have "inactivate {} = (\<lambda>r. r)" by (simp add: fun_eq_iff inactivate_def)
  with Nil show ?case by simp
next
  case (Cons p ps)
  let ?c = "apply_plan True 0 now p c" and ?R = "R \<union> set (mp_retired p)"
  have names: "plan_names (p # ps) = mp_target p # mp_retired p @ plan_names ps" by (simp add: plan_names_def)
  have tgt: "set (map mp_target ps) \<subseteq> set (plan_names ps)" by (auto simp: plan_names_def)
  have p: "\<forall>s \<in> set (mp_retired p). s \<noteq> [] \<and> s \<noteq> mp_target p" "mp_target p \<notin> R" "mp_retired p \<noteq> []"
    using Cons.prems(1-3) unfolding names by auto
  have "mentioned ?c \<inter> ?R = {}" using apply_plan_facts(1) [OF p, of now c] Cons.prems(4) by blast
  moreover have "?R \<inter> set (map mp_target ps) = {}"
    using Cons.prems(2,3) tgt unfolding names by auto
  moreover have "distinct (plan_names ps)" using Cons.prems(2) unfolding names by simp
  ultimately have "mentioned (fold (apply_plan True 0 now) ps ?c) \<inter> (?R \<union> (\<Union>p \<in> set ps. set (mp_retired p))) = {} \<and>
      ct_tools (fold (apply_plan True 0 now) ps ?c) = map (inactivate (\<Union>p \<in> set ps. set (mp_retired p))) (ct_tools ?c)"
    using Cons.prems(1) by (intro Cons.IH) auto
  then show ?case by (simp add: apply_plan_facts(2) [OF p] Un_assoc)
qed

lemma distinct_plan_target:
  "distinct (plan_names ps) \<Longrightarrow> p \<in> set ps \<Longrightarrow> q \<in> set ps \<Longrightarrow> mp_target p \<notin> set (mp_retired q)"
proof (induction ps)
  case (Cons x ps)
  have names: "plan_names (x # ps) = mp_target x # mp_retired x @ plan_names ps" by (simp add: plan_names_def)
  have sub: "mp_target p \<in> set (plan_names ps)" if "p \<in> set ps" using that in_plan_names by blast
  have sub': "set (mp_retired q) \<subseteq> set (plan_names ps)" if "q \<in> set ps" using that in_plan_names by blast
  from Cons.prems(1) have d: "mp_target x \<notin> set (mp_retired x)" "mp_target x \<notin> set (plan_names ps)"
    "set (mp_retired x) \<inter> set (plan_names ps) = {}" "distinct (plan_names ps)" unfolding names by auto
  from Cons.prems(2,3) consider "p = x" "q = x" | "p = x" "q \<in> set ps" | "p \<in> set ps" "q = x" | "p \<in> set ps" "q \<in> set ps"
    by auto
  then show ?case
    by cases (use d sub sub' Cons.IH in blast)+
qed simp

text \<open>
  C33 (functional): applied consolidation leaves no dangling reference.  Outside the protection
  window and with the database up, after the pass every retired tool is inactive, its target is
  active, and no sub-agent's tool subset names a retired tool.
\<close>

theorem consolidation_repoints:
  assumes "catalog_ok c" "\<forall>r \<in> set (ct_tools c). tr_name r \<noteq> []"
    and run: "(rep, c') = consolidate_tools True True 0 now threshold False c"
    and "p \<in> set (cn_tools rep)" "n \<in> set (mp_retired p)"
  shows "(\<forall>(a, ts) \<in> set (ct_subsets c'). n \<notin> set ts) \<and>
    (\<forall>r \<in> set (ct_tools c'). tr_name r = n \<longrightarrow> \<not> tr_active r) \<and>
    (\<exists>r \<in> set (ct_tools c'). tr_name r = mp_target p \<and> tr_active r)"
proof -
  let ?rows = "active_tool_capability_rows c"
  let ?ps = "plan_clusters ?rows threshold"
  let ?R = "\<Union>p \<in> set ?ps. set (mp_retired p)"
  have rep: "cn_tools rep = ?ps" "c' = fold (apply_plan True 0 now) ?ps c"
    using run by (simp_all add: consolidate_tools_def Let_def)
  have dn: "distinct (map cr_name ?rows)"
    using assms(1) by (simp add: active_tool_capability_rows_def catalog_ok_def o_def distinct_map_filter)
  have sound: "\<forall>p \<in> set ?ps. plan_sound threshold ?rows p" and names: "distinct (plan_names ?ps)"
    using plan_clusters_sound [OF dn refl, of threshold] by auto
  have row: "\<exists>r \<in> set (ct_tools c). tr_name r = cr_name x \<and> tr_active r" if "x \<in> set ?rows" for x
    using that by (auto simp: active_tool_capability_rows_def live_generated_def)
  have named: "s \<noteq> []" if q: "q \<in> set ?ps" "s \<in> set (mp_retired q)" for q s
  proof -
    obtain x where "x \<in> set ?rows" "cr_name x = s"
      using bspec [OF sound q(1)] q(2) unfolding plan_sound_def by blast
    with row [of x] assms(2) show ?thesis by auto
  qed
  have ne: "mp_retired q \<noteq> []" if "q \<in> set ?ps" for q using that by (simp add: plan_clusters_def)
  have facts: "mentioned c' \<inter> ({} \<union> ?R) = {} \<and> ct_tools c' = map (inactivate ?R) (ct_tools c)"
    unfolding rep(2)
  proof (rule fold_apply_facts)
    show "\<forall>p \<in> set ?ps. mp_retired p \<noteq> [] \<and> (\<forall>s \<in> set (mp_retired p). s \<noteq> [])" using named ne by blast
  qed (use names in auto)
  have p: "p \<in> set ?ps" "n \<in> ?R" using assms(4,5) rep(1) by auto
  obtain t where t: "t \<in> set ?rows" "cr_name t = mp_target p" using bspec [OF sound p(1)] unfolding plan_sound_def by blast
  obtain r where r: "r \<in> set (ct_tools c)" "tr_name r = mp_target p" "tr_active r" using row [OF t(1)] t(2) by auto
  have "mp_target p \<notin> ?R"
  proof
    assume "mp_target p \<in> ?R"
    then obtain q where "q \<in> set ?ps" "mp_target p \<in> set (mp_retired q)" by blast
    with distinct_plan_target [OF names p(1)] show False by blast
  qed
  then have "inactivate ?R r = r" using r(2) by (simp add: inactivate_def)
  then have "r \<in> set (ct_tools c')" using facts r(1) by force
  moreover have "\<not> tr_active x" if x: "x \<in> set (ct_tools c')" "tr_name x = n" for x
  proof -
    obtain y where "y \<in> set (ct_tools c)" "x = inactivate ?R y" using x(1) facts by auto
    with x(2) p(2) show ?thesis by (auto simp: inactivate_def split: if_splits)
  qed
  moreover have "n \<notin> set ts" if x: "(a, ts) \<in> set (ct_subsets c')" for a ts
    using facts p(2) x unfolding mentioned_def by blast
  ultimately show ?thesis using r(2,3) by blast
qed

definition twin_tool :: "string \<Rightarrow> real \<Rightarrow> registration" where
  "twin_tool n t = new_registration n [] (Some [1]) t \<lparr>tv_version = 1, tv_code = [], tv_active = True, tv_status = Approved\<rparr>"

definition twin_catalog :: catalog where
  "twin_catalog = \<lparr>ct_tools = [twin_tool ''a'' 1, twin_tool ''b'' 2], ct_subsets = [(''agent'', [''a''])]\<rparr>"

lemma twin_catalog_plans:
  "plan_clusters (active_tool_capability_rows twin_catalog) (3 / 4) =
     [\<lparr>mp_target = ''b'', mp_embedding = [1], mp_retired = [''a''], mp_similarity = 1\<rparr>]"
  by (simp add: twin_catalog_def twin_tool_def new_registration_def active_tool_capability_rows_def live_generated_def
      latest_version_def newer_version_def plan_clusters_def by_score_desc_def plan_row_def new_plan_def
      cosine_def dot_def less_eq_prod_def)

theorem consolidation_repoints_witness:
  "list_all (\<lambda>(a, ts). ''a'' \<notin> set ts) (ct_subsets (snd (consolidate_tools True True 0 9 (3 / 4) False twin_catalog)))"
proof -
  have ok: "catalog_ok twin_catalog" "\<forall>r \<in> set (ct_tools twin_catalog). tr_name r \<noteq> []"
    by (simp_all add: twin_catalog_def twin_tool_def new_registration_def catalog_ok_def versions_ok_def)
  have rep: "cn_tools (fst (consolidate_tools True True 0 9 (3 / 4) False twin_catalog)) =
      [\<lparr>mp_target = ''b'', mp_embedding = [1], mp_retired = [''a''], mp_similarity = 1\<rparr>]"
    by (simp add: consolidate_tools_def twin_catalog_plans)
  let ?p = "\<lparr>mp_target = ''b'', mp_embedding = [1], mp_retired = [''a''], mp_similarity = 1\<rparr>"
  have "?p \<in> set (cn_tools (fst (consolidate_tools True True 0 9 (3 / 4) False twin_catalog)))" "''a'' \<in> set (mp_retired ?p)"
    unfolding rep by simp_all
  from conjunct1 [OF consolidation_repoints [OF ok prod.collapse this]] show ?thesis by (simp add: list_all_iff)
qed

end
