(* ===== verification/Eval_Checks.thy ===== *)
theory Eval_Checks
  imports Battery
begin

text \<open>
  The correctness checks of \<open>src/src/eval/checks.py\<close>: deliverable selection and parsing, the six
  kinds of check and their aggregation by \<open>run_checks\<close>.  Arguments (\<open>check_env\<close>): where a declared
  deliverable lies and its text, \<open>json.loads\<close>, \<open>csv.DictReader\<close> and \<open>re.search\<close>, \<open>str\<close> of a
  number or container, the probe runs in the sandbox and the judges.  A check that raises is
  \<open>None\<close>.  Evidence and error texts are left out.
\<close>

section \<open>Configuration and results\<close>

record assertion =
  as_kind :: string
  as_deliverable :: "string option"
  as_value :: "json option"
  as_pattern :: string
  as_path :: string
  as_tolerance :: "real option"
  as_field :: string
  as_expected :: json

record check_config =
  cc_type :: string
  cc_name :: string
  cc_deliverable :: "string option"
  cc_format :: "string option"
  cc_required :: "string list"
  cc_min_rows :: "int option"
  cc_max_rows :: "int option"
  cc_exact_rows :: "int option"
  cc_assertions :: "assertion list"
  cc_code :: "string option"
  cc_transform_code :: "string option"
  cc_input_deliverable :: "string option"
  cc_reference :: string

record check_result =
  ck_name :: string
  ck_type :: string
  ck_passed :: bool
  ck_score :: real
  ck_skipped :: bool

record checks_outcome =
  oc_score :: real
  oc_passed :: bool
  oc_checks :: "check_result list"

record probe_run =
  pb_success :: bool
  pb_exit_code :: int
  pb_stdout :: string

record check_env =
  ev_resolve :: "string \<Rightarrow> string option"
  ev_is_file :: "string \<Rightarrow> bool"
  ev_text :: "string \<Rightarrow> string"
  ev_loads :: "string \<Rightarrow> json option"
  ev_csv :: "string list \<Rightarrow> nat \<times> string list"
  ev_search :: "string \<Rightarrow> string \<Rightarrow> bool option"
  ev_str :: "json \<Rightarrow> string"
  ev_probe :: "nat \<Rightarrow> string \<Rightarrow> string list \<Rightarrow> probe_run"
  ev_judge_enabled :: bool
  ev_canary_min_score :: real
  ev_deepeval :: "string \<Rightarrow> string \<Rightarrow> real option"
  ev_ragas :: "string \<Rightarrow> string \<Rightarrow> (real \<times> real) option"
  ev_gateway_judge :: "string \<Rightarrow> string \<Rightarrow> (real \<times> real) option"

definition result_of :: "check_config \<Rightarrow> bool \<Rightarrow> real \<Rightarrow> check_result" where
  "result_of cfg passed score =
     \<lparr>ck_name = cc_name cfg, ck_type = cc_type cfg, ck_passed = passed, ck_score = score, ck_skipped = False\<rparr>"

definition skipped_result :: "check_config \<Rightarrow> check_result" where
  "skipped_result cfg = (result_of cfg True 1)\<lparr>ck_skipped := True\<rparr>"

text \<open>The share of the conditions that hold; passing needs all of them.\<close>

definition share :: "bool list \<Rightarrow> real" where
  "share bs = real (length (filter (\<lambda>b. b) bs)) / real (length bs)"

definition conditions_result :: "check_config \<Rightarrow> bool list \<Rightarrow> check_result" where
  "conditions_result cfg bs = result_of cfg (list_all (\<lambda>b. b) bs) (share bs)"

section \<open>Deliverables\<close>

definition file_of :: "check_env \<Rightarrow> string \<Rightarrow> string option" where
  "file_of env raw =
     (case ev_resolve env raw of None \<Rightarrow> None | Some p \<Rightarrow> if ev_is_file env p then Some p else None)"

fun first_file :: "check_env \<Rightarrow> string list \<Rightarrow> string option" where
  "first_file env [] = None"
| "first_file env (raw # raws) = (case file_of env raw of None \<Rightarrow> first_file env raws | Some p \<Rightarrow> Some p)"

definition select_target :: "check_env \<Rightarrow> string option \<Rightarrow> string list \<Rightarrow> string option" where
  "select_target env target deliverables =
     (case target of
        None \<Rightarrow> first_file env deliverables
      | Some t \<Rightarrow> if t = [] then first_file env deliverables else file_of env t)"

text \<open>\<open>Path.suffix\<close>: from the last dot of the name, unless it leads or trails.\<close>

definition path_suffix :: "string \<Rightarrow> string" where
  "path_suffix p =
     (let name = last (split_on CHR ''/'' p);
          ext = rev (takeWhile (\<lambda>c. c \<noteq> CHR ''.'') (rev name));
          stem = length name - Suc (length ext)
      in if CHR ''.'' \<in> set name \<and> ext \<noteq> [] \<and> 0 < stem then CHR ''.'' # ext else [])"

definition detect_format :: "string \<Rightarrow> string" where
  "detect_format p =
     (let s = dropWhile (\<lambda>c. c = CHR ''.'') (py_lower (path_suffix p))
      in if s = ''csv'' \<or> s = ''tsv'' then ''csv''
         else if s = ''jsonl'' then ''jsonl''
         else if s = ''json'' then ''json'' else ''text'')"

text \<open>\<open>str.splitlines\<close> on ASCII: a carriage return with its line feed is one break.\<close>

definition is_break :: "char \<Rightarrow> bool" where
  "is_break c = (let n = (of_char c :: nat) in (10 \<le> n \<and> n \<le> 13) \<or> (28 \<le> n \<and> n \<le> 30))"

fun join_crlf :: "string \<Rightarrow> string" where
  "join_crlf (c # d # cs) =
     (if c = CHR 0x0D \<and> d = CHR 0x0A then d # join_crlf cs else c # join_crlf (d # cs))"
| "join_crlf s = s"

fun split_breaks :: "string \<Rightarrow> string \<Rightarrow> string list" where
  "split_breaks acc [] = (if acc = [] then [] else [rev acc])"
| "split_breaks acc (c # cs) =
     (if is_break c then rev acc # split_breaks [] cs else split_breaks (c # acc) cs)"

definition py_splitlines :: "string \<Rightarrow> string list" where
  "py_splitlines s = split_breaks [] (join_crlf s)"

definition keys_union :: "json list \<Rightarrow> string list" where
  "keys_union rows = sort (remdups (concat (map (\<lambda>v. case v of JObj kvs \<Rightarrow> map fst kvs | _ \<Rightarrow> []) rows)))"

text \<open>The number of rows and the field names; \<open>None\<close> when the text is no JSON.\<close>

definition load_struct :: "check_env \<Rightarrow> string \<Rightarrow> string \<Rightarrow> (nat \<times> string list) option" where
  "load_struct env path fmt =
     (let content = ev_text env path in
      if fmt = ''csv'' then Some (ev_csv env (py_splitlines content))
      else if fmt = ''jsonl'' then
        (let rows = List.map_filter (\<lambda>l. if py_strip l = [] then None else ev_loads env (py_strip l))
               (py_splitlines content)
         in Some (length rows, keys_union rows))
      else if fmt = ''json'' then
        (case ev_loads env content of
           None \<Rightarrow> None
         | Some (JList xs) \<Rightarrow> Some (length xs, keys_union xs)
         | Some (JObj kvs) \<Rightarrow> Some (1, sort (map fst kvs))
         | Some _ \<Rightarrow> Some (1, []))
      else Some (length (filter (\<lambda>l. py_strip l \<noteq> []) (py_splitlines content)), []))"

section \<open>Values\<close>

text \<open>\<open>int(x)\<close>, the number behind a value, and Python's equality of decoded JSON.\<close>

definition json_int :: "json \<Rightarrow> int option" where
  "json_int v =
     (case v of
        JInt n \<Rightarrow> Some n
      | JBool b \<Rightarrow> Some (if b then 1 else 0)
      | JFloat r \<Rightarrow> Some (if r < 0 then - \<lfloor>- r\<rfloor> else \<lfloor>r\<rfloor>)
      | JStr s \<Rightarrow> py_int s
      | _ \<Rightarrow> None)"

definition num_of :: "json \<Rightarrow> real option" where
  "num_of v =
     (case v of
        JInt n \<Rightarrow> Some (real_of_int n)
      | JBool b \<Rightarrow> Some (if b then 1 else 0)
      | JFloat r \<Rightarrow> Some r
      | _ \<Rightarrow> None)"

fun json_eq :: "json \<Rightarrow> json \<Rightarrow> bool"
  and json_eqs :: "json list \<Rightarrow> json list \<Rightarrow> bool"
  and json_sub :: "(string \<times> json) list \<Rightarrow> (string \<times> json) list \<Rightarrow> bool" where
  "json_eq (JList xs) (JList ys) = json_eqs xs ys"
| "json_eq (JObj xs) (JObj ys) = (length xs = length ys \<and> json_sub xs ys)"
| "json_eq (JStr s) (JStr t) = (s = t)"
| "json_eq JNull JNull = True"
| "json_eq v w = (case (num_of v, num_of w) of (Some a, Some b) \<Rightarrow> a = b | _ \<Rightarrow> False)"
| "json_eqs [] [] = True"
| "json_eqs (x # xs) (y # ys) = (json_eq x y \<and> json_eqs xs ys)"
| "json_eqs _ _ = False"
| "json_sub [] ys = True"
| "json_sub ((k, v) # xs) ys =
     ((case map_of ys k of None \<Rightarrow> False | Some w \<Rightarrow> json_eq v w) \<and> json_sub xs ys)"

definition py_index :: "'a list \<Rightarrow> int \<Rightarrow> 'a option" where
  "py_index xs i =
     (let j = (if i < 0 then i + int (length xs) else i)
      in if 0 \<le> j \<and> j < int (length xs) then Some (xs ! nat j) else None)"

definition path_step :: "string \<Rightarrow> json \<Rightarrow> json" where
  "path_step part cur =
     (if part = [] then cur
      else case cur of
        JList xs \<Rightarrow> (case py_int part of None \<Rightarrow> JNull
                    | Some i \<Rightarrow> (case py_index xs i of None \<Rightarrow> JNull | Some v \<Rightarrow> v))
      | JObj kvs \<Rightarrow> obj_get kvs part JNull
      | _ \<Rightarrow> JNull)"

definition dotted_get :: "json \<Rightarrow> string \<Rightarrow> json" where
  "dotted_get data path = fold path_step (split_on CHR ''.'' path) data"

text \<open>The live state, its models as objects.\<close>

definition state_get :: "json \<Rightarrow> string \<Rightarrow> json" where
  "state_get st path = (if path = [] then JNull else dotted_get st path)"

definition normalize_state_value :: "check_env \<Rightarrow> json \<Rightarrow> string" where
  "normalize_state_value env v =
     (case v of
        JNull \<Rightarrow> []
      | JStr s \<Rightarrow> py_lower (py_strip s)
      | JInt n \<Rightarrow> py_str n
      | JBool b \<Rightarrow> (if b then ''true'' else ''false'')
      | _ \<Rightarrow> py_lower (py_strip (ev_str env v)))"

section \<open>The checks\<close>

definition check_structural :: "check_env \<Rightarrow> check_config \<Rightarrow> string list \<Rightarrow> check_result" where
  "check_structural env cfg deliverables =
     (case select_target env (cc_deliverable cfg) deliverables of
        None \<Rightarrow> result_of cfg False 0
      | Some path \<Rightarrow>
          let fmt = (case cc_format cfg of None \<Rightarrow> detect_format path
                     | Some f \<Rightarrow> if f = [] then detect_format path else f)
          in (case load_struct env path fmt of
                None \<Rightarrow> result_of cfg False 0
              | Some (rows, names) \<Rightarrow>
                  let conds =
                    (if cc_required cfg = [] then [] else [list_all (\<lambda>f. f \<in> set names) (cc_required cfg)]) @
                    (case cc_min_rows cfg of None \<Rightarrow> [] | Some b \<Rightarrow> [b \<le> int rows]) @
                    (case cc_max_rows cfg of None \<Rightarrow> [] | Some b \<Rightarrow> [int rows \<le> b]) @
                    (case cc_exact_rows cfg of None \<Rightarrow> [] | Some b \<Rightarrow> [int rows = b])
                  in conditions_result cfg (if conds = [] then [1 \<le> rows] else conds)))"

definition eval_assertion :: "check_env \<Rightarrow> assertion \<Rightarrow> string option \<Rightarrow> bool option" where
  "eval_assertion env a resolved =
     (let kind = py_lower (as_kind a) in
      case resolved of
        None \<Rightarrow> Some False
      | Some path \<Rightarrow>
          if kind = ''exists'' then Some True
          else if kind = ''contains'' then
            Some (py_in (case as_value a of None \<Rightarrow> [] | Some (JStr s) \<Rightarrow> s | Some v \<Rightarrow> ev_str env v)
              (ev_text env path))
          else if kind = ''regex'' then
            (case ev_search env (as_pattern a) (ev_text env path) of None \<Rightarrow> Some False | Some b \<Rightarrow> Some b)
          else if kind = ''min_rows'' \<or> kind = ''max_rows'' then
            (case (load_struct env path (detect_format path), json_int (case as_value a of None \<Rightarrow> JInt 0 | Some v \<Rightarrow> v)) of
               (Some (rows, _), Some bound) \<Rightarrow>
                 Some (if kind = ''min_rows'' then bound \<le> int rows else int rows \<le> bound)
             | _ \<Rightarrow> None)
          else if kind = ''json_path_eq'' then
            (case ev_loads env (ev_text env path) of
               None \<Rightarrow> Some False
             | Some data \<Rightarrow>
                 let got = dotted_get data (as_path a);
                     expected = (case as_value a of None \<Rightarrow> JNull | Some v \<Rightarrow> v)
                 in (case (as_tolerance a, num_of got, num_of expected) of
                       (Some tol, Some x, Some y) \<Rightarrow> Some (\<bar>x - y\<bar> \<le> tol)
                     | _ \<Rightarrow> Some (json_eq got expected)))
          else Some False)"

definition all_some :: "'a option list \<Rightarrow> 'a list option" where
  "all_some xs = (if list_all (\<lambda>x. x \<noteq> None) xs then Some (map the xs) else None)"

definition check_golden :: "check_env \<Rightarrow> check_config \<Rightarrow> string list \<Rightarrow> check_result option" where
  "check_golden env cfg deliverables =
     (if cc_assertions cfg = [] then Some (result_of cfg True 1)
      else map_option (conditions_result cfg)
        (all_some (map (\<lambda>a. eval_assertion env a (select_target env (as_deliverable a) deliverables))
          (cc_assertions cfg))))"

definition eval_state :: "check_env \<Rightarrow> json \<Rightarrow> assertion \<Rightarrow> bool" where
  "eval_state env st a =
     (let kind = py_lower (as_kind a);
          got = normalize_state_value env (state_get st (as_field a));
          want = as_expected a
      in if kind = ''eq'' then got = normalize_state_value env want
         else if kind = ''in'' then
           got \<in> set (map (normalize_state_value env) (case want of JList xs \<Rightarrow> xs | _ \<Rightarrow> [want]))
         else if kind = ''contains'' then py_in (normalize_state_value env want) got
         else False)"

definition check_state :: "check_env \<Rightarrow> json \<Rightarrow> check_config \<Rightarrow> check_result" where
  "check_state env st cfg =
     (if cc_assertions cfg = [] then result_of cfg True 1
      else conditions_result cfg (map (eval_state env st) (cc_assertions cfg)))"

definition probe_ok :: "probe_run \<Rightarrow> bool" where
  "probe_ok r = (pb_success r \<and> pb_exit_code r = 0)"

definition given :: "string option \<Rightarrow> string option" where
  "given s = (case s of None \<Rightarrow> None | Some t \<Rightarrow> if t = [] then None else Some t)"

definition check_execution :: "check_env \<Rightarrow> check_config \<Rightarrow> string list \<Rightarrow> check_result" where
  "check_execution env cfg deliverables =
     (case given (cc_code cfg) of
        None \<Rightarrow> result_of cfg False 0
      | Some code \<Rightarrow>
          let passed = probe_ok (ev_probe env 0 code (List.map_filter (ev_resolve env) deliverables))
          in result_of cfg passed (if passed then 1 else 0))"

definition check_idempotency :: "check_env \<Rightarrow> check_config \<Rightarrow> string list \<Rightarrow> check_result" where
  "check_idempotency env cfg deliverables =
     (case (case given (cc_transform_code cfg) of None \<Rightarrow> given (cc_code cfg) | Some c \<Rightarrow> Some c) of
        None \<Rightarrow> result_of cfg False 0
      | Some code \<Rightarrow>
          (case select_target env (cc_input_deliverable cfg) deliverables of
             None \<Rightarrow> result_of cfg False 0
           | Some input_path \<Rightarrow>
               let paths = input_path # List.map_filter (ev_resolve env) deliverables;
                   r1 = ev_probe env 0 code paths; r2 = ev_probe env 1 code paths;
                   o1 = py_strip (pb_stdout r1); o2 = py_strip (pb_stdout r2);
                   both_ok = (probe_ok r1 \<and> probe_ok r2)
               in conditions_result cfg [both_ok, both_ok \<and> o1 \<noteq> [] \<and> o1 = o2]))"

definition unit_clamp :: "real \<Rightarrow> real" where
  "unit_clamp x = max 0 (min 1 x)"

definition judge :: "check_env \<Rightarrow> string \<Rightarrow> string \<Rightarrow> real option" where
  "judge env content reference =
     (case ev_deepeval env content reference of
        Some s \<Rightarrow> Some (unit_clamp s)
      | None \<Rightarrow>
          (case ev_ragas env content reference of
             Some (f, r) \<Rightarrow> Some (unit_clamp ((f + r) / 2))
           | None \<Rightarrow>
               (case ev_gateway_judge env content reference of
                  Some (f, r) \<Rightarrow> Some ((unit_clamp f + unit_clamp r) / 2)
                | None \<Rightarrow> None)))"

definition check_oracle :: "check_env \<Rightarrow> check_config \<Rightarrow> string list \<Rightarrow> check_result" where
  "check_oracle env cfg deliverables =
     (if \<not> ev_judge_enabled env then skipped_result cfg
      else case select_target env (cc_deliverable cfg) deliverables of
        None \<Rightarrow> skipped_result cfg
      | Some path \<Rightarrow>
          if py_strip (ev_text env path) = [] then result_of cfg False 0
          else (case judge env (ev_text env path) (cc_reference cfg) of
                  None \<Rightarrow> skipped_result cfg
                | Some s \<Rightarrow> result_of cfg (ev_canary_min_score env \<le> s) s))"

section \<open>The runner\<close>

text \<open>The registry; an unknown kind and a check that raises fail.\<close>

definition run_check :: "check_env \<Rightarrow> json \<Rightarrow> string list \<Rightarrow> check_config \<Rightarrow> check_result" where
  "run_check env st deliverables cfg =
     (if cc_type cfg = ''structural'' then check_structural env cfg deliverables
      else if cc_type cfg = ''golden'' then
        (case check_golden env cfg deliverables of None \<Rightarrow> result_of cfg False 0 | Some r \<Rightarrow> r)
      else if cc_type cfg = ''execution'' then check_execution env cfg deliverables
      else if cc_type cfg = ''idempotency'' then check_idempotency env cfg deliverables
      else if cc_type cfg = ''oracle'' then check_oracle env cfg deliverables
      else if cc_type cfg = ''state'' then check_state env st cfg
      else result_of cfg False 0)"

definition run_checks ::
  "check_env \<Rightarrow> json \<Rightarrow> goal_spec \<Rightarrow> check_config list \<Rightarrow> string list \<Rightarrow> checks_outcome" where
  "run_checks env st spec cfgs deliverables =
     (if cfgs = [] then \<lparr>oc_score = 1, oc_passed = True, oc_checks = []\<rparr>
      else
        let merged = dedup {} (gs_expected_deliverables spec @ deliverables);
            results = map (run_check env st merged) cfgs;
            scored = filter (\<lambda>r. \<not> ck_skipped r) results
        in \<lparr>oc_score = (if scored = [] then 1 else sum_list (map ck_score scored) / real (length scored)),
            oc_passed = list_all ck_passed scored, oc_checks = results\<rparr>)"

section \<open>Scores\<close>

lemma share_bounds: "0 \<le> share bs" "share bs \<le> 1"
  using length_filter_le [of "\<lambda>b. b" bs] by (auto simp: share_def divide_le_eq)

lemma share_one: "bs \<noteq> [] \<Longrightarrow> share bs = 1 \<longleftrightarrow> list_all (\<lambda>b. b) bs"
proof -
  assume ne: "bs \<noteq> []"
  have "length (filter (\<lambda>b. b) bs) = length bs \<longleftrightarrow> list_all (\<lambda>b. b) bs"
    by (metis filter_True length_filter_less less_irrefl list_all_iff)
  with ne show ?thesis by (simp add: share_def eq_commute [of "length bs"])
qed

lemma result_of_simps [simp]:
  "ck_passed (result_of cfg p s) = p" "ck_score (result_of cfg p s) = s" "\<not> ck_skipped (result_of cfg p s)"
  "ck_passed (skipped_result cfg)" "ck_score (skipped_result cfg) = 1" "ck_skipped (skipped_result cfg)"
  by (simp_all add: result_of_def skipped_result_def)

lemma conditions_result_simps [simp]:
  "ck_passed (conditions_result cfg bs) = list_all (\<lambda>b. b) bs" "ck_score (conditions_result cfg bs) = share bs"
  "\<not> ck_skipped (conditions_result cfg bs)"
  by (simp_all add: conditions_result_def)

lemma all_some_nonempty: "all_some xs = Some ys \<Longrightarrow> xs \<noteq> [] \<Longrightarrow> ys \<noteq> []"
  by (auto simp: all_some_def split: if_splits)

text \<open>What a check reports when it is not a judge's score.\<close>

definition decided :: "check_result \<Rightarrow> bool" where
  "decided r = (\<not> ck_skipped r \<and> 0 \<le> ck_score r \<and> ck_score r \<le> 1 \<and> (ck_passed r \<longleftrightarrow> ck_score r = 1))"

lemma decided_conditions: "bs \<noteq> [] \<Longrightarrow> decided (conditions_result cfg bs)"
  using share_bounds [of bs] share_one [of bs] by (simp add: decided_def)

lemma decided_result [simp]: "decided (result_of cfg False 0)" "decided (result_of cfg True 1)"
  "decided (result_of cfg b (if b then 1 else 0))"
  by (simp_all add: decided_def)

lemma decided_structural: "decided (check_structural env cfg ds)"
  by (auto simp: check_structural_def Let_def intro!: decided_conditions split: option.split prod.split)

lemma decided_golden: "check_golden env cfg ds = Some r \<Longrightarrow> decided r"
  by (auto simp: check_golden_def split: if_splits intro!: decided_conditions dest: all_some_nonempty)

lemma decided_state: "decided (check_state env st cfg)"
  by (simp add: check_state_def decided_conditions)

lemma decided_execution: "decided (check_execution env cfg ds)"
  by (simp add: check_execution_def Let_def split: option.split)

lemma decided_idempotency: "decided (check_idempotency env cfg ds)"
  by (auto simp: check_idempotency_def Let_def intro!: decided_conditions split: option.split)

lemma run_check_decided: "cc_type cfg \<noteq> ''oracle'' \<Longrightarrow> decided (run_check env st ds cfg)"
  by (auto simp: run_check_def decided_structural decided_state decided_execution decided_idempotency
      split: option.split dest: decided_golden)

lemma unit_clamp_bounds [simp]: "0 \<le> unit_clamp x" "unit_clamp x \<le> 1"
  by (simp_all add: unit_clamp_def)

lemma judge_bounds: "judge env t ref = Some s \<Longrightarrow> 0 \<le> s \<and> s \<le> 1"
proof -
  have "0 \<le> (unit_clamp f + unit_clamp r) / 2 \<and> (unit_clamp f + unit_clamp r) / 2 \<le> 1" for f r
    by (simp add: unit_clamp_def max_def min_def)
  then show "judge env t ref = Some s \<Longrightarrow> 0 \<le> s \<and> s \<le> 1"
    by (auto simp: judge_def split: option.splits)
qed

lemma oracle_bounds: "0 \<le> ck_score (check_oracle env cfg ds) \<and> ck_score (check_oracle env cfg ds) \<le> 1"
  using judge_bounds by (auto simp: check_oracle_def split: option.split)

lemma run_check_bounds: "0 \<le> ck_score (run_check env st ds cfg) \<and> ck_score (run_check env st ds cfg) \<le> 1"
proof (cases "cc_type cfg = ''oracle''")
  case True
  then show ?thesis using oracle_bounds by (simp add: run_check_def)
next
  case False
  from run_check_decided [OF this, of env st ds] show ?thesis by (simp add: decided_def)
qed

lemma mean_bounds:
  fixes xs :: "real list"
  assumes "xs \<noteq> []" "\<forall>x \<in> set xs. 0 \<le> x \<and> x \<le> 1"
  shows "0 \<le> sum_list xs / real (length xs) \<and> sum_list xs / real (length xs) \<le> 1"
    and "sum_list xs / real (length xs) = 1 \<longleftrightarrow> (\<forall>x \<in> set xs. x = 1)"
proof -
  have "0 \<le> sum_list xs \<and> sum_list xs \<le> real (length xs) \<and> (sum_list xs = real (length xs) \<longleftrightarrow> (\<forall>x \<in> set xs. x = 1))"
    using assms(2)
  proof (induction xs)
    case (Cons x xs)
    then have IH: "0 \<le> sum_list xs" "sum_list xs \<le> real (length xs)"
      "sum_list xs = real (length xs) \<longleftrightarrow> (\<forall>x \<in> set xs. x = 1)" "0 \<le> x" "x \<le> 1" by auto
    have "x + sum_list xs = 1 + real (length xs) \<longleftrightarrow> x = 1 \<and> sum_list xs = real (length xs)" using IH by linarith
    with IH show ?case by auto
  qed simp
  with assms(1) show "0 \<le> sum_list xs / real (length xs) \<and> sum_list xs / real (length xs) \<le> 1"
    and "sum_list xs / real (length xs) = 1 \<longleftrightarrow> (\<forall>x \<in> set xs. x = 1)"
    by (auto simp: divide_simps)
qed

text \<open>
  Fact (bounds): a correctness score is a fraction.  Whatever the specification, the deliverables,
  the state, the probes and the judges, the overall score and every check's score lie between
  zero and one.
\<close>

theorem correctness_score_bounds:
  "0 \<le> oc_score (run_checks env st spec cfgs ds) \<and> oc_score (run_checks env st spec cfgs ds) \<le> 1 \<and>
   list_all (\<lambda>r. 0 \<le> ck_score r \<and> ck_score r \<le> 1) (oc_checks (run_checks env st spec cfgs ds))"
proof -
  let ?rs = "map (run_check env st (dedup {} (gs_expected_deliverables spec @ ds))) cfgs"
  let ?sc = "filter (\<lambda>r. \<not> ck_skipped r) ?rs"
  have rs: "\<forall>r \<in> set ?rs. 0 \<le> ck_score r \<and> ck_score r \<le> 1" using run_check_bounds by auto
  have sc: "?sc \<noteq> [] \<Longrightarrow> 0 \<le> sum_list (map ck_score ?sc) / real (length ?sc) \<and>
      sum_list (map ck_score ?sc) / real (length ?sc) \<le> 1"
    using mean_bounds(1) [of "map ck_score ?sc"] rs by auto
  show ?thesis
  proof (cases "cfgs = []")
    case False
    then show ?thesis using rs sc by (auto simp: run_checks_def Let_def list_all_iff)
  qed (simp add: run_checks_def)
qed

text \<open>
  Fact (functional): without judged checks the strict verdict and the score agree.  If no check is
  an oracle, the outcome passes exactly when the overall score is one.
\<close>

theorem full_score_iff_passed:
  assumes "\<forall>cfg \<in> set cfgs. cc_type cfg \<noteq> ''oracle''"
  shows "oc_passed (run_checks env st spec cfgs ds) \<longleftrightarrow> oc_score (run_checks env st spec cfgs ds) = 1"
proof (cases "cfgs = []")
  case False
  let ?rs = "map (run_check env st (dedup {} (gs_expected_deliverables spec @ ds))) cfgs"
  have dec: "\<forall>r \<in> set ?rs. decided r" using assms run_check_decided by auto
  then have sc: "filter (\<lambda>r. \<not> ck_skipped r) ?rs = ?rs" by (intro filter_True) (simp add: decided_def)
  have "\<forall>x \<in> set (map ck_score ?rs). 0 \<le> x \<and> x \<le> 1" using dec by (auto simp: decided_def)
  from mean_bounds(2) [OF _ this] have
    "sum_list (map ck_score ?rs) / real (length ?rs) = 1 \<longleftrightarrow> (\<forall>r \<in> set ?rs. ck_score r = 1)"
    using False by simp
  also have "\<dots> \<longleftrightarrow> list_all ck_passed ?rs" using dec by (auto simp: list_all_iff decided_def)
  finally show ?thesis using False by (simp add: run_checks_def Let_def sc del: map_map filter_map)
qed (simp add: run_checks_def)

lemma first_file_None: "(\<forall>d \<in> set ds. file_of env d = None) \<Longrightarrow> first_file env ds = None"
  by (induction ds) auto

text \<open>
  Fact (safety): a judged goal without its deliverable scores one.  When every check of the goal is
  an oracle and no file the goal names or the run declares is on disk, all checks are skipped and
  the outcome is a pass with the full score.
\<close>

theorem judged_goal_without_files_passes:
  assumes "\<forall>cfg \<in> set cfgs. cc_type cfg = ''oracle'' \<and> cc_deliverable cfg = None"
    and "\<forall>d \<in> set (gs_expected_deliverables spec @ ds). file_of env d = None"
  shows "oc_passed (run_checks env st spec cfgs ds) \<and> oc_score (run_checks env st spec cfgs ds) = 1"
proof -
  let ?m = "dedup {} (gs_expected_deliverables spec @ ds)"
  have "first_file env ?m = None" using assms(2) by (intro first_file_None) (simp add: set_dedup)
  then have "ck_skipped (run_check env st ?m cfg)" if "cfg \<in> set cfgs" for cfg
    using assms(1) that by (auto simp: run_check_def check_oracle_def select_target_def)
  then have "filter (\<lambda>r. \<not> ck_skipped r) (map (run_check env st ?m) cfgs) = []"
    by (auto simp: filter_empty_conv)
  then show ?thesis by (simp add: run_checks_def Let_def del: filter_map)
qed

section \<open>Witnesses\<close>

definition blank_check :: "string \<Rightarrow> check_config" where
  "blank_check kind = \<lparr>cc_type = kind, cc_name = kind, cc_deliverable = None, cc_format = None, cc_required = [],
     cc_min_rows = None, cc_max_rows = None, cc_exact_rows = None, cc_assertions = [], cc_code = None,
     cc_transform_code = None, cc_input_deliverable = None, cc_reference = []\<rparr>"

definition empty_disk :: check_env where
  "empty_disk = \<lparr>ev_resolve = (\<lambda>_. None), ev_is_file = (\<lambda>_. False), ev_text = (\<lambda>_. []), ev_loads = (\<lambda>_. None),
     ev_csv = (\<lambda>_. (0, [])), ev_search = (\<lambda>_ _. None), ev_str = (\<lambda>_. []),
     ev_probe = (\<lambda>_ _ _. \<lparr>pb_success = False, pb_exit_code = 1, pb_stdout = []\<rparr>), ev_judge_enabled = True,
     ev_canary_min_score = 8 / 10, ev_deepeval = (\<lambda>_ _. None), ev_ragas = (\<lambda>_ _. None),
     ev_gateway_judge = (\<lambda>_ _. None)\<rparr>"

definition report_spec :: goal_spec where
  "report_spec = \<lparr>gs_spec_id = ''q'', gs_goal_text = ''write it'', gs_max_iterations = 5,
     gs_expected_deliverables = [''results/report.md'']\<rparr>"

theorem full_score_iff_passed_witness:
  "\<not> oc_passed (run_checks empty_disk JNull report_spec [blank_check ''structural'', blank_check ''golden''] [])"
proof -
  have "oc_score (run_checks empty_disk JNull report_spec [blank_check ''structural'', blank_check ''golden''] []) = 1 / 2"
    by (simp add: run_checks_def run_check_def blank_check_def check_structural_def check_golden_def
        select_target_def file_of_def empty_disk_def report_spec_def Let_def)
  then show ?thesis
    using full_score_iff_passed [of "[blank_check ''structural'', blank_check ''golden'']" empty_disk JNull report_spec "[]"]
    by (simp add: blank_check_def)
qed

theorem judged_goal_without_files_passes_witness:
  "oc_passed (run_checks empty_disk JNull report_spec [blank_check ''oracle''] []) \<and>
   oc_score (run_checks empty_disk JNull report_spec [blank_check ''oracle''] []) = 1"
  by (rule judged_goal_without_files_passes) (simp_all add: blank_check_def file_of_def empty_disk_def)

end
