(* ===== verification/Capability_Curve.thy ===== *)
theory Capability_Curve
  imports Eval_Checks "HOL-Library.Option_ord"
begin

text \<open>
  The battery's capability curve: \<open>src/src/eval/curve.py\<close> over the rows that
  \<open>src/src/eval/store.py\<close> writes.  Times are seconds of UTC, a date is a day number; the rows of
  a goal come as a list.  Exports and plots are left out.
\<close>

section \<open>Rows and points\<close>

record eval_row =
  er_attempt :: "string option"
  er_check :: string
  er_score :: real
  er_created :: "real option"

record curve_point =
  cp_date :: int
  cp_attempt :: "string option"
  cp_mean :: real
  cp_checks :: nat

record battery_point =
  bp_date :: int
  bp_mean :: real
  bp_goals :: nat

record curve_settings =
  cs_delta :: real
  cs_floor :: real
  cs_min_points :: int
  cs_auto_rollback :: bool
  cs_lookback_days :: real

text \<open>What \<open>record_correctness\<close> stores: one row for every check, skipped ones included.\<close>

definition stored_rows :: "string option \<Rightarrow> real \<Rightarrow> checks_outcome \<Rightarrow> eval_row list" where
  "stored_rows attempt now oc =
     map (\<lambda>r. \<lparr>er_attempt = attempt, er_check = ck_name r, er_score = ck_score r, er_created = Some now\<rparr>)
       (oc_checks oc)"

definition mean :: "real list \<Rightarrow> real" where
  "mean xs = (if xs = [] then 0 else sum_list xs / real (length xs))"

definition row_date :: "eval_row \<Rightarrow> int option" where
  "row_date r = map_option (\<lambda>t. \<lfloor>t / 86400\<rfloor>) (er_created r)"

definition tagged :: "eval_row \<Rightarrow> string option" where
  "tagged r = (case er_attempt r of None \<Rightarrow> None | Some a \<Rightarrow> if a = [] then None else Some a)"

definition latest_attempt :: "eval_row list \<Rightarrow> string option" where
  "latest_attempt rows =
     (case List.map_filter tagged rows of [] \<Rightarrow> None | a # ids \<Rightarrow> Some (fold max ids a))"

definition keep_newest :: "eval_row \<Rightarrow> (string \<times> eval_row) list \<Rightarrow> (string \<times> eval_row) list" where
  "keep_newest r best =
     (case map_of best (er_check r) of
        None \<Rightarrow> AList.update (er_check r) r best
      | Some prev \<Rightarrow> if er_created prev < er_created r then AList.update (er_check r) r best else best)"

definition latest_per_check :: "eval_row list \<Rightarrow> eval_row list" where
  "latest_per_check rows = map snd (fold keep_newest rows [])"

definition attempt_rows :: "eval_row list \<Rightarrow> eval_row list" where
  "attempt_rows rows =
     (let rs = filter (\<lambda>r. er_attempt r = latest_attempt rows) rows in if rs = [] then rows else rs)"

definition day_point :: "eval_row list \<Rightarrow> int \<Rightarrow> curve_point" where
  "day_point rows d =
     (let day_rows = filter (\<lambda>r. row_date r = Some d) rows;
          latest = latest_per_check (attempt_rows day_rows)
      in \<lparr>cp_date = d, cp_attempt = latest_attempt day_rows, cp_mean = mean (map er_score latest),
          cp_checks = length latest\<rparr>)"

definition row_dates :: "eval_row list \<Rightarrow> int list" where
  "row_dates rows = sort (remdups (List.map_filter row_date rows))"

definition per_goal_trend :: "eval_row list \<Rightarrow> curve_point list" where
  "per_goal_trend rows = map (day_point rows) (row_dates rows)"

definition battery_trend :: "eval_row list list \<Rightarrow> battery_point list" where
  "battery_trend goals =
     (let points = concat (map per_goal_trend goals)
      in map (\<lambda>d. let ms = map cp_mean (filter (\<lambda>p. cp_date p = d) points)
                   in \<lparr>bp_date = d, bp_mean = mean ms, bp_goals = length ms\<rparr>)
           (sort (remdups (map cp_date points))))"

section \<open>The verdict\<close>

text \<open>The high-water mark before the latest night; the first of several.\<close>

definition best_so_far :: "battery_point list \<Rightarrow> battery_point option" where
  "best_so_far points =
     (case butlast points of
        [] \<Rightarrow> None
      | p # ps \<Rightarrow> Some (fold (\<lambda>q b. if bp_mean b < bp_mean q then q else b) ps p))"

text \<open>\<open>round(x, 4)\<close>: to the nearest, ties to even.\<close>

definition round4 :: "real \<Rightarrow> real" where
  "round4 x =
     (let n = \<lfloor>x * 10000\<rfloor>; d = x * 10000 - real_of_int n
      in real_of_int (if d < 1 / 2 then n else if 1 / 2 < d then n + 1 else if even n then n else n + 1) / 10000)"

record verdict =
  vd_regressed :: bool
  vd_inconclusive :: bool
  vd_current :: "real option"
  vd_best_prior :: "real option"
  vd_delta :: "real option"
  vd_points :: nat

definition detect_regression :: "curve_settings \<Rightarrow> battery_point list \<Rightarrow> verdict" where
  "detect_regression cs points =
     (if int (length points) < cs_min_points cs \<or> length points < 2 then
        \<lparr>vd_regressed = False, vd_inconclusive = True,
         vd_current = (if points = [] then None else Some (bp_mean (last points))),
         vd_best_prior = None, vd_delta = None, vd_points = length points\<rparr>
      else
        let current = bp_mean (last points);
            prior = (case best_so_far points of None \<Rightarrow> current | Some p \<Rightarrow> bp_mean p);
            delta = round4 (prior - current)
        in \<lparr>vd_regressed = (current < cs_floor cs \<and> cs_delta cs \<le> delta), vd_inconclusive = False,
            vd_current = Some (round4 current), vd_best_prior = Some (round4 prior), vd_delta = Some delta,
            vd_points = length points\<rparr>)"

section \<open>The verdict is the documented conjunction\<close>

lemma round4_error: "\<bar>round4 x - x\<bar> \<le> 1 / 20000"
proof -
  let ?n = "\<lfloor>x * 10000\<rfloor>" and ?d = "x * 10000 - real_of_int \<lfloor>x * 10000\<rfloor>"
  have d: "0 \<le> ?d" "?d < 1" by linarith+
  consider "?d < 1 / 2" | "1 / 2 < ?d" | "?d = 1 / 2" "even ?n" | "?d = 1 / 2" "odd ?n" by linarith
  then show ?thesis
  proof cases
    case 1
    then have "round4 x * 10000 = real_of_int ?n" by (simp add: round4_def Let_def)
    with 1 d show ?thesis unfolding abs_le_iff by (intro conjI) linarith+
  next
    case 2
    then have "round4 x * 10000 = real_of_int ?n + 1" by (simp add: round4_def Let_def)
    with 2 d show ?thesis unfolding abs_le_iff by (intro conjI) linarith+
  next
    case 3
    then have "round4 x * 10000 = real_of_int ?n" by (simp add: round4_def Let_def)
    with 3 d show ?thesis unfolding abs_le_iff by (intro conjI) linarith+
  next
    case 4
    then have "round4 x * 10000 = real_of_int ?n + 1" by (simp add: round4_def Let_def)
    with 4 d show ?thesis unfolding abs_le_iff by (intro conjI) linarith+
  qed
qed

lemma fold_best:
  "(\<forall>q \<in> insert p (set ps). bp_mean q \<le> bp_mean (fold (\<lambda>q b. if bp_mean b < bp_mean q then q else b) ps p)) \<and>
   fold (\<lambda>q b. if bp_mean b < bp_mean q then q else b) ps p \<in> insert p (set ps)"
proof (induction ps arbitrary: p)
  case (Cons q ps)
  let ?p = "if bp_mean p < bp_mean q then q else p"
  have "bp_mean p \<le> bp_mean ?p" "bp_mean q \<le> bp_mean ?p" by simp_all
  with Cons.IH [of ?p] show ?case by (auto split: if_splits intro: order_trans)
qed simp

lemma best_so_farD:
  assumes "2 \<le> length points"
  obtains b where "best_so_far points = Some b" "b \<in> set (butlast points)"
    "\<And>q. q \<in> set (butlast points) \<Longrightarrow> bp_mean q \<le> bp_mean b"
proof -
  obtain p ps where ps: "butlast points = p # ps"
    using assms by (cases "butlast points") (auto dest: arg_cong [of _ _ length])
  have b: "best_so_far points = Some (fold (\<lambda>q b. if bp_mean b < bp_mean q then q else b) ps p)"
    by (simp add: best_so_far_def ps)
  show thesis by (rule that [OF b]) (use fold_best [of p ps] ps in auto)
qed

definition enough_nights :: "curve_settings \<Rightarrow> battery_point list \<Rightarrow> bool" where
  "enough_nights cs points = (cs_min_points cs \<le> int (length points) \<and> 2 \<le> length points)"

lemma regressed_iff:
  assumes "enough_nights cs points" "best_so_far points = Some b"
  shows "vd_regressed (detect_regression cs points) \<longleftrightarrow>
     bp_mean (last points) < cs_floor cs \<and> cs_delta cs \<le> round4 (bp_mean b - bp_mean (last points))"
    and "\<not> vd_inconclusive (detect_regression cs points)"
  using assms by (simp_all add: detect_regression_def enough_nights_def Let_def)

lemma regressed_enough: "vd_regressed (detect_regression cs points) \<Longrightarrow> enough_nights cs points"
  by (auto simp: detect_regression_def enough_nights_def split: if_splits)

text \<open>
  Fact (functional): the verdict is the documented conjunction, up to rounding.  A regression needs
  two nights and the configured number, a latest night below the floor and an earlier night better
  by the threshold; a margin of half a unit of the fourth decimal makes the converse hold.
\<close>

theorem regression_verdict:
  "(vd_regressed (detect_regression cs points) \<longrightarrow>
      enough_nights cs points \<and> \<not> vd_inconclusive (detect_regression cs points) \<and>
      bp_mean (last points) < cs_floor cs \<and>
      (\<exists>p \<in> set (butlast points). bp_mean (last points) + cs_delta cs - 1 / 20000 \<le> bp_mean p)) \<and>
   (enough_nights cs points \<and> bp_mean (last points) < cs_floor cs \<and>
      (\<exists>p \<in> set (butlast points). bp_mean (last points) + cs_delta cs + 1 / 20000 \<le> bp_mean p) \<longrightarrow>
      vd_regressed (detect_regression cs points))"
proof (cases "enough_nights cs points")
  case True
  then have "2 \<le> length points" by (simp add: enough_nights_def)
  then obtain b where b: "best_so_far points = Some b" "b \<in> set (butlast points)"
    "\<And>q. q \<in> set (butlast points) \<Longrightarrow> bp_mean q \<le> bp_mean b" using best_so_farD by blast
  note reg = regressed_iff [OF True b(1)]
  let ?g = "bp_mean b - bp_mean (last points)"
  have err: "round4 ?g \<le> ?g + 1 / 20000" "?g - 1 / 20000 \<le> round4 ?g"
    using round4_error [of ?g] by linarith+
  have "bp_mean (last points) + cs_delta cs - 1 / 20000 \<le> bp_mean b" if "cs_delta cs \<le> round4 ?g"
    using that err(1) by linarith
  then have sound: "vd_regressed (detect_regression cs points) \<Longrightarrow>
      (\<exists>p \<in> set (butlast points). bp_mean (last points) + cs_delta cs - 1 / 20000 \<le> bp_mean p)"
    using b(2) unfolding reg(1) by blast
  have complete: "cs_delta cs \<le> round4 ?g"
    if "p \<in> set (butlast points)" "bp_mean (last points) + cs_delta cs + 1 / 20000 \<le> bp_mean p" for p
    using b(3) [OF that(1)] that(2) err(2) by linarith
  show ?thesis using True sound complete reg by blast
next
  case False
  then show ?thesis using regressed_enough by blast
qed

theorem regression_verdict_witness:
  "vd_regressed (detect_regression
     \<lparr>cs_delta = 1 / 10, cs_floor = 1 / 2, cs_min_points = 2, cs_auto_rollback = True, cs_lookback_days = 30\<rparr>
     [\<lparr>bp_date = 0, bp_mean = 9 / 10, bp_goals = 9\<rparr>, \<lparr>bp_date = 1, bp_mean = 3 / 10, bp_goals = 9\<rparr>])"
  by (rule regression_verdict [THEN conjunct2, THEN mp]) (simp add: enough_nights_def)

section \<open>The terminal state of a night\<close>

lemma keep_newest_lookup:
  "map_of (keep_newest r best) c =
     (if c = er_check r then
        (case map_of best c of None \<Rightarrow> Some r | Some p \<Rightarrow> if er_created p < er_created r then Some r else Some p)
      else map_of best c)"
  by (auto simp: keep_newest_def split: option.split)

lemma fold_keep_newest:
  assumes "x \<in> set rows \<or> (\<exists>p. map_of best (er_check x) = Some p \<and> er_created x \<le> er_created p)"
  shows "\<exists>p. map_of (fold keep_newest rows best) (er_check x) = Some p \<and> er_created x \<le> er_created p"
  using assms
proof (induction rows arbitrary: best)
  case (Cons r rows)
  have "x \<in> set rows \<or> (\<exists>p. map_of (keep_newest r best) (er_check x) = Some p \<and> er_created x \<le> er_created p)"
    using Cons.prems by (auto simp: keep_newest_lookup not_less split: option.split)
  from Cons.IH [OF this] show ?case by simp
qed simp

lemma latest_per_check_older:
  assumes "x \<in> set rows" "er_check x = er_check r" "er_created r < er_created x"
  shows "latest_per_check (rows @ [r]) = latest_per_check rows"
proof -
  obtain p where "map_of (fold keep_newest rows []) (er_check r) = Some p" "er_created x \<le> er_created p"
    using fold_keep_newest [of x rows "[]"] assms(1,2) by auto
  with assms(3) have "keep_newest r (fold keep_newest rows []) = fold keep_newest rows []"
    by (auto simp: keep_newest_def)
  then show ?thesis by (simp add: latest_per_check_def)
qed

lemma map_filter_append [simp]: "List.map_filter f (xs @ ys) = List.map_filter f xs @ List.map_filter f ys"
  by (simp add: List.map_filter_def)

lemma map_filter_Nil [simp]: "List.map_filter f [] = []"
  by (simp add: List.map_filter_def)

lemma fold_max_mem: "x = a \<or> x \<in> set xs \<Longrightarrow> fold max (xs @ [x]) (a :: 'a :: linorder) = fold max xs a"
proof -
  assume "x = a \<or> x \<in> set xs"
  then have "x \<le> fold max xs a"
  proof (induction xs arbitrary: a)
    case (Cons y xs)
    have le: "b \<le> fold max ys b" for b :: 'a and ys by (induction ys arbitrary: b) (auto intro: order_trans [OF max.cobounded2])
    from Cons show ?case using le [of "max y a" xs] by (auto intro: order_trans [OF max.cobounded1] order_trans [OF max.cobounded2])
  qed simp
  then show ?thesis by (simp add: max_absorb2)
qed

lemma latest_attempt_again:
  assumes "x \<in> set rows" "er_attempt x = er_attempt r"
  shows "latest_attempt (rows @ [r]) = latest_attempt rows"
proof (cases "tagged r")
  case None
  then show ?thesis by (simp add: latest_attempt_def List.map_filter_simps)
next
  case (Some a)
  with assms have "a \<in> set (List.map_filter tagged rows)"
    by (force simp: List.map_filter_def tagged_def)
  then obtain b ids where ids: "List.map_filter tagged rows = b # ids" "a = b \<or> a \<in> set ids"
    by (cases "List.map_filter tagged rows") auto
  with Some fold_max_mem [OF ids(2)] show ?thesis by (simp add: latest_attempt_def List.map_filter_simps)
qed

lemma attempt_rows_older:
  assumes "x \<in> set rows" "er_check x = er_check r" "er_created r < er_created x" "er_attempt x = er_attempt r"
  shows "latest_per_check (attempt_rows (rows @ [r])) = latest_per_check (attempt_rows rows)"
proof -
  note la = latest_attempt_again [OF assms(1,4)]
  show ?thesis
  proof (cases "er_attempt r = latest_attempt rows")
    case True
    let ?m = "filter (\<lambda>y. er_attempt y = latest_attempt rows) rows"
    have x: "x \<in> set ?m" using assms(1,4) True by simp
    then have "?m \<noteq> []" by (metis empty_iff empty_set)
    with True la latest_per_check_older [OF x assms(2,3)] show ?thesis by (simp add: attempt_rows_def Let_def)
  next
    case False
    then show ?thesis using la latest_per_check_older [OF assms(1-3)] by (simp add: attempt_rows_def Let_def)
  qed
qed

lemma row_dates_again: "x \<in> set rows \<Longrightarrow> row_date x = row_date r \<Longrightarrow> row_dates (rows @ [r]) = row_dates rows"
proof -
  assume x: "x \<in> set rows" "row_date x = row_date r"
  have "set (List.map_filter row_date (rows @ [r])) = set (List.map_filter row_date rows)"
    using x by (cases "row_date r") (force simp: List.map_filter_def)+
  then show ?thesis unfolding row_dates_def by (simp only: sorted_list_of_set_sort_remdups [symmetric])
qed

text \<open>
  Fact (equivalence): a night is scored by where it ended.  An earlier result of a check that the
  same attempt ran again later that day changes nothing in the goal's trend, so a run that failed
  a check and repaired it scores as if it had passed at once.
\<close>

theorem recovery_not_penalised:
  assumes "x \<in> set rows" "er_check x = er_check r" "er_attempt x = er_attempt r" "row_date x = row_date r"
    and "er_created r < er_created x"
  shows "per_goal_trend (rows @ [r]) = per_goal_trend rows"
proof -
  have "day_point (rows @ [r]) d = day_point rows d" for d
  proof (cases "row_date r = Some d")
    case True
    let ?day = "filter (\<lambda>y. row_date y = Some d) rows"
    have x: "x \<in> set ?day" using assms(1,4) True by simp
    from True show ?thesis
      by (simp add: day_point_def Let_def latest_attempt_again [OF x assms(3)]
          attempt_rows_older [OF x assms(2,5,3)])
  qed (simp add: day_point_def)
  with row_dates_again [OF assms(1,4)] show ?thesis by (simp add: per_goal_trend_def)
qed

definition graded :: "string \<Rightarrow> real \<Rightarrow> real \<Rightarrow> eval_row" where
  "graded c t sc = \<lparr>er_attempt = Some ''20260101-a'', er_check = c, er_score = sc, er_created = Some t\<rparr>"

theorem recovery_not_penalised_witness:
  "per_goal_trend [graded ''rows'' 90 1, graded ''rows'' 30 0] = per_goal_trend [graded ''rows'' 90 1]"
  using recovery_not_penalised [of "graded ''rows'' 90 1" "[graded ''rows'' 90 1]" "graded ''rows'' 30 0"]
  by (simp add: graded_def row_date_def)

section \<open>What the nightly mean mixes in\<close>

lemma fold_keep_distinct:
  "distinct (map er_check (map snd best @ rows)) \<Longrightarrow> \<forall>(c, r) \<in> set best. c = er_check r \<Longrightarrow>
     fold keep_newest rows best = best @ map (\<lambda>r. (er_check r, r)) rows"
proof (induction rows arbitrary: best)
  case (Cons r rows)
  have fst: "fst ` set best = er_check ` snd ` set best" using Cons.prems(2) by force
  then have new: "er_check r \<notin> fst ` set best" using Cons.prems(1) by auto
  have app: "k \<notin> fst ` set al \<Longrightarrow> AList.update k v al = al @ [(k, v)]" for k :: string and v :: eval_row and al
    by (induction al) auto
  from new have "map_of best (er_check r) = None" by (simp add: map_of_eq_None_iff)
  then have "keep_newest r best = best @ [(er_check r, r)]" using app [OF new] by (simp add: keep_newest_def)
  then show ?case using Cons.IH [of "best @ [(er_check r, r)]"] Cons.prems by auto
qed simp

lemma latest_per_check_distinct: "distinct (map er_check rows) \<Longrightarrow> latest_per_check rows = rows"
  using fold_keep_distinct [of "[]" rows] by (simp add: latest_per_check_def o_def)

lemma latest_attempt_same:
  "\<forall>r \<in> set rows. er_attempt r = a \<Longrightarrow> attempt_rows rows = rows"
  by (cases "\<exists>r \<in> set rows. er_attempt r = latest_attempt rows")
     (auto simp: attempt_rows_def Let_def filter_empty_conv intro!: filter_True)

lemma stored_trend:
  assumes "oc_checks oc \<noteq> []" "distinct (map ck_name (oc_checks oc))"
  shows "map cp_mean (per_goal_trend (stored_rows attempt now oc)) = [mean (map ck_score (oc_checks oc))]"
proof -
  let ?rows = "stored_rows attempt now oc"
  have d: "row_date r = Some \<lfloor>now / 86400\<rfloor>" if "r \<in> set ?rows" for r
    using that by (auto simp: stored_rows_def row_date_def)
  have "List.map_filter row_date ?rows = map (\<lambda>_. \<lfloor>now / 86400\<rfloor>) ?rows"
    unfolding List.map_filter_def using d by (auto simp: filter_id_conv intro!: arg_cong [of _ _ "map _"])
  moreover have "remdups (map (\<lambda>_. y) xs) = [y]" if "xs \<noteq> []" for y :: int and xs :: "eval_row list"
    using that
  proof (induction xs)
    case (Cons x xs)
    then show ?case by (cases xs) auto
  qed simp
  moreover have "?rows \<noteq> []" using assms(1) by (simp add: stored_rows_def)
  ultimately have dates: "row_dates ?rows = [\<lfloor>now / 86400\<rfloor>]" by (simp add: row_dates_def)
  have day: "filter (\<lambda>r. row_date r = Some \<lfloor>now / 86400\<rfloor>) ?rows = ?rows" using d by (simp add: filter_id_conv)
  have "attempt_rows ?rows = ?rows" by (rule latest_attempt_same [of _ attempt]) (auto simp: stored_rows_def)
  moreover have "distinct (map er_check ?rows)" using assms(2) by (simp add: stored_rows_def o_def)
  ultimately have "latest_per_check (attempt_rows ?rows) = ?rows" by (simp add: latest_per_check_distinct)
  then show ?thesis
    by (simp add: per_goal_trend_def dates day_point_def day Let_def) (simp add: stored_rows_def o_def)
qed

lemma run_check_skipped: "ck_skipped (run_check env st ds cfg) \<Longrightarrow> ck_score (run_check env st ds cfg) = 1"
proof (cases "cc_type cfg = ''oracle''")
  case False
  then show "ck_skipped (run_check env st ds cfg) \<Longrightarrow> ?thesis"
    using run_check_decided [OF False, of env st ds] by (simp add: decided_def)
qed (auto simp: run_check_def check_oracle_def split: option.splits if_splits)

lemma ck_name_run_check: "ck_name (run_check env st ds cfg) = cc_name cfg"
  by (auto simp: run_check_def check_structural_def check_golden_def check_execution_def check_idempotency_def
      check_oracle_def check_state_def conditions_result_def result_of_def skipped_result_def Let_def
      split: option.split prod.split)

text \<open>
  Fact (safety): a skipped check raises the capability curve.  The run's own score leaves checks
  without a signal out, but their rows are stored with the score one, so the night's mean of the
  goal adds every skipped check as a success: a goal whose judge was unavailable scores better
  than the same goal judged.
\<close>

theorem skipped_checks_inflate:
  assumes "cfgs \<noteq> []" "distinct (map cc_name cfgs)" and oc: "oc = run_checks env st spec cfgs ds"
    and "k = length (filter ck_skipped (oc_checks oc))" "n = length (oc_checks oc)" "k < n"
  shows "map cp_mean (per_goal_trend (stored_rows attempt now oc)) =
    [(oc_score oc * real (n - k) + real k) / real n]"
proof -
  let ?f = "run_check env st (dedup {} (gs_expected_deliverables spec @ ds))"
  let ?sc = "filter (\<lambda>r. \<not> ck_skipped r) (map ?f cfgs)"
  have checks: "oc_checks oc = map ?f cfgs" using assms(1) oc by (simp add: run_checks_def Let_def)
  have dist: "distinct (map ck_name (oc_checks oc))"
    using assms(2) by (simp add: checks o_def ck_name_run_check)
  have split: "sum_list (map ck_score (map ?f xs)) =
      sum_list (map ck_score (filter (\<lambda>r. \<not> ck_skipped r) (map ?f xs))) + real (length (filter ck_skipped (map ?f xs)))" for xs
    by (induction xs) (auto simp: run_check_skipped)
  have len: "length ?sc = n - k"
    unfolding assms(4,5) checks using sum_length_filter_compl [of ck_skipped "map ?f cfgs"] by linarith
  with assms(6) have "?sc \<noteq> []" by (metis diff_is_0_eq leD length_0_conv)
  then have "oc_score oc = sum_list (map ck_score ?sc) / real (length ?sc)"
    using assms(1) oc by (simp add: run_checks_def Let_def del: filter_map)
  then have "oc_score oc * real (n - k) = sum_list (map ck_score ?sc)"
    using len assms(6) by (simp del: filter_map)
  then have "sum_list (map ck_score (oc_checks oc)) = oc_score oc * real (n - k) + real k"
    using split [of cfgs] assms(4) checks by (simp del: filter_map)
  then show ?thesis using stored_trend [OF _ dist, of attempt now] assms(1,5) checks by (simp add: mean_def)
qed

theorem skipped_checks_inflate_witness:
  "map cp_mean (per_goal_trend (stored_rows None 0
     (run_checks empty_disk JNull report_spec [blank_check ''structural'', blank_check ''oracle''] []))) = [1 / 2]"
proof -
  let ?oc = "run_checks empty_disk JNull report_spec [blank_check ''structural'', blank_check ''oracle''] []"
  have oc: "oc_score ?oc = 0" "map ck_skipped (oc_checks ?oc) = [False, True]"
    by (simp_all add: run_checks_def run_check_def blank_check_def check_structural_def check_oracle_def
        select_target_def file_of_def empty_disk_def report_spec_def Let_def)
  then have "length (filter ck_skipped (oc_checks ?oc)) = 1" "length (oc_checks ?oc) = 2"
    by (auto simp: map_eq_Cons_conv)
  with oc(1) skipped_checks_inflate [of "[blank_check ''structural'', blank_check ''oracle'']" ?oc empty_disk JNull report_spec "[]" 1 2 None 0]
  show ?thesis by (simp add: blank_check_def)
qed

definition easy_goal :: "eval_row list" where
  "easy_goal = [graded ''easy'' 90 1]"

definition hard_goal :: "eval_row list" where
  "hard_goal = [graded ''hard'' 86490 (2 / 5), graded ''hard'' 90 (2 / 5)]"

text \<open>
  Fact (safety): an unfinished battery reads as a regression.  A night is the mean of the goals that
  ran, so when only the harder of two goals is finished, the default thresholds report a
  regression although no goal ever scored worse than before.
\<close>

theorem partial_night_regresses:
  "map cp_mean (per_goal_trend easy_goal) = [1] \<and> map cp_mean (per_goal_trend hard_goal) = [2 / 5, 2 / 5] \<and>
   vd_regressed (detect_regression
     \<lparr>cs_delta = 1 / 10, cs_floor = 1 / 2, cs_min_points = 2, cs_auto_rollback = True, cs_lookback_days = 30\<rparr>
     (battery_trend [easy_goal, hard_goal]))"
proof -
  have fl: "\<lfloor>(90 :: real) / 86400\<rfloor> = 0" "\<lfloor>(86490 :: real) / 86400\<rfloor> = 1" by (simp_all add: floor_eq_iff)
  have t: "per_goal_trend easy_goal = [\<lparr>cp_date = 0, cp_attempt = Some ''20260101-a'', cp_mean = 1, cp_checks = 1\<rparr>]"
    "per_goal_trend hard_goal = [\<lparr>cp_date = 0, cp_attempt = Some ''20260101-a'', cp_mean = 2 / 5, cp_checks = 1\<rparr>,
       \<lparr>cp_date = 1, cp_attempt = Some ''20260101-a'', cp_mean = 2 / 5, cp_checks = 1\<rparr>]"
    by (simp_all add: per_goal_trend_def row_dates_def easy_goal_def hard_goal_def graded_def row_date_def fl
        List.map_filter_simps day_point_def attempt_rows_def latest_attempt_def tagged_def latest_per_check_def
        keep_newest_def mean_def Let_def)
  have b: "battery_trend [easy_goal, hard_goal] =
      [\<lparr>bp_date = 0, bp_mean = 7 / 10, bp_goals = 2\<rparr>, \<lparr>bp_date = 1, bp_mean = 2 / 5, bp_goals = 1\<rparr>]"
    by (simp add: battery_trend_def t mean_def Let_def)
  have "round4 (3 / 10) = 3 / 10" by (simp add: round4_def)
  then show ?thesis unfolding t b by (simp add: detect_regression_def best_so_far_def Let_def)
qed

end
