(* ===== verification/Promotion.thy ===== *)
theory Promotion
  imports Capability_Curve
begin

text \<open>
  Promotion of mutations to the live agent: \<open>src/src/evolution/promote.py\<close>, the prompt override of
  \<open>src/src/graph/prompts/builder.py\<close> and the regression gate \<open>src/src/evolution/curve_gate.py\<close>.  The
  files under the prompts directory are lists by name; \<open>None\<close> for a pointer is a missing or
  unreadable manifest.  Arguments: \<open>json.loads\<close>, the content hash, the clock, the answers of the
  benchmark harness and of the shadow repository's invariant check, and whether the tracked
  mirror can be written.
\<close>

section \<open>Proposals\<close>

record proposal =
  pp_type :: mutation_type
  pp_content :: string
  pp_target_path :: "string option"
  pp_reason :: string
  pp_source :: string

definition default_target_node :: string where
  "default_target_node = ''execute''"

definition node_tokens :: "string list" where
  "node_tokens = [''plan'', ''execute'', ''reflect'', ''verify'']"

definition node_from_target_path :: "string option \<Rightarrow> string" where
  "node_from_target_path path =
     (case path of
        None \<Rightarrow> default_target_node
      | Some p \<Rightarrow>
          if p = [] then default_target_node
          else (case List.find (\<lambda>t. py_in t (py_lower p)) node_tokens of
                  None \<Rightarrow> default_target_node
                | Some t \<Rightarrow> t))"

definition json_texts :: "json list \<Rightarrow> string list" where
  "json_texts vs = List.map_filter (\<lambda>v. case v of JStr s \<Rightarrow> if py_strip s = [] then None else Some s | _ \<Rightarrow> None) vs"

definition parse_prompt_payload :: "(string \<Rightarrow> json option) \<Rightarrow> proposal \<Rightarrow> (string \<times> string list) option" where
  "parse_prompt_payload loads pp =
     (if pp_type pp \<noteq> MT_PROMPT \<or> py_strip (pp_content pp) = [] then None
      else case loads (pp_content pp) of
        None \<Rightarrow> Some (node_from_target_path (pp_target_path pp), [py_strip (pp_content pp)])
      | Some (JObj payload) \<Rightarrow>
          (case obj_get payload ''suffixes'' JNull of
             JList vs \<Rightarrow>
               if json_texts vs = [] then None
               else Some
                 (py_strip (case obj_get payload ''target_node'' JNull of
                    JStr n \<Rightarrow> if py_strip n = [] then default_target_node else n
                  | _ \<Rightarrow> default_target_node), json_texts vs)
           | _ \<Rightarrow> None)
      | Some _ \<Rightarrow> None)"

definition parse_code_payload :: "proposal \<Rightarrow> (string \<times> string) option" where
  "parse_code_payload pp =
     (if pp_type pp \<noteq> MT_CODE \<or> py_strip (pp_content pp) = [] then None
      else Some (py_strip (case pp_target_path pp of
                   None \<Rightarrow> ''evolution/latest_mutation.py''
                 | Some p \<Rightarrow> if py_strip p = [] then ''evolution/latest_mutation.py'' else p), pp_content pp))"

text \<open>The file name stem of a code candidate, on ASCII paths.\<close>

definition is_alnum :: "char \<Rightarrow> bool" where
  "is_alnum c = (let n = (of_char c :: nat) in is_digit c \<or> (65 \<le> n \<and> n \<le> 90) \<or> (97 \<le> n \<and> n \<le> 122))"

fun dash_runs :: "bool \<Rightarrow> string \<Rightarrow> string" where
  "dash_runs prev_dash [] = []"
| "dash_runs prev_dash (c # cs) =
     (if is_alnum c then c # dash_runs False cs
      else if prev_dash then dash_runs True cs
      else CHR ''-'' # dash_runs True cs)"

definition strip_dashes :: "string \<Rightarrow> string" where
  "strip_dashes s = rev (dropWhile (\<lambda>c. c = CHR ''-'') (rev (dropWhile (\<lambda>c. c = CHR ''-'') s)))"

definition slugify_target :: "string \<Rightarrow> string" where
  "slugify_target path =
     (let slug = strip_dashes (dash_runs False (py_lower (py_strip path)))
      in if slug = [] then ''code'' else slug)"

section \<open>The prompt store\<close>

record prompt_version =
  pv_node :: string
  pv_suffixes :: "string list"
  pv_score :: real
  pv_promoted_at :: real
  pv_reason :: string
  pv_source :: string

record history_entry =
  he_sha :: string
  he_version :: string
  he_score :: real
  he_promoted_at :: real

record pointer_entry =
  pe_active :: string
  pe_sha :: string
  pe_suffixes :: "string list"
  pe_score :: real
  pe_promoted_at :: real
  pe_history :: "history_entry list"

type_synonym pointer = "(string \<times> pointer_entry) list"

record prompt_store =
  ps_pointer :: "pointer option"
  ps_files :: "(string \<times> prompt_version) list"
  ps_tracked :: "(string \<times> prompt_version) list"
  ps_candidates :: "string \<rightharpoonup> string list"

text \<open>The hash is taken of the record without its own hash and the time.\<close>

type_synonym version_identity = "string \<times> string list \<times> real \<times> string \<times> string"

definition identity_of :: "prompt_version \<Rightarrow> version_identity" where
  "identity_of v = (pv_node v, pv_suffixes v, pv_score v, pv_reason v, pv_source v)"

definition version_name :: "string \<Rightarrow> string \<Rightarrow> string" where
  "version_name node sha = node @ ''.'' @ sha @ ''.json''"

definition read_pointer :: "prompt_store \<Rightarrow> pointer" where
  "read_pointer ps = (case ps_pointer ps of None \<Rightarrow> [] | Some p \<Rightarrow> p)"

definition current_suffixes :: "prompt_store \<Rightarrow> string \<Rightarrow> string list" where
  "current_suffixes ps node =
     (case map_of (read_pointer ps) node of None \<Rightarrow> [] | Some e \<Rightarrow> pe_suffixes e)"

text \<open>What the prompt of a node carries.\<close>

definition evolved_suffixes_for_node :: "bool \<Rightarrow> prompt_store \<Rightarrow> string \<Rightarrow> string list" where
  "evolved_suffixes_for_node promote_to_live ps node =
     (if node = [] \<or> \<not> promote_to_live then []
      else case ps_candidates ps node of Some s \<Rightarrow> s | None \<Rightarrow> current_suffixes ps node)"

definition render_evolved_block :: "string list \<Rightarrow> string" where
  "render_evolved_block sfx =
     (if sfx = [] then []
      else py_join newline
        (''[evolved] promoted guidance (apply unless it conflicts with the task):'' #
         map (\<lambda>s. ''- '' @ s) sfx))"

definition splice_evolved :: "bool \<Rightarrow> prompt_store \<Rightarrow> string \<Rightarrow> string \<Rightarrow> string" where
  "splice_evolved promote_to_live ps base_system node =
     (let block = render_evolved_block (evolved_suffixes_for_node promote_to_live ps node)
      in if block = [] then base_system else block @ newline @ newline @ base_system)"

definition set_evolved_candidate :: "string \<Rightarrow> string list \<Rightarrow> prompt_store \<Rightarrow> prompt_store" where
  "set_evolved_candidate node sfx ps = ps\<lparr>ps_candidates := (ps_candidates ps)(node \<mapsto> sfx)\<rparr>"

definition clear_evolved_candidate :: "string \<Rightarrow> prompt_store \<Rightarrow> prompt_store" where
  "clear_evolved_candidate node ps = ps\<lparr>ps_candidates := (ps_candidates ps)(node := None)\<rparr>"

section \<open>Installing and rolling back\<close>

definition push_history :: "string \<Rightarrow> history_entry \<Rightarrow> history_entry list \<Rightarrow> history_entry list" where
  "push_history sha h hs = (if hs = [] \<or> he_sha (last hs) \<noteq> sha then hs @ [h] else hs)"

record install_env =
  ie_hash :: "version_identity \<Rightarrow> string"
  ie_now :: real
  ie_tracked :: bool
  ie_mirror_ok :: bool

definition new_version :: "real \<Rightarrow> string \<Rightarrow> string list \<Rightarrow> real \<Rightarrow> proposal \<Rightarrow> prompt_version" where
  "new_version now node sfx score pp =
     \<lparr>pv_node = node, pv_suffixes = sfx, pv_score = round4 score, pv_promoted_at = now,
      pv_reason = pp_reason pp, pv_source = (if pp_source pp = [] then ''heuristic'' else pp_source pp)\<rparr>"

definition history_of :: "pointer \<Rightarrow> string \<Rightarrow> history_entry list" where
  "history_of p node = (case map_of p node of None \<Rightarrow> [] | Some e \<Rightarrow> pe_history e)"

definition install ::
  "install_env \<Rightarrow> string \<Rightarrow> string list \<Rightarrow> real \<Rightarrow> proposal \<Rightarrow> prompt_store \<Rightarrow> string \<times> prompt_store" where
  "install env node sfx score pp ps =
     (let v = new_version (ie_now env) node sfx score pp;
          sha = ie_hash env (identity_of v);
          name = version_name node sha;
          hs = push_history sha \<lparr>he_sha = sha, he_version = name, he_score = pv_score v, he_promoted_at = ie_now env\<rparr>
                 (history_of (read_pointer ps) node);
          e = \<lparr>pe_active = name, pe_sha = sha, pe_suffixes = sfx, pe_score = pv_score v,
               pe_promoted_at = ie_now env, pe_history = hs\<rparr>
      in (name, ps\<lparr>ps_files := AList.update name v (ps_files ps),
                   ps_pointer := Some (AList.update node e (read_pointer ps)),
                   ps_tracked := (if ie_tracked env \<and> ie_mirror_ok env
                                  then AList.update name v (ps_tracked ps) else ps_tracked ps)\<rparr>))"

datatype rollback_result =
    No_promotion
  | No_history
  | Rolled_back "string option" string

definition rollback :: "string \<Rightarrow> prompt_store \<Rightarrow> rollback_result \<times> prompt_store" where
  "rollback node ps =
     (case map_of (read_pointer ps) node of
        None \<Rightarrow> (No_promotion, ps)
      | Some e \<Rightarrow>
          if pe_history e = [] then (No_history, ps)
          else
            let removed = last (pe_history e); hs = butlast (pe_history e)
            in if hs = [] then
                 (Rolled_back None (he_version removed),
                  ps\<lparr>ps_pointer := Some (AList.delete node (read_pointer ps))\<rparr>)
               else
                 let prev = last hs;
                     sfx = (case map_of (ps_files ps) (he_version prev) of None \<Rightarrow> [] | Some v \<Rightarrow> pv_suffixes v);
                     e' = \<lparr>pe_active = he_version prev, pe_sha = he_sha prev, pe_suffixes = sfx,
                           pe_score = he_score prev, pe_promoted_at = he_promoted_at prev, pe_history = hs\<rparr>
                 in (Rolled_back (Some (he_version prev)) (he_version removed),
                     ps\<lparr>ps_pointer := Some (AList.update node e' (read_pointer ps))\<rparr>))"

section \<open>The canary and the gate\<close>

datatype goal_answer =
    Goal_scored "real option" "bool option"
  | Goal_timed_out
  | Goal_errored

text \<open>The aggregation of one canary run over its suite's answers.\<close>

definition canary_scores :: "goal_answer list \<Rightarrow> real list" where
  "canary_scores answers = List.map_filter (\<lambda>a. case a of Goal_scored sc _ \<Rightarrow> sc | _ \<Rightarrow> None) answers"

definition canary_failed :: "goal_answer list \<Rightarrow> bool" where
  "canary_failed answers =
     list_ex (\<lambda>a. case a of Goal_scored (Some _) (Some p) \<Rightarrow> \<not> p | _ \<Rightarrow> False) answers"

definition canary_result :: "goal_answer list \<Rightarrow> real option" where
  "canary_result answers =
     (if canary_scores answers = [] then None
      else if canary_failed answers then Some 0
      else Some (mean (canary_scores answers)))"

text \<open>
  The run: the candidate is bound while the goals run (their answers depend on what the prompts
  show) and cleared after.
\<close>

definition golden_canary ::
  "(prompt_store \<Rightarrow> goal_answer list) \<Rightarrow> string \<Rightarrow> string list \<Rightarrow> prompt_store \<Rightarrow> real option \<times> prompt_store" where
  "golden_canary run_suite node sfx ps =
     (let ps' = set_evolved_candidate node sfx ps
      in (canary_result (run_suite ps'), clear_evolved_candidate node ps'))"

datatype canary = No_canary | Canary_raises | Empty_suite | Canary "prompt_store \<Rightarrow> goal_answer list"

datatype promote_result =
    Not_promoted string
  | Promoted string string real

definition promote ::
  "(string \<Rightarrow> json option) \<Rightarrow> install_env \<Rightarrow> real \<Rightarrow> canary \<Rightarrow> proposal \<Rightarrow> prompt_store
    \<Rightarrow> promote_result \<times> prompt_store" where
  "promote loads env min_score canary pp ps =
     (case parse_prompt_payload loads pp of
        None \<Rightarrow> (Not_promoted ''not a promotable PROMPT mutation'', ps)
      | Some (node, sfx) \<Rightarrow>
          (case canary of
             No_canary \<Rightarrow> (Not_promoted ''no canary wired'', ps)
           | Canary_raises \<Rightarrow> (Not_promoted ''canary error'', ps)
           | Empty_suite \<Rightarrow> (Not_promoted ''canary inconclusive'', ps)
           | Canary run_suite \<Rightarrow>
               (let (score, ps) = golden_canary run_suite node sfx ps
                in case score of
                     None \<Rightarrow> (Not_promoted ''canary inconclusive'', ps)
                   | Some sc \<Rightarrow>
                       if sc < min_score then (Not_promoted ''canary below threshold'', ps)
                       else let (name, ps) = install env node sfx sc pp ps
                            in (Promoted node name sc, ps))))"

section \<open>Code candidates\<close>

record code_version =
  cv_target :: string
  cv_content :: string
  cv_promoted_at :: real
  cv_reason :: string
  cv_source :: string

record code_entry =
  ce_active :: string
  ce_sha :: string
  ce_history :: "(string \<times> string \<times> real) list"

record code_store =
  cs_pointer :: "(string \<times> code_entry) list"
  cs_files :: "(string \<times> code_version) list"

definition install_code ::
  "(string \<times> string \<times> string \<times> string \<Rightarrow> string) \<Rightarrow> real \<Rightarrow> string \<Rightarrow> string \<Rightarrow> proposal \<Rightarrow> code_store \<Rightarrow> string \<times> code_store" where
  "install_code hash now target content pp cs =
     (let v = \<lparr>cv_target = target, cv_content = content, cv_promoted_at = now, cv_reason = pp_reason pp,
               cv_source = (if pp_source pp = [] then ''heuristic'' else pp_source pp)\<rparr>;
          sha = hash (target, content, cv_reason v, cv_source v);
          name = slugify_target target @ ''.'' @ sha @ ''.json'';
          hs = (case map_of (cs_pointer cs) target of None \<Rightarrow> [] | Some e \<Rightarrow> ce_history e);
          hs = (if hs = [] \<or> fst (last hs) \<noteq> sha then hs @ [(sha, name, now)] else hs)
      in (name, \<lparr>cs_pointer = AList.update target \<lparr>ce_active = name, ce_sha = sha, ce_history = hs\<rparr> (cs_pointer cs),
                 cs_files = AList.update name v (cs_files cs)\<rparr>))"

text \<open>\<open>invariants\<close>: the failure the shadow check reports, \<open>None\<close> when it passes or is skipped.\<close>

definition promote_code ::
  "(string \<times> string \<times> string \<times> string \<Rightarrow> string) \<Rightarrow> real \<Rightarrow> string option \<Rightarrow> proposal \<Rightarrow> code_store
    \<Rightarrow> (string + string) \<times> code_store" where
  "promote_code hash now invariants pp cs =
     (case parse_code_payload pp of
        None \<Rightarrow> (Inl ''not a promotable CODE mutation'', cs)
      | Some (target, content) \<Rightarrow>
          (case invariants of
             Some reason \<Rightarrow> (Inl (''invariant gate failed: '' @ reason), cs)
           | None \<Rightarrow> let (name, cs) = install_code hash now target content pp cs in (Inr name, cs)))"

section \<open>The regression gate\<close>

definition suspect_nodes :: "curve_settings \<Rightarrow> real \<Rightarrow> prompt_store \<Rightarrow> string list" where
  "suspect_nodes cs now ps =
     map fst (filter (\<lambda>(_, e). pe_active e \<noteq> [] \<and> now - cs_lookback_days cs * 86400 \<le> pe_promoted_at e)
       (read_pointer ps))"

fun rollback_suspects :: "string list \<Rightarrow> prompt_store \<Rightarrow> (string \<times> rollback_result) list \<times> prompt_store" where
  "rollback_suspects [] ps = ([], ps)"
| "rollback_suspects (n # ns) ps =
     (if n = [] then rollback_suspects ns ps
      else let (r, ps) = rollback n ps; (rs, ps) = rollback_suspects ns ps in ((n, r) # rs, ps))"

definition curve_gate ::
  "curve_settings \<Rightarrow> real \<Rightarrow> battery_point list \<Rightarrow> prompt_store
    \<Rightarrow> (verdict \<times> (string \<times> rollback_result) list) \<times> prompt_store" where
  "curve_gate cs now points ps =
     (let v = detect_regression cs points
      in if \<not> vd_regressed v \<or> \<not> cs_auto_rollback cs then ((v, []), ps)
         else let (rs, ps) = rollback_suspects (suspect_nodes cs now ps) ps in ((v, rs), ps))"

section \<open>Names\<close>

lemma append_dot_inj:
  "CHR ''.'' \<notin> set a \<Longrightarrow> CHR ''.'' \<notin> set b \<Longrightarrow> m @ CHR ''.'' # a = n @ CHR ''.'' # b \<Longrightarrow> m = n \<and> a = b"
proof -
  assume dots: "CHR ''.'' \<notin> set a" "CHR ''.'' \<notin> set b" and eq: "m @ CHR ''.'' # a = n @ CHR ''.'' # b"
  have tail: "takeWhile (\<lambda>c. c \<noteq> CHR ''.'') (rev (k @ CHR ''.'' # x)) = rev x" if "CHR ''.'' \<notin> set x" for k x
    using takeWhile_append2 [of "rev x" "\<lambda>c. c \<noteq> CHR ''.''" "CHR ''.'' # rev k"] that by force
  from tail [OF dots(1), of m] tail [OF dots(2), of n] eq have "a = b" by simp
  with eq show "m = n \<and> a = b" by simp
qed

lemma version_name_inj:
  assumes "CHR ''.'' \<notin> set a" "CHR ''.'' \<notin> set b" "version_name m a = version_name n b"
  shows "m = n \<and> a = b"
proof -
  have "m @ CHR ''.'' # a = n @ CHR ''.'' # b"
    using assms(3) by (simp add: version_name_def)
  with assms(1,2) show ?thesis by (rule append_dot_inj)
qed

section \<open>The store stays consistent\<close>

definition entry_ok :: "(version_identity \<Rightarrow> string) \<Rightarrow> (string \<times> prompt_version) list \<Rightarrow> string \<Rightarrow> pointer_entry \<Rightarrow> bool" where
  "entry_ok hash files node e =
     (pe_history e \<noteq> [] \<and> pe_active e = he_version (last (pe_history e)) \<and>
      (\<forall>h \<in> set (pe_history e). \<exists>v. map_of files (he_version h) = Some v \<and> pv_node v = node \<and>
         he_sha h = hash (identity_of v) \<and> he_version h = version_name node (he_sha h)) \<and>
      (\<exists>v. map_of files (pe_active e) = Some v \<and> pv_suffixes v = pe_suffixes e))"

definition store_consistent :: "(version_identity \<Rightarrow> string) \<Rightarrow> real \<Rightarrow> prompt_store \<Rightarrow> bool" where
  "store_consistent hash min_score ps =
     ((\<forall>node e. map_of (read_pointer ps) node = Some e \<longrightarrow> entry_ok hash (ps_files ps) node e) \<and>
      (\<forall>name v. map_of (ps_files ps) name = Some v \<longrightarrow>
         name = version_name (pv_node v) (hash (identity_of v)) \<and> min_score - 1 / 20000 \<le> pv_score v))"

definition collides :: "(version_identity \<Rightarrow> string) \<Rightarrow> prompt_version \<Rightarrow> prompt_store \<Rightarrow> bool" where
  "collides hash v ps =
     list_ex (\<lambda>(_, w). hash (identity_of w) = hash (identity_of v) \<and> identity_of w \<noteq> identity_of v) (ps_files ps)"

lemma collidesI:
  "map_of (ps_files ps) name = Some w \<Longrightarrow> hash (identity_of w) = hash (identity_of v) \<Longrightarrow>
     identity_of w \<noteq> identity_of v \<Longrightarrow> collides hash v ps"
  by (auto simp: collides_def list_ex_iff dest!: map_of_SomeD)

text \<open>The artifact that a promotion would install does not collide with a stored one.\<close>

definition no_collision ::
  "(string \<Rightarrow> json option) \<Rightarrow> install_env \<Rightarrow> canary \<Rightarrow> proposal \<Rightarrow> prompt_store \<Rightarrow> bool" where
  "no_collision loads env can pp ps =
     (case (parse_prompt_payload loads pp, can) of
        (Some (node, sfx), Canary suite) \<Rightarrow>
          (case canary_result (suite (set_evolved_candidate node sfx ps)) of
             None \<Rightarrow> True
           | Some sc \<Rightarrow> \<not> collides (ie_hash env) (new_version (ie_now env) node sfx sc pp) ps)
      | _ \<Rightarrow> True)"

lemma push_history_facts:
  "push_history sha h hs \<noteq> []" "set (push_history sha h hs) \<subseteq> insert h (set hs)"
  "push_history (he_sha h) h hs = hs \<and> hs \<noteq> [] \<and> he_sha (last hs) = he_sha h \<or> push_history (he_sha h) h hs = hs @ [h]"
  by (auto simp: push_history_def)

lemma install_consistent:
  assumes ok: "store_consistent hash m ps" and hex: "\<forall>a. CHR ''.'' \<notin> set (hash a)"
    and env: "ie_hash env = hash" and score: "m \<le> score"
    and free: "\<not> collides hash (new_version (ie_now env) node sfx score pp) ps"
    and run: "(name, ps') = install env node sfx score pp ps"
  shows "store_consistent hash m ps'"
proof -
  let ?v = "new_version (ie_now env) node sfx score pp"
  let ?sha = "hash (identity_of ?v)"
  let ?h = "\<lparr>he_sha = ?sha, he_version = version_name node ?sha, he_score = pv_score ?v, he_promoted_at = ie_now env\<rparr>"
  let ?hs = "history_of (read_pointer ps) node"
  let ?e = "\<lparr>pe_active = version_name node ?sha, pe_sha = ?sha, pe_suffixes = sfx, pe_score = pv_score ?v,
     pe_promoted_at = ie_now env, pe_history = push_history ?sha ?h ?hs\<rparr>"
  have ps': "ps_files ps' = AList.update (version_name node ?sha) ?v (ps_files ps)"
    "read_pointer ps' = AList.update node ?e (read_pointer ps)"
    using run env by (simp_all add: install_def Let_def read_pointer_def)
  have vn: "pv_node ?v = node" "pv_suffixes ?v = sfx" "pv_score ?v = round4 score" by (simp_all add: new_version_def)
  have files: "map_of (ps_files ps') n = (if n = version_name node ?sha then Some ?v else map_of (ps_files ps) n)" for n
    by (simp add: ps'(1))
  have same: "identity_of w = identity_of ?v" if "map_of (ps_files ps) (version_name node ?sha) = Some w" for w
  proof -
    have "version_name node ?sha = version_name (pv_node w) (hash (identity_of w))"
      using ok that unfolding store_consistent_def by blast
    from version_name_inj [OF hex [rule_format] hex [rule_format] this] have "hash (identity_of w) = ?sha" by metis
    with free that show ?thesis using collidesI [of ps _ w hash ?v] by blast
  qed
  have keep: "\<exists>w'. map_of (ps_files ps') n = Some w' \<and> identity_of w' = identity_of w"
    if "map_of (ps_files ps) n = Some w" for n w
    using that same files by (cases "n = version_name node ?sha") auto
  have idD: "pv_node w = pv_node w' \<and> pv_suffixes w = pv_suffixes w'" if "identity_of w = identity_of w'" for w w'
    using that by (simp add: identity_of_def)
  have hist: "\<exists>v. map_of (ps_files ps') (he_version h) = Some v \<and> pv_node v = n \<and>
         he_sha h = hash (identity_of v) \<and> he_version h = version_name n (he_sha h)"
    if eh: "map_of (read_pointer ps) n = Some e" "h \<in> set (pe_history e)" for n e h
  proof -
    have "entry_ok hash (ps_files ps) n e" using ok eh(1) unfolding store_consistent_def by blast
    then obtain v where v: "map_of (ps_files ps) (he_version h) = Some v" "pv_node v = n"
      "he_sha h = hash (identity_of v)" "he_version h = version_name n (he_sha h)"
      using eh(2) unfolding entry_ok_def by blast
    from keep [OF v(1)] obtain v' where "map_of (ps_files ps') (he_version h) = Some v'" "identity_of v' = identity_of v" by blast
    with v idD [of v' v] show ?thesis by auto
  qed
  have old: "entry_ok hash (ps_files ps') n e" if e: "map_of (read_pointer ps) n = Some e" for n e
  proof -
    have eo: "entry_ok hash (ps_files ps) n e" using ok e unfolding store_consistent_def by blast
    then obtain v where v: "map_of (ps_files ps) (pe_active e) = Some v" "pv_suffixes v = pe_suffixes e"
      unfolding entry_ok_def by blast
    from keep [OF v(1)] obtain v' where "map_of (ps_files ps') (pe_active e) = Some v'" "identity_of v' = identity_of v" by blast
    with v(2) idD [of v' v] have "\<exists>v. map_of (ps_files ps') (pe_active e) = Some v \<and> pv_suffixes v = pe_suffixes e" by auto
    with eo hist [OF e] show ?thesis unfolding entry_ok_def by blast
  qed
  have lasth: "he_version (last (push_history ?sha ?h ?hs)) = version_name node ?sha"
  proof (cases "push_history ?sha ?h ?hs = ?hs @ [?h]")
    case False
    then have hs: "push_history ?sha ?h ?hs = ?hs" "?hs \<noteq> []" "he_sha (last ?hs) = ?sha"
      using push_history_facts(3) [of ?h ?hs] by auto
    then obtain e where e: "map_of (read_pointer ps) node = Some e" "?hs = pe_history e"
      by (auto simp: history_of_def split: option.splits)
    have "last ?hs \<in> set (pe_history e)" using hs(2) e(2) by simp
    from hist [OF e(1) this] hs show ?thesis by auto
  qed simp
  have new: "entry_ok hash (ps_files ps') node ?e"
  proof -
    have "\<exists>v. map_of (ps_files ps') (he_version h) = Some v \<and> pv_node v = node \<and>
         he_sha h = hash (identity_of v) \<and> he_version h = version_name node (he_sha h)"
      if "h \<in> set (push_history ?sha ?h ?hs)" for h
    proof (cases "h = ?h")
      case True
      then show ?thesis using files vn by simp
    next
      case False
      then have "h \<in> set ?hs" using that push_history_facts(2) [of ?sha ?h ?hs] by blast
      then obtain e where "map_of (read_pointer ps) node = Some e" "h \<in> set (pe_history e)"
        by (cases "map_of (read_pointer ps) node") (auto simp: history_of_def)
      with hist show ?thesis by blast
    qed
    then show ?thesis using push_history_facts(1) lasth files vn by (simp add: entry_ok_def)
  qed
  have "entry_ok hash (ps_files ps') n e" if "map_of (read_pointer ps') n = Some e" for n e
    using that old new by (auto simp: ps'(2) split: if_splits)
  moreover have "m - 1 / 20000 \<le> round4 score" using round4_error [of score] score by linarith
  then have "n = version_name (pv_node w) (hash (identity_of w)) \<and> m - 1 / 20000 \<le> pv_score w"
    if "map_of (ps_files ps') n = Some w" for n w
    using that ok vn unfolding files store_consistent_def by (auto split: if_splits)
  ultimately show ?thesis unfolding store_consistent_def by blast
qed

lemma rollback_cases:
  obtains (none) "rollback node ps = (No_promotion, ps)" "map_of (read_pointer ps) node = None"
  | (empty) e where "rollback node ps = (No_history, ps)" "map_of (read_pointer ps) node = Some e" "pe_history e = []"
  | (first) e h where "map_of (read_pointer ps) node = Some e" "pe_history e = [h]"
      "rollback node ps = (Rolled_back None (he_version h),
         ps\<lparr>ps_pointer := Some (AList.delete node (read_pointer ps))\<rparr>)"
  | (again) e hs h h' where "map_of (read_pointer ps) node = Some e" "pe_history e = hs @ [h, h']"
      "rollback node ps = (Rolled_back (Some (he_version h)) (he_version h'),
         ps\<lparr>ps_pointer := Some (AList.update node
           \<lparr>pe_active = he_version h, pe_sha = he_sha h,
            pe_suffixes = (case map_of (ps_files ps) (he_version h) of None \<Rightarrow> [] | Some v \<Rightarrow> pv_suffixes v),
            pe_score = he_score h, pe_promoted_at = he_promoted_at h, pe_history = hs @ [h]\<rparr> (read_pointer ps))\<rparr>)"
proof (cases "map_of (read_pointer ps) node")
  case None
  then show ?thesis by (intro none) (simp_all add: rollback_def)
next
  case (Some e)
  show ?thesis
  proof (cases "pe_history e" rule: rev_cases)
    case Nil
    with Some show ?thesis by (intro empty) (simp_all add: rollback_def)
  next
    case (snoc hs h')
    show ?thesis
    proof (cases hs rule: rev_cases)
      case Nil
      with Some snoc show ?thesis by (intro first) (simp_all add: rollback_def Let_def)
    next
      case (snoc hs' h)
      with Some \<open>pe_history e = hs @ [h']\<close> show ?thesis
        by (intro again) (simp_all add: rollback_def Let_def butlast_append)
    qed
  qed
qed

lemma read_pointer_update [simp]: "read_pointer (ps\<lparr>ps_pointer := Some p\<rparr>) = p"
  by (simp add: read_pointer_def)

lemma rollback_files [simp]: "ps_files (snd (rollback node ps)) = ps_files ps"
  by (rule rollback_cases [of node ps]) auto

lemma rollback_consistent:
  assumes ok: "store_consistent hash m ps"
  shows "store_consistent hash m (snd (rollback node ps))"
proof (rule rollback_cases [of node ps])
  fix e h assume e: "map_of (read_pointer ps) node = Some e" "pe_history e = [h]"
    "rollback node ps = (Rolled_back None (he_version h), ps\<lparr>ps_pointer := Some (AList.delete node (read_pointer ps))\<rparr>)"
  with ok show ?thesis by (simp add: store_consistent_def)
next
  fix e hs h h'
  let ?e = "\<lparr>pe_active = he_version h, pe_sha = he_sha h,
    pe_suffixes = (case map_of (ps_files ps) (he_version h) of None \<Rightarrow> [] | Some v \<Rightarrow> pv_suffixes v),
    pe_score = he_score h, pe_promoted_at = he_promoted_at h, pe_history = hs @ [h]\<rparr>"
  assume e: "map_of (read_pointer ps) node = Some e" "pe_history e = hs @ [h, h']"
    and run: "rollback node ps = (Rolled_back (Some (he_version h)) (he_version h'),
      ps\<lparr>ps_pointer := Some (AList.update node ?e (read_pointer ps))\<rparr>)"
  have "entry_ok hash (ps_files ps) node e" using ok e(1) unfolding store_consistent_def by blast
  then have hist: "\<exists>v. map_of (ps_files ps) (he_version x) = Some v \<and> pv_node v = node \<and>
      he_sha x = hash (identity_of v) \<and> he_version x = version_name node (he_sha x)" if "x \<in> set (hs @ [h])" for x
    using that e(2) by (simp add: entry_ok_def) blast
  then obtain v where "map_of (ps_files ps) (he_version h) = Some v" by force
  then have "entry_ok hash (ps_files ps) node ?e" using hist by (simp add: entry_ok_def)
  with ok run show ?thesis by (auto simp: store_consistent_def)
qed (use ok in simp_all)

lemma candidate_consistent [simp]:
  "store_consistent hash m (set_evolved_candidate n s ps) = store_consistent hash m ps"
  "store_consistent hash m (clear_evolved_candidate n ps) = store_consistent hash m ps"
  by (simp_all add: store_consistent_def read_pointer_def set_evolved_candidate_def clear_evolved_candidate_def)

lemma candidate_collides [simp]:
  "collides hash v (set_evolved_candidate n s ps) = collides hash v ps"
  "collides hash v (clear_evolved_candidate n ps) = collides hash v ps"
  by (simp_all add: collides_def set_evolved_candidate_def clear_evolved_candidate_def)

lemma promote_cases:
  obtains (kept) "read_pointer (snd (promote loads env m can pp ps)) = read_pointer ps"
      "ps_files (snd (promote loads env m can pp ps)) = ps_files ps"
      "\<And>n f s. fst (promote loads env m can pp ps) \<noteq> Promoted n f s"
  | (installed) node sfx suite sc where "parse_prompt_payload loads pp = Some (node, sfx)" "can = Canary suite"
      "canary_result (suite (set_evolved_candidate node sfx ps)) = Some sc" "m \<le> sc"
      "promote loads env m can pp ps =
         (Promoted node (fst (install env node sfx sc pp (clear_evolved_candidate node (set_evolved_candidate node sfx ps)))) sc,
          snd (install env node sfx sc pp (clear_evolved_candidate node (set_evolved_candidate node sfx ps))))"
proof (cases "\<exists>node sfx suite sc. parse_prompt_payload loads pp = Some (node, sfx) \<and> can = Canary suite \<and>
    canary_result (suite (set_evolved_candidate node sfx ps)) = Some sc \<and> m \<le> sc")
  case True
  then obtain node sfx suite sc where *: "parse_prompt_payload loads pp = Some (node, sfx)" "can = Canary suite"
    "canary_result (suite (set_evolved_candidate node sfx ps)) = Some sc" "m \<le> sc" by blast
  show ?thesis by (rule installed [OF *]) (use * in \<open>simp add: promote_def golden_canary_def Let_def split_beta\<close>)
next
  case False
  have keep: "read_pointer (clear_evolved_candidate n (set_evolved_candidate n s ps)) = read_pointer ps"
    "ps_files (clear_evolved_candidate n (set_evolved_candidate n s ps)) = ps_files ps" for n s
    by (simp_all add: read_pointer_def set_evolved_candidate_def clear_evolved_candidate_def)
  show ?thesis
    by (rule kept) (use False keep in \<open>auto simp: promote_def golden_canary_def Let_def split_beta
      split: option.split canary.split if_split_asm\<close>)
qed

section \<open>Histories of a prompt store\<close>

text \<open>
  The stores reachable from an empty directory with one threshold and one hash: promotions whose
  artifact does not collide with a stored one, and rollbacks.
\<close>

definition empty_prompts :: prompt_store where
  "empty_prompts = \<lparr>ps_pointer = None, ps_files = [], ps_tracked = [], ps_candidates = (\<lambda>_. None)\<rparr>"

inductive promo_reach ::
  "(string \<Rightarrow> json option) \<Rightarrow> (version_identity \<Rightarrow> string) \<Rightarrow> real \<Rightarrow> prompt_store \<Rightarrow> bool"
  for loads hash m where
  reach_empty: "promo_reach loads hash m empty_prompts"
| reach_promote: "promo_reach loads hash m ps \<Longrightarrow> ie_hash env = hash \<Longrightarrow>
    no_collision loads env can pp ps \<Longrightarrow>
    promo_reach loads hash m (snd (promote loads env m can pp ps))"
| reach_rollback: "promo_reach loads hash m ps \<Longrightarrow> promo_reach loads hash m (snd (rollback node ps))"

lemma store_consistent_cong:
  "read_pointer ps = read_pointer ps' \<Longrightarrow> ps_files ps = ps_files ps' \<Longrightarrow>
     store_consistent hash m ps = store_consistent hash m ps'"
  by (simp add: store_consistent_def)

lemma promote_consistent:
  assumes "store_consistent hash m ps" "\<forall>a. CHR ''.'' \<notin> set (hash a)" "ie_hash env = hash"
    "no_collision loads env can pp ps"
  shows "store_consistent hash m (snd (promote loads env m can pp ps))"
proof (rule promote_cases [of loads env m can pp ps])
  assume "read_pointer (snd (promote loads env m can pp ps)) = read_pointer ps"
    "ps_files (snd (promote loads env m can pp ps)) = ps_files ps"
  from store_consistent_cong [OF this] assms(1) show ?thesis by simp
next
  fix node sfx suite sc
  let ?ps = "clear_evolved_candidate node (set_evolved_candidate node sfx ps)"
  assume p: "parse_prompt_payload loads pp = Some (node, sfx)" "can = Canary suite"
    "canary_result (suite (set_evolved_candidate node sfx ps)) = Some sc"
    and *: "m \<le> sc" "promote loads env m can pp ps =
     (Promoted node (fst (install env node sfx sc pp ?ps)) sc, snd (install env node sfx sc pp ?ps))"
  have "store_consistent hash m (snd (install env node sfx sc pp ?ps))"
    by (rule install_consistent [OF _ assms(2,3) *(1) _ prod.collapse])
      (use assms(1,3,4) p in \<open>simp_all add: no_collision_def\<close>)
  with *(2) show ?thesis by simp
qed

lemma reach_consistent:
  assumes "promo_reach loads hash m ps" "\<forall>a. CHR ''.'' \<notin> set (hash a)"
  shows "store_consistent hash m ps"
  using assms(1)
proof induction
  case reach_empty
  show ?case by (simp add: store_consistent_def empty_prompts_def read_pointer_def)
next
  case (reach_promote ps env pp can)
  with assms(2) show ?case by (intro promote_consistent)
next
  case (reach_rollback ps node)
  then show ?case by (intro rollback_consistent)
qed

text \<open>
  C26 (invariant): only guidance that passed the canary is live.  Through any history of promotions
  and rollbacks, what the prompt of a node carries is the content of a stored artifact of that
  node, and that artifact was scored at the threshold or above, up to the fourth decimal.
\<close>

theorem live_guidance_passed_canary:
  assumes "promo_reach loads hash m ps" "\<forall>a. CHR ''.'' \<notin> set (hash a)"
    and "current_suffixes ps node \<noteq> []"
  shows "\<exists>name v. map_of (ps_files ps) name = Some v \<and> pv_node v = node \<and>
    pv_suffixes v = current_suffixes ps node \<and> m - 1 / 20000 \<le> pv_score v"
proof -
  have ok: "store_consistent hash m ps" using reach_consistent [OF assms(1,2)] .
  obtain e where e: "map_of (read_pointer ps) node = Some e" "current_suffixes ps node = pe_suffixes e"
    using assms(3) by (cases "map_of (read_pointer ps) node") (auto simp: current_suffixes_def)
  have eo: "entry_ok hash (ps_files ps) node e" using ok e(1) unfolding store_consistent_def by blast
  then obtain v where v: "map_of (ps_files ps) (pe_active e) = Some v" "pv_suffixes v = pe_suffixes e"
    unfolding entry_ok_def by blast
  have "last (pe_history e) \<in> set (pe_history e)" using eo by (simp add: entry_ok_def)
  then have "\<exists>w. map_of (ps_files ps) (pe_active e) = Some w \<and> pv_node w = node"
    using eo unfolding entry_ok_def by metis
  then have "pv_node v = node" using v(1) by simp
  moreover have "m - 1 / 20000 \<le> pv_score v" using ok v(1) unfolding store_consistent_def by blast
  ultimately show ?thesis using v e(2) by (intro exI [of _ "pe_active e"] exI [of _ v]) simp
qed

text \<open>
  C27 (roundtrip): a rollback undoes the promotion before it.  After a promotion that made a new
  version of a consistent store, rolling its node back leaves every node with the guidance it had.
\<close>

theorem rollback_undoes_promotion:
  assumes ok: "store_consistent hash m ps" and hex: "\<forall>a. CHR ''.'' \<notin> set (hash a)"
    and env: "ie_hash env = hash"
    and run: "(Promoted node name sc, ps') = promote loads env m can pp ps"
    and new: "\<And>e. map_of (read_pointer ps) node = Some e \<Longrightarrow> pe_active e \<noteq> name"
  shows "fst (rollback node ps') = Rolled_back (map_option pe_active (map_of (read_pointer ps) node)) name \<and>
    current_suffixes (snd (rollback node ps')) = current_suffixes ps"
proof -
  have "\<exists>sfx. promote loads env m can pp ps =
      (Promoted node (fst (install env node sfx sc pp (clear_evolved_candidate node (set_evolved_candidate node sfx ps)))) sc,
       snd (install env node sfx sc pp (clear_evolved_candidate node (set_evolved_candidate node sfx ps))))"
  proof (rule promote_cases [of loads env m can pp ps])
    assume "\<And>n f s. fst (promote loads env m can pp ps) \<noteq> Promoted n f s"
    with run show ?thesis by (metis fst_conv)
  next
    fix n sfx c
    assume p: "promote loads env m can pp ps =
      (Promoted n (fst (install env n sfx c pp (clear_evolved_candidate n (set_evolved_candidate n sfx ps)))) c,
       snd (install env n sfx c pp (clear_evolved_candidate n (set_evolved_candidate n sfx ps))))"
    with run have "n = node" "c = sc" by simp_all
    with p show ?thesis by blast
  qed
  then obtain sfx where run': "promote loads env m can pp ps =
      (Promoted node (fst (install env node sfx sc pp (clear_evolved_candidate node (set_evolved_candidate node sfx ps)))) sc,
       snd (install env node sfx sc pp (clear_evolved_candidate node (set_evolved_candidate node sfx ps))))" by blast
  let ?ps = "clear_evolved_candidate node (set_evolved_candidate node sfx ps)"
  have rp: "read_pointer ?ps = read_pointer ps" "ps_files ?ps = ps_files ps"
    by (simp_all add: read_pointer_def set_evolved_candidate_def clear_evolved_candidate_def)
  have inst: "(name, ps') = install env node sfx sc pp ?ps" using run run' by simp
  let ?v = "new_version (ie_now env) node sfx sc pp"
  let ?sha = "hash (identity_of ?v)"
  let ?h = "\<lparr>he_sha = ?sha, he_version = name, he_score = pv_score ?v, he_promoted_at = ie_now env\<rparr>"
  have name: "name = version_name node ?sha" using inst env by (simp add: install_def Let_def)
  show ?thesis
  proof (cases "map_of (read_pointer ps) node")
    case None
    let ?e = "\<lparr>pe_active = name, pe_sha = ?sha, pe_suffixes = sfx, pe_score = pv_score ?v,
       pe_promoted_at = ie_now env, pe_history = [?h]\<rparr>"
    have "read_pointer ps' = AList.update node ?e (read_pointer ps)"
      using inst env rp None name by (simp add: install_def Let_def read_pointer_def history_of_def push_history_def)
    with None show ?thesis by (simp add: rollback_def Let_def fun_eq_iff current_suffixes_def)
  next
    case (Some e)
    have eo: "entry_ok hash (ps_files ps) node e" using ok Some unfolding store_consistent_def by blast
    let ?l = "last (pe_history e)"
    have l: "?l \<in> set (pe_history e)" "pe_active e = he_version ?l" using eo by (simp_all add: entry_ok_def)
    then have lv: "he_version ?l = version_name node (he_sha ?l)" using eo unfolding entry_ok_def by blast
    with new [OF Some] l(2) name have "he_sha ?l \<noteq> ?sha" by auto
    then have push: "push_history ?sha ?h (pe_history e) = pe_history e @ [?h]" by (simp add: push_history_def)
    let ?e = "\<lparr>pe_active = name, pe_sha = ?sha, pe_suffixes = sfx, pe_score = pv_score ?v,
       pe_promoted_at = ie_now env, pe_history = pe_history e @ [?h]\<rparr>"
    have p': "read_pointer ps' = AList.update node ?e (read_pointer ps)" "ps_files ps' = AList.update name ?v (ps_files ps)"
      using inst env rp Some name push by (simp_all add: install_def Let_def read_pointer_def history_of_def)
    obtain v where v: "map_of (ps_files ps) (pe_active e) = Some v" "pv_suffixes v = pe_suffixes e"
      using eo unfolding entry_ok_def by blast
    with new [OF Some] l(2) have "map_of (ps_files ps') (he_version ?l) = Some v" by (simp add: p'(2))
    with v(2) Some eo l(2) show ?thesis
      by (simp add: rollback_def Let_def p'(1) fun_eq_iff current_suffixes_def entry_ok_def)
  qed
qed

definition demo_hash :: "version_identity \<Rightarrow> string" where
  "demo_hash i = filter (\<lambda>c. c \<noteq> CHR ''.'') (concat (fst (snd i)))"

definition demo_env_at :: "real \<Rightarrow> install_env" where
  "demo_env_at t = \<lparr>ie_hash = demo_hash, ie_now = t, ie_tracked = False, ie_mirror_ok = False\<rparr>"

definition prompt_edit :: "string \<Rightarrow> proposal" where
  "prompt_edit content = \<lparr>pp_type = MT_PROMPT, pp_content = content, pp_target_path = Some ''prompts/plan.md'',
     pp_reason = [], pp_source = []\<rparr>"

definition full_marks :: canary where
  "full_marks = Canary (\<lambda>_. [Goal_scored (Some 1) (Some True)])"

definition promoted_store :: "string \<Rightarrow> real \<Rightarrow> prompt_store \<Rightarrow> prompt_store" where
  "promoted_store content t ps = snd (promote (\<lambda>_. None) (demo_env_at t) (8 / 10) full_marks (prompt_edit content) ps)"

lemma demo_canary: "canary_result [Goal_scored (Some 1) (Some True)] = Some 1"
  by (simp add: canary_result_def canary_scores_def canary_failed_def mean_def List.map_filter_simps)

lemma strip_ab: "py_strip ''a'' = ''a''" "py_strip ''b'' = ''b''"
  by (simp_all add: py_strip_def is_ws_def)

lemma node_plan: "node_from_target_path (Some ''prompts/plan.md'') = ''plan''"
  by (simp add: node_from_target_path_def node_tokens_def py_lower_def lower_char_def)

lemma demo_parse:
  "parse_prompt_payload (\<lambda>_. None) (prompt_edit ''a'') = Some (''plan'', [''a''])"
  "parse_prompt_payload (\<lambda>_. None) (prompt_edit ''b'') = Some (''plan'', [''b''])"
  by (simp_all add: parse_prompt_payload_def prompt_edit_def strip_ab node_plan)

lemma demo_hex: "\<forall>a. CHR ''.'' \<notin> set (demo_hash a)"
  by (simp add: demo_hash_def)

lemma demo_reach: "promo_reach (\<lambda>_. None) demo_hash (8 / 10) (promoted_store ''a'' 1 empty_prompts)"
  unfolding promoted_store_def
  by (rule reach_promote [OF reach_empty])
     (simp_all add: demo_env_at_def no_collision_def demo_parse full_marks_def demo_canary collides_def empty_prompts_def)

lemma promoted_a:
  "promoted_store ''a'' 1 empty_prompts =
     \<lparr>ps_pointer = Some [(''plan'', \<lparr>pe_active = ''plan.a.json'', pe_sha = ''a'', pe_suffixes = [''a''], pe_score = 1,
        pe_promoted_at = 1, pe_history = [\<lparr>he_sha = ''a'', he_version = ''plan.a.json'', he_score = 1, he_promoted_at = 1\<rparr>]\<rparr>)],
      ps_files = [(''plan.a.json'', new_version 1 ''plan'' [''a''] 1 (prompt_edit ''a''))], ps_tracked = [],
      ps_candidates = (\<lambda>_. None)\<rparr>"
proof -
  have "round4 1 = 1" by (simp add: round4_def)
  then show ?thesis
    by (simp add: promoted_store_def promote_def demo_parse full_marks_def golden_canary_def demo_canary install_def
        demo_env_at_def new_version_def identity_of_def demo_hash_def version_name_def read_pointer_def empty_prompts_def
        set_evolved_candidate_def clear_evolved_candidate_def history_of_def push_history_def Let_def fun_eq_iff)
qed

theorem live_guidance_passed_canary_witness:
  "\<exists>name v. map_of (ps_files (promoted_store ''a'' 1 empty_prompts)) name = Some v \<and> 8 / 10 - 1 / 20000 \<le> pv_score v"
proof -
  have "current_suffixes (promoted_store ''a'' 1 empty_prompts) ''plan'' \<noteq> []"
    by (simp add: promoted_a current_suffixes_def read_pointer_def)
  from live_guidance_passed_canary [OF demo_reach demo_hex this] show ?thesis by blast
qed

theorem rollback_undoes_promotion_witness:
  "current_suffixes (snd (rollback ''plan'' (promoted_store ''b'' 2 (promoted_store ''a'' 1 empty_prompts)))) ''plan'' = [''a'']"
proof -
  let ?ps = "promoted_store ''a'' 1 empty_prompts"
  have ok: "store_consistent demo_hash (8 / 10) ?ps" by (rule reach_consistent [OF demo_reach demo_hex])
  have run: "(Promoted ''plan'' ''plan.b.json'' 1, promoted_store ''b'' 2 ?ps) =
      promote (\<lambda>_. None) (demo_env_at 2) (8 / 10) full_marks (prompt_edit ''b'') ?ps"
    by (simp add: promoted_store_def prod_eq_iff)
       (simp add: promote_def demo_parse full_marks_def golden_canary_def demo_canary install_def
        demo_env_at_def new_version_def identity_of_def demo_hash_def version_name_def Let_def)
  have "fst (rollback ''plan'' (promoted_store ''b'' 2 ?ps)) = Rolled_back (map_option pe_active (map_of (read_pointer ?ps) ''plan'')) ''plan.b.json'' \<and>
      current_suffixes (snd (rollback ''plan'' (promoted_store ''b'' 2 ?ps))) = current_suffixes ?ps"
    by (rule rollback_undoes_promotion [OF ok demo_hex _ run]) (simp_all add: demo_env_at_def promoted_a read_pointer_def)
  then show ?thesis by (simp add: promoted_a current_suffixes_def read_pointer_def)
qed

section \<open>What the gate does not look at\<close>

lemma install_writes:
  assumes "(name, ps') = install env node sfx sc pp ps"
  shows "name = version_name node (ie_hash env (identity_of (new_version (ie_now env) node sfx sc pp))) \<and>
    name \<in> fst ` set (ps_files ps')"
proof -
  have "k \<in> fst ` set (AList.update k v al)" for k :: string and v :: prompt_version and al
    by (induction al) auto
  with assms show ?thesis by (simp add: install_def Let_def)
qed

text \<open>
  Fact (safety): the target of a structured mutation is not checked.  Whatever string names the
  target node, if it is none of the nodes whose prompts are built, every prompt the canary run
  sees is the unchanged one; a passing score is then reported as a promotion of that name, and
  the artifact is written under it, separators included.
\<close>

theorem unknown_target_promoted:
  assumes "pp_type pp = MT_PROMPT" "py_strip (pp_content pp) \<noteq> []" "loads (pp_content pp) = Some (JObj payload)"
    and "obj_get payload ''target_node'' JNull = JStr target" "py_strip target \<noteq> []"
    and "obj_get payload ''suffixes'' JNull = JList vs" "json_texts vs \<noteq> []"
    and target: "py_strip target \<notin> set node_tokens"
    and score: "canary_result (suite (set_evolved_candidate (py_strip target) (json_texts vs) ps)) = Some sc" "m \<le> sc"
  shows "(\<forall>node \<in> set node_tokens. evolved_suffixes_for_node b (set_evolved_candidate (py_strip target) (json_texts vs) ps) node =
      evolved_suffixes_for_node b ps node) \<and>
    (\<exists>sha ps'. promote loads env m (Canary suite) pp ps = (Promoted (py_strip target) (version_name (py_strip target) sha) sc, ps') \<and>
       version_name (py_strip target) sha \<in> fst ` set (ps_files ps'))"
proof
  show "\<forall>node \<in> set node_tokens. evolved_suffixes_for_node b (set_evolved_candidate (py_strip target) (json_texts vs) ps) node =
      evolved_suffixes_for_node b ps node"
  proof -
    have "current_suffixes (set_evolved_candidate n x ps) = current_suffixes ps" for n x
      by (simp add: fun_eq_iff current_suffixes_def set_evolved_candidate_def read_pointer_def)
    moreover have "ps_candidates (set_evolved_candidate n x ps) k = (if k = n then Some x else ps_candidates ps k)" for n x k
      by (simp add: set_evolved_candidate_def)
    ultimately show ?thesis using target by (auto simp: evolved_suffixes_for_node_def split: option.split)
  qed
  have parse: "parse_prompt_payload loads pp = Some (py_strip target, json_texts vs)"
    using assms(1-7) by (simp add: parse_prompt_payload_def)
  let ?ps = "clear_evolved_candidate (py_strip target) (set_evolved_candidate (py_strip target) (json_texts vs) ps)"
  obtain name ps' where inst: "(name, ps') = install env (py_strip target) (json_texts vs) sc pp ?ps" by (metis surj_pair)
  have "promote loads env m (Canary suite) pp ps = (Promoted (py_strip target) name sc, ps')"
    using score inst [symmetric] by (simp add: promote_def parse golden_canary_def Let_def split: prod.splits)
  with install_writes [OF inst]
  show "\<exists>sha ps'. promote loads env m (Canary suite) pp ps = (Promoted (py_strip target) (version_name (py_strip target) sha) sc, ps') \<and>
       version_name (py_strip target) sha \<in> fst ` set (ps_files ps')" by metis
qed

definition stray_payload :: "(string \<times> json) list" where
  "stray_payload = [(''target_node'', JStr ''../../x''), (''suffixes'', JList [JStr ''a''])]"

theorem unknown_target_promoted_witness:
  "\<exists>sha ps'. promote (\<lambda>_. Some (JObj stray_payload)) (demo_env_at 1) (8 / 10) full_marks (prompt_edit ''b'') empty_prompts =
     (Promoted ''../../x'' (version_name ''../../x'' sha) 1, ps')"
proof -
  have strip: "py_strip ''../../x'' = ''../../x''" by (simp add: py_strip_def is_ws_def)
  have texts: "json_texts [JStr ''a''] = [''a'']" by (simp add: json_texts_def List.map_filter_simps strip_ab)
  have "obj_get stray_payload ''target_node'' JNull = JStr ''../../x''" "obj_get stray_payload ''suffixes'' JNull = JList [JStr ''a'']"
    by (simp_all add: stray_payload_def obj_get_def)
  from unknown_target_promoted [of "prompt_edit ''b''" "\<lambda>_. Some (JObj stray_payload)", OF _ _ refl this(1) _ this(2),
      of "\<lambda>_. [Goal_scored (Some 1) (Some True)]" empty_prompts 1 "8 / 10" True "demo_env_at 1"]
  show ?thesis by (auto simp: prompt_edit_def strip strip_ab texts node_tokens_def demo_canary full_marks_def)
qed

text \<open>
  Fact (functional): the canary's verdict over its suite.  It is positive only when no scored goal
  failed its strict check, it is then the mean of the scored goals, and goals that ran out of time
  or raised count for nothing, as if they were not in the suite.
\<close>

theorem canary_verdict:
  "(canary_result answers = Some sc \<and> 0 < sc \<longrightarrow>
      \<not> canary_failed answers \<and> sc = mean (canary_scores answers)) \<and>
   canary_result answers =
     canary_result (filter (\<lambda>a. a \<noteq> Goal_timed_out \<and> a \<noteq> Goal_errored) answers)"
proof -
  have "canary_scores (filter (\<lambda>a. a \<noteq> Goal_timed_out \<and> a \<noteq> Goal_errored) answers) = canary_scores answers"
    "canary_failed (filter (\<lambda>a. a \<noteq> Goal_timed_out \<and> a \<noteq> Goal_errored) answers) = canary_failed answers"
    by (induction answers)
       (auto simp: canary_scores_def canary_failed_def List.map_filter_simps split: goal_answer.split option.split)
  then show ?thesis by (auto simp: canary_result_def split: if_splits)
qed

theorem canary_verdict_witness:
  "canary_result [Goal_scored (Some 1) (Some True), Goal_timed_out] = Some 1"
  using canary_verdict [of "[Goal_scored (Some 1) (Some True), Goal_timed_out]" 1] by (simp add: demo_canary)

lemma install_last:
  assumes ok: "store_consistent hash m ps" and env: "ie_hash env = hash"
    and run: "(name, ps') = install env node sfx score pp ps"
  shows "\<exists>e. map_of (read_pointer ps') node = Some e \<and> pe_history e \<noteq> [] \<and> he_version (last (pe_history e)) = name \<and>
    he_sha (last (pe_history e)) = hash (identity_of (new_version (ie_now env) node sfx score pp)) \<and>
    map_of (ps_files ps') name = Some (new_version (ie_now env) node sfx score pp)"
proof -
  let ?v = "new_version (ie_now env) node sfx score pp"
  let ?sha = "hash (identity_of ?v)"
  let ?h = "\<lparr>he_sha = ?sha, he_version = version_name node ?sha, he_score = pv_score ?v, he_promoted_at = ie_now env\<rparr>"
  let ?hs = "history_of (read_pointer ps) node"
  have hist: "push_history ?sha ?h ?hs \<noteq> [] \<and> he_version (last (push_history ?sha ?h ?hs)) = version_name node ?sha \<and>
      he_sha (last (push_history ?sha ?h ?hs)) = ?sha"
  proof (cases "push_history ?sha ?h ?hs = ?hs @ [?h]")
    case False
    then have hs: "push_history ?sha ?h ?hs = ?hs" "?hs \<noteq> []" "he_sha (last ?hs) = ?sha"
      using push_history_facts(3) [of ?h ?hs] by auto
    then obtain e where e: "map_of (read_pointer ps) node = Some e" "?hs = pe_history e"
      by (cases "map_of (read_pointer ps) node") (auto simp: history_of_def)
    then have "entry_ok hash (ps_files ps) node e" using ok unfolding store_consistent_def by blast
    moreover have "last ?hs \<in> set (pe_history e)" using hs(2) e(2) by simp
    ultimately have "he_version (last ?hs) = version_name node (he_sha (last ?hs))" unfolding entry_ok_def by blast
    with hs show ?thesis by simp
  qed simp
  let ?e = "\<lparr>pe_active = version_name node ?sha, pe_sha = ?sha, pe_suffixes = sfx,
       pe_score = pv_score ?v, pe_promoted_at = ie_now env, pe_history = push_history ?sha ?h ?hs\<rparr>"
  have inst: "name = version_name node ?sha" "map_of (ps_files ps') name = Some ?v"
    "map_of (read_pointer ps') node = Some \<lparr>pe_active = version_name node ?sha, pe_sha = ?sha, pe_suffixes = sfx,
       pe_score = pv_score ?v, pe_promoted_at = ie_now env, pe_history = push_history ?sha ?h ?hs\<rparr>"
    using run env by (simp_all add: install_def Let_def read_pointer_def)
  have "pe_history ?e = push_history ?sha ?h ?hs" by simp
  with hist inst show ?thesis by (intro exI [of _ ?e]) simp
qed

text \<open>
  Fact (safety): re-promoting the same guidance disarms the rollback.  The version hash covers the
  canary's score although the content is meant to identify a version, so the same suffixes with
  another score become a new version; rolling it back reports success and the guidance stays.
\<close>

theorem repromotion_disarms_rollback:
  assumes ok: "store_consistent hash m ps" and "ie_hash env = hash" "ie_hash env' = hash"
    and differ: "hash (identity_of (new_version (ie_now env') node sfx sc' pp)) \<noteq>
      hash (identity_of (new_version (ie_now env) node sfx sc pp))"
    and hex: "\<forall>a. CHR ''.'' \<notin> set (hash a)"
    and first: "(name, ps1) = install env node sfx sc pp ps"
    and second: "(name', ps2) = install env' node sfx sc' pp ps1"
  shows "fst (rollback node ps2) = Rolled_back (Some name) name' \<and> current_suffixes (snd (rollback node ps2)) node = sfx"
proof -
  let ?v = "new_version (ie_now env) node sfx sc pp" and ?v' = "new_version (ie_now env') node sfx sc' pp"
  let ?s = "hash (identity_of ?v)" and ?s' = "hash (identity_of ?v')"
  have n: "name = version_name node ?s" "name' = version_name node ?s'"
    using first second assms(2,3) by (simp_all add: install_def Let_def)
  then have ne: "name \<noteq> name'" using version_name_inj [OF hex [rule_format] hex [rule_format]] differ by metis
  obtain e where e: "map_of (read_pointer ps1) node = Some e" "pe_history e \<noteq> []"
    "he_version (last (pe_history e)) = name" "he_sha (last (pe_history e)) = ?s" "map_of (ps_files ps1) name = Some ?v"
    using install_last [OF ok assms(2) first] by blast
  let ?h' = "\<lparr>he_sha = ?s', he_version = name', he_score = pv_score ?v', he_promoted_at = ie_now env'\<rparr>"
  have "push_history ?s' ?h' (history_of (read_pointer ps1) node) = pe_history e @ [?h']"
    using e(1,4) differ by (simp add: push_history_def history_of_def)
  then have ps2: "map_of (read_pointer ps2) node = Some \<lparr>pe_active = name', pe_sha = ?s', pe_suffixes = sfx,
      pe_score = pv_score ?v', pe_promoted_at = ie_now env', pe_history = pe_history e @ [?h']\<rparr>"
    "map_of (ps_files ps2) name = Some ?v"
    using second assms(3) n(2) ne e(5) by (simp_all add: install_def Let_def read_pointer_def)
  show ?thesis using ps2 e(2,3) by (simp add: rollback_def Let_def current_suffixes_def new_version_def)
qed

definition score_hash :: "version_identity \<Rightarrow> string" where
  "score_hash i = (if fst (snd (snd i)) = 1 then ''a'' else ''b'')"

theorem repromotion_disarms_rollback_witness:
  "\<exists>ps2. current_suffixes (snd (rollback ''plan'' ps2)) ''plan'' = [''a'']"
proof -
  let ?env = "\<lparr>ie_hash = score_hash, ie_now = 1, ie_tracked = False, ie_mirror_ok = False\<rparr>"
  obtain name ps1 where one: "(name, ps1) = install ?env ''plan'' [''a''] 1 (prompt_edit ''a'') empty_prompts" by (metis surj_pair)
  obtain name' ps2 where two: "(name', ps2) = install ?env ''plan'' [''a''] (9 / 10) (prompt_edit ''a'') ps1" by (metis surj_pair)
  have r: "round4 1 = 1" "round4 (9 / 10) = 9 / 10" by (simp_all add: round4_def)
  have "store_consistent score_hash 0 empty_prompts"
    by (simp add: store_consistent_def empty_prompts_def read_pointer_def)
  moreover have "ie_hash ?env = score_hash" by simp
  ultimately have "current_suffixes (snd (rollback ''plan'' ps2)) ''plan'' = [''a'']"
    using repromotion_disarms_rollback [OF _ _ _ _ _ one two, of score_hash 0]
    by (simp add: score_hash_def identity_of_def new_version_def r)
  then show ?thesis by blast
qed

section \<open>The regression gate\<close>

lemma rollback_other: "k \<noteq> n \<Longrightarrow> map_of (read_pointer (snd (rollback n ps))) k = map_of (read_pointer ps) k"
  by (rule rollback_cases [of n ps]) auto

lemma rollback_local:
  assumes "map_of (read_pointer ps) n = map_of (read_pointer ps') n" "ps_files ps = ps_files ps'"
  shows "map_of (read_pointer (snd (rollback n ps))) n = map_of (read_pointer (snd (rollback n ps'))) n"
  using assms by (simp add: rollback_def Let_def split: option.split)

lemma rollback_suspects_Cons:
  "snd (rollback_suspects (n # ns) ps) = snd (rollback_suspects ns (if n = [] then ps else snd (rollback n ps)))"
  by (simp add: Let_def split_beta)

lemma rollback_suspects_files: "ps_files (snd (rollback_suspects ns ps)) = ps_files ps"
  by (induction ns arbitrary: ps) (simp_all add: rollback_suspects_Cons del: rollback_suspects.simps(2))

lemma rollback_suspects_other:
  "k \<notin> set ns \<Longrightarrow> map_of (read_pointer (snd (rollback_suspects ns ps))) k = map_of (read_pointer ps) k"
  by (induction ns arbitrary: ps)
     (simp_all add: rollback_suspects_Cons rollback_other del: rollback_suspects.simps(2))

lemma rollback_suspects_hit:
  "distinct ns \<Longrightarrow> k \<in> set ns \<Longrightarrow> k \<noteq> [] \<Longrightarrow>
     map_of (read_pointer (snd (rollback_suspects ns ps))) k = map_of (read_pointer (snd (rollback k ps))) k"
proof (induction ns arbitrary: ps)
  case (Cons n ns)
  show ?case
  proof (cases "n = k")
    case True
    with Cons.prems show ?thesis
      by (simp add: rollback_suspects_Cons rollback_suspects_other del: rollback_suspects.simps(2))
  next
    case False
    let ?ps = "if n = [] then ps else snd (rollback n ps)"
    have "map_of (read_pointer ?ps) k = map_of (read_pointer ps) k" "ps_files ?ps = ps_files ps"
      using False by (simp_all add: rollback_other)
    from rollback_local [OF this] Cons.IH [of ?ps] Cons.prems False show ?thesis
      by (simp add: rollback_suspects_Cons del: rollback_suspects.simps(2))
  qed
qed simp

lemma suspect_iff:
  "dict_wf (read_pointer ps) \<Longrightarrow> n \<in> set (suspect_nodes cs now ps) \<longleftrightarrow>
     (\<exists>e. map_of (read_pointer ps) n = Some e \<and> pe_active e \<noteq> [] \<and> now - cs_lookback_days cs * 86400 \<le> pe_promoted_at e)"
  by (force simp: suspect_nodes_def dict_wf_def)

lemma suspects_distinct: "dict_wf (read_pointer ps) \<Longrightarrow> distinct (suspect_nodes cs now ps)"
  by (simp add: suspect_nodes_def dict_wf_def distinct_map_filter)

lemma curve_gate_store:
  "snd (curve_gate cs now points ps) =
     (if vd_regressed (detect_regression cs points) \<and> cs_auto_rollback cs
      then snd (rollback_suspects (suspect_nodes cs now ps) ps) else ps)"
  by (simp add: curve_gate_def Let_def split_beta)

text \<open>
  Fact (safety): the regression gate touches only recent promotions.  It never deletes an artifact,
  and a node's guidance changes only when the verdict is a regression, automatic rollback is on
  and the node's active promotion lies within the lookback window.
\<close>

theorem curve_gate_scope:
  assumes "dict_wf (read_pointer ps)"
  shows "ps_files (snd (curve_gate cs now points ps)) = ps_files ps \<and>
    (\<forall>node. map_of (read_pointer (snd (curve_gate cs now points ps))) node \<noteq> map_of (read_pointer ps) node \<longrightarrow>
       vd_regressed (detect_regression cs points) \<and> cs_auto_rollback cs \<and>
       (\<exists>e. map_of (read_pointer ps) node = Some e \<and> now - cs_lookback_days cs * 86400 \<le> pe_promoted_at e))"
proof
  show "ps_files (snd (curve_gate cs now points ps)) = ps_files ps"
    by (simp add: curve_gate_store rollback_suspects_files)
  have "node \<in> set (suspect_nodes cs now ps)"
    if "map_of (read_pointer (snd (rollback_suspects (suspect_nodes cs now ps) ps))) node \<noteq> map_of (read_pointer ps) node" for node
    using that rollback_suspects_other by metis
  with suspect_iff [OF assms, of _ cs now]
  show "\<forall>node. map_of (read_pointer (snd (curve_gate cs now points ps))) node \<noteq> map_of (read_pointer ps) node \<longrightarrow>
       vd_regressed (detect_regression cs points) \<and> cs_auto_rollback cs \<and>
       (\<exists>e. map_of (read_pointer ps) node = Some e \<and> now - cs_lookback_days cs * 86400 \<le> pe_promoted_at e)"
    by (simp add: curve_gate_store) blast
qed

theorem curve_gate_scope_witness:
  "map_of (read_pointer (snd (curve_gate
      \<lparr>cs_delta = 1 / 10, cs_floor = 1 / 2, cs_min_points = 2, cs_auto_rollback = True, cs_lookback_days = 1\<rparr>
      1000000 points (promoted_store ''a'' 1 empty_prompts)))) ''plan'' =
   map_of (read_pointer (promoted_store ''a'' 1 empty_prompts)) ''plan''"
proof -
  have wf: "dict_wf (read_pointer (promoted_store ''a'' 1 empty_prompts))"
    by (simp add: promoted_a read_pointer_def dict_wf_def)
  let ?cs = "\<lparr>cs_delta = 1 / 10, cs_floor = 1 / 2, cs_min_points = 2, cs_auto_rollback = True, cs_lookback_days = 1\<rparr>"
  have "\<not> 1000000 - cs_lookback_days ?cs * 86400 \<le> pe_promoted_at e"
    if "map_of (read_pointer (promoted_store ''a'' 1 empty_prompts)) ''plan'' = Some e" for e
    using that by (auto simp: promoted_a read_pointer_def)
  with conjunct2 [OF curve_gate_scope [OF wf, of ?cs 1000000 points], THEN spec, of "''plan''"] show ?thesis by blast
qed

text \<open>
  Fact (safety): a second look at the same regression unwinds a second promotion.  A rollback
  restores the earlier version with its own date, so when that lies in the window too, running the
  gate again on the same battery results reverts that version as well.
\<close>

theorem second_regression_unwinds:
  assumes wf: "dict_wf (read_pointer ps)" and "node \<noteq> []"
    and reg: "vd_regressed (detect_regression cs points)" "cs_auto_rollback cs"
    and e: "map_of (read_pointer ps) node = Some e" "pe_active e \<noteq> []" "pe_history e = hs @ [h, h']"
    and recent: "now - cs_lookback_days cs * 86400 \<le> pe_promoted_at e"
      "now - cs_lookback_days cs * 86400 \<le> he_promoted_at h" "he_version h \<noteq> []"
    and once: "ps1 = snd (curve_gate cs now points ps)"
  shows "history_of (read_pointer ps1) node = hs @ [h] \<and>
    history_of (read_pointer (snd (curve_gate cs now points ps1))) node = hs"
proof -
  have step: "map_of (read_pointer (snd (curve_gate cs now points p))) node = map_of (read_pointer (snd (rollback node p))) node"
    if p: "dict_wf (read_pointer p)" "map_of (read_pointer p) node = Some x" "pe_active x \<noteq> []"
      "now - cs_lookback_days cs * 86400 \<le> pe_promoted_at x" for p x
  proof -
    have "node \<in> set (suspect_nodes cs now p)" using p suspect_iff [OF p(1)] by blast
    from rollback_suspects_hit [OF suspects_distinct [OF p(1)] this assms(2)] reg show ?thesis
      by (simp add: curve_gate_store)
  qed
  have wf_rollback: "dict_wf (read_pointer (snd (rollback n p)))" if "dict_wf (read_pointer p)" for n p
    by (rule rollback_cases [of n p]) (use that in simp_all)
  have wf_suspects: "dict_wf (read_pointer (snd (rollback_suspects ns p)))" if "dict_wf (read_pointer p)" for ns p
    using that wf_rollback by (induction ns arbitrary: p) (simp_all add: rollback_suspects_Cons del: rollback_suspects.simps(2))
  let ?e = "\<lparr>pe_active = he_version h, pe_sha = he_sha h,
    pe_suffixes = (case map_of (ps_files ps) (he_version h) of None \<Rightarrow> [] | Some v \<Rightarrow> pv_suffixes v),
    pe_score = he_score h, pe_promoted_at = he_promoted_at h, pe_history = hs @ [h]\<rparr>"
  have one: "map_of (read_pointer ps1) node = Some ?e"
    using step [OF wf e(1,2) recent(1)] e once by (simp add: rollback_def Let_def butlast_append)
  have wf1: "dict_wf (read_pointer ps1)" using wf wf_suspects once by (simp add: curve_gate_store)
  have "map_of (read_pointer (snd (curve_gate cs now points ps1))) node = map_of (read_pointer (snd (rollback node ps1))) node"
    by (rule step [OF wf1 one]) (use recent in simp_all)
  then have "history_of (read_pointer (snd (curve_gate cs now points ps1))) node = hs"
    using one by (cases hs rule: rev_cases) (simp_all add: rollback_def Let_def history_of_def butlast_append)
  with one show ?thesis by (simp add: history_of_def)
qed

lemma promoted_ab:
  "read_pointer (promoted_store ''b'' 2 (promoted_store ''a'' 1 empty_prompts)) =
     [(''plan'', \<lparr>pe_active = ''plan.b.json'', pe_sha = ''b'', pe_suffixes = [''b''], pe_score = 1,
        pe_promoted_at = 2, pe_history = [] @ [\<lparr>he_sha = ''a'', he_version = ''plan.a.json'', he_score = 1, he_promoted_at = 1\<rparr>,
          \<lparr>he_sha = ''b'', he_version = ''plan.b.json'', he_score = 1, he_promoted_at = 2\<rparr>]\<rparr>)]"
proof -
  have "round4 1 = 1" by (simp add: round4_def)
  then show ?thesis
    unfolding promoted_a
    by (simp add: promoted_store_def promote_def demo_parse full_marks_def golden_canary_def demo_canary install_def
        demo_env_at_def new_version_def identity_of_def demo_hash_def version_name_def read_pointer_def
        set_evolved_candidate_def clear_evolved_candidate_def history_of_def push_history_def Let_def)
qed

definition bad_nights :: "battery_point list" where
  "bad_nights = [\<lparr>bp_date = 0, bp_mean = 9 / 10, bp_goals = 9\<rparr>, \<lparr>bp_date = 1, bp_mean = 3 / 10, bp_goals = 9\<rparr>]"

definition default_curve :: curve_settings where
  "default_curve = \<lparr>cs_delta = 1 / 10, cs_floor = 1 / 2, cs_min_points = 2, cs_auto_rollback = True, cs_lookback_days = 30\<rparr>"

lemma bad_nights_regress: "vd_regressed (detect_regression default_curve bad_nights)"
proof -
  have "round4 (6 / 10) = 6 / 10" by (simp add: round4_def)
  then show ?thesis by (simp add: default_curve_def bad_nights_def detect_regression_def best_so_far_def Let_def)
qed

theorem second_regression_unwinds_witness:
  "history_of (read_pointer (snd (curve_gate default_curve 3 bad_nights
     (snd (curve_gate default_curve 3 bad_nights
       (promoted_store ''b'' 2 (promoted_store ''a'' 1 empty_prompts))))))) ''plan'' = []"
  using second_regression_unwinds [of "promoted_store ''b'' 2 (promoted_store ''a'' 1 empty_prompts)" "''plan''"
      default_curve bad_nights _ "[]" _ _ 3, OF _ _ bad_nights_regress _ _ _ _ _ _ _ refl]
  by (simp add: promoted_ab dict_wf_def default_curve_def)

section \<open>Names of code candidates\<close>

lemma dash_runs_chars: "c \<in> set (dash_runs b s) \<Longrightarrow> is_alnum c \<or> c = CHR ''-''"
  by (induction b s rule: dash_runs.induct) (auto split: if_splits)

lemma strip_dashes_set: "set (strip_dashes s) \<subseteq> set s"
  by (auto simp: strip_dashes_def dest!: set_dropWhileD)

lemma strip_dashes_ends:
  "strip_dashes s \<noteq> [] \<Longrightarrow> hd (strip_dashes s) \<noteq> CHR ''-'' \<and> last (strip_dashes s) \<noteq> CHR ''-''"
proof -
  let ?t = "dropWhile (\<lambda>c. c = CHR ''-'') s" and ?P = "\<lambda>c. c = CHR ''-''"
  assume ne: "strip_dashes s \<noteq> []"
  then have l: "last (strip_dashes s) \<noteq> CHR ''-''"
    using hd_dropWhile [of ?P "rev ?t"] by (auto simp: strip_dashes_def last_rev)
  have "rev (dropWhile ?P (rev ?t)) @ rev (takeWhile ?P (rev ?t)) = ?t"
    by (simp only: rev_append [symmetric] takeWhile_dropWhile_id rev_rev_ident)
  then obtain v where "?t = strip_dashes s @ v" unfolding strip_dashes_def by metis
  then have "hd ?t = hd (strip_dashes s)" "?t \<noteq> []" using ne by simp_all
  with hd_dropWhile [of ?P s] l show ?thesis by auto
qed

text \<open>
  Fact (type): the artifact name of a code candidate is a plain file name.  Whatever the target path
  of the mutation, the stem is not empty, has only letters, digits and dashes, and neither starts
  nor ends with a dash.
\<close>

theorem slug_is_file_name:
  "slugify_target path \<noteq> [] \<and> list_all (\<lambda>c. is_alnum c \<or> c = CHR ''-'') (slugify_target path) \<and>
   hd (slugify_target path) \<noteq> CHR ''-'' \<and> last (slugify_target path) \<noteq> CHR ''-''"
proof (cases "strip_dashes (dash_runs False (py_lower (py_strip path))) = []")
  case True
  then show ?thesis by (simp add: slugify_target_def is_alnum_def is_digit_def)
next
  case False
  then show ?thesis
    using strip_dashes_ends [OF False] strip_dashes_set [of "dash_runs False (py_lower (py_strip path))"]
      dash_runs_chars [of _ False "py_lower (py_strip path)"]
    by (auto simp: slugify_target_def Let_def list_all_iff)
qed

end
