(* ===== verification/Cost_Ledger.thy ===== *)
theory Cost_Ledger
  imports Gateway_Budget
begin

text \<open>
  The cost ledger: budgets and attribution of \<open>src/src/llm/cost_tracker.py\<close> and the reports of
  \<open>src/src/llm/cost_queries.py\<close>.  The ledger is the list of its rows; the clock, the database's
  answer to an insert and the identity of the run are arguments.  A day is a UTC day number;
  message texts are constructors carrying their numbers; the rounding of the stored cost to six
  decimals is left out.
\<close>

section \<open>Rows and limits\<close>

record ledger_entry =
  le_run :: "string option"
  le_provider :: string
  le_model :: string
  le_input :: int
  le_output :: int
  le_total :: int
  le_cached :: int
  le_cost :: real
  le_created :: real

record budget_settings =
  bs_max_cost :: real
  bs_token_limit :: int
  bs_run_cost :: real
  bs_run_cost_absolute :: real
  bs_token_absolute :: int
  bs_warn :: real
  bs_critical :: real

record tracker =
  tk_ledger :: "ledger_entry list"
  tk_base_tokens :: int
  tk_base_cost :: real

definition set_run_baseline :: "int \<Rightarrow> tracker \<Rightarrow> tracker" where
  "set_run_baseline n tk = tk\<lparr>tk_base_tokens := max 0 n\<rparr>"

definition set_run_cost_baseline :: "real \<Rightarrow> tracker \<Rightarrow> tracker" where
  "set_run_cost_baseline c tk = tk\<lparr>tk_base_cost := max 0 c\<rparr>"

definition calculate_cost :: "(string \<times> model_spec) list \<Rightarrow> string \<Rightarrow> int \<Rightarrow> int \<Rightarrow> real" where
  "calculate_cost registry model inp outp =
     (case map_of registry model of
        Some sp \<Rightarrow> real_of_int inp * ms_input_cost sp / 1000 + real_of_int outp * ms_output_cost sp / 1000
      | None \<Rightarrow> real_of_int inp * (5 / 1000) / 1000 + real_of_int outp * (15 / 1000) / 1000)"

definition record_usage ::
  "(string \<times> model_spec) list \<Rightarrow> bool \<Rightarrow> real \<Rightarrow> string \<Rightarrow> string \<Rightarrow> int \<Rightarrow> int \<Rightarrow> int \<Rightarrow> string option
    \<Rightarrow> tracker \<Rightarrow> real \<times> tracker" where
  "record_usage registry ok now model provider inp outp cached run tk =
     (let cost = calculate_cost registry model inp outp
      in (cost,
          if ok then tk\<lparr>tk_ledger := tk_ledger tk @
               [\<lparr>le_run = run, le_provider = provider, le_model = model, le_input = inp, le_output = outp,
                 le_total = inp + outp, le_cached = cached, le_cost = cost, le_created = now\<rparr>]\<rparr>
          else tk))"

section \<open>Sums\<close>

definition day_of :: "real \<Rightarrow> int" where
  "day_of t = \<lfloor>t / 86400\<rfloor>"

definition get_daily_spend :: "real \<Rightarrow> tracker \<Rightarrow> real" where
  "get_daily_spend now tk =
     sum_list (map le_cost (filter (\<lambda>e. day_of (le_created e) = day_of now) (tk_ledger tk)))"

definition get_daily_token_usage :: "real \<Rightarrow> tracker \<Rightarrow> int \<times> int \<times> int" where
  "get_daily_token_usage now tk =
     (let es = filter (\<lambda>e. day_of (le_created e) = day_of now) (tk_ledger tk)
      in (sum_list (map le_input es), sum_list (map le_output es), sum_list (map le_total es)))"

definition run_entries :: "string \<Rightarrow> tracker \<Rightarrow> ledger_entry list" where
  "run_entries run tk = filter (\<lambda>e. le_run e = Some run) (tk_ledger tk)"

definition get_run_spend :: "string \<Rightarrow> tracker \<Rightarrow> real" where
  "get_run_spend run tk = sum_list (map le_cost (run_entries run tk))"

definition get_run_token_usage :: "string \<Rightarrow> tracker \<Rightarrow> int" where
  "get_run_token_usage run tk = sum_list (map le_total (run_entries run tk))"

section \<open>The budget check\<close>

datatype budget_state =
    Daily_exhausted real
  | Run_tokens_reached int
  | Run_tokens_total_reached int
  | Run_cost_reached real
  | Run_cost_total_reached real
  | Budget_critical real
  | Budget_warning real
  | Budget_ok real

fun within_budget :: "budget_state \<Rightarrow> bool" where
  "within_budget (Budget_critical _) = True"
| "within_budget (Budget_warning _) = True"
| "within_budget (Budget_ok _) = True"
| "within_budget _ = False"

definition check_budget :: "budget_settings \<Rightarrow> real \<Rightarrow> string option \<Rightarrow> tracker \<Rightarrow> budget_state" where
  "check_budget bs now run tk =
     (let daily = get_daily_spend now tk;
          tokens = (case run of None \<Rightarrow> 0 | Some r \<Rightarrow> get_run_token_usage r tk);
          cost = (case run of None \<Rightarrow> 0 | Some r \<Rightarrow> get_run_spend r tk);
          spent = max 0 (tokens - tk_base_tokens tk);
          spent_cost = max 0 (cost - tk_base_cost tk)
      in if bs_max_cost bs \<le> daily then Daily_exhausted daily
         else if run \<noteq> None \<and> bs_token_limit bs > 0 \<and> bs_token_limit bs \<le> spent then Run_tokens_reached spent
         else if run \<noteq> None \<and> bs_token_absolute bs > 0 \<and> bs_token_absolute bs \<le> tokens
         then Run_tokens_total_reached tokens
         else if run \<noteq> None \<and> bs_run_cost bs > 0 \<and> bs_run_cost bs \<le> spent_cost then Run_cost_reached spent_cost
         else if run \<noteq> None \<and> bs_run_cost_absolute bs > 0 \<and> bs_run_cost_absolute bs \<le> cost
         then Run_cost_total_reached cost
         else if bs_max_cost bs * bs_critical bs \<le> daily then Budget_critical daily
         else if bs_max_cost bs * bs_warn bs \<le> daily then Budget_warning daily
         else Budget_ok daily)"

section \<open>Reports\<close>

record run_summary =
  rn_run :: string
  rn_cost :: real
  rn_calls :: nat
  rn_input :: int
  rn_output :: int
  rn_total :: int

text \<open>Most expensive first; the database leaves ties in any order.\<close>

definition get_runs_summary :: "tracker \<Rightarrow> run_summary list" where
  "get_runs_summary tk =
     sort_key (\<lambda>s. - rn_cost s)
       (map (\<lambda>run. let es = run_entries run tk in
          \<lparr>rn_run = run, rn_cost = sum_list (map le_cost es), rn_calls = length es,
           rn_input = sum_list (map le_input es), rn_output = sum_list (map le_output es),
           rn_total = sum_list (map le_total es)\<rparr>)
        (remdups (List.map_filter le_run (tk_ledger tk))))"

record spend_row =
  sr_primary :: string
  sr_secondary :: string
  sr_calls :: nat
  sr_spend :: real
  sr_tokens :: int

record cost_breakdown =
  bd_matched :: bool
  bd_calls :: nat
  bd_spend :: real
  bd_tokens :: int
  bd_by_model :: bool
  bd_detail :: "spend_row list"
  bd_by_run :: "spend_row list"

definition cost_filter :: "string \<Rightarrow> string \<Rightarrow> real option \<Rightarrow> real option \<Rightarrow> ledger_entry \<Rightarrow> bool" where
  "cost_filter run model today since e =
     ((run = [] \<or> le_run e = Some run) \<and> (model = [] \<or> le_model e = model) \<and>
      (case today of None \<Rightarrow> True | Some now \<Rightarrow> day_of (le_created e) = day_of now) \<and>
      (case since of None \<Rightarrow> True | Some t \<Rightarrow> t \<le> le_created e))"

definition spend_of :: "string \<Rightarrow> string \<Rightarrow> ledger_entry list \<Rightarrow> spend_row" where
  "spend_of primary secondary es =
     \<lparr>sr_primary = primary, sr_secondary = secondary, sr_calls = length es, sr_spend = sum_list (map le_cost es),
      sr_tokens = sum_list (map le_total es)\<rparr>"

definition run_label :: "string option \<Rightarrow> string" where
  "run_label run = (case run of None \<Rightarrow> ''(none)'' | Some r \<Rightarrow> if r = [] then ''(none)'' else r)"

text \<open>One row for every group of a key; the subtotals of the detail rows by their first column.\<close>

definition group_rows :: "(ledger_entry \<Rightarrow> 'k) \<Rightarrow> ('k \<Rightarrow> string \<times> string) \<Rightarrow> ledger_entry list \<Rightarrow> spend_row list" where
  "group_rows key label es =
     map (\<lambda>k. spend_of (fst (label k)) (snd (label k)) (filter (\<lambda>e. key e = k) es)) (remdups (map key es))"

definition subtotal_rows :: "spend_row list \<Rightarrow> spend_row list" where
  "subtotal_rows rows =
     map (\<lambda>run. let rs = filter (\<lambda>r. sr_primary r = run) rows in
        \<lparr>sr_primary = run, sr_secondary = [], sr_calls = sum_list (map sr_calls rs),
         sr_spend = sum_list (map sr_spend rs), sr_tokens = sum_list (map sr_tokens rs)\<rparr>)
       (remdups (map sr_primary rows))"

definition cost_breakdown_of ::
  "(ledger_entry \<Rightarrow> bool) \<Rightarrow> bool \<Rightarrow> tracker \<Rightarrow> cost_breakdown" where
  "cost_breakdown_of pred by_model tk =
     (let es = filter pred (tk_ledger tk);
          total = spend_of [] [] es;
          base = \<lparr>bd_matched = (es \<noteq> []), bd_calls = sr_calls total, bd_spend = sr_spend total,
                  bd_tokens = sr_tokens total, bd_by_model = by_model, bd_detail = [], bd_by_run = []\<rparr>
      in if es = [] then base
         else if by_model then
           base\<lparr>bd_detail := sort_key (\<lambda>r. - sr_spend r) (group_rows le_model (\<lambda>m. (m, [])) es)\<rparr>
         else
           let rows = group_rows (\<lambda>e. (le_run e, le_model e)) (\<lambda>(run, m). (run_label run, m)) es
           in base\<lparr>bd_detail := rows, bd_by_run := sort_key (\<lambda>r. - sr_spend r) (subtotal_rows rows)\<rparr>)"

section \<open>The reports account for every row\<close>

lemma sum_list_if_key:
  fixes g :: "'k \<Rightarrow> 'b :: comm_monoid_add"
  assumes "distinct ks" "x \<in> set ks"
  shows "sum_list (map (\<lambda>k. if x = k then a + g k else g k) ks) = a + sum_list (map g ks)"
  using assms
proof (induction ks)
  case (Cons k ks)
  show ?case
  proof (cases "x = k")
    case True
    with Cons.prems have eq: "map (\<lambda>k. if x = k then a + g k else g k) ks = map g ks" by auto
    with True show ?thesis unfolding list.map(2) sum_list.Cons eq by (simp add: add.assoc)
  next
    case False
    with Cons show ?thesis by (simp add: add.left_commute)
  qed
qed simp

lemma sum_over_groups:
  fixes f :: "'a \<Rightarrow> 'b :: comm_monoid_add"
  assumes "distinct ks" "\<forall>x \<in> set xs. key x \<in> set ks"
  shows "sum_list (map (\<lambda>k. sum_list (map f (filter (\<lambda>x. key x = k) xs))) ks) = sum_list (map f xs)"
  using assms(2)
proof (induction xs)
  case Nil
  show ?case by (induction ks) simp_all
next
  case (Cons x xs)
  have eq: "map (\<lambda>k. sum_list (map f (filter (\<lambda>y. key y = k) (x # xs)))) ks =
      map (\<lambda>k. if key x = k then f x + sum_list (map f (filter (\<lambda>y. key y = k) xs))
        else sum_list (map f (filter (\<lambda>y. key y = k) xs))) ks" by simp
  have "key x \<in> set ks" using Cons.prems by simp
  from sum_list_if_key [OF assms(1) this, of "f x" "\<lambda>k. sum_list (map f (filter (\<lambda>y. key y = k) xs))"]
  show ?case unfolding eq using Cons by simp
qed

lemma sum_list_sort_key: "sum_list (map (f :: _ \<Rightarrow> 'b :: comm_monoid_add) (sort_key k xs)) = sum_list (map f xs)"
  by (metis mset_map mset_sort sum_mset_sum_list)

lemma spend_of_simps [simp]:
  "sr_calls (spend_of p s es) = length es" "sr_spend (spend_of p s es) = sum_list (map le_cost es)"
  "sr_tokens (spend_of p s es) = sum_list (map le_total es)" "sr_primary (spend_of p s es) = p"
  by (simp_all add: spend_of_def)

lemma sum_of_ones: "sum_list (map (\<lambda>_. Suc 0) es) = length es"
  by (induction es) simp_all

lemma group_rows_sums:
  "sum_list (map sr_spend (group_rows key label es)) = sum_list (map le_cost es)"
  "sum_list (map sr_tokens (group_rows key label es)) = sum_list (map le_total es)"
  "sum_list (map sr_calls (group_rows key label es)) = length es"
  using sum_over_groups [of "remdups (map key es)" es key le_cost]
    sum_over_groups [of "remdups (map key es)" es key le_total]
    sum_over_groups [of "remdups (map key es)" es key "\<lambda>_. 1 :: nat"]
  by (simp_all add: group_rows_def o_def sum_of_ones)

lemma subtotal_rows_sums:
  "sum_list (map sr_spend (subtotal_rows rows)) = sum_list (map sr_spend rows)"
  "sum_list (map sr_tokens (subtotal_rows rows)) = sum_list (map sr_tokens rows)"
  "sum_list (map sr_calls (subtotal_rows rows)) = sum_list (map sr_calls rows)"
  using sum_over_groups [of "remdups (map sr_primary rows)" rows sr_primary sr_spend]
    sum_over_groups [of "remdups (map sr_primary rows)" rows sr_primary sr_tokens]
    sum_over_groups [of "remdups (map sr_primary rows)" rows sr_primary sr_calls]
  by (simp_all add: subtotal_rows_def o_def Let_def)

text \<open>
  Fact (functional): the spend report adds up.  For every filter, the calls, the dollars and the
  tokens of the detail rows add up to the totals, and so do the subtotals by run: no row of the
  ledger is counted twice or lost.
\<close>

theorem cost_report_adds_up:
  "let bd = cost_breakdown_of pred by_model tk in
     sum_list (map sr_spend (bd_detail bd)) = bd_spend bd \<and>
     sum_list (map sr_tokens (bd_detail bd)) = bd_tokens bd \<and>
     sum_list (map sr_calls (bd_detail bd)) = bd_calls bd \<and>
     (if by_model then bd_by_run bd = []
      else sum_list (map sr_spend (bd_by_run bd)) = bd_spend bd \<and>
        sum_list (map sr_calls (bd_by_run bd)) = bd_calls bd)"
  by (simp add: cost_breakdown_of_def Let_def sum_list_sort_key group_rows_sums subtotal_rows_sums)

section \<open>Guarded calls\<close>

text \<open>
  One metered call of a run: the check, the gateway's decision on it, and the ledger row of the
  call that goes out; and the capture of the baselines at the start of an attempt.
\<close>

record metered_call =
  mc_now :: real
  mc_model :: string
  mc_provider :: string
  mc_input :: int
  mc_output :: int
  mc_cached :: int
  mc_stored :: bool

definition guarded_call ::
  "gateway_cfg \<Rightarrow> (string \<times> model_spec) list \<Rightarrow> budget_settings \<Rightarrow> (budget_state \<Rightarrow> string) \<Rightarrow> string \<Rightarrow> metered_call
    \<Rightarrow> tracker \<Rightarrow> tracker" where
  "guarded_call cfg registry bs msg run c tk =
     (let st = check_budget bs (mc_now c) (Some run) tk
      in case budget_gate cfg (Some (within_budget st, msg st)) (mc_model c) of
           Inl _ \<Rightarrow> tk
         | Inr model \<Rightarrow>
             snd (record_usage registry (mc_stored c) (mc_now c) model (mc_provider c) (mc_input c) (mc_output c)
                    (mc_cached c) (Some run) tk))"

definition start_attempt :: "string \<Rightarrow> tracker \<Rightarrow> tracker" where
  "start_attempt run tk =
     set_run_cost_baseline (get_run_spend run tk) (set_run_baseline (get_run_token_usage run tk) tk)"

definition call_tokens :: "metered_call \<Rightarrow> int" where
  "call_tokens c = mc_input c + mc_output c"

lemma record_usage_run [simp]:
  "get_run_token_usage run (snd (record_usage registry ok now m p i out c (Some run) tk)) =
     get_run_token_usage run tk + (if ok then i + out else 0)"
  "tk_base_tokens (snd (record_usage registry ok now m p i out c r tk)) = tk_base_tokens tk"
  by (simp_all add: record_usage_def Let_def get_run_token_usage_def run_entries_def)

lemma start_attempt_simps [simp]:
  "get_run_token_usage r (start_attempt run tk) = get_run_token_usage r tk"
  "get_run_spend r (start_attempt run tk) = get_run_spend r tk"
  "tk_base_tokens (start_attempt run tk) = max 0 (get_run_token_usage run tk)"
  "tk_base_cost (start_attempt run tk) = max 0 (get_run_spend run tk)"
  by (simp_all add: start_attempt_def set_run_baseline_def set_run_cost_baseline_def get_run_token_usage_def
      get_run_spend_def run_entries_def)

lemma guarded_call_cases:
  assumes "gc_budget_hard_stop cfg" "0 \<le> call_tokens c" "call_tokens c \<le> M"
  shows "get_run_token_usage run (guarded_call cfg registry bs msg run c tk) = get_run_token_usage run tk \<or>
    within_budget (check_budget bs (mc_now c) (Some run) tk) \<and>
    get_run_token_usage run tk \<le> get_run_token_usage run (guarded_call cfg registry bs msg run c tk) \<and>
    get_run_token_usage run (guarded_call cfg registry bs msg run c tk) \<le> get_run_token_usage run tk + M"
    and "tk_base_tokens (guarded_call cfg registry bs msg run c tk) = tk_base_tokens tk"
  using assms
  by (auto simp: guarded_call_def budget_gate_def Let_def call_tokens_def split: sum.split if_splits)

lemma within_limits:
  assumes "within_budget (check_budget bs now (Some run) tk)"
  shows "0 < bs_token_limit bs \<Longrightarrow> get_run_token_usage run tk - tk_base_tokens tk < bs_token_limit bs"
    and "0 < bs_token_absolute bs \<Longrightarrow> get_run_token_usage run tk < bs_token_absolute bs"
  using assms by (auto simp: check_budget_def Let_def split: if_splits)

text \<open>
  Fact (bounds): an attempt cannot outspend its token cap by more than one call.  With the hard stop
  on, whatever the earlier attempts spent and however many calls the attempt asks for, the tokens
  it adds stay below the cap plus the largest call.
\<close>

theorem attempt_tokens_bounded:
  assumes "gc_budget_hard_stop cfg" "0 < bs_token_limit bs" "0 \<le> get_run_token_usage run tk"
    and "\<forall>c \<in> set cs. 0 \<le> call_tokens c \<and> call_tokens c \<le> M" "0 \<le> M"
  shows "get_run_token_usage run (fold (guarded_call cfg registry bs msg run) cs (start_attempt run tk)) -
    get_run_token_usage run tk < bs_token_limit bs + M"
proof -
  let ?u = "get_run_token_usage run tk"
  have "get_run_token_usage run (fold (guarded_call cfg registry bs msg run) cs t) - ?u < bs_token_limit bs + M"
    if "tk_base_tokens t = ?u" "get_run_token_usage run t - ?u < bs_token_limit bs + M" for t
    using assms(4) that
  proof (induction cs arbitrary: t)
    case (Cons c cs)
    let ?t = "guarded_call cfg registry bs msg run c t"
    have c: "0 \<le> call_tokens c" "call_tokens c \<le> M" using Cons.prems(1) by simp_all
    note step = guarded_call_cases [OF assms(1) c, where run = run and registry = registry and bs = bs and msg = msg and tk = t]
    have "get_run_token_usage run ?t - ?u < bs_token_limit bs + M"
      using step(1) within_limits(1) [OF _ assms(2), of "mc_now c" run t] Cons.prems(2,3) by linarith
    with Cons.IH [of ?t] Cons.prems step(2) show ?case by simp
  qed simp
  from this [of "start_attempt run tk"] assms(2,3,5) show ?thesis by simp
qed

datatype run_event = Attempt_starts | Model_call metered_call

primrec run_event_step ::
  "gateway_cfg \<Rightarrow> (string \<times> model_spec) list \<Rightarrow> budget_settings \<Rightarrow> (budget_state \<Rightarrow> string) \<Rightarrow> string \<Rightarrow> run_event
    \<Rightarrow> tracker \<Rightarrow> tracker" where
  "run_event_step cfg registry bs msg run Attempt_starts tk = start_attempt run tk"
| "run_event_step cfg registry bs msg run (Model_call c) tk = guarded_call cfg registry bs msg run c tk"


text \<open>
  Fact (functional): a resumed run starts with a fresh attempt budget.  Right after the baselines
  are captured neither attempt cap can refuse, whatever the run spent before.
\<close>

theorem resumed_run_not_charged:
  "check_budget bs now (Some run) (start_attempt run tk) \<noteq> Run_tokens_reached n \<and>
   check_budget bs now (Some run) (start_attempt run tk) \<noteq> Run_cost_reached c"
  by (auto simp: check_budget_def Let_def)

text \<open>
  Fact (safety): nothing is downgraded before the budget is gone.  In the critical and the warning
  band the gateway serves the requested model.
\<close>

theorem critical_band_keeps_model:
  assumes "check_budget bs now run tk = Budget_critical d \<or> check_budget bs now run tk = Budget_warning d"
  shows "budget_gate cfg (Some (within_budget (check_budget bs now run tk), msg)) model = Inr model"
  using assms by (auto simp: budget_gate_def)

section \<open>Witnesses\<close>

definition strict_cfg :: gateway_cfg where
  "strict_cfg = demo_cfg\<lparr>gc_budget_hard_stop := True\<rparr>"

definition small_budget :: budget_settings where
  "small_budget = \<lparr>bs_max_cost = 10, bs_token_limit = 100, bs_run_cost = 0, bs_run_cost_absolute = 0,
     bs_token_absolute = 300, bs_warn = 7 / 10, bs_critical = 9 / 10\<rparr>"

definition small_call :: metered_call where
  "small_call = \<lparr>mc_now = 0, mc_model = ''gpt-4o-mini'', mc_provider = ''openai'', mc_input = 30, mc_output = 10,
     mc_cached = 0, mc_stored = True\<rparr>"

definition fresh_tracker :: tracker where
  "fresh_tracker = \<lparr>tk_ledger = [], tk_base_tokens = 0, tk_base_cost = 0\<rparr>"

lemma fresh_usage [simp]: "get_run_token_usage r fresh_tracker = 0"
  by (simp add: get_run_token_usage_def run_entries_def fresh_tracker_def)

theorem attempt_tokens_bounded_witness:
  "get_run_token_usage ''q05'' (fold (guarded_call strict_cfg [] small_budget (\<lambda>_. []) ''q05'') (replicate 9 small_call)
     (start_attempt ''q05'' fresh_tracker)) < 140"
proof -
  have "\<forall>c \<in> set (replicate 9 small_call). 0 \<le> call_tokens c \<and> call_tokens c \<le> 40"
    by (simp add: call_tokens_def small_call_def)
  from attempt_tokens_bounded [OF _ _ _ this, of strict_cfg small_budget "''q05''" fresh_tracker "[]" "\<lambda>_. []"]
  show ?thesis by (simp add: strict_cfg_def small_budget_def)
qed


theorem critical_band_keeps_model_witness:
  "budget_gate demo_cfg (Some (True, ''WARNING'')) ''glm-5.2'' = Inr ''glm-5.2''"
proof -
  let ?tk = "fresh_tracker\<lparr>tk_ledger := [\<lparr>le_run = None, le_provider = [], le_model = [], le_input = 0, le_output = 0,
    le_total = 0, le_cached = 0, le_cost = 19 / 2, le_created = 0\<rparr>]\<rparr>"
  have st: "check_budget small_budget 0 None ?tk = Budget_critical (19 / 2)"
    by (simp add: check_budget_def small_budget_def get_daily_spend_def day_of_def Let_def)
  from critical_band_keeps_model [OF disjI1 [OF this], of demo_cfg "''WARNING''" "''glm-5.2''"] show ?thesis
    by (simp add: st)
qed

end
