(* ===== verification/Tool_Registry.thy ===== *)
theory Tool_Registry
  imports Graph_State Tool_Catalog "HOL-Library.AList"
begin

text \<open>
  The tools of a run: the in-memory registry of \<open>src/src/tools/registry.py\<close>, the success
  contracts of \<open>src/src/tools/success.py\<close>, the metrics of \<open>src/src/tools/metrics.py\<close>, the
  isolation of generated tools in \<open>src/src/tools/dynamic/sandbox_dispatch.py\<close> and the single
  chokepoint through which the execute node runs a tool, \<open>_execute_tool_call\<close> of
  \<open>src/src/graph/nodes/execute.py\<close>.

  The registry is a dictionary in insertion order.  A handler is a value of the type variable
  \<open>'h\<close>; what it answers, what the sandbox, the cache and the human answer, regular expressions and
  the parser of the handler source are arguments.  A tool call returns its result with the list of
  the effects it had on the world, in order.
\<close>

section \<open>Success contracts\<close>

record success_contract =
  sc_mode :: "string option"
  sc_exclude_prefixes :: "string list"
  sc_regex :: "string option"

definition no_contract :: success_contract where
  "no_contract = \<lparr>sc_mode = None, sc_exclude_prefixes = [], sc_regex = None\<rparr>"

text \<open>\<open>search p t\<close> is \<open>re.search\<close>; it answers nothing for a malformed pattern.\<close>

definition evaluate_success ::
  "(string \<Rightarrow> string \<Rightarrow> bool option) \<Rightarrow> success_contract option \<Rightarrow> string \<Rightarrow> bool" where
  "evaluate_success search contract out =
     (case contract of
        None \<Rightarrow> True
      | Some c \<Rightarrow>
          let t = py_strip out
          in if sc_mode c = Some ''nonempty'' \<and> t = [] then False
             else if list_ex (\<lambda>p. p \<noteq> [] \<and> prefix p t) (sc_exclude_prefixes c) then False
             else case sc_regex c of
               None \<Rightarrow> True
             | Some p \<Rightarrow> if p = [] then True else (case search p t of None \<Rightarrow> True | Some b \<Rightarrow> b))"

section \<open>The registry\<close>

record 'h tool_entry =
  en_name :: string
  en_handler :: 'h
  en_description :: string
  en_parameters :: "(string \<times> json) list"
  en_cacheable :: bool
  en_generated :: bool
  en_handler_code :: "string option"
  en_tags :: "string list"
  en_mcp_hints :: "(string \<times> bool) list"
  en_contract :: "success_contract option"

type_synonym 'h tool_registry = "(string \<times> 'h tool_entry) list"

text \<open>The entry with every optional argument of \<open>register\<close> left out.\<close>

definition plain_tool :: "string \<Rightarrow> 'h \<Rightarrow> string \<Rightarrow> (string \<times> json) list \<Rightarrow> 'h tool_entry" where
  "plain_tool name h desc params =
     \<lparr>en_name = name, en_handler = h, en_description = desc, en_parameters = params, en_cacheable = False,
      en_generated = False, en_handler_code = None, en_tags = [], en_mcp_hints = [], en_contract = None\<rparr>"

definition stored_entry :: "'h tool_entry \<Rightarrow> 'h tool_entry" where
  "stored_entry e =
     e\<lparr>en_handler_code := (if en_generated e then en_handler_code e else None),
       en_contract := (if en_contract e = Some no_contract then None else en_contract e)\<rparr>"

definition register_tool :: "'h tool_entry \<Rightarrow> 'h tool_registry \<Rightarrow> 'h tool_registry" where
  "register_tool e reg = AList.update (en_name e) (stored_entry e) reg"

definition decorate_tool ::
  "string \<Rightarrow> string \<Rightarrow> (string \<times> json) list \<Rightarrow> bool \<Rightarrow> string \<Rightarrow> string \<Rightarrow> 'h \<Rightarrow> 'h tool_registry \<Rightarrow> 'h tool_registry" where
  "decorate_tool name desc params cacheable fname doc h reg =
     register_tool
       ((plain_tool (if name = [] then fname else name) h (if desc = [] then doc else desc) params)
          \<lparr>en_cacheable := cacheable\<rparr>) reg"

definition get_tool :: "'h tool_registry \<Rightarrow> string \<Rightarrow> 'h tool_entry option" where
  "get_tool reg name = map_of reg name"

definition is_cacheable :: "'h tool_registry \<Rightarrow> string \<Rightarrow> bool" where
  "is_cacheable reg name = (case get_tool reg name of None \<Rightarrow> False | Some e \<Rightarrow> en_cacheable e)"

definition get_success_contract :: "'h tool_registry \<Rightarrow> string \<Rightarrow> success_contract option" where
  "get_success_contract reg name = (case get_tool reg name of None \<Rightarrow> None | Some e \<Rightarrow> en_contract e)"

definition get_handler :: "'h tool_registry \<Rightarrow> string \<Rightarrow> 'h option" where
  "get_handler reg name = map_option en_handler (get_tool reg name)"

definition is_generated :: "'h tool_registry \<Rightarrow> string \<Rightarrow> bool" where
  "is_generated reg name = (case get_tool reg name of None \<Rightarrow> False | Some e \<Rightarrow> en_generated e)"

definition get_handler_code :: "'h tool_registry \<Rightarrow> string \<Rightarrow> string option" where
  "get_handler_code reg name =
     (case get_tool reg name of None \<Rightarrow> None | Some e \<Rightarrow> if en_generated e then en_handler_code e else None)"

definition get_tags :: "'h tool_registry \<Rightarrow> string \<Rightarrow> string list" where
  "get_tags reg name = (case get_tool reg name of None \<Rightarrow> [] | Some e \<Rightarrow> en_tags e)"

definition get_mcp_hints :: "'h tool_registry \<Rightarrow> string \<Rightarrow> (string \<times> bool) list" where
  "get_mcp_hints reg name = (case get_tool reg name of None \<Rightarrow> [] | Some e \<Rightarrow> en_mcp_hints e)"

definition is_destructive :: "'h tool_registry \<Rightarrow> string \<Rightarrow> bool" where
  "is_destructive reg name = (map_of (get_mcp_hints reg name) ''destructiveHint'' = Some True)"

text \<open>The descriptors for the model: name, description and parameters.\<close>

definition list_tools :: "string list option \<Rightarrow> 'h tool_registry \<Rightarrow> (string \<times> string \<times> (string \<times> json) list) list" where
  "list_tools names reg =
     map (\<lambda>(_, e). (en_name e, en_description e, en_parameters e))
       (filter (\<lambda>(_, e). case names of None \<Rightarrow> True | Some ns \<Rightarrow> en_name e \<in> set ns) reg)"

definition unregister_tool :: "string \<Rightarrow> 'h tool_registry \<Rightarrow> bool \<times> 'h tool_registry" where
  "unregister_tool name reg =
     (if get_tool reg name = None then (False, reg) else (True, AList.delete name reg))"

definition generated_count :: "'h tool_registry \<Rightarrow> nat" where
  "generated_count reg = length (filter (\<lambda>(_, e). en_generated e) reg)"

section \<open>Metrics\<close>

definition roll_rate :: "real \<Rightarrow> int \<Rightarrow> real \<Rightarrow> real" where
  "roll_rate prev_rate prev_count sample = (prev_rate * of_int prev_count + sample) / of_int (prev_count + 1)"

record metric_row =
  mr_tool :: string
  mr_success :: bool
  mr_empty :: bool

definition count_call :: "bool \<Rightarrow> bool \<Rightarrow> registration \<Rightarrow> registration" where
  "count_call success empty_out r =
     r\<lparr>tr_calls := tr_calls r + 1,
       tr_success_rate := roll_rate (tr_success_rate r) (tr_calls r) (if success then 1 else 0),
       tr_empty_output_rate := roll_rate (tr_empty_output_rate r) (tr_calls r) (if empty_out then 1 else 0)\<rparr>"

definition record_metric ::
  "bool \<Rightarrow> bool \<Rightarrow> string \<Rightarrow> bool \<Rightarrow> bool \<Rightarrow> catalog \<times> metric_row list \<Rightarrow> catalog \<times> metric_row list" where
  "record_metric enabled ok name success empty_out st =
     (if \<not> enabled \<or> \<not> ok then st
      else (update_tools (\<lambda>r. tr_name r = name) (count_call success empty_out) (fst st),
            snd st @ [\<lparr>mr_tool = name, mr_success = success, mr_empty = empty_out\<rparr>]))"

definition record_result :: "bool \<Rightarrow> bool \<Rightarrow> string \<Rightarrow> tool_result \<Rightarrow> catalog \<times> metric_row list \<Rightarrow> catalog \<times> metric_row list" where
  "record_result enabled ok name r =
     record_metric enabled ok name (tr_success r) (tr_success r \<and> py_strip (tr_output r) = [])"

section \<open>Isolating generated tools\<close>

record isolation_settings =
  is_mode :: string
  is_default_to_sandbox :: bool
  is_auto_promote :: bool
  is_worker_process :: bool

definition sandboxed_modes :: "string set" where
  "sandboxed_modes = {''docker'', ''runner''}"

definition is_isolated_runtime :: "isolation_settings \<Rightarrow> bool" where
  "is_isolated_runtime ist =
     (if is_mode ist \<noteq> ''subprocess'' then True
      else is_default_to_sandbox ist \<and> is_auto_promote ist \<and> is_worker_process ist)"

definition effective_isolation_mode :: "isolation_settings \<Rightarrow> string" where
  "effective_isolation_mode ist = (if is_mode ist \<in> sandboxed_modes then is_mode ist else ''runner'')"

record sandbox_result =
  sb_success :: bool
  sb_timed_out :: bool
  sb_stdout :: string
  sb_stderr :: string
  sb_exit_code :: int
  sb_duration :: string

text \<open>
  \<open>payload\<close> finds the object between the sentinels of a stdout and reads its \<open>output\<close>; it answers
  nothing without the sentinels or for an object that is not JSON.
\<close>

definition extract_output :: "(string \<Rightarrow> string option) \<Rightarrow> sandbox_result \<Rightarrow> bool \<times> string \<times> string option" where
  "extract_output payload r =
     (if sb_timed_out r then (False, [], Some (''Execution timed out after '' @ sb_duration r @ ''s''))
      else if \<not> sb_success r then
        let err = (if py_strip (sb_stderr r) \<noteq> [] then py_strip (sb_stderr r)
                   else ''exit code '' @ py_str (sb_exit_code r))
        in (False, [], Some (''generated tool raised: '' @ take 1500 err))
      else case payload (sb_stdout r) of
        Some out \<Rightarrow> (True, take 2000 out, None)
      | None \<Rightarrow> (True, take 2000 (py_strip (sb_stdout r)), None))"

definition tool_outcome :: "string \<Rightarrow> bool \<Rightarrow> string \<Rightarrow> string option \<Rightarrow> (string \<times> json) list \<Rightarrow> tool_result" where
  "tool_outcome name success out err meta =
     \<lparr>tr_tool_name = name, tr_success = success, tr_output = out, tr_error = err, tr_tokens_used = 0,
      tr_duration_ms = 0, tr_metadata = meta\<rparr>"

definition quoted :: "string \<Rightarrow> string" where
  "quoted s = [CHR 0x27] @ s @ [CHR 0x27]"

datatype sandbox_answer = Sandbox_unavailable string | Sandbox_ran sandbox_result

text \<open>What a tool call does to the world.\<close>

datatype 'h tool_effect =
    Ran_in_process 'h json
  | Ran_in_sandbox (rs_mode: string) (rs_code: string) json
  | Cached_result (cr_tool: string) json tool_result
  | Recorded_metric (rm_tool: string) (rm_success: bool) (rm_empty: bool)

text \<open>
  The world a call meets: \<open>te_interrupt\<close> is the answer of the human gate, nothing when there is no
  graph to pause.
\<close>

record 'h tool_env =
  te_hitl :: bool
  te_contracts :: bool
  te_isolation :: isolation_settings
  te_interrupt :: "json option"
  te_cache :: "(string \<Rightarrow> json \<Rightarrow> (string \<times> json) list option) option"
  te_handler :: "'h \<Rightarrow> json \<Rightarrow> string + string"
  te_sandbox :: "string \<Rightarrow> string \<Rightarrow> json \<Rightarrow> sandbox_answer"
  te_async_name :: "string \<Rightarrow> string option"
  te_payload :: "string \<Rightarrow> string option"
  te_search :: "string \<Rightarrow> string \<Rightarrow> bool option"
  te_str :: "json \<Rightarrow> string"

definition invoke_generated_tool ::
  "'h tool_env \<Rightarrow> 'h tool_registry \<Rightarrow> string \<Rightarrow> json \<Rightarrow> (tool_result \<times> 'h tool_effect list) option" where
  "invoke_generated_tool env reg name args =
     (if \<not> is_isolated_runtime (te_isolation env) then None
      else if \<not> is_generated reg name then None
      else case get_handler_code reg name of
        None \<Rightarrow> Some (tool_outcome name False [] (Some (''generated tool '' @ quoted name @
          '' could not be isolated (source unavailable); refusing to run in-process'')) [], [])
      | Some code \<Rightarrow>
          if code = [] then Some (tool_outcome name False [] (Some (''generated tool '' @ quoted name @
            '' could not be isolated (source unavailable); refusing to run in-process'')) [], [])
          else case te_async_name env code of
            None \<Rightarrow> Some (tool_outcome name False [] (Some (''generated tool '' @ quoted name @
              '' handler has no async function'')) [], [])
          | Some f \<Rightarrow>
              let mode = effective_isolation_mode (te_isolation env)
              in case te_sandbox env mode code args of
                Sandbox_unavailable why \<Rightarrow>
                  Some (tool_outcome name False [] (Some (''generated tool '' @ quoted name @
                    '' sandbox unavailable ('' @ why @
                    ''); isolation opted-in, refusing in-process fallback'')) [], [])
              | Sandbox_ran r \<Rightarrow>
                  (case extract_output (te_payload env) r of
                     (success, out, err) \<Rightarrow>
                       Some (tool_outcome name success out err
                               [(''isolated'', JBool True), (''mode'', JStr mode)],
                             [Ran_in_sandbox mode code args])))"

section \<open>Running a tool call\<close>

text \<open>A call: the arguments are nothing when their text is not JSON.\<close>

record call_request =
  rq_tool :: string
  rq_args :: "json option"
  rq_parse_error :: string

definition upper_char :: "char \<Rightarrow> char" where
  "upper_char c = (let n = of_char c :: nat in if 97 \<le> n \<and> n \<le> 122 then char_of (n - 32) else c)"

definition http_cacheable_methods :: "string set" where
  "http_cacheable_methods = {''GET'', ''HEAD''}"

text \<open>\<open>None\<close>: \<open>args\<close> has no \<open>get\<close>, the attribute error leaves the function.\<close>

definition call_is_cacheable :: "(json \<Rightarrow> string) \<Rightarrow> string \<Rightarrow> json \<Rightarrow> bool option" where
  "call_is_cacheable py_text name args =
     (if name \<noteq> ''http_request'' then Some True
      else case args of
        JObj kvs \<Rightarrow>
          (let m = obj_get kvs ''method'' (JStr ''GET'');
               verb = (if \<not> truthy m then ''GET'' else case m of JStr s \<Rightarrow> s | _ \<Rightarrow> py_text m)
           in Some (map upper_char (py_strip verb) \<in> http_cacheable_methods))
      | _ \<Rightarrow> None)"

definition may_use_cache :: "'h tool_env \<Rightarrow> 'h tool_registry \<Rightarrow> string \<Rightarrow> json \<Rightarrow> bool option" where
  "may_use_cache env reg name args =
     (if te_cache env = None \<or> \<not> is_cacheable reg name then Some False
      else call_is_cacheable (te_str env) name args)"

definition should_gate_destructive :: "string \<Rightarrow> 'h tool_registry \<Rightarrow> bool" where
  "should_gate_destructive name reg = is_destructive reg name"

definition human_approved :: "json option \<Rightarrow> bool" where
  "human_approved decision =
     (case decision of
        None \<Rightarrow> False
      | Some (JObj kvs) \<Rightarrow> truthy (obj_get kvs ''approved'' (JBool False))
      | Some v \<Rightarrow> truthy v)"

definition cached_outcome :: "'h tool_env \<Rightarrow> string \<Rightarrow> (string \<times> json) list \<Rightarrow> tool_result" where
  "cached_outcome env name entry =
     tool_outcome name (truthy (obj_get entry ''success'' (JBool True)))
       (case obj_get entry ''output'' (JStr []) of JStr s \<Rightarrow> s | v \<Rightarrow> te_str env v)
       (case obj_get entry ''error'' JNull of JStr s \<Rightarrow> Some s | _ \<Rightarrow> None)
       [(''cached'', JBool True)]"

definition evaluate_tool_success :: "'h tool_env \<Rightarrow> 'h tool_registry \<Rightarrow> string \<Rightarrow> string \<Rightarrow> bool" where
  "evaluate_tool_success env reg name out =
     (if \<not> te_contracts env then True
      else evaluate_success (te_search env) (get_success_contract reg name) out)"

text \<open>The handler's own run, its metric and what is put into the cache.\<close>

definition run_in_process ::
  "'h tool_env \<Rightarrow> 'h tool_registry \<Rightarrow> string \<Rightarrow> 'h \<Rightarrow> json \<Rightarrow> tool_result \<times> 'h tool_effect list" where
  "run_in_process env reg name h args =
     (case te_handler env h args of
        Inl exn \<Rightarrow>
          (tool_outcome name False [] (Some (take 500 exn)) [],
           [Ran_in_process h args, Recorded_metric name False False])
      | Inr out \<Rightarrow>
          (let real = evaluate_tool_success env reg name out;
               r = tool_outcome name True (take 2000 out) None [];
               metric = Recorded_metric name real (py_strip out = [])
           in (r, Ran_in_process h args # metric #
                 (if may_use_cache env reg name args = Some True \<and> real
                  then [Cached_result name args r] else []))))"

text \<open>\<open>None\<close>: an exception leaves the function; everything else is a result and its effects.\<close>

definition execute_tool_call ::
  "'h tool_env \<Rightarrow> 'h tool_registry \<Rightarrow> call_request \<Rightarrow> (tool_result \<times> 'h tool_effect list) option" where
  "execute_tool_call env reg rq =
     (let name = rq_tool rq
      in case get_handler reg name of
        None \<Rightarrow> Some (tool_outcome name False [] (Some (''Unknown tool: '' @ name)) [], [])
      | Some h \<Rightarrow>
          (case rq_args rq of
             None \<Rightarrow> Some (tool_outcome name False []
               (Some (''Invalid arguments for '' @ name @ '': '' @ rq_parse_error rq)) [], [])
           | Some args \<Rightarrow>
               if te_hitl env \<and> should_gate_destructive name reg \<and> \<not> human_approved (te_interrupt env)
               then Some (tool_outcome name False [] (Some (''Destructive tool '' @ quoted name @
                      '' blocked by HITL gate (not approved).'')) [], [])
               else case may_use_cache env reg name args of
                 None \<Rightarrow> None
               | Some use \<Rightarrow>
                   (case (if use then (case te_cache env of None \<Rightarrow> None | Some look \<Rightarrow> look name args) else None) of
                      Some entry \<Rightarrow> Some (cached_outcome env name entry, [])
                    | None \<Rightarrow>
                        (case invoke_generated_tool env reg name args of
                           Some (r, fx) \<Rightarrow>
                             Some (r, fx @ [Recorded_metric name (tr_success r) (py_strip (tr_output r) = [])])
                         | None \<Rightarrow> Some (run_in_process env reg name h args)))))"

text \<open>All calls of a turn; an exception of one is an exception of the turn.\<close>

definition execute_tool_calls ::
  "'h tool_env \<Rightarrow> 'h tool_registry \<Rightarrow> call_request list \<Rightarrow> (tool_result \<times> 'h tool_effect list) list option" where
  "execute_tool_calls env reg rqs =
     (let rs = map (execute_tool_call env reg) rqs
      in if list_all (\<lambda>r. r \<noteq> None) rs then Some (map the rs) else None)"

text \<open>The metrics of a call reach the recorder in order.\<close>

fun record_effect :: "bool \<Rightarrow> bool \<Rightarrow> 'h tool_effect \<Rightarrow> catalog \<times> metric_row list \<Rightarrow> catalog \<times> metric_row list" where
  "record_effect enabled ok (Recorded_metric name success empty_out) st =
     record_metric enabled ok name success empty_out st"
| "record_effect enabled ok _ st = st"

section \<open>The registry as a dictionary\<close>

lemma stored_entry_simps [simp]:
  "en_name (stored_entry e) = en_name e" "en_handler (stored_entry e) = en_handler e"
  "en_generated (stored_entry e) = en_generated e" "en_cacheable (stored_entry e) = en_cacheable e"
  "en_mcp_hints (stored_entry e) = en_mcp_hints e" "en_tags (stored_entry e) = en_tags e"
  "en_handler_code (stored_entry e) = (if en_generated e then en_handler_code e else None)"
  "en_description (stored_entry e) = en_description e" "en_parameters (stored_entry e) = en_parameters e"
  by (simp_all add: stored_entry_def)

lemma get_register_tool [simp]:
  "get_tool (register_tool e reg) name = (if name = en_name e then Some (stored_entry e) else get_tool reg name)"
  by (simp add: get_tool_def register_tool_def AList.update_conv')

lemma get_unregister_tool [simp]:
  "get_tool (snd (unregister_tool name reg)) n = (if n = name then None else get_tool reg n)"
  by (auto simp: get_tool_def unregister_tool_def AList.delete_conv')

text \<open>Every operation keeps the keys distinct and equal to the names of their entries.\<close>

definition registry_ok :: "'h tool_registry \<Rightarrow> bool" where
  "registry_ok reg = (distinct (map fst reg) \<and> list_all (\<lambda>(n, e). n = en_name e) reg)"

lemma registry_ok_empty [simp]: "registry_ok []"
  by (simp add: registry_ok_def)

lemma named_update: "list_all (\<lambda>(n, e). n = en_name e) reg \<Longrightarrow>
    list_all (\<lambda>(n, e). n = en_name e) (AList.update (en_name v) v reg)"
  by (induction reg) auto

lemma registry_ok_register [simp]: "registry_ok reg \<Longrightarrow> registry_ok (register_tool e reg)"
  using named_update [of reg "stored_entry e"]
  by (simp add: registry_ok_def register_tool_def AList.distinct_update)

lemma registry_ok_unregister [simp]: "registry_ok reg \<Longrightarrow> registry_ok (snd (unregister_tool name reg))"
  by (simp add: registry_ok_def unregister_tool_def AList.distinct_delete)
     (auto simp: list_all_iff AList.delete_eq)

section \<open>What a call may do\<close>

lemma invoke_generated_tool_effects:
  assumes "invoke_generated_tool env reg name args = Some (r, fx)"
  shows "fx = [] \<or> (\<exists>code. fx = [Ran_in_sandbox (effective_isolation_mode (te_isolation env)) code args] \<and>
    get_handler_code reg name = Some code)"
  using assms
  by (auto simp: invoke_generated_tool_def Let_def split: if_splits option.splits sandbox_answer.splits prod.splits)

lemma invoke_generated_tool_None:
  "invoke_generated_tool env reg name args = None \<longleftrightarrow>
     \<not> is_isolated_runtime (te_isolation env) \<or> \<not> is_generated reg name"
  by (auto simp: invoke_generated_tool_def Let_def split: option.splits sandbox_answer.splits prod.splits)

lemma run_in_process_effects:
  "f \<in> set (snd (run_in_process env reg name h args)) \<Longrightarrow>
     (case f of Ran_in_process h' args' \<Rightarrow> h' = h \<and> args' = args | Ran_in_sandbox _ _ _ \<Rightarrow> False | _ \<Rightarrow> True)"
  by (auto simp: run_in_process_def Let_def split: sum.splits if_splits)

text \<open>Whether an effect runs code of the tool.\<close>

fun runs_code :: "'h tool_effect \<Rightarrow> bool" where
  "runs_code (Ran_in_process _ _) = True"
| "runs_code (Ran_in_sandbox _ _ _) = True"
| "runs_code _ = False"

text \<open>
  C6 (safety): no destructive tool runs unapproved and no generated one in the worker.  With the
  human gate on, a tool flagged destructive runs, in the process or in the sandbox, only after the
  human approved; in an isolated runtime the handler of a generated tool is never called in the
  process, also when the sandbox is down, the source is lost or the handler raised; and nothing
  but the registered handler is ever called.
\<close>

theorem tool_call_gated:
  assumes "execute_tool_call env reg rq = Some (r, fx)"
  shows "list_all (\<lambda>f. \<not> runs_code f \<or>
      \<not> (te_hitl env \<and> is_destructive reg (rq_tool rq)) \<or> human_approved (te_interrupt env)) fx \<and>
    list_all (\<lambda>f. case f of
        Ran_in_process h args \<Rightarrow> get_handler reg (rq_tool rq) = Some h \<and> rq_args rq = Some args \<and>
          \<not> (is_isolated_runtime (te_isolation env) \<and> is_generated reg (rq_tool rq))
      | Ran_in_sandbox mode code args \<Rightarrow> get_handler_code reg (rq_tool rq) = Some code \<and>
          is_generated reg (rq_tool rq)
      | _ \<Rightarrow> True) fx"
proof -
  let ?n = "rq_tool rq"
  show ?thesis
  proof (cases "get_handler reg ?n")
    case None
    with assms show ?thesis by (auto simp: execute_tool_call_def Let_def)
  next
    case h: (Some h)
    show ?thesis
    proof (cases "rq_args rq")
      case None
      with assms h show ?thesis by (auto simp: execute_tool_call_def Let_def)
    next
      case args: (Some args)
      show ?thesis
      proof (cases "te_hitl env \<and> is_destructive reg ?n \<and> \<not> human_approved (te_interrupt env)")
        case True
        with assms h args show ?thesis by (auto simp: execute_tool_call_def Let_def should_gate_destructive_def)
      next
        case gate: False
        with assms h args consider
            "fx = []"
          | fx' where "invoke_generated_tool env reg ?n args = Some (r, fx')"
              "fx = fx' @ [Recorded_metric ?n (tr_success r) (py_strip (tr_output r) = [])]"
          | "invoke_generated_tool env reg ?n args = None" "(r, fx) = run_in_process env reg ?n h args"
          by (auto simp: execute_tool_call_def Let_def should_gate_destructive_def split: option.splits if_splits)
        then show ?thesis
        proof cases
          case 1
          then show ?thesis by simp
        next
          case 2
          from invoke_generated_tool_effects [OF 2(1)] invoke_generated_tool_None [of env reg ?n args] 2 gate
          show ?thesis by auto
        next
          case 3
          then have fx: "fx = snd (run_in_process env reg ?n h args)" by (metis snd_conv)
          have "(\<not> runs_code f \<or> \<not> (te_hitl env \<and> is_destructive reg ?n) \<or> human_approved (te_interrupt env)) \<and>
              (case f of Ran_in_process h args \<Rightarrow> get_handler reg ?n = Some h \<and> rq_args rq = Some args \<and>
                  \<not> (is_isolated_runtime (te_isolation env) \<and> is_generated reg ?n)
                | Ran_in_sandbox mode code args \<Rightarrow> get_handler_code reg ?n = Some code \<and> is_generated reg ?n
                | _ \<Rightarrow> True)" if "f \<in> set fx" for f
            using run_in_process_effects [of f env reg ?n h args] that gate 3(1) h args
            unfolding fx invoke_generated_tool_None by (cases f) auto
          then show ?thesis by (simp add: list_all_iff)
        qed
      qed
    qed
  qed
qed

text \<open>
  Fact (safety): only real successes are cached.  What a call puts into the cache is the answer of
  a handler that returned, satisfied the contract of its tool, and belongs to a tool registered
  as cacheable; an HTTP request is cached only for a reading method.
\<close>

theorem only_successes_cached:
  assumes "execute_tool_call env reg rq = Some (r, fx)" "Cached_result n args c \<in> set fx"
  shows "n = rq_tool rq \<and> c = r \<and> tr_success r \<and> is_cacheable reg n \<and>
    call_is_cacheable (te_str env) n args = Some True \<and>
    (\<exists>h out. get_handler reg n = Some h \<and> te_handler env h args = Inr out \<and>
       evaluate_tool_success env reg n out)"
proof -
  have inv: "Cached_result n args c \<notin> set fx'" if "invoke_generated_tool env reg name a = Some (r', fx')" for name a r' fx'
    using invoke_generated_tool_effects [OF that] by auto
  from assms obtain h a where h: "get_handler reg (rq_tool rq) = Some h" "rq_args rq = Some a"
    and run: "(r, fx) = run_in_process env reg (rq_tool rq) h a"
    by (auto simp: execute_tool_call_def Let_def dest: inv split: option.splits if_splits)
  from run assms(2) h show ?thesis
    by (auto simp: run_in_process_def Let_def may_use_cache_def tool_outcome_def split: sum.splits if_splits)
qed

text \<open>
  Fact (error): arguments that are no object fail the whole turn.  With a cache, a call of the
  cacheable \<open>http_request\<close> whose arguments are JSON but not an object leaves
  \<open>_execute_tool_call\<close> with an exception instead of a failed result, so every other call of the
  turn is lost as well.
\<close>

theorem non_object_args_escape:
  assumes "rq \<in> set rqs" "rq_tool rq = ''http_request''" "rq_args rq = Some (JList xs)"
    and "te_cache env = Some look" "is_cacheable reg ''http_request''" "\<not> te_hitl env"
  shows "execute_tool_calls env reg rqs = None"
proof -
  have "get_handler reg ''http_request'' \<noteq> None"
    using assms(5) by (auto simp: is_cacheable_def get_handler_def split: option.splits)
  with assms have "execute_tool_call env reg rq = None"
    by (auto simp: execute_tool_call_def Let_def may_use_cache_def call_is_cacheable_def)
  with assms(1) show ?thesis by (auto simp: execute_tool_calls_def Let_def list_all_iff intro!: bexI [of _ rq])
qed

section \<open>Metrics are means\<close>

lemma count_call_name [simp]: "tr_name (count_call s e r) = tr_name r"
  by (simp add: count_call_def)

lemma count_calls:
  assumes "0 \<le> tr_calls r"
  shows "tr_name (fold (\<lambda>(s, e). count_call s e) os r) = tr_name r \<and>
    tr_calls (fold (\<lambda>(s, e). count_call s e) os r) = tr_calls r + int (length os) \<and>
    tr_success_rate (fold (\<lambda>(s, e). count_call s e) os r) * of_int (tr_calls r + int (length os)) =
      tr_success_rate r * of_int (tr_calls r) + of_nat (length (filter fst os)) \<and>
    tr_empty_output_rate (fold (\<lambda>(s, e). count_call s e) os r) * of_int (tr_calls r + int (length os)) =
      tr_empty_output_rate r * of_int (tr_calls r) + of_nat (length (filter snd os))"
  using assms
proof (induction os arbitrary: r)
  case (Cons p os)
  obtain s e where p: "p = (s, e)" by fastforce
  have pos: "real_of_int (tr_calls r + 1) \<noteq> 0" using Cons.prems by linarith
  have "tr_success_rate (count_call s e r) * of_int (tr_calls r + 1) =
      tr_success_rate r * of_int (tr_calls r) + (if s then 1 else 0)"
    "tr_empty_output_rate (count_call s e r) * of_int (tr_calls r + 1) =
      tr_empty_output_rate r * of_int (tr_calls r) + (if e then 1 else 0)"
    "tr_calls (count_call s e r) = tr_calls r + 1"
    using pos by (simp_all add: count_call_def roll_rate_def)
  with Cons.IH [of "count_call s e r"] Cons.prems show ?case by (auto simp: p algebra_simps)
qed simp

lemma record_metric_pair:
  "record_metric True True name s e (c, ms) =
     (update_tools (\<lambda>r. tr_name r = name) (count_call s e) c,
      ms @ [\<lparr>mr_tool = name, mr_success = s, mr_empty = e\<rparr>])"
  by (simp add: record_metric_def)

lemma record_metrics:
  "get_registration (fst (fold (\<lambda>(s, e). record_metric True True name s e) os (c, ms))) name =
     map_option (fold (\<lambda>(s, e). count_call s e) os) (get_registration c name)"
  "snd (fold (\<lambda>(s, e). record_metric True True name s e) os (c, ms)) =
     ms @ map (\<lambda>(s, e). \<lparr>mr_tool = name, mr_success = s, mr_empty = e\<rparr>) os"
proof (induction os arbitrary: c ms)
  case (Cons p os)
  { case 1 show ?case
      by (cases p) (simp add: Cons.IH record_metric_pair get_registration_update option.map_comp o_def) }
  { case 2 show ?case by (cases p) (simp add: Cons.IH record_metric_pair) }
qed (simp_all add: option.map_id)

text \<open>
  C15 (equivalence): the running rates are the batch rates.  However the calls of a tool are
  interleaved, after recording them one by one its stored success rate and empty-output rate are
  the means over the calls it had before and the new ones, the call count is exact, and the detail
  table holds one row per call in order.
\<close>

theorem metrics_are_batch_means:
  assumes "get_registration c name = Some r" "0 \<le> tr_calls r" "os \<noteq> []"
    and "fold (\<lambda>(s, e). record_metric True True name s e) os (c, ms) = (c', ms')"
  shows "\<exists>r'. get_registration c' name = Some r' \<and> tr_calls r' = tr_calls r + int (length os) \<and>
    tr_success_rate r' = (tr_success_rate r * of_int (tr_calls r) + of_nat (length (filter fst os))) /
      of_int (tr_calls r + int (length os)) \<and>
    tr_empty_output_rate r' = (tr_empty_output_rate r * of_int (tr_calls r) + of_nat (length (filter snd os))) /
      of_int (tr_calls r + int (length os)) \<and>
    ms' = ms @ map (\<lambda>(s, e). \<lparr>mr_tool = name, mr_success = s, mr_empty = e\<rparr>) os"
proof -
  have "0 < length os" using assms(3) by simp
  then have "0 < tr_calls r + int (length os)" using assms(2) by linarith
  then have "real_of_int (tr_calls r + int (length os)) \<noteq> 0" by linarith
  then show ?thesis
    using count_calls [OF assms(2), of os] record_metrics [of name os c ms] assms(1)
    unfolding assms(4) by (simp add: eq_divide_eq)
qed

lemma get_registration_update_set:
  assumes "\<And>r. tr_name (f r) = tr_name r" "n \<in> S"
  shows "get_registration (update_tools (\<lambda>r. tr_name r \<in> S) f c) n = map_option f (get_registration c n)"
proof -
  have "List.find (\<lambda>r. tr_name r = n) (map (\<lambda>r. if tr_name r \<in> S then f r else r) xs) =
      map_option f (List.find (\<lambda>r. tr_name r = n) xs)" for xs
    using assms by (induction xs) auto
  then show ?thesis by (simp add: get_registration_def update_tools_def)
qed

lemma retire_unprotected_name:
  assumes "name \<in> set names"
    and "name \<notin> tr_name ` {r \<in> set (ct_tools c). now - window \<le> tr_created r}"
  shows "get_registration (snd (retire True window now names c)) name =
    map_option (\<lambda>r. r\<lparr>tr_active := False\<rparr>) (get_registration c name)"
proof -
  let ?protected = "if 0 < window then map tr_name (filter (\<lambda>r. tr_name r \<in> set names \<and> now - window \<le> tr_created r) (ct_tools c)) else []"
  have n: "name \<in> set (filter (\<lambda>n. n \<notin> set ?protected) names)" using assms by auto
  then have "filter (\<lambda>n. n \<notin> set ?protected) names \<noteq> []" by (metis empty_iff empty_set)
  moreover have "names \<noteq> []" using assms(1) by auto
  ultimately have "snd (retire True window now names c) =
      update_tools (\<lambda>r. tr_name r \<in> set (filter (\<lambda>n. n \<notin> set ?protected) names)) (\<lambda>r. r\<lparr>tr_active := False\<rparr>) c"
    unfolding retire_def Let_def by (simp del: filter_empty_conv set_filter)
  then show ?thesis using n by (simp only:) (rule get_registration_update_set, simp_all)
qed

text \<open>
  Fact (functional): a regenerated tool inherits the failures of its predecessor.  \<open>persist\<close> stores
  new code under an old registration without resetting its counters or its date, so a tool that was
  below the success floor is retired by the next load although the new code never ran.
\<close>

theorem regenerated_tool_retired:
  assumes "catalog_ok c" "get_registration c name = Some r" "tr_type r = ''generated''"
    and "min_runs \<le> tr_calls r" "tr_success_rate r < bound" "tr_created r < now - window" "0 < window"
  shows "\<exists>r'. get_registration (snd (retire_underperforming True window now min_runs bound None
      (snd (persist True name desc code emb now c)))) name = Some r' \<and> \<not> tr_active r' \<and>
    (\<exists>v. live_version r' = Some v \<and> tv_code v = code \<and> tr_calls r' = tr_calls r)"
proof -
  let ?c = "snd (persist True name desc code emb now c)"
  let ?f = "\<lambda>r. (keep_embedding emb r)\<lparr>tr_active := True,
                tr_versions := map deactivate (tr_versions r) @
                  [\<lparr>tv_version = next_version (tr_versions r), tv_code = code, tv_active = True,
                    tv_status = Approved\<rparr>]\<rparr>"
  have c: "?c = update_tools (\<lambda>r. tr_name r = name) ?f c"
    using assms(2) by (simp add: persist_def)
  have ok: "catalog_ok ?c"
    using catalog_do_ok [of c True "Op_persist name desc code emb now"] assms(1) by simp
  have keep: "tr_calls (keep_embedding emb r) = tr_calls r" "tr_success_rate (keep_embedding emb r) = tr_success_rate r"
    "tr_created (keep_embedding emb r) = tr_created r"
    by (simp_all add: keep_embedding_def)
  have r': "get_registration ?c name = Some (?f r)"
    unfolding c using assms(2) by (subst get_registration_update) auto
  have mem: "?f r \<in> set (ct_tools ?c)" using get_registrationD [OF r'] by simp
  have nm: "tr_name r = name" using get_registrationD [OF assms(2)] by simp
  let ?names = "underperforming_tools True min_runs bound None ?c"
  have names: "name \<in> set ?names"
    using mem assms(3,4,5) nm
    by (auto simp: underperforming_tools_def live_generated_def keep intro!: image_eqI [where x = "?f r"])
  have "tr_name x = name \<Longrightarrow> x = ?f r" if "x \<in> set (ct_tools ?c)" for x
    using catalog_unique [OF ok that mem] nm by simp
  then have new: "name \<notin> tr_name ` {r \<in> set (ct_tools ?c). now - window \<le> tr_created r}"
    using assms(6) keep(3) by fastforce
  have "?names \<noteq> []" using names by auto
  then have ret: "get_registration (snd (retire_underperforming True window now min_runs bound None ?c)) name =
      Some ((?f r)\<lparr>tr_active := False\<rparr>)"
    using retire_unprotected_name [OF names new] r' by (simp add: retire_underperforming_def Let_def)
  show ?thesis unfolding ret by (simp add: live_version_def keep)
qed

section \<open>Instances\<close>

text \<open>A shell, a request tool and a generated tool whose handlers are their names.\<close>

definition demo_registry :: "string tool_registry" where
  "demo_registry =
     register_tool ((plain_tool ''terminal_command'' ''shell'' [] [])\<lparr>en_mcp_hints := [(''destructiveHint'', True)]\<rparr>)
       (register_tool ((plain_tool ''http_request'' ''http'' [] [])\<lparr>en_cacheable := True\<rparr>)
         (register_tool ((plain_tool ''adder'' ''add'' [] [])\<lparr>en_generated := True, en_handler_code := Some ''src''\<rparr>) []))"

definition demo_tool_env :: "string tool_env" where
  "demo_tool_env =
     \<lparr>te_hitl = True, te_contracts = True,
      te_isolation = \<lparr>is_mode = ''runner'', is_default_to_sandbox = True, is_auto_promote = True, is_worker_process = True\<rparr>,
      te_interrupt = Some (JObj [(''approved'', JBool True)]), te_cache = Some (\<lambda>_ _. None),
      te_handler = (\<lambda>h _. Inr h), te_sandbox = (\<lambda>_ _ _. Sandbox_unavailable ''down''),
      te_async_name = (\<lambda>_. Some ''run''), te_payload = (\<lambda>_. None), te_search = (\<lambda>_ _. None),
      te_str = (\<lambda>_. [])\<rparr>"

lemmas demo_tool_simps = Let_def demo_registry_def demo_tool_env_def plain_tool_def stored_entry_def get_handler_def
  is_destructive_def get_mcp_hints_def is_cacheable_def is_generated_def get_handler_code_def

lemma demo_isolated: "is_isolated_runtime (te_isolation demo_tool_env)"
  by (simp add: demo_tool_env_def is_isolated_runtime_def)

definition demo_call :: "string \<Rightarrow> json \<Rightarrow> call_request" where
  "demo_call name args = \<lparr>rq_tool = name, rq_args = Some args, rq_parse_error = []\<rparr>"

lemma demo_shell: "execute_tool_call demo_tool_env demo_registry (demo_call ''terminal_command'' (JObj [])) =
    Some (tool_outcome ''terminal_command'' True ''shell'' None [],
      [Ran_in_process ''shell'' (JObj []), Recorded_metric ''terminal_command'' True False])"
  by (simp add: demo_tool_simps demo_call_def execute_tool_call_def should_gate_destructive_def human_approved_def
      obj_get_def may_use_cache_def invoke_generated_tool_def run_in_process_def evaluate_tool_success_def
      get_success_contract_def evaluate_success_def py_strip_def is_ws_def)

theorem tool_call_gated_witness:
  "list_all (\<lambda>f. \<not> runs_code f \<or>
      \<not> (te_hitl demo_tool_env \<and> is_destructive demo_registry ''terminal_command'') \<or>
      human_approved (te_interrupt demo_tool_env))
    [Ran_in_process ''shell'' (JObj []), Recorded_metric ''terminal_command'' True False]"
  using tool_call_gated [OF demo_shell] by (simp add: demo_call_def)

lemma demo_request: "execute_tool_call (demo_tool_env\<lparr>te_hitl := False\<rparr>) demo_registry (demo_call ''http_request'' (JObj [])) =
    Some (tool_outcome ''http_request'' True ''http'' None [],
      [Ran_in_process ''http'' (JObj []), Recorded_metric ''http_request'' True False,
       Cached_result ''http_request'' (JObj []) (tool_outcome ''http_request'' True ''http'' None [])])"
  by (simp add: demo_tool_simps demo_call_def execute_tool_call_def may_use_cache_def call_is_cacheable_def
      upper_char_def http_cacheable_methods_def
      obj_get_def invoke_generated_tool_def run_in_process_def evaluate_tool_success_def
      get_success_contract_def evaluate_success_def py_strip_def is_ws_def)

theorem only_successes_cached_witness:
  "is_cacheable demo_registry ''http_request'' \<and>
   call_is_cacheable (te_str demo_tool_env) ''http_request'' (JObj []) = Some True"
  using only_successes_cached [OF demo_request, of "''http_request''" "JObj []"] by simp

theorem non_object_args_escape_witness:
  "execute_tool_calls (demo_tool_env\<lparr>te_hitl := False\<rparr>) demo_registry
     [demo_call ''adder'' (JObj []), demo_call ''http_request'' (JList [])] = None"
  by (rule non_object_args_escape [where rq = "demo_call ''http_request'' (JList [])" and xs = "[]" and look = "\<lambda>_ _. None"])
     (simp_all add: demo_call_def demo_tool_simps)

definition metric_catalog :: "real \<Rightarrow> int \<Rightarrow> catalog" where
  "metric_catalog rate n =
     \<lparr>ct_tools = [(new_registration ''adder'' [] None 0
          \<lparr>tv_version = 1, tv_code = ''old'', tv_active = True, tv_status = Approved\<rparr>)
          \<lparr>tr_calls := n, tr_success_rate := rate\<rparr>],
      ct_subsets = []\<rparr>"

theorem metrics_are_batch_means_witness:
  "\<exists>r'. get_registration (fst (fold (\<lambda>(s, e). record_metric True True ''adder'' s e) [(True, False), (False, False)]
       (metric_catalog 1 0, []))) ''adder'' = Some r' \<and> tr_success_rate r' = 1 / 2"
  using metrics_are_batch_means [of "metric_catalog 1 0" "''adder''" _ "[(True, False), (False, False)]" "[]", OF _ _ _ prod.collapse [symmetric]]
  by (auto simp: metric_catalog_def get_registration_def new_registration_def)

theorem regenerated_tool_retired_witness:
  "\<exists>r'. get_registration (snd (retire_underperforming True 10 100 5 (1 / 2) None
      (snd (persist True ''adder'' [] ''new'' None 100 (metric_catalog 0 5))))) ''adder'' = Some r' \<and> \<not> tr_active r' \<and>
    (\<exists>v. live_version r' = Some v \<and> tv_code v = ''new'')"
  using regenerated_tool_retired [of "metric_catalog 0 5" "''adder''" _ 5 "1 / 2" 100 10 "[]" "''new''" None]
  by (auto simp: metric_catalog_def get_registration_def new_registration_def catalog_ok_def versions_ok_def)

end
