(* ===== verification/Agent_Catalog.thy ===== *)
theory Agent_Catalog
  imports Graph_State Tool_Catalog "HOL-Library.AList"
begin

text \<open>
  The catalog of sub-agents: the specification of \<open>src/src/graph/models.py\<close>, the rows of
  \<open>src/src/db/models.py\<close>, the persister, the in-memory registry and the selection of
  \<open>src/src/agents/\<close>.  The table is the list of its rows; its constraints (unique name, primary key,
  foreign key of the runs) are checked by the insertions, and a violated one aborts the transaction.
  Times are seconds; \<open>ok\<close> is false when the database cannot be reached.  The mirror in the graph
  store and free texts of the run records are left out.
\<close>

section \<open>Specifications and rows\<close>

record sub_agent_spec =
  sp_id :: string
  sp_goal :: string
  sp_tier :: task_complexity
  sp_parent :: string
  sp_max_iterations :: int
  sp_name :: string
  sp_description :: string
  sp_template_type :: string
  sp_tool_scope :: string
  sp_tool_subset :: "string list"
  sp_budget_mode :: string
  sp_budget_limit :: real
  sp_depth_limit :: int
  sp_node_config :: "(string \<times> json) list"
  sp_prompt_override :: "string option"
  sp_version :: int
  sp_active :: bool
  sp_total_runs :: int
  sp_success_rate :: real
  sp_avg_cost :: real
  sp_avg_latency :: int
  sp_quality :: real
  sp_last_used :: "real option"

record agent_row =
  ar_id :: string
  ar_name :: string
  ar_description :: string
  ar_template_type :: string
  ar_tool_scope :: string
  ar_tool_subset :: "string list"
  ar_budget_mode :: string
  ar_budget_limit :: real
  ar_tier :: string
  ar_max_iterations :: int
  ar_depth_limit :: int
  ar_node_config :: "(string \<times> json) list"
  ar_prompt_override :: "string option"
  ar_total_runs :: int
  ar_success_count :: int
  ar_success_rate :: real
  ar_avg_cost :: real
  ar_avg_latency :: int
  ar_quality :: real
  ar_active :: bool
  ar_version :: int
  ar_owner_run :: "string option"
  ar_embedding :: "real list option"
  ar_updated :: real

record run_row =
  ru_agent :: string
  ru_completed :: bool
  ru_cost :: real
  ru_latency :: int
  ru_quality :: "real option"

record agent_db =
  ad_agents :: "agent_row list"
  ad_runs :: "run_row list"

fun tier_value :: "task_complexity \<Rightarrow> string" where
  "tier_value TRIVIAL = ''trivial''"
| "tier_value SIMPLE = ''simple''"
| "tier_value COMPLEX = ''complex''"
| "tier_value CRITICAL = ''critical''"

definition tier_of_value :: "string \<Rightarrow> task_complexity option" where
  "tier_of_value s = map_of (map (\<lambda>c. (tier_value c, c)) [TRIVIAL, SIMPLE, COMPLEX, CRITICAL]) s"

definition py_trunc :: "real \<Rightarrow> int" where
  "py_trunc x = (if x < 0 then \<lceil>x\<rceil> else \<lfloor>x\<rfloor>)"

text \<open>\<open>x or d\<close> on floats.\<close>

definition float_or :: "real \<Rightarrow> real \<Rightarrow> real" where
  "float_or x d = (if x = 0 then d else x)"

text \<open>
  \<open>parse_uuid\<close> reads an identifier, \<open>fresh\<close> is the one that is drawn when it is none; \<open>now\<close> fills
  the date columns.
\<close>

definition spec_to_model ::
  "(string \<Rightarrow> string option) \<Rightarrow> string \<Rightarrow> real \<Rightarrow> sub_agent_spec \<Rightarrow> int \<Rightarrow> real list option \<Rightarrow> string option \<Rightarrow> agent_row" where
  "spec_to_model parse_uuid fresh now sp version emb owner =
     \<lparr>ar_id = (case parse_uuid (sp_id sp) of Some i \<Rightarrow> i | None \<Rightarrow> fresh), ar_name = sp_name sp,
      ar_description = sp_description sp, ar_template_type = sp_template_type sp,
      ar_tool_scope = sp_tool_scope sp, ar_tool_subset = sp_tool_subset sp,
      ar_budget_mode = sp_budget_mode sp, ar_budget_limit = sp_budget_limit sp,
      ar_tier = tier_value (sp_tier sp), ar_max_iterations = sp_max_iterations sp,
      ar_depth_limit = sp_depth_limit sp, ar_node_config = sp_node_config sp,
      ar_prompt_override = sp_prompt_override sp, ar_total_runs = sp_total_runs sp,
      ar_success_count = py_trunc (sp_success_rate sp * of_int (sp_total_runs sp)),
      ar_success_rate = sp_success_rate sp, ar_avg_cost = sp_avg_cost sp,
      ar_avg_latency = sp_avg_latency sp, ar_quality = sp_quality sp, ar_active = sp_active sp,
      ar_version = version, ar_owner_run = owner, ar_embedding = emb, ar_updated = now\<rparr>"

text \<open>\<open>None\<close>: the tier is not one of the enumeration, the row cannot be loaded.\<close>

definition model_to_spec :: "agent_row \<Rightarrow> sub_agent_spec option" where
  "model_to_spec r =
     (case tier_of_value (ar_tier r) of
        None \<Rightarrow> None
      | Some tier \<Rightarrow> Some
         \<lparr>sp_id = ar_id r, sp_goal = [], sp_tier = tier, sp_parent = [], sp_max_iterations = ar_max_iterations r,
          sp_name = ar_name r, sp_description = ar_description r, sp_template_type = ar_template_type r,
          sp_tool_scope = ar_tool_scope r, sp_tool_subset = ar_tool_subset r, sp_budget_mode = ar_budget_mode r,
          sp_budget_limit = ar_budget_limit r, sp_depth_limit = ar_depth_limit r,
          sp_node_config = ar_node_config r, sp_prompt_override = ar_prompt_override r,
          sp_version = ar_version r, sp_active = ar_active r, sp_total_runs = ar_total_runs r,
          sp_success_rate = ar_success_rate r, sp_avg_cost = ar_avg_cost r, sp_avg_latency = ar_avg_latency r,
          sp_quality = float_or (ar_quality r) (1 / 2), sp_last_used = Some (ar_updated r)\<rparr>)"

section \<open>The table\<close>

definition insert_agent :: "agent_row \<Rightarrow> agent_row list \<Rightarrow> agent_row list option" where
  "insert_agent r rows =
     (if ar_name r \<in> set (map ar_name rows) \<or> ar_id r \<in> set (map ar_id rows) then None else Some (rows @ [r]))"

definition update_agents :: "(agent_row \<Rightarrow> bool) \<Rightarrow> (agent_row \<Rightarrow> agent_row) \<Rightarrow> agent_db \<Rightarrow> agent_db" where
  "update_agents p f db = db\<lparr>ad_agents := map (\<lambda>r. if p r then f r else r) (ad_agents db)\<rparr>"

definition persist_agent ::
  "bool \<Rightarrow> (string \<Rightarrow> string option) \<Rightarrow> string \<Rightarrow> real \<Rightarrow> sub_agent_spec \<Rightarrow> real list option \<Rightarrow> string option \<Rightarrow> agent_db
    \<Rightarrow> string option \<times> agent_db" where
  "persist_agent ok parse_uuid fresh now sp emb owner db =
     (if \<not> ok then (None, db)
      else case filter (\<lambda>r. ar_name r = sp_name sp) (ad_agents db) of
        [] \<Rightarrow>
          (let r = spec_to_model parse_uuid fresh now sp 1 emb owner
           in case insert_agent r (ad_agents db) of
                None \<Rightarrow> (None, db)
              | Some rows \<Rightarrow> (Some (ar_id r), db\<lparr>ad_agents := rows\<rparr>))
      | [existing] \<Rightarrow>
          (let db' = update_agents (\<lambda>r. ar_id r = ar_id existing) (\<lambda>r. r\<lparr>ar_active := False, ar_updated := now\<rparr>) db;
               r = spec_to_model parse_uuid fresh now sp (ar_version existing + 1) emb owner
           in case insert_agent r (ad_agents db') of
                None \<Rightarrow> (None, db)
              | Some rows \<Rightarrow> (Some (ar_id r), db'\<lparr>ad_agents := rows\<rparr>))
      | _ \<Rightarrow> (None, db))"

definition nearest_agents :: "(agent_row \<Rightarrow> bool) \<Rightarrow> real list \<Rightarrow> nat \<Rightarrow> agent_db \<Rightarrow> (string \<times> real) list" where
  "nearest_agents p emb limit db =
     take limit (sort_key (\<lambda>(_, s). - s)
       (map (\<lambda>r. (ar_name r, case ar_embedding r of None \<Rightarrow> 0 | Some e \<Rightarrow> cosine e emb))
         (filter (\<lambda>r. ar_embedding r \<noteq> None \<and> ar_active r \<and> p r) (ad_agents db))))"

definition find_similar_agents :: "bool \<Rightarrow> real list \<Rightarrow> real \<Rightarrow> nat \<Rightarrow> agent_db \<Rightarrow> (string \<times> real) list" where
  "find_similar_agents ok emb threshold limit db =
     (if \<not> ok then [] else filter (\<lambda>(_, s). threshold \<le> s) (nearest_agents (\<lambda>_. True) emb limit db))"

definition retrieve_agents_with_scores :: "bool \<Rightarrow> string list \<Rightarrow> real list \<Rightarrow> nat \<Rightarrow> agent_db \<Rightarrow> (string \<times> real) list" where
  "retrieve_agents_with_scores ok names emb limit db =
     (if names = [] \<or> \<not> ok then [] else nearest_agents (\<lambda>r. ar_name r \<in> set names) emb limit db)"

definition retire_agents :: "bool \<Rightarrow> real \<Rightarrow> string list \<Rightarrow> agent_db \<Rightarrow> nat \<times> agent_db" where
  "retire_agents ok now names db =
     (if names = [] \<or> \<not> ok then (0, db)
      else (length names,
            update_agents (\<lambda>r. ar_name r \<in> set names) (\<lambda>r. r\<lparr>ar_active := False, ar_updated := now\<rparr>) db))"

definition active_capability_rows :: "agent_db \<Rightarrow> (real \<times> int \<times> real) cap_row list" where
  "active_capability_rows db =
     map (\<lambda>r. \<lparr>cr_name = ar_name r, cr_embedding = ar_embedding r,
            cr_score = (ar_success_rate r, ar_total_runs r, float_or (ar_quality r) (1 / 2))\<rparr>)
       (filter ar_active (ad_agents db))"

definition retire_redundant_agents :: "bool \<Rightarrow> real \<Rightarrow> real \<Rightarrow> agent_db \<Rightarrow> string list \<times> agent_db" where
  "retire_redundant_agents ok now threshold db =
     (if \<not> ok then ([], db)
      else
        let rows = active_capability_rows db;
            retired = redundant_rows threshold rows {};
            names = sort (remdups (filter (\<lambda>n. n \<in> retired) (map cr_name rows)))
        in (names, if names = [] then db else snd (retire_agents ok now names db)))"

section \<open>The registry\<close>

type_synonym agent_registry = "(string \<times> sub_agent_spec) list"

definition register_agent :: "sub_agent_spec \<Rightarrow> agent_registry \<Rightarrow> agent_registry" where
  "register_agent sp reg = AList.update (sp_name sp) sp reg"

definition unregister_agent :: "string \<Rightarrow> agent_registry \<Rightarrow> bool \<times> agent_registry" where
  "unregister_agent name reg = (if map_of reg name = None then (False, reg) else (True, AList.delete name reg))"

definition list_active :: "agent_registry \<Rightarrow> sub_agent_spec list" where
  "list_active reg = filter sp_active (map snd reg)"

text \<open>\<open>spawn\<close>: the runner carries the specification; nothing for an unknown or retired agent.\<close>

definition spawn_agent :: "string \<Rightarrow> agent_registry \<Rightarrow> sub_agent_spec option" where
  "spawn_agent name reg =
     (case map_of reg name of None \<Rightarrow> None | Some sp \<Rightarrow> if sp_active sp then Some sp else None)"

definition is_stale :: "real option \<Rightarrow> int \<Rightarrow> real \<Rightarrow> bool" where
  "is_stale last_used recency_days now =
     (case last_used of
        None \<Rightarrow> False
      | Some t \<Rightarrow> if recency_days \<le> 0 then False else now - t > 86400 * of_int recency_days)"

record retire_rule =
  rl_min_runs :: int
  rl_success_floor :: real
  rl_recency_days :: int

definition default_rule :: retire_rule where
  "default_rule = \<lparr>rl_min_runs = 10, rl_success_floor = 3 / 10, rl_recency_days = 30\<rparr>"

definition is_bad :: "retire_rule \<Rightarrow> sub_agent_spec \<Rightarrow> bool" where
  "is_bad rl sp = (rl_min_runs rl \<le> sp_total_runs sp \<and> sp_success_rate sp < rl_success_floor rl)"

text \<open>The specification is shared with the caller of \<open>get\<close>; here the entry is replaced.\<close>

definition check_deprecation :: "retire_rule \<Rightarrow> real \<Rightarrow> string \<Rightarrow> agent_registry \<Rightarrow> bool \<times> agent_registry" where
  "check_deprecation rl now name reg =
     (case map_of reg name of
        None \<Rightarrow> (False, reg)
      | Some sp \<Rightarrow>
          if \<not> (is_bad rl sp \<or> is_stale (sp_last_used sp) (rl_recency_days rl) now) then (False, reg)
          else (True, AList.update name (sp\<lparr>sp_active := False\<rparr>) reg))"

fun deprecate_all :: "retire_rule \<Rightarrow> real \<Rightarrow> string list \<Rightarrow> agent_registry \<Rightarrow> string list \<times> agent_registry" where
  "deprecate_all rl now [] reg = ([], reg)"
| "deprecate_all rl now (n # ns) reg =
     (let (hit, reg) = check_deprecation rl now n reg;
          (retired, reg) = deprecate_all rl now ns reg
      in (if hit then n # retired else retired, reg))"

definition agent_score :: "sub_agent_spec \<Rightarrow> real \<times> int \<times> real" where
  "agent_score sp = (sp_success_rate sp, sp_total_runs sp, sp_quality sp)"

definition set_inactive :: "string list \<Rightarrow> agent_registry \<Rightarrow> agent_registry" where
  "set_inactive names reg = map (\<lambda>(n, sp). (n, if n \<in> set names then sp\<lparr>sp_active := False\<rparr> else sp)) reg"

definition enforce_caps :: "retire_rule \<Rightarrow> real \<Rightarrow> int \<Rightarrow> agent_registry \<Rightarrow> string list \<times> agent_registry" where
  "enforce_caps rl now max_active reg =
     (let (retired, reg) = deprecate_all rl now (map sp_name (list_active reg)) reg;
          active = list_active reg
      in if int (length active) \<le> max_active then (retired, reg)
         else
           let overflow = map sp_name (py_take (int (length active) - max_active) (sort_key agent_score active))
           in (retired @ overflow, set_inactive overflow reg))"

section \<open>Loading\<close>

record agent_limits =
  al_redundancy_threshold :: real
  al_max_active :: int
  al_rule :: retire_rule

fun load_rows :: "agent_row list \<Rightarrow> agent_registry \<Rightarrow> string list \<times> agent_registry" where
  "load_rows [] reg = ([], reg)"
| "load_rows (r # rs) reg =
     (case model_to_spec r of
        None \<Rightarrow> load_rows rs reg
      | Some sp \<Rightarrow>
          (let (loaded, reg) = load_rows rs (register_agent sp reg) in (sp_name sp # loaded, reg)))"

definition load_active_agents ::
  "bool \<Rightarrow> real \<Rightarrow> agent_limits option \<Rightarrow> agent_registry \<Rightarrow> agent_db \<Rightarrow> string list \<times> agent_registry \<times> agent_db" where
  "load_active_agents ok now limits reg db =
     (let db = (case limits of None \<Rightarrow> db
          | Some l \<Rightarrow> snd (retire_redundant_agents ok now (al_redundancy_threshold l) db));
          (loaded, reg) = (if ok then load_rows (filter ar_active (ad_agents db)) reg else ([], reg))
      in case limits of
           None \<Rightarrow> (loaded, reg, db)
         | Some l \<Rightarrow>
             (let (retired, reg) = enforce_caps (al_rule l) now (al_max_active l) reg
              in if retired = [] then (loaded, reg, db)
                 else (filter (\<lambda>n. n \<notin> set retired) loaded, reg, snd (retire_agents ok now retired db))))"

section \<open>Run records\<close>

definition avg_rows :: "real list \<Rightarrow> real option" where
  "avg_rows xs = (if xs = [] then None else Some (sum_list xs / of_nat (length xs)))"

definition update_rolling_metrics :: "real \<Rightarrow> string \<Rightarrow> agent_db \<Rightarrow> agent_db" where
  "update_rolling_metrics now ident db =
     (let runs = filter (\<lambda>u. ru_agent u = ident) (ad_runs db);
          total = length runs;
          successes = length (filter ru_completed runs);
          or_zero = (\<lambda>m. case m of None \<Rightarrow> 0 | Some x \<Rightarrow> x)
      in update_agents (\<lambda>r. ar_id r = ident)
           (\<lambda>r. r\<lparr>ar_total_runs := int total, ar_success_count := int successes,
              ar_success_rate := (if total > 0 then of_nat successes / of_nat total else 0),
              ar_avg_cost := or_zero (avg_rows (map ru_cost runs)),
              ar_avg_latency := py_trunc (or_zero (avg_rows (map (\<lambda>u. of_int (ru_latency u)) runs))),
              ar_quality := float_or (or_zero (avg_rows (List.map_filter ru_quality runs))) (1 / 2),
              ar_updated := now\<rparr>) db)"

definition record_run :: "bool \<Rightarrow> real \<Rightarrow> run_row \<Rightarrow> agent_db \<Rightarrow> bool \<times> agent_db" where
  "record_run ok now u db =
     (if \<not> ok \<or> ru_agent u \<notin> set (map ar_id (ad_agents db)) then (False, db)
      else (True, update_rolling_metrics now (ru_agent u) (db\<lparr>ad_runs := ad_runs db @ [u]\<rparr>)))"

section \<open>Selection before the fan-out\<close>

definition info_name :: "(string \<times> json) list \<Rightarrow> string" where
  "info_name info = (case obj_get info ''name'' (JStr []) of JStr s \<Rightarrow> s | _ \<Rightarrow> [])"

definition rank_names :: "(string \<times> real) list \<Rightarrow> int \<Rightarrow> string list" where
  "rank_names scores top_k = map fst (py_take top_k scores)"

text \<open>\<open>embedding\<close> is the vector of the subtask when the provider gave a real one.\<close>

definition select_subagents ::
  "bool \<Rightarrow> int \<Rightarrow> real list option \<Rightarrow> bool \<Rightarrow> agent_db \<Rightarrow> (string \<times> json) list list \<Rightarrow> (string \<times> json) list list" where
  "select_subagents enabled configured_top_k embedding ok db spawned =
     (if \<not> enabled \<or> length spawned \<le> 1 then spawned
      else
        let top_k = max 1 configured_top_k
        in if int (length spawned) \<le> top_k then spawned
           else case embedding of
             None \<Rightarrow> spawned
           | Some emb \<Rightarrow>
               let names = filter (\<lambda>n. n \<noteq> []) (map info_name spawned);
                   keep = rank_names (retrieve_agents_with_scores ok names emb (length names) db) top_k
               in if keep = [] then spawned
                  else
                    let selected = filter (\<lambda>i. info_name i \<in> set keep) spawned
                    in if selected = [] then spawned else selected)"

section \<open>Versions never advance\<close>

lemma insert_agent_cases: "insert_agent r rows = Some rows' \<longleftrightarrow>
    ar_name r \<notin> set (map ar_name rows) \<and> ar_id r \<notin> set (map ar_id rows) \<and> rows' = rows @ [r]"
  by (auto simp: insert_agent_def)

lemma update_agents_names:
  "(\<And>r. ar_name (f r) = ar_name r) \<Longrightarrow> map ar_name (ad_agents (update_agents p f db)) = map ar_name (ad_agents db)"
  "(\<And>r. ar_id (f r) = ar_id r) \<Longrightarrow> map ar_id (ad_agents (update_agents p f db)) = map ar_id (ad_agents db)"
  by (auto simp: update_agents_def)

lemma spec_to_model_simps [simp]:
  "ar_name (spec_to_model pu fresh now sp v emb owner) = sp_name sp"
  "ar_version (spec_to_model pu fresh now sp v emb owner) = v"
  by (simp_all add: spec_to_model_def)

lemma persist_existing:
  assumes "r \<in> set (ad_agents db)" "ar_name r = sp_name sp"
  shows "persist_agent ok parse_uuid fresh now sp emb owner db = (None, db)"
proof (cases "filter (\<lambda>r. ar_name r = sp_name sp) (ad_agents db)")
  case Nil
  with assms show ?thesis by (auto simp: filter_empty_conv)
next
  case (Cons x xs)
  show ?thesis
  proof (cases xs)
    case Nil
    have "x \<in> set (filter (\<lambda>r. ar_name r = sp_name sp) (ad_agents db))" using Cons by simp
    then have x: "x \<in> set (ad_agents db)" "ar_name x = sp_name sp" by simp_all
    then have "sp_name sp \<in> ar_name ` set (ad_agents db)" by force
    then have "insert_agent (spec_to_model parse_uuid fresh now sp (ar_version x + 1) emb owner)
        (ad_agents (update_agents (\<lambda>r. ar_id r = ar_id x) (\<lambda>r. r\<lparr>ar_active := False, ar_updated := now\<rparr>) db)) = None"
      unfolding insert_agent_def using update_agents_names(1) [of "\<lambda>r. r\<lparr>ar_active := False, ar_updated := now\<rparr>"] by simp
    with Cons Nil show ?thesis by (simp add: persist_agent_def Let_def)
  qed (use Cons in \<open>simp add: persist_agent_def\<close>)
qed

text \<open>
  Fact (error): a sub-agent is never updated.  Persisting a specification under a name the table
  already has, active or retired, always fails and leaves every row as it was: the code inserts a
  second row of that name and only deactivates the first, and the name is unique.
\<close>

theorem agent_update_never_lands:
  assumes "r \<in> set (ad_agents db)" "ar_name r = sp_name sp"
  shows "persist_agent ok parse_uuid fresh now sp emb owner db = (None, db)"
  using assms by (rule persist_existing)

text \<open>Names and identifiers are unique, runs belong to agents, and every row is of version 1.\<close>

definition agents_ok :: "agent_db \<Rightarrow> bool" where
  "agents_ok db =
     (distinct (map ar_name (ad_agents db)) \<and> distinct (map ar_id (ad_agents db)) \<and>
      list_all (\<lambda>r. ar_version r = 1) (ad_agents db) \<and>
      list_all (\<lambda>u. ru_agent u \<in> ar_id ` set (ad_agents db)) (ad_runs db))"

lemma agents_ok_update:
  assumes "agents_ok db" "\<And>r. ar_name (f r) = ar_name r" "\<And>r. ar_id (f r) = ar_id r"
    "\<And>r. ar_version (f r) = ar_version r"
  shows "agents_ok (update_agents p f db)"
proof -
  have "ar_id ` set (ad_agents (update_agents p f db)) = ar_id ` set (ad_agents db)"
    unfolding list.set_map [symmetric] using update_agents_names(2) [of f p db] assms(3) by simp
  then show ?thesis
    using assms update_agents_names [of f p db] by (auto simp: agents_ok_def list_all_iff) (auto simp: update_agents_def)
qed

lemma agents_ok_persist: "agents_ok db \<Longrightarrow> agents_ok (snd (persist_agent ok pu fresh now sp emb owner db))"
proof (cases "\<exists>r \<in> set (ad_agents db). ar_name r = sp_name sp")
  case True
  then show "agents_ok db \<Longrightarrow> ?thesis" using persist_existing by fastforce
next
  case False
  then have "filter (\<lambda>r. ar_name r = sp_name sp) (ad_agents db) = []" by (simp add: filter_empty_conv)
  then show "agents_ok db \<Longrightarrow> ?thesis"
    by (auto simp: persist_agent_def Let_def insert_agent_cases agents_ok_def list_all_iff split: option.split)
qed

datatype agent_op =
    Op_persist_agent "string \<Rightarrow> string option" string real sub_agent_spec "real list option" "string option"
  | Op_retire_agents real "string list"
  | Op_redundant_agents real real
  | Op_record_run real run_row
  | Op_load_agents real agent_limits

fun agent_do :: "bool \<Rightarrow> agent_op \<Rightarrow> agent_db \<Rightarrow> agent_db" where
  "agent_do ok (Op_persist_agent pu fresh now sp emb owner) db = snd (persist_agent ok pu fresh now sp emb owner db)"
| "agent_do ok (Op_retire_agents now names) db = snd (retire_agents ok now names db)"
| "agent_do ok (Op_redundant_agents now th) db = snd (retire_redundant_agents ok now th db)"
| "agent_do ok (Op_record_run now u) db = snd (record_run ok now u db)"
| "agent_do ok (Op_load_agents now l) db = snd (snd (load_active_agents ok now (Some l) [] db))"

lemma agents_ok_retire: "agents_ok db \<Longrightarrow> agents_ok (snd (retire_agents ok now names db))"
  by (simp add: retire_agents_def agents_ok_update)

lemma agents_ok_redundant: "agents_ok db \<Longrightarrow> agents_ok (snd (retire_redundant_agents ok now th db))"
  by (simp add: retire_redundant_agents_def Let_def agents_ok_retire)

lemma agents_ok_add_run:
  "agents_ok db \<Longrightarrow> ru_agent u \<in> ar_id ` set (ad_agents db) \<Longrightarrow> agents_ok (db\<lparr>ad_runs := ad_runs db @ [u]\<rparr>)"
  by (simp add: agents_ok_def)

lemma agent_do_ok: "agents_ok db \<Longrightarrow> agents_ok (agent_do ok op db)"
proof (cases op)
  case (Op_record_run now u)
  then show "agents_ok db \<Longrightarrow> ?thesis"
    by (simp add: record_run_def update_rolling_metrics_def Let_def agents_ok_update agents_ok_add_run)
next
  case (Op_load_agents now l)
  then show "agents_ok db \<Longrightarrow> ?thesis"
    by (simp add: load_active_agents_def Let_def agents_ok_retire agents_ok_redundant split: prod.split)
qed (simp_all add: agents_ok_persist agents_ok_retire agents_ok_redundant)


section \<open>The caps\<close>

definition agents_named :: "agent_registry \<Rightarrow> bool" where
  "agents_named reg = (distinct (map fst reg) \<and> list_all (\<lambda>(n, sp). n = sp_name sp) reg)"

lemma set_inactive_keys [simp]: "map fst (set_inactive names reg) = map fst reg"
  by (auto simp: set_inactive_def)

lemma agents_named_inactive [simp]: "agents_named (set_inactive names reg) = agents_named reg"
  by (auto simp: agents_named_def list_all_iff) (auto simp: set_inactive_def split: if_splits)

lemma set_inactive_set_inactive: "set_inactive xs (set_inactive ys reg) = set_inactive (ys @ xs) reg"
  by (auto simp: set_inactive_def)

lemma set_inactive_Nil [simp]: "set_inactive [] reg = reg"
  by (auto simp: set_inactive_def intro: map_idI)

lemma list_active_inactive:
  "agents_named reg \<Longrightarrow> list_active (set_inactive names reg) = filter (\<lambda>sp. sp_name sp \<notin> set names) (list_active reg)"
proof (induction reg)
  case (Cons p reg)
  then show ?case by (cases p) (auto simp: list_active_def set_inactive_def agents_named_def)
qed (simp add: list_active_def set_inactive_def)

lemma update_as_set_inactive:
  assumes "agents_named reg" "map_of reg name = Some sp"
  shows "AList.update name (sp\<lparr>sp_active := False\<rparr>) reg = set_inactive [name] reg"
  using assms
proof (induction reg)
  case (Cons p reg)
  obtain n s where p: "p = (n, s)" by fastforce
  show ?case
  proof (cases "n = name")
    case True
    with Cons.prems p have "set_inactive [name] reg = reg"
      by (force simp: set_inactive_def agents_named_def intro!: map_idI)
    with True Cons.prems p show ?thesis by (simp add: set_inactive_def)
  next
    case False
    with Cons p show ?thesis by (simp add: set_inactive_def agents_named_def)
  qed
qed simp

lemma check_deprecation_cases:
  assumes "agents_named reg"
  shows "check_deprecation rl now name reg =
    (case map_of reg name of
       None \<Rightarrow> (False, reg)
     | Some sp \<Rightarrow> if is_bad rl sp \<or> is_stale (sp_last_used sp) (rl_recency_days rl) now
                then (True, set_inactive [name] reg) else (False, reg))"
  using update_as_set_inactive [OF assms] by (auto simp: check_deprecation_def split: option.split)

definition condemned :: "retire_rule \<Rightarrow> real \<Rightarrow> sub_agent_spec \<Rightarrow> bool" where
  "condemned rl now sp = (is_bad rl sp \<or> is_stale (sp_last_used sp) (rl_recency_days rl) now)"

lemma condemned_inactive [simp]: "condemned rl now (sp\<lparr>sp_active := b\<rparr>) = condemned rl now sp"
  by (simp add: condemned_def is_bad_def)

lemma map_of_set_inactive:
  "map_of (set_inactive names reg) n =
     map_option (\<lambda>sp. if n \<in> set names then sp\<lparr>sp_active := False\<rparr> else sp) (map_of reg n)"
  by (induction reg) (auto simp: set_inactive_def)

lemma deprecate_all_eq:
  assumes "agents_named reg"
  shows "deprecate_all rl now ns reg =
    (let retired = filter (\<lambda>n. case map_of reg n of None \<Rightarrow> False | Some sp \<Rightarrow> condemned rl now sp) ns
     in (retired, set_inactive retired reg))"
  using assms
proof (induction ns arbitrary: reg)
  case (Cons n ns)
  have same: "(case map_of (set_inactive xs reg) m of None \<Rightarrow> False | Some sp \<Rightarrow> condemned rl now sp) =
      (case map_of reg m of None \<Rightarrow> False | Some sp \<Rightarrow> condemned rl now sp)" for xs m
    by (cases "map_of reg m") (auto simp: map_of_set_inactive)
  show ?case
  proof (cases "map_of reg n")
    case None
    with Cons show ?thesis by (simp add: check_deprecation_def Let_def)
  next
    case (Some sp)
    show ?thesis
    proof (cases "condemned rl now sp")
      case True
      then have "check_deprecation rl now n reg = (True, set_inactive [n] reg)"
        using Some check_deprecation_cases [OF Cons.prems] by (simp add: condemned_def)
      with Cons.IH [of "set_inactive [n] reg"] Cons.prems True Some show ?thesis
        by (simp add: Let_def same set_inactive_set_inactive)
    next
      case False
      then have "check_deprecation rl now n reg = (False, reg)"
        using Some check_deprecation_cases [OF Cons.prems] by (simp add: condemned_def)
      with Cons.IH [of reg] Cons.prems False Some show ?thesis by (simp add: Let_def)
    qed
  qed
qed simp

lemma map_of_named: "agents_named reg \<Longrightarrow> sp \<in> snd ` set reg \<Longrightarrow> map_of reg (sp_name sp) = Some sp"
  by (force simp: agents_named_def list_all_iff)

lemma distinct_active_names: "agents_named reg \<Longrightarrow> distinct (map sp_name (list_active reg))"
proof -
  assume "agents_named reg"
  then have "map sp_name (map snd reg) = map fst reg" "distinct (map fst reg)"
    by (auto simp: agents_named_def list_all_iff)
  then have "distinct (map sp_name (map snd reg))" by (simp only:)
  then show ?thesis unfolding list_active_def by (rule distinct_map_filter)
qed

lemma filter_notin_count:
  assumes "distinct (map f xs)" "set ys \<subseteq> set xs" "distinct (map f ys)"
  shows "length (filter (\<lambda>x. f x \<notin> f ` set ys) xs) = length xs - length ys"
proof -
  have inj: "inj_on f (set xs)" using assms(1) by (simp add: distinct_map)
  have "set (filter (\<lambda>x. f x \<in> f ` set ys) xs) = set ys"
    using assms(2) inj by (auto dest: inj_onD)
  moreover have "distinct (filter (\<lambda>x. f x \<in> f ` set ys) xs)" using assms(1) by (simp add: distinct_map)
  ultimately have "length (filter (\<lambda>x. f x \<in> f ` set ys) xs) = card (set ys)" by (metis distinct_card)
  also have "\<dots> = length ys" using assms(3) by (simp add: distinct_map distinct_card)
  finally show ?thesis using sum_length_filter_compl [of "\<lambda>x. f x \<in> f ` set ys" xs] by simp
qed

text \<open>
  Fact (functional): the caps retire the right agents.  After \<open>enforce_caps\<close> exactly the named agents
  are inactive and at most \<open>max_active\<close> remain; no survivor is a chronic failure or stale; of the
  others only the worst went, so every agent retired for the cap scores no better than any
  survivor, and one goes only when the cap is then met exactly.
\<close>

theorem enforce_caps_correct:
  assumes "agents_named reg" "0 \<le> max_active" "enforce_caps rl now max_active reg = (retired, reg')"
  shows "list_active reg' = filter (\<lambda>sp. sp_name sp \<notin> set retired) (list_active reg) \<and>
    int (length (list_active reg')) \<le> max_active \<and>
    list_all (\<lambda>sp. \<not> condemned rl now sp) (list_active reg') \<and>
    list_all (\<lambda>sp. sp_name sp \<notin> set retired \<or> condemned rl now sp \<or>
        int (length (list_active reg')) = max_active \<and>
        list_all (\<lambda>s. agent_score sp \<le> agent_score s) (list_active reg')) (list_active reg)"
proof -
  let ?dead = "map sp_name (filter (condemned rl now) (list_active reg))"
  let ?reg = "set_inactive ?dead reg" and ?act = "filter (\<lambda>sp. \<not> condemned rl now sp) (list_active reg)"
  have mo: "map_of reg (sp_name sp) = Some sp" if "sp \<in> set (list_active reg)" for sp
    using map_of_named [OF assms(1)] that by (auto simp: list_active_def)
  have dead: "filter (\<lambda>n. case map_of reg n of None \<Rightarrow> False | Some sp \<Rightarrow> condemned rl now sp)
      (map sp_name (list_active reg)) = ?dead"
    unfolding filter_map by (intro arg_cong [where f = "map sp_name"] filter_cong) (auto simp: mo)
  have inj: "inj_on sp_name (set (list_active reg))"
    using distinct_active_names [OF assms(1)] by (simp add: distinct_map)
  have act: "list_active ?reg = ?act"
    unfolding list_active_inactive [OF assms(1)] by (intro filter_cong) (auto dest: inj_onD [OF inj])
  have dep: "deprecate_all rl now (map sp_name (list_active reg)) reg = (?dead, ?reg)"
    unfolding deprecate_all_eq [OF assms(1)] dead by (simp only: Let_def)
  show ?thesis
  proof (cases "int (length ?act) \<le> max_active")
    case True
    then have "retired = ?dead" "reg' = ?reg"
      using assms(3) unfolding enforce_caps_def dep by (auto simp: act Let_def)
    then show ?thesis
      using True act list_active_inactive [OF assms(1), of ?dead]
      by (auto simp: list_all_iff dest: inj_onD [OF inj])
  next
    case False
    let ?k = "nat (int (length ?act) - max_active)"
    let ?low = "take ?k (sort_key agent_score ?act)" and ?high = "drop ?k (sort_key agent_score ?act)"
    have reg': "retired = ?dead @ map sp_name ?low" "reg' = set_inactive (map sp_name ?low) ?reg"
      using assms(3) False unfolding enforce_caps_def dep by (simp_all add: act Let_def py_take_def)
    have d: "distinct (map sp_name ?act)"
      using distinct_active_names [OF assms(1)] by (rule distinct_map_filter)
    have msort: "mset (map sp_name (sort_key agent_score ?act)) = mset (map sp_name ?act)" by simp
    then have ds: "distinct (map sp_name (sort_key agent_score ?act))" using d by (metis mset_eq_imp_distinct_iff)
    have la: "list_active reg' = filter (\<lambda>sp. sp_name sp \<notin> sp_name ` set ?low) ?act"
      using list_active_inactive [of ?reg "map sp_name ?low"] assms(1) unfolding reg'(2) by (simp add: act)
    have low: "set ?low \<subseteq> set ?act" using set_take_subset [of ?k "sort_key agent_score ?act"] by simp
    have dl: "distinct (map sp_name ?low)" using ds by (simp add: take_map [symmetric])
    have "?k \<le> length ?act" using assms(2) by linarith
    then have "length ?low = ?k" unfolding length_take length_sort by (rule min_absorb2)
    with filter_notin_count [OF d low dl] have "length (list_active reg') = length ?act - ?k" unfolding la by (simp only:)
    then have len: "int (length (list_active reg')) = max_active" using False assms(2) by linarith
    have split: "sp \<in> set ?low \<or> sp \<in> set ?high" if "sp \<in> set ?act" for sp
      using that set_append [of ?low ?high] unfolding append_take_drop_id by auto
    have "sorted (map agent_score (?low @ ?high))" unfolding append_take_drop_id by (rule sorted_sort_key)
    then have "agent_score a \<le> agent_score b" if "a \<in> set ?low" "b \<in> set ?high" for a b
      using that unfolding map_append sorted_append by auto
    then have score: "agent_score a \<le> agent_score b" if "a \<in> set ?low" "b \<in> set (list_active reg')" for a b
      using that split unfolding la by fastforce
    have all: "list_active reg' = filter (\<lambda>sp. sp_name sp \<notin> set retired) (list_active reg)"
      unfolding reg'(2) set_inactive_set_inactive list_active_inactive [OF assms(1)] reg'(1) by simp
    have low_or: "condemned rl now sp \<or> sp \<in> set ?low" if "sp \<in> set (list_active reg)" "sp_name sp \<in> set retired" for sp
      using that low unfolding reg'(1) by (auto dest: inj_onD [OF inj])
    have "list_all (\<lambda>sp. \<not> condemned rl now sp) (list_active reg')" unfolding la by (simp add: list_all_iff)
    moreover have "int (length (list_active reg')) \<le> max_active" using len by simp
    moreover have "list_all (\<lambda>sp. sp_name sp \<notin> set retired \<or> condemned rl now sp \<or>
        int (length (list_active reg')) = max_active \<and>
        list_all (\<lambda>s. agent_score sp \<le> agent_score s) (list_active reg')) (list_active reg)"
      unfolding list_all_iff using low_or len score by blast
    ultimately show ?thesis using all by (intro conjI)
  qed
qed

section \<open>A load\<close>

lemma update_absent: "k \<notin> fst ` set al \<Longrightarrow> AList.update k v al = al @ [(k, v)]"
  by (induction al) auto

lemma model_to_specD:
  assumes "model_to_spec r = Some sp"
  shows "sp_name sp = ar_name r" "sp_active sp = ar_active r"
  using assms by (auto simp: model_to_spec_def split: option.splits)

lemma load_rows_eq:
  assumes "distinct (map ar_name rs)" "\<forall>r \<in> set rs. ar_name r \<notin> fst ` set reg"
  shows "load_rows rs reg =
    (let sps = List.map_filter model_to_spec rs
     in (map sp_name sps, reg @ map (\<lambda>sp. (sp_name sp, sp)) sps))"
  using assms
proof (induction rs arbitrary: reg)
  case (Cons r rs)
  show ?case
  proof (cases "model_to_spec r")
    case None
    with Cons show ?thesis by (simp add: map_filter_simps)
  next
    case (Some sp)
    have "register_agent sp reg = reg @ [(sp_name sp, sp)]"
      using Cons.prems model_to_specD [OF Some] by (simp add: register_agent_def update_absent)
    moreover have "\<forall>r \<in> set rs. ar_name r \<notin> fst ` set (reg @ [(sp_name sp, sp)])"
      using Cons.prems model_to_specD(1) [OF Some] by (auto simp: image_iff)
    ultimately show ?thesis
      using Cons.IH [of "reg @ [(sp_name sp, sp)]"] Cons.prems Some by (simp add: map_filter_simps Let_def)
  qed
qed (simp add: map_filter_simps)

lemma map_filter_names:
  "filter (\<lambda>sp. sp_name sp \<notin> N) (List.map_filter model_to_spec rs) =
     List.map_filter model_to_spec (filter (\<lambda>r. ar_name r \<notin> N) rs)"
  by (induction rs) (auto simp: map_filter_simps dest: model_to_specD split: option.split)

lemma map_filter_names_subset: "sp_name ` set (List.map_filter model_to_spec rs) \<subseteq> ar_name ` set rs"
  by (force simp: List.map_filter_def dest: model_to_specD(1))

lemma map_filter_distinct:
  "distinct (map ar_name rs) \<Longrightarrow> distinct (map sp_name (List.map_filter model_to_spec rs))"
proof (induction rs)
  case (Cons r rs)
  show ?case
  proof (cases "model_to_spec r")
    case (Some sp)
    then have "sp_name sp \<notin> sp_name ` set (List.map_filter model_to_spec rs)"
      using Cons.prems model_to_specD(1) [OF Some] map_filter_names_subset [of rs] by auto
    with Cons Some show ?thesis by (simp add: map_filter_simps)
  qed (use Cons in \<open>simp add: map_filter_simps\<close>)
qed (simp add: map_filter_simps)

lemma loaded_registry:
  assumes "distinct (map ar_name (filter ar_active rs))"
  shows "agents_named (map (\<lambda>sp. (sp_name sp, sp)) (List.map_filter model_to_spec (filter ar_active rs)))"
    "list_active (map (\<lambda>sp. (sp_name sp, sp)) (List.map_filter model_to_spec (filter ar_active rs))) =
       List.map_filter model_to_spec (filter ar_active rs)"
proof -
  have "sp_active sp" if "sp \<in> set (List.map_filter model_to_spec (filter ar_active rs))" for sp
    using that by (auto simp: List.map_filter_def dest: model_to_specD)
  then show "list_active (map (\<lambda>sp. (sp_name sp, sp)) (List.map_filter model_to_spec (filter ar_active rs))) =
       List.map_filter model_to_spec (filter ar_active rs)"
    by (simp add: list_active_def o_def)
  show "agents_named (map (\<lambda>sp. (sp_name sp, sp)) (List.map_filter model_to_spec (filter ar_active rs)))"
    using map_filter_distinct [OF assms] by (auto simp: agents_named_def list_all_iff o_def)
qed

lemma active_after_retire:
  "filter ar_active (ad_agents (snd (retire_agents True now names db))) =
     filter (\<lambda>r. ar_name r \<notin> set names) (filter ar_active (ad_agents db))"
proof -
  have "filter ar_active (map (\<lambda>r. if ar_name r \<in> N then r\<lparr>ar_active := False, ar_updated := now\<rparr> else r) rs) =
      filter (\<lambda>r. ar_name r \<notin> N) (filter ar_active rs)" for N rs
    by (induction rs) auto
  then show ?thesis by (auto simp: retire_agents_def update_agents_def)
qed


section \<open>Storing and scoring\<close>

lemma tier_roundtrip [simp]: "tier_of_value (tier_value c) = Some c"
  by (cases c) (simp_all add: tier_of_value_def)

text \<open>
  Fact (roundtrip): what is stored is what is loaded.  A specification written to its row and read
  back differs only in the goal and the parent, which are set per invocation, the version and the
  date, provided its identifier is a UUID and its quality is not exactly zero.
\<close>

theorem agent_spec_roundtrip:
  assumes "parse_uuid (sp_id sp) = Some (sp_id sp)" "sp_quality sp \<noteq> 0"
  shows "model_to_spec (spec_to_model parse_uuid fresh now sp version emb owner) =
    Some (sp\<lparr>sp_goal := [], sp_parent := [], sp_version := version, sp_last_used := Some now\<rparr>)"
  using assms by (simp add: model_to_spec_def spec_to_model_def float_or_def)

lemma sum_list_zeros: "list_all (\<lambda>x. x = 0) xs \<Longrightarrow> sum_list xs = (0 :: real)"
  by (induction xs) simp_all

text \<open>
  Fact (functional): the worst quality counts as average.  When every rated run of an agent was
  rated zero, recording the next such run stores the quality 1/2, the value of an agent that was
  never rated, so the caps prefer it to an agent rated 0.4.
\<close>

theorem zero_quality_forgotten:
  assumes "record_run True now u db = (True, db')" "ru_quality u = Some 0"
    and "list_all (\<lambda>v. ru_agent v \<noteq> ru_agent u \<or> ru_quality v = None \<or> ru_quality v = Some 0) (ad_runs db)"
    and "r \<in> set (ad_agents db')" "ar_id r = ru_agent u"
  shows "ar_quality r = 1 / 2"
proof -
  let ?runs = "filter (\<lambda>v. ru_agent v = ru_agent u) (ad_runs db @ [u])"
  have "list_all (\<lambda>v. ru_quality v = None \<or> ru_quality v = Some 0) ?runs"
    using assms(2,3) by (auto simp: list_all_iff)
  then have "list_all (\<lambda>x. x = 0) (List.map_filter ru_quality ?runs)"
    by (auto simp: list_all_iff List.map_filter_def)
  then have z: "avg_rows (List.map_filter ru_quality ?runs) = None \<or> avg_rows (List.map_filter ru_quality ?runs) = Some 0"
    by (simp add: avg_rows_def sum_list_zeros)
  have "db' = update_rolling_metrics now (ru_agent u) (db\<lparr>ad_runs := ad_runs db @ [u]\<rparr>)"
    using assms(1) by (simp add: record_run_def split: if_splits)
  with assms(4,5) z show ?thesis
    by (auto simp: update_rolling_metrics_def update_agents_def Let_def float_or_def split: if_splits)
qed

text \<open>
  Fact (safety): selection may drop an agent that was never ranked.  When it prunes the fan-out at
  all, only agents with a stored embedding and an active row survive, so one that was just spawned
  without an embedding, or is not in the table, is dropped whatever its task.
\<close>

theorem selection_needs_embedding:
  assumes "select_subagents enabled k embedding ok db spawned \<noteq> spawned"
  shows "list_all (\<lambda>i. list_ex (\<lambda>r. ar_name r = info_name i \<and> ar_active r \<and> ar_embedding r \<noteq> None)
      (ad_agents db)) (select_subagents enabled k embedding ok db spawned)"
proof -
  obtain emb where e: "embedding = Some emb"
    using assms by (cases embedding) (auto simp: select_subagents_def Let_def split: if_splits)
  let ?names = "filter (\<lambda>n. n \<noteq> []) (map info_name spawned)"
  let ?keep = "rank_names (retrieve_agents_with_scores ok ?names emb (length ?names) db) (max 1 k)"
  have sel: "select_subagents enabled k embedding ok db spawned = filter (\<lambda>i. info_name i \<in> set ?keep) spawned"
    using assms by (auto simp: select_subagents_def Let_def e split: if_splits)
  have "\<exists>r \<in> set (ad_agents db). ar_name r = n \<and> ar_active r \<and> ar_embedding r \<noteq> None" if "n \<in> set ?keep" for n
    using that by (auto simp: rank_names_def retrieve_agents_with_scores_def nearest_agents_def
        dest!: set_py_take [THEN subsetD] in_set_takeD split: if_splits) blast
  then show ?thesis unfolding sel by (auto simp: list_all_iff list_ex_iff)
qed

section \<open>Instances\<close>

definition demo_agent :: "string \<Rightarrow> real \<Rightarrow> int \<Rightarrow> sub_agent_spec" where
  "demo_agent name rate runs =
     \<lparr>sp_id = name, sp_goal = [], sp_tier = SIMPLE, sp_parent = [], sp_max_iterations = 10, sp_name = name,
      sp_description = [], sp_template_type = ''fixed'', sp_tool_scope = ''inherit_all'', sp_tool_subset = [],
      sp_budget_mode = ''shared'', sp_budget_limit = 0, sp_depth_limit = 0, sp_node_config = [],
      sp_prompt_override = None, sp_version = 1, sp_active = True, sp_total_runs = runs, sp_success_rate = rate,
      sp_avg_cost = 0, sp_avg_latency = 0, sp_quality = 1 / 2, sp_last_used = None\<rparr>"

definition demo_row :: "string \<Rightarrow> real list option \<Rightarrow> agent_row" where
  "demo_row name emb = spec_to_model Some [] 0 (demo_agent name 1 1) 1 emb None"

definition demo_agents :: agent_db where
  "demo_agents = \<lparr>ad_agents = [demo_row ''ann'' (Some [1]), demo_row ''bob'' None], ad_runs = []\<rparr>"

lemmas demo_agent_simps = demo_agents_def demo_row_def demo_agent_def spec_to_model_def

lemma demo_agents_ok: "agents_ok demo_agents"
  by (simp add: agents_ok_def demo_agent_simps)

theorem agent_update_never_lands_witness:
  "persist_agent True Some ''new'' 5 (demo_agent ''ann'' 1 1) None None demo_agents = (None, demo_agents)"
  by (rule agent_update_never_lands [where r = "demo_row ''ann'' (Some [1])"]) (simp_all add: demo_agent_simps)


definition demo_agent_registry :: agent_registry where
  "demo_agent_registry = [(''ann'', demo_agent ''ann'' (1 / 10) 20), (''bob'', demo_agent ''bob'' 1 5), (''cid'', demo_agent ''cid'' (1 / 2) 5)]"

lemma demo_caps: "enforce_caps default_rule 0 1 demo_agent_registry =
    ([''ann'', ''cid''], [(''ann'', (demo_agent ''ann'' (1 / 10) 20)\<lparr>sp_active := False\<rparr>), (''bob'', demo_agent ''bob'' 1 5),
       (''cid'', (demo_agent ''cid'' (1 / 2) 5)\<lparr>sp_active := False\<rparr>)])"
  by (simp add: enforce_caps_def demo_agent_registry_def demo_agent_def list_active_def check_deprecation_def is_bad_def
      is_stale_def default_rule_def py_take_def agent_score_def set_inactive_def Let_def)

theorem enforce_caps_correct_witness:
  "list_all (\<lambda>sp. \<not> condemned default_rule 0 sp) [demo_agent ''bob'' 1 5]"
  using enforce_caps_correct [OF _ _ demo_caps]
  by (simp add: agents_named_def demo_agent_registry_def list_active_def demo_agent_def)

definition demo_limits :: agent_limits where
  "demo_limits = \<lparr>al_redundancy_threshold = 1, al_max_active = 1, al_rule = default_rule\<rparr>"


theorem agent_spec_roundtrip_witness:
  "model_to_spec (demo_row ''ann'' None) = Some ((demo_agent ''ann'' 1 1)\<lparr>sp_last_used := Some 0\<rparr>)"
  using agent_spec_roundtrip [of Some "demo_agent ''ann'' 1 1" "[]" 0 1 None None] by (simp add: demo_row_def demo_agent_def)

definition demo_run :: run_row where
  "demo_run = \<lparr>ru_agent = ''ann'', ru_completed = True, ru_cost = 0, ru_latency = 0, ru_quality = Some 0\<rparr>"

theorem zero_quality_forgotten_witness:
  "list_all (\<lambda>r. ar_id r \<noteq> ''ann'' \<or> ar_quality r = 1 / 2) (ad_agents (snd (record_run True 9 demo_run demo_agents)))"
proof -
  have "record_run True 9 demo_run demo_agents = (True, snd (record_run True 9 demo_run demo_agents))"
    by (simp add: record_run_def demo_run_def demo_agent_simps)
  note zero_quality_forgotten [OF this]
  then show ?thesis by (auto simp: list_all_iff demo_run_def demo_agents_def)
qed

definition demo_info :: "string \<Rightarrow> (string \<times> json) list" where
  "demo_info name = [(''name'', JStr name)]"

lemma demo_selection:
  "select_subagents True 1 (Some [1]) True demo_agents [demo_info ''bob'', demo_info ''ann''] = [demo_info ''ann'']"
  by (simp add: select_subagents_def demo_info_def info_name_def obj_get_def rank_names_def
      retrieve_agents_with_scores_def nearest_agents_def demo_agent_simps py_take_def Let_def)

theorem selection_needs_embedding_witness:
  "list_all (\<lambda>i. list_ex (\<lambda>r. ar_name r = info_name i \<and> ar_active r \<and> ar_embedding r \<noteq> None)
      (ad_agents demo_agents)) [demo_info ''ann'']"
  using selection_needs_embedding [of True 1 "Some [1]" True demo_agents "[demo_info ''bob'', demo_info ''ann'']"]
  unfolding demo_selection by (simp add: demo_info_def)

end
