(* ===== verification/Sub_Agent.thy ===== *)
theory Sub_Agent
  imports Task_Graph Tool_Registry Agent_Catalog
begin

text \<open>
  A sub-agent's run: the scoped tools, the isolated state and the subgraph of
  \<open>src/src/agents/state.py\<close> and \<open>src/src/agents/subgraph.py\<close>, and the runner of
  \<open>src/src/agents/runner.py\<close>.  The nodes are those of the main graph.  The state is the record of
  the main graph restricted to the keys \<open>SubAgentState\<close> declares: the graph library drops an update
  of any other key, so a node always finds those absent.
\<close>

section \<open>Scoped tools\<close>

definition scoped_entry :: "string \<Rightarrow> 'h tool_entry \<Rightarrow> 'h tool_entry" where
  "scoped_entry name e =
     (plain_tool name (en_handler e) (en_description e) (en_parameters e))
       \<lparr>en_cacheable := en_cacheable e, en_generated := en_generated e, en_handler_code := en_handler_code e\<rparr>"

definition copy_tool :: "'h tool_registry \<Rightarrow> string \<Rightarrow> 'h tool_registry \<Rightarrow> 'h tool_registry" where
  "copy_tool parent name reg =
     (case get_tool parent name of None \<Rightarrow> reg | Some e \<Rightarrow> register_tool (scoped_entry name e) reg)"

definition scope_tools :: "sub_agent_spec \<Rightarrow> 'h tool_registry \<Rightarrow> 'h tool_registry" where
  "scope_tools sp parent =
     (if sp_tool_scope sp = ''inherit_all'' then fold (copy_tool parent) (map fst parent) []
      else if sp_tool_scope sp = ''inherit_subset'' then fold (copy_tool parent) (sp_tool_subset sp) []
      else [])"

section \<open>The state\<close>

definition sub_visible :: "agent_state \<Rightarrow> agent_state" where
  "sub_visible s =
     empty_state\<lparr>phase := phase s, iteration_count := iteration_count s, max_iterations := max_iterations s,
       current_goal := current_goal s, strategy := strategy s, plan_steps := plan_steps s,
       current_step_index := current_step_index s, messages := messages s, tool_results := tool_results s,
       completed_steps := completed_steps s, memory_observations := memory_observations s,
       reflection := reflection s, confidence := confidence s, pending_tool_gaps := pending_tool_gaps s,
       attempted_tool_gaps := attempted_tool_gaps s, tools_created := tools_created s,
       final_output := final_output s, is_complete := is_complete s, errors := errors s\<rparr>"

definition initial_sub_agent_state :: "string \<Rightarrow> string \<Rightarrow> real \<Rightarrow> int \<Rightarrow> agent_state" where
  "initial_sub_agent_state ident goal_txt now max_iter =
     empty_state\<lparr>phase := P_CLASSIFY, iteration_count := 0, max_iterations := Some max_iter,
       current_goal := Some ((new_goal ident goal_txt now)\<lparr>g_status := ACTIVE\<rparr>), strategy := DIRECT,
       confidence := Some MEDIUM, is_complete := Some False\<rparr>"

section \<open>Routing\<close>

definition sub_max :: "agent_state \<Rightarrow> int" where
  "sub_max s = (case max_iterations s of None \<Rightarrow> 10 | Some n \<Rightarrow> n)"

definition route_after_execute_sub :: "agent_settings \<Rightarrow> agent_state \<Rightarrow> string" where
  "route_after_execute_sub cfg s =
     (if iteration_count s \<ge> sub_max s then ''reflect''
      else if errors s \<noteq> [] then ''reflect''
      else route_after_execute cfg s)"

definition route_after_reflect_sub :: "agent_state \<Rightarrow> string" where
  "route_after_reflect_sub s =
     (if pending_tool_gaps s \<noteq> [] then ''tool_create''
      else if iteration_count s \<ge> sub_max s then ''__end__''
      else if confidence_or_medium s \<in> {VERY_LOW, LOW} then
        (if \<not> has_remaining_steps s then ''__end__'' else ''execute'')
      else ''__end__'')"

definition route_after_tool_create_sub :: "agent_state \<Rightarrow> string" where
  "route_after_tool_create_sub s = (if tools_created s \<noteq> [] then ''plan'' else ''execute'')"

datatype sub_node = S_retrieve | S_classify | S_plan | S_execute | S_reflect | S_tool_create | S_END

text \<open>The fixed template; with a memory it starts at \<open>retrieve\<close>, without at \<open>classify\<close>.\<close>

definition sub_start :: "bool \<Rightarrow> sub_node" where
  "sub_start memory = (if memory then S_retrieve else S_classify)"

fun next_sub :: "agent_settings \<Rightarrow> sub_node \<Rightarrow> agent_state \<Rightarrow> sub_node option" where
  "next_sub cfg S_retrieve s = Some S_classify"
| "next_sub cfg S_classify s = Some S_plan"
| "next_sub cfg S_plan s = Some S_execute"
| "next_sub cfg S_execute s = map_of [(''reflect'', S_reflect), (''execute'', S_execute)] (route_after_execute_sub cfg s)"
| "next_sub cfg S_reflect s =
     map_of [(''__end__'', S_END), (''execute'', S_execute), (''tool_create'', S_tool_create)] (route_after_reflect_sub s)"
| "next_sub cfg S_tool_create s =
     map_of [(''plan'', S_plan), (''execute'', S_execute)] (route_after_tool_create_sub s)"
| "next_sub cfg S_END s = None"

inductive sub_node_runs :: "agent_settings \<Rightarrow> sub_node \<Rightarrow> agent_state \<Rightarrow> agent_state \<Rightarrow> bool"
  for cfg :: agent_settings where
  sub_retrieve: "sub_node_runs cfg S_retrieve s (retrieve_memory_node s)"
| sub_classify: "sub_node_runs cfg S_classify s (classify_node llm now s)"
| sub_plan: "sub_node_runs cfg S_plan s (plan_node fresh cfg proposed s)"
| sub_execute: "sub_node_runs cfg S_execute s (execute_node cfg xenv s)"
| sub_reflect: "sub_node_runs cfg S_reflect s (reflect_node cfg renv s)"
| sub_tool_create: "sub_node_runs cfg S_tool_create s (tool_create_node cfg av create generated s)"

inductive_simps sub_node_runs_simps: "sub_node_runs cfg n s s'"
inductive_simps sub_node_runs_END [simp]: "sub_node_runs cfg S_END s s'"

inductive sub_step :: "agent_settings \<Rightarrow> sub_node \<times> agent_state \<Rightarrow> sub_node \<times> agent_state \<Rightarrow> bool"
  for cfg :: agent_settings where
  sub_step: "sub_node_runs cfg n s s' \<Longrightarrow> next_sub cfg n (sub_visible s') = Some m \<Longrightarrow>
     sub_step cfg (n, s) (m, sub_visible s')"

inductive_cases sub_step_cases: "sub_step cfg (n, s) (m, t)"

fun sub_run :: "agent_settings \<Rightarrow> (sub_node \<times> agent_state) list \<Rightarrow> bool" where
  "sub_run cfg [] = False"
| "sub_run cfg [c] = True"
| "sub_run cfg (c # d # cs) = (sub_step cfg c d \<and> sub_run cfg (d # cs))"

section \<open>Custom templates\<close>

text \<open>A node configuration, its JSON read; \<open>cg_nodes\<close> is nothing when the key is missing.\<close>

record graph_config =
  cg_nodes :: "string list option"
  cg_edges :: "string list list"
  cg_conditional :: "(string \<times> string \<times> (string \<times> string) list) list"

record subgraph =
  sg_nodes :: "string list"
  sg_edges :: "(string \<times> string) list"
  sg_branches :: "(string \<times> string \<times> (string \<times> string) list) list"

definition available_node_names :: "string list" where
  "available_node_names = [''classify'', ''plan'', ''execute'', ''reflect'', ''tool_create'', ''retrieve'']"

definition subgraph_router :: "string \<Rightarrow> string" where
  "subgraph_router name = (if name \<in> {''execute_loop'', ''reflect'', ''tool_create''} then name else ''reflect'')"

definition build_fixed_subgraph :: "bool \<Rightarrow> subgraph" where
  "build_fixed_subgraph memory =
     \<lparr>sg_nodes = [''classify'', ''plan'', ''execute'', ''reflect''] @ (if memory then [''retrieve''] else []) @ [''tool_create''],
      sg_edges = (if memory then [(''__start__'', ''retrieve''), (''retrieve'', ''classify'')]
                  else [(''__start__'', ''classify'')]) @ [(''classify'', ''plan''), (''plan'', ''execute'')],
      sg_branches =
        [(''execute'', ''execute_loop'', [(''reflect'', ''reflect''), (''execute'', ''execute'')]),
         (''tool_create'', ''tool_create'', [(''plan'', ''plan''), (''execute'', ''execute'')]),
         (''reflect'', ''reflect'',
          [(''__end__'', ''__end__''), (''execute'', ''execute''), (''tool_create'', ''tool_create'')])]\<rparr>"

definition custom_edge :: "string list \<Rightarrow> (string \<times> string) option" where
  "custom_edge e =
     (case e of
        [src, dst] \<Rightarrow> Some (if src = ''START'' then (''__start__'', dst)
                         else if dst = ''END'' then (src, ''__end__'') else (src, dst))
      | _ \<Rightarrow> None)"

definition build_custom_subgraph :: "graph_config \<Rightarrow> bool \<Rightarrow> subgraph" where
  "build_custom_subgraph config memory =
     (case cg_nodes config of
        None \<Rightarrow> build_fixed_subgraph memory
      | Some ns \<Rightarrow>
          let nodes = filter (\<lambda>n. n \<in> set available_node_names) ns
          in if nodes = [] then build_fixed_subgraph memory
             else \<lparr>sg_nodes = nodes, sg_edges = List.map_filter custom_edge (cg_edges config),
                   sg_branches = map (\<lambda>(src, r, targets). (src, subgraph_router r, targets)) (cg_conditional config)\<rparr>)"

text \<open>\<open>config\<close> is nothing for an empty node configuration.\<close>

definition build_subgraph :: "sub_agent_spec \<Rightarrow> graph_config option \<Rightarrow> bool \<Rightarrow> subgraph" where
  "build_subgraph sp config memory =
     (case config of
        Some c \<Rightarrow> if sp_template_type sp = ''custom'' then build_custom_subgraph c memory else build_fixed_subgraph memory
      | None \<Rightarrow> build_fixed_subgraph memory)"

section \<open>The runner\<close>

record sub_result =
  sr_success :: bool
  sr_result :: string
  sr_tokens :: int
  sr_cost :: real
  sr_iterations :: int
  sr_errors :: "string list"
  sr_goal :: string
  sr_agent :: string
  sr_quality :: "real option"
  sr_tools_created :: "(string \<times> json) list list"

definition failed_result :: "string \<Rightarrow> string \<Rightarrow> sub_agent_spec \<Rightarrow> sub_result" where
  "failed_result msg goal sp =
     \<lparr>sr_success = False, sr_result = [], sr_tokens = 0, sr_cost = 0, sr_iterations = 0, sr_errors = [msg],
      sr_goal = goal, sr_agent = sp_name sp, sr_quality = None, sr_tools_created = []\<rparr>"

text \<open>\<open>spent\<close>: the tokens and the cost the final state carries.\<close>

definition extract_results :: "int \<times> real \<Rightarrow> agent_state \<Rightarrow> string \<Rightarrow> sub_agent_spec \<Rightarrow> sub_result" where
  "extract_results spent s goal sp =
     (let done = complete_flag False s;
          conf = (case confidence s of None \<Rightarrow> LOW | Some c \<Rightarrow> c);
          accept = (\<not> done \<and> completed_steps s \<noteq> [] \<and> conf \<in> {HIGH, VERY_HIGH, MEDIUM});
          out = (if accept \<and> final_output s = [] then
                   (case reflection s of
                      Some r \<Rightarrow> rr_summary r
                    | None \<Rightarrow> ''Completed '' @ py_str (int (length (completed_steps s))) @ '' steps for: '' @ take 100 goal)
                 else final_output s)
      in \<lparr>sr_success = ((done \<or> accept) \<and> out \<noteq> []), sr_result = out, sr_tokens = fst spent, sr_cost = snd spent,
          sr_iterations = iteration_count s, sr_errors = errors s, sr_goal = goal, sr_agent = sp_name sp,
          sr_quality = map_option (\<lambda>r. min 1 (max 0 (rr_cost_efficiency r))) (reflection s),
          sr_tools_created = tools_created s\<rparr>)"

definition sub_budget :: "sub_agent_spec \<Rightarrow> real option \<Rightarrow> real option" where
  "sub_budget sp remaining = (if sp_budget_mode sp = ''shared'' then remaining else Some (sp_budget_limit sp))"

text \<open>
  \<open>invoke\<close> compiles and runs the subgraph from the initial state: the text of the exception, or the
  final state with what was spent.
\<close>

definition run_sub_agent ::
  "(subgraph \<Rightarrow> real option \<Rightarrow> agent_state \<Rightarrow> string + agent_state \<times> int \<times> real) \<Rightarrow> string \<Rightarrow> real \<Rightarrow> graph_config option \<Rightarrow> bool
    \<Rightarrow> sub_agent_spec \<Rightarrow> string \<Rightarrow> real option \<Rightarrow> int \<Rightarrow> sub_result" where
  "run_sub_agent invoke ident now config memory sp goal remaining depth =
     (if sp_depth_limit sp > 0 \<and> depth \<ge> sp_depth_limit sp
      then failed_result (''Depth limit ('' @ py_str (sp_depth_limit sp) @ '') reached'') goal sp
      else case invoke (build_subgraph sp config memory) (sub_budget sp remaining)
                  (initial_sub_agent_state ident goal now (sp_max_iterations sp)) of
        Inl exn \<Rightarrow> failed_result (''Sub-agent execution error: '' @ exn) goal sp
      | Inr (s, spent) \<Rightarrow> extract_results spent s goal sp)"

text \<open>\<open>run_parallel\<close>: one result per runner, in order; an exception is a failed result.\<close>

definition run_parallel :: "(sub_agent_spec \<times> string \<times> (string + sub_result)) list \<Rightarrow> sub_result list" where
  "run_parallel runs =
     map (\<lambda>(sp, goal, r). case r of
        Inl exn \<Rightarrow> failed_result (''Parallel execution error: '' @ exn) goal sp
      | Inr res \<Rightarrow> res) runs"

section \<open>Scoping keeps the isolation and loses the rest\<close>

lemma get_copy_tool:
  "get_tool (copy_tool parent m reg) n =
     (if n = m \<and> get_tool parent n \<noteq> None
      then map_option (\<lambda>e. stored_entry (scoped_entry n e)) (get_tool parent n) else get_tool reg n)"
  by (auto simp: copy_tool_def scoped_entry_def plain_tool_def split: option.splits)

lemma get_copy_tools:
  "get_tool (fold (copy_tool parent) ns reg) n =
     (if n \<in> set ns \<and> get_tool parent n \<noteq> None
      then map_option (\<lambda>e. stored_entry (scoped_entry n e)) (get_tool parent n) else get_tool reg n)"
  by (induction ns arbitrary: reg) (auto simp: get_copy_tool)

lemma in_keys_iff: "n \<in> fst ` set reg \<longleftrightarrow> get_tool reg n \<noteq> None"
  by (simp add: get_tool_def map_of_eq_None_iff)

text \<open>The names a sub-agent sees: all, the listed ones, or none.\<close>

definition in_scope :: "sub_agent_spec \<Rightarrow> string \<Rightarrow> bool" where
  "in_scope sp n =
     (sp_tool_scope sp = ''inherit_all'' \<or> sp_tool_scope sp = ''inherit_subset'' \<and> n \<in> set (sp_tool_subset sp))"

lemma get_scope_tools:
  "get_tool (scope_tools sp parent) n =
     (if in_scope sp n then map_option (\<lambda>e. stored_entry (scoped_entry n e)) (get_tool parent n) else None)"
  using in_keys_iff [of n parent]
  by (auto simp: scope_tools_def in_scope_def get_copy_tools) (simp_all add: get_tool_def)

lemma scoped_entry_simps [simp]:
  "en_handler (scoped_entry n e) = en_handler e" "en_generated (scoped_entry n e) = en_generated e"
  "en_cacheable (scoped_entry n e) = en_cacheable e" "en_handler_code (scoped_entry n e) = en_handler_code e"
  "en_mcp_hints (scoped_entry n e) = []" "en_contract (scoped_entry n e) = None" "en_name (scoped_entry n e) = n"
  by (simp_all add: scoped_entry_def plain_tool_def)

lemma scoped_lookups:
  "get_handler (scope_tools sp parent) n = (if in_scope sp n then get_handler parent n else None)"
  "is_cacheable (scope_tools sp parent) n \<longleftrightarrow> in_scope sp n \<and> is_cacheable parent n"
  "is_generated (scope_tools sp parent) n \<longleftrightarrow> in_scope sp n \<and> is_generated parent n"
  "get_handler_code (scope_tools sp parent) n = (if in_scope sp n then get_handler_code parent n else None)"
  by (auto simp: get_scope_tools get_handler_def is_cacheable_def is_generated_def get_handler_code_def o_def
      option.map_comp split: option.split)

text \<open>
  Fact (safety): a scoped tool is the parent's tool and stays isolated.  A sub-agent has a tool
  exactly when the parent has it and its scope names it; its handler and its cache flag are the
  parent's, and a generated tool keeps the mark and the source with which an isolated runtime
  sends it to the sandbox.
\<close>

theorem scope_keeps_isolation:
  "(get_handler (scope_tools sp parent) n = (if in_scope sp n then get_handler parent n else None)) \<and>
   (is_cacheable (scope_tools sp parent) n \<longleftrightarrow> in_scope sp n \<and> is_cacheable parent n) \<and>
   (is_generated (scope_tools sp parent) n \<longleftrightarrow> in_scope sp n \<and> is_generated parent n) \<and>
   (get_handler_code (scope_tools sp parent) n = (if in_scope sp n then get_handler_code parent n else None))"
  by (simp add: scoped_lookups)

lemma scope_drops_hints: "\<not> is_destructive (scope_tools sp parent) n"
  by (cases "get_tool parent n") (simp_all add: is_destructive_def get_mcp_hints_def get_scope_tools stored_entry_def)

text \<open>
  C12 (error): delegation bypasses the human gate.  A hand-written tool the parent registered as
  destructive is blocked for the parent when the human does not approve, but the copy the scoped
  registry hands to a sub-agent has no hints, so the same call with the same answer runs it.
\<close>

theorem delegation_bypasses_gate:
  assumes "te_hitl env" "\<not> human_approved (te_interrupt env)" "te_cache env = None"
    and "get_tool parent (rq_tool rq) = Some e" "is_destructive parent (rq_tool rq)" "\<not> en_generated e"
    and "in_scope sp (rq_tool rq)" "rq_args rq = Some args"
  shows "\<exists>r r' fx. execute_tool_call env parent rq = Some (r, []) \<and> \<not> tr_success r \<and>
    execute_tool_call env (scope_tools sp parent) rq = Some (r', Ran_in_process (en_handler e) args # fx)"
proof -
  have "execute_tool_call env parent rq = Some (tool_outcome (rq_tool rq) False []
      (Some (''Destructive tool '' @ quoted (rq_tool rq) @ '' blocked by HITL gate (not approved).'')) [], [])"
    using assms by (simp add: execute_tool_call_def Let_def get_handler_def should_gate_destructive_def)
  moreover have "\<not> is_generated (scope_tools sp parent) (rq_tool rq)"
    using assms(4,6) by (simp add: scoped_lookups) (simp add: is_generated_def)
  then have "execute_tool_call env (scope_tools sp parent) rq =
      Some (run_in_process env (scope_tools sp parent) (rq_tool rq) (en_handler e) args)"
    using assms scope_drops_hints [of sp parent "rq_tool rq"]
    by (simp add: execute_tool_call_def Let_def get_handler_def get_scope_tools should_gate_destructive_def
        may_use_cache_def invoke_generated_tool_def)
  moreover have "\<exists>r' fx. run_in_process env (scope_tools sp parent) (rq_tool rq) (en_handler e) args =
      (r', Ran_in_process (en_handler e) args # fx)"
    by (auto simp: run_in_process_def Let_def split: sum.split)
  ultimately show ?thesis by (auto simp: tool_outcome_def)
qed

section \<open>How long a run may take\<close>

lemma sub_visible_simps [simp]:
  "iteration_count (sub_visible s) = iteration_count s" "max_iterations (sub_visible s) = max_iterations s"
  "errors (sub_visible s) = errors s" "pending_tool_gaps (sub_visible s) = pending_tool_gaps s"
  "attempted_tool_gaps (sub_visible s) = attempted_tool_gaps s" "tools_created (sub_visible s) = tools_created s"
  "confidence (sub_visible s) = confidence s" "plan_steps (sub_visible s) = plan_steps s"
  "sub_max (sub_visible s) = sub_max s"
  by (simp_all add: sub_visible_def sub_max_def)

lemma sub_node_frame:
  assumes "sub_node_runs cfg n s s'"
  shows "max_iterations s' = max_iterations s" "iteration_count s \<le> iteration_count s'"
    "n = S_execute \<Longrightarrow> iteration_count s' = iteration_count s + 1"
  using assms by (induction rule: sub_node_runs.induct) (auto simp: small_node_defs plan_node_def)

lemma sub_max_cong: "max_iterations s' = max_iterations s \<Longrightarrow> sub_max s' = sub_max s"
  by (simp add: sub_max_def)

text \<open>Iterations left, and the longest run from a node when no further tool is asked for.\<close>

definition sub_left :: "agent_state \<Rightarrow> nat" where
  "sub_left s = nat (sub_max s - iteration_count s)"

fun sub_weight :: "sub_node \<Rightarrow> nat \<Rightarrow> nat" where
  "sub_weight S_retrieve r = 2 * r + 6"
| "sub_weight S_classify r = 2 * r + 5"
| "sub_weight S_plan r = 2 * r + 4"
| "sub_weight S_execute r = 2 * r + 3"
| "sub_weight S_reflect r = (if r = 0 then 2 else 2 * r + 4)"
| "sub_weight S_tool_create r = 2 * r + 5"
| "sub_weight S_END r = 1"

definition tool_rounds :: "(sub_node \<times> agent_state) list \<Rightarrow> nat" where
  "tool_rounds cs = length (filter (\<lambda>c. fst c = S_tool_create) cs)"

lemma sub_step_weight:
  assumes "sub_step cfg (n, s) (m, t)"
  shows "1 + sub_weight m (sub_left t) \<le> sub_weight n (sub_left s) + (if m = S_tool_create then 4 else 0)"
proof -
  from assms obtain s' where run: "sub_node_runs cfg n s s'" and nx: "next_sub cfg n (sub_visible s') = Some m"
    and t: "t = sub_visible s'" by (rule sub_step_cases) auto
  note fr = sub_node_frame [OF run]
  have mx: "sub_max t = sub_max s" unfolding t using sub_max_cong [OF fr(1)] by simp
  have it: "iteration_count s \<le> iteration_count t" unfolding t using fr(2) by simp
  then have le: "sub_left t \<le> sub_left s" unfolding sub_left_def mx by simp
  show ?thesis
  proof (cases n)
    case S_execute
    then have it1: "iteration_count t = iteration_count s + 1" unfolding t using fr(3) by simp
    show ?thesis
    proof (cases "iteration_count t < sub_max t")
      case True
      then have "sub_left s = Suc (sub_left t)" "sub_left t \<noteq> 0" unfolding sub_left_def mx it1 by simp_all
      with nx S_execute show ?thesis by (auto split: if_splits)
    next
      case False
      then have "m = S_reflect" "sub_left t = 0"
        using nx S_execute unfolding sub_left_def t by (simp_all add: route_after_execute_sub_def)
      with S_execute show ?thesis by simp
    qed
  next
    case S_reflect
    have "m = S_execute \<longrightarrow> iteration_count t < sub_max t"
      using nx S_reflect unfolding t by (auto simp: route_after_reflect_sub_def split: if_splits)
    then have "m = S_execute \<longrightarrow> 0 < sub_left t" unfolding sub_left_def by simp
    with nx S_reflect le show ?thesis by (auto split: if_splits)
  qed (use nx le in \<open>auto simp: route_after_tool_create_sub_def split: if_splits\<close>)
qed

text \<open>
  C9 (termination): a sub-agent's run is linear in its budget and in the tools it asks for.  Every
  run of the fixed template, whatever the model, the tools and the planner answer, has at most
  twice the iteration budget plus six nodes, and four more for each visit of \<open>tool_create\<close>.
\<close>

theorem sub_run_bounded:
  assumes "sub_run cfg ((sub_start memory, initial_sub_agent_state ident goal now max_iter) # cs)" "0 \<le> max_iter"
  shows "int (length cs) + 1 \<le> 2 * max_iter + 6 + 4 * int (tool_rounds cs)"
proof -
  have "length (c # cs) \<le> sub_weight (fst c) (sub_left (snd c)) + 4 * tool_rounds cs" if "sub_run cfg (c # cs)" for c
    using that
  proof (induction cs arbitrary: c)
    case Nil
    then show ?case by (cases "fst c") (simp_all add: tool_rounds_def)
  next
    case (Cons d ds)
    obtain n s m t where c: "c = (n, s)" and d: "d = (m, t)" by fastforce
    have "sub_step cfg (n, s) (m, t)" "sub_run cfg (d # ds)" using Cons.prems c d by simp_all
    then show ?case using sub_step_weight [of cfg n s m t] Cons.IH [of d]
      by (auto simp: c d tool_rounds_def split: if_splits)
  qed
  from this [OF assms(1)] assms(2) show ?thesis
    by (simp add: sub_start_def sub_left_def sub_max_def initial_sub_agent_state_def split: if_splits)
qed

section \<open>The gap loop\<close>

text \<open>A reflection that only asks for one tool, and a creation that fails.\<close>

definition asking :: "string \<Rightarrow> reflect_env" where
  "asking g =
     \<lparr>re_extract = (\<lambda>_. None), re_on_disk = (\<lambda>_. False), re_has_tools = False, re_registered = (\<lambda>_. False),
      re_uniq = remdups,
      re_outcome = Analysed \<lparr>an_progress = [], an_lessons = [], an_confidence = MEDIUM, an_should_evolve = False,
        an_should_replan = False, an_observations = [], an_missing_tools = [g], an_missing_sub_agents = []\<rparr>\<rparr>"

definition failed_creation :: "agent_settings \<Rightarrow> agent_state \<Rightarrow> agent_state" where
  "failed_creation cfg s = tool_create_node cfg True (\<lambda>_ _. None) 0 s"

lemma asking_state:
  assumes "g \<notin> set (attempted_tool_gaps s)"
  shows "pending_tool_gaps (reflect_node cfg (asking g) s) = [g]"
    "tools_created (reflect_node cfg (asking g) s) = tools_created s"
  using assms by (simp_all add: reflect_node_def asking_def llm_reflect_def fresh_gaps_def Let_def)

lemma failed_creation_created [simp]: "tools_created (failed_creation cfg s) = tools_created s"
  by (simp add: failed_creation_def tool_create_node_def Let_def stamp_cap_round_def map_filter_def)

lemma execute_created [simp]: "tools_created (execute_node cfg xenv s) = tools_created s"
  by (simp add: execute_defs split: option.split exec_result.split)

lemma fresh_gap: "\<exists>g :: string. g \<notin> set gs"
  using ex_new_if_finite [of "set gs :: string set"] infinite_UNIV_listI by blast

lemma gap_round:
  assumes "sub_max s \<le> iteration_count s" "tools_created s = []"
  shows "\<exists>t1 t2 t3. sub_step cfg (S_reflect, s) (S_tool_create, t1) \<and>
    sub_step cfg (S_tool_create, t1) (S_execute, t2) \<and> sub_step cfg (S_execute, t2) (S_reflect, t3) \<and>
    sub_max t3 \<le> iteration_count t3 \<and> tools_created t3 = []"
proof -
  obtain g where g: "g \<notin> set (attempted_tool_gaps s)" using fresh_gap by blast
  let ?t1 = "sub_visible (reflect_node cfg (asking g) s)"
  let ?t2 = "sub_visible (failed_creation cfg ?t1)"
  let ?t3 = "sub_visible (execute_node cfg demo_exec_env ?t2)"
  have m: "sub_max ?t1 = sub_max s" "sub_max ?t2 = sub_max s" "sub_max ?t3 = sub_max s"
    by (simp_all add: sub_max_def failed_creation_def)
  have "sub_step cfg (S_reflect, s) (S_tool_create, ?t1)"
    by (rule sub_step [OF sub_reflect]) (simp add: route_after_reflect_sub_def asking_state [OF g])
  moreover have "sub_step cfg (S_tool_create, ?t1) (S_execute, ?t2)"
    unfolding failed_creation_def
    by (rule sub_step [OF sub_tool_create], fold failed_creation_def)
       (simp add: route_after_tool_create_sub_def asking_state [OF g] assms(2))
  moreover have "sub_step cfg (S_execute, ?t2) (S_reflect, ?t3)"
    by (rule sub_step [OF sub_execute])
       (use assms(1) in \<open>simp add: route_after_execute_sub_def sub_max_def failed_creation_def\<close>)
  moreover have "sub_max ?t3 \<le> iteration_count ?t3"
    using assms(1) unfolding m by (simp add: failed_creation_def)
  moreover have "tools_created ?t3 = []" by (simp add: asking_state [OF g] assms(2))
  ultimately show ?thesis by blast
qed


section \<open>Results\<close>

text \<open>
  Fact (functional): when a sub-agent succeeds.  A run that returned is a success exactly when it
  produced an output and either completed explicitly or finished a step and reflected at least
  medium confidence; errors on the way do not count, and a rated quality lies between 0 and 1.
\<close>

theorem sub_success_iff:
  "(sr_success (extract_results spent s goal sp) \<longleftrightarrow>
     sr_result (extract_results spent s goal sp) \<noteq> [] \<and>
     (complete_flag False s \<or> completed_steps s \<noteq> [] \<and> confidence s \<in> {Some MEDIUM, Some HIGH, Some VERY_HIGH})) \<and>
   (case sr_quality (extract_results spent s goal sp) of None \<Rightarrow> reflection s = None | Some q \<Rightarrow> 0 \<le> q \<and> q \<le> 1)"
  by (auto simp: extract_results_def Let_def split: option.split)

lemma extract_results_agent [simp]:
  "sr_agent (extract_results spent s goal sp) = sp_name sp" "sr_goal (extract_results spent s goal sp) = goal"
  by (simp_all add: extract_results_def Let_def)

text \<open>
  Fact (safety): the depth limit is never exceeded and no failure escapes.  At or below a positive
  depth limit nothing is invoked; every other failure is a failed result that names the agent.
\<close>

theorem runner_contains_failures:
  "let r = run_sub_agent invoke ident now config memory sp goal remaining depth
   in sr_agent r = sp_name sp \<and> sr_goal r = goal \<and>
      (if 0 < sp_depth_limit sp \<and> sp_depth_limit sp \<le> depth
       then \<not> sr_success r \<and> sr_iterations r = 0 \<and> (\<forall>inv. run_sub_agent inv ident now config memory sp goal remaining depth = r)
       else case invoke (build_subgraph sp config memory) (sub_budget sp remaining)
              (initial_sub_agent_state ident goal now (sp_max_iterations sp)) of
            Inl exn \<Rightarrow> \<not> sr_success r \<and> sr_errors r = [''Sub-agent execution error: '' @ exn]
          | Inr out \<Rightarrow> r = extract_results (snd out) (fst out) goal sp)"
  by (auto simp: run_sub_agent_def failed_result_def Let_def split: sum.split prod.split)

section \<open>Templates\<close>

text \<open>
  Fact (safety): no sub-agent evolves the parent.  Whatever node configuration is stored, every node
  of the graph that is built is one of the six available ones, so never \<open>evolve\<close>, and the graph
  has at least one node.
\<close>

theorem subgraph_nodes_available:
  "set (sg_nodes (build_subgraph sp config memory)) \<subseteq> set available_node_names \<and>
   ''evolve'' \<notin> set (sg_nodes (build_subgraph sp config memory)) \<and>
   sg_nodes (build_subgraph sp config memory) \<noteq> []"
  by (auto simp: build_subgraph_def build_custom_subgraph_def build_fixed_subgraph_def available_node_names_def Let_def
      split: option.split)

text \<open>
  Fact (error): a bad edge is not replaced by the template.  The documentation promises the fixed
  template for an invalid configuration; an edge to a node that was skipped or never named is
  passed on as it is.
\<close>

theorem dangling_edge_kept:
  assumes "sp_template_type sp = ''custom''" "cg_nodes c = Some ns" "n \<in> set ns" "n \<in> set available_node_names"
    and "[n, m] \<in> set (cg_edges c)" "n \<noteq> ''START''" "m \<noteq> ''END''" "m \<notin> set available_node_names"
  shows "(n, m) \<in> set (sg_edges (build_subgraph sp (Some c) memory)) \<and> m \<notin> set (sg_nodes (build_subgraph sp (Some c) memory))"
proof -
  have "filter (\<lambda>n. n \<in> set available_node_names) ns \<noteq> []" using assms(3,4) by (auto simp: filter_empty_conv)
  moreover have "(n, m) \<in> set (List.map_filter custom_edge (cg_edges c))"
    using assms(5-7) by (force simp: List.map_filter_def custom_edge_def)
  ultimately show ?thesis using assms by (simp add: build_subgraph_def build_custom_subgraph_def Let_def)
qed

section \<open>Instances\<close>

theorem delegation_bypasses_gate_witness:
  "\<exists>r fx. execute_tool_call (demo_tool_env\<lparr>te_interrupt := None, te_cache := None\<rparr>)
      (scope_tools (demo_agent ''ann'' 1 1) demo_registry) (demo_call ''terminal_command'' (JObj [])) =
    Some (r, Ran_in_process ''shell'' (JObj []) # fx)"
proof -
  have e: "get_tool demo_registry ''terminal_command'' =
      Some (stored_entry ((plain_tool ''terminal_command'' ''shell'' [] [])\<lparr>en_mcp_hints := [(''destructiveHint'', True)]\<rparr>))"
    by (simp add: demo_registry_def plain_tool_def)
  have "is_destructive demo_registry ''terminal_command''" by (simp add: demo_tool_simps)
  then show ?thesis
    using delegation_bypasses_gate [of "demo_tool_env\<lparr>te_interrupt := None, te_cache := None\<rparr>" demo_registry
        "demo_call ''terminal_command'' (JObj [])" _ "demo_agent ''ann'' 1 1" "JObj []"] e
    by (auto simp: demo_call_def demo_tool_env_def human_approved_def in_scope_def demo_agent_def plain_tool_def)
qed

definition demo_sub_state :: agent_state where
  "demo_sub_state = initial_sub_agent_state ''g'' ''count'' 0 2"

theorem sub_run_bounded_witness:
  "int (length [(S_plan, sub_visible (classify_node None 0 demo_sub_state))]) + 1 \<le> 2 * 2 + 6"
proof -
  have "sub_run default_settings
      [(sub_start False, demo_sub_state), (S_plan, sub_visible (classify_node None 0 demo_sub_state))]"
    by (simp add: sub_start_def) (rule sub_step [OF sub_classify], simp)
  from sub_run_bounded [OF this [unfolded demo_sub_state_def]] show ?thesis by (simp add: tool_rounds_def)
qed


theorem dangling_edge_kept_witness:
  "(''plan'', ''evolve'') \<in> set (sg_edges (build_subgraph ((demo_agent ''ann'' 1 1)\<lparr>sp_template_type := ''custom''\<rparr>)
     (Some \<lparr>cg_nodes = Some [''plan'', ''evolve''], cg_edges = [[''plan'', ''evolve'']], cg_conditional = []\<rparr>) False))"
  using dangling_edge_kept [of "(demo_agent ''ann'' 1 1)\<lparr>sp_template_type := ''custom''\<rparr>"
      "\<lparr>cg_nodes = Some [''plan'', ''evolve''], cg_edges = [[''plan'', ''evolve'']], cg_conditional = []\<rparr>"
      "[''plan'', ''evolve'']" "''plan''" "''evolve''" False]
  by (simp add: available_node_names_def demo_agent_def)

end
