(* ===== verification/Tool_Paths.thy ===== *)
theory Tool_Paths
  imports Prelude
begin

text \<open>
  Where a tool's path lands on disk (\<open>src/src/tools/_paths.py\<close>).  A path is the list of its
  \<open>parts\<close> as \<open>pathlib\<close> computes them (the root of an absolute path is a part of its own); the
  settings and the bound run are fields of an environment, and what the file system answers
  (\<open>resolve\<close>, \<open>exists\<close>) are functions of it, \<open>exists\<close> with \<open>None\<close> for an \<open>OSError\<close>.
\<close>

section \<open>Paths\<close>

type_synonym path = "string list"

definition path_root :: "string \<Rightarrow> path" where
  "path_root s =
     (if prefix ''//'' s \<and> \<not> prefix ''///'' s then [''//''] else if prefix ''/'' s then [''/''] else [])"

definition py_parts :: "string \<Rightarrow> path" where
  "py_parts s = path_root s @ filter (\<lambda>c. c \<noteq> [] \<and> c \<noteq> ''.'') (split_on CHR ''/'' s)"

definition is_absolute :: "path \<Rightarrow> bool" where
  "is_absolute p = (p \<noteq> [] \<and> hd p \<in> {''/'', ''//''})"

text \<open>\<open>a / b\<close> and \<open>Path(*segments)\<close>: an absolute operand drops what is before it.\<close>

definition path_join :: "path \<Rightarrow> path \<Rightarrow> path" where
  "path_join a b = (if is_absolute b then b else a @ b)"

definition path_of :: "string list \<Rightarrow> path" where
  "path_of segs = fold (\<lambda>s acc. path_join acc (py_parts s)) segs []"

definition path_name :: "path \<Rightarrow> string" where
  "path_name p = (if p = [] \<or> last p \<in> {''/'', ''//''} then [] else last p)"

definition is_relative_to :: "path \<Rightarrow> path \<Rightarrow> bool" where
  "is_relative_to p base = prefix base p"

text \<open>\<open>resolve()\<close> where no component is a symbolic link.\<close>

fun collapse :: "path \<Rightarrow> path \<Rightarrow> path" where
  "collapse acc [] = acc"
| "collapse acc (c # cs) = collapse (if c = ''..'' then butlast acc else acc @ [c]) cs"

definition lexical_resolve :: "path \<Rightarrow> path \<Rightarrow> path" where
  "lexical_resolve cwd p = (if is_absolute p then hd p # collapse [] (tl p) else hd cwd # collapse [] (tl cwd @ p))"

section \<open>The environment\<close>

record path_env =
  pe_results_root :: string
  pe_workspace_root :: string
  pe_per_run_subdir :: bool
  pe_run_id :: "string option"
  pe_resolve :: "path \<Rightarrow> path"
  pe_exists :: "path \<Rightarrow> bool option"

datatype path_error =
    Unknown_base string
  | Traversal_blocked string
  | Unsafe_run_id string
  | Subdir_escapes path
  | Os_failure

definition set_active_run_id :: "string option \<Rightarrow> path_env \<Rightarrow> path_env" where
  "set_active_run_id rid env = env\<lparr>pe_run_id := rid\<rparr>"

definition subdir_active :: "path_env \<Rightarrow> bool" where
  "subdir_active env = (pe_run_id env \<noteq> None \<and> pe_per_run_subdir env)"

definition results_root :: "path_env \<Rightarrow> path" where
  "results_root env = pe_resolve env (py_parts (pe_results_root env))"

definition workspace_root :: "path_env \<Rightarrow> path" where
  "workspace_root env = pe_resolve env (py_parts (pe_workspace_root env))"

definition project_root :: "path_env \<Rightarrow> path" where
  "project_root env = (if length (results_root env) \<le> 1 then results_root env else butlast (results_root env))"

datatype path_base = Named_base string | At_base path

definition resolve_base :: "path_env \<Rightarrow> path_base \<Rightarrow> path_error + path" where
  "resolve_base env base =
     (case base of
        At_base p \<Rightarrow> Inr (pe_resolve env p)
      | Named_base n \<Rightarrow>
          if n = ''results'' then Inr (results_root env)
          else if n = ''workspace'' then Inr (workspace_root env)
          else if n = ''project'' then Inr (project_root env)
          else Inl (Unknown_base n))"

section \<open>De-nesting and the run's folder\<close>

definition strip_names :: "path_env \<Rightarrow> string list \<Rightarrow> string set" where
  "strip_names env extra =
     py_lower ` {n \<in> set ([''results'', path_name (py_parts (pe_results_root env)),
        path_name (py_parts (pe_workspace_root env))] @ extra). n \<noteq> []}"

fun strip_loop :: "string set \<Rightarrow> path \<Rightarrow> path" where
  "strip_loop names (p # q # ps) = (if py_lower p \<in> names then strip_loop names (q # ps) else p # q # ps)"
| "strip_loop names ps = ps"

definition strip_parts :: "path_env \<Rightarrow> string list \<Rightarrow> path \<Rightarrow> path" where
  "strip_parts env extra ps = strip_loop (strip_names env extra) ps"

definition strip_results_prefix :: "path_env \<Rightarrow> path \<Rightarrow> path" where
  "strip_results_prefix env ps = strip_parts env [] ps"

definition maybe_inject_run_subdir :: "path_env \<Rightarrow> path \<Rightarrow> path \<Rightarrow> path" where
  "maybe_inject_run_subdir env ps rt =
     (case pe_run_id env of
        None \<Rightarrow> ps
      | Some rid \<Rightarrow>
          if \<not> subdir_active env then ps
          else if rt \<noteq> results_root env then ps
          else if ps \<noteq> [] \<and> hd ps = rid then ps
          else rid # ps)"

definition run_id_char :: "char \<Rightarrow> bool" where
  "run_id_char c = (CHR ''A'' \<le> c \<and> c \<le> CHR ''Z'' \<or> CHR ''a'' \<le> c \<and> c \<le> CHR ''z'' \<or> is_digit c \<or>
     c \<in> {CHR ''_'', CHR ''.'', CHR ''-''})"

definition safe_run_id :: "string \<Rightarrow> bool" where
  "safe_run_id rid = (rid \<noteq> [] \<and> rid \<noteq> ''.'' \<and> rid \<noteq> ''..'' \<and> list_all run_id_char rid)"

definition run_subdir_path :: "path_env \<Rightarrow> string \<Rightarrow> path_error + path" where
  "run_subdir_path env rid =
     (if \<not> safe_run_id rid then Inl (Unsafe_run_id rid)
      else let base = results_root env; sub = pe_resolve env (path_join base (py_parts rid))
           in if sub = base \<or> \<not> is_relative_to sub base then Inl (Subdir_escapes sub) else Inr sub)"

text \<open>
  \<open>rmtree\<close> is given by the trees it can remove; the answer is the tree that was removed.  An
  \<open>OSError\<close> of \<open>exists\<close> is outside the handler.
\<close>

definition clean_run_subdir :: "path_env \<Rightarrow> (path \<Rightarrow> bool) \<Rightarrow> string \<Rightarrow> path_error + path option" where
  "clean_run_subdir env rmtree_ok rid =
     (case run_subdir_path env rid of
        Inl _ \<Rightarrow> Inr None
      | Inr sub \<Rightarrow>
          (case pe_exists env sub of
             None \<Rightarrow> Inl Os_failure
           | Some e \<Rightarrow> Inr (if e \<and> rmtree_ok sub then Some sub else None)))"

fun clear_flat_results_subdirs ::
  "path_env \<Rightarrow> (path \<Rightarrow> bool) \<Rightarrow> string list \<Rightarrow> path list \<Rightarrow> path_error + path list" where
  "clear_flat_results_subdirs env rmtree_ok [] removed = Inr removed"
| "clear_flat_results_subdirs env rmtree_ok (s # ss) removed =
     (case clean_run_subdir env rmtree_ok s of
        Inl e \<Rightarrow> Inl e
      | Inr None \<Rightarrow> clear_flat_results_subdirs env rmtree_ok ss removed
      | Inr (Some d) \<Rightarrow> clear_flat_results_subdirs env rmtree_ok ss (removed @ [d]))"

section \<open>Writing and reading\<close>

definition normalize :: "path_env \<Rightarrow> path_base \<Rightarrow> string \<Rightarrow> path_error + path" where
  "normalize env base raw =
     (case resolve_base env base of
        Inl e \<Rightarrow> Inl e
      | Inr rt \<Rightarrow>
          let ps = maybe_inject_run_subdir env (strip_parts env [path_name rt] (py_parts raw)) rt;
              target = (if ps = [] then rt else pe_resolve env (path_join rt (path_of ps)))
          in if \<not> is_relative_to target rt then Inl (Traversal_blocked raw) else Inr target)"

definition resolve_existing :: "path_env \<Rightarrow> path_base \<Rightarrow> string \<Rightarrow> path_error + path" where
  "resolve_existing env base raw =
     (case normalize env base raw of
        Inl e \<Rightarrow> Inl e
      | Inr primary \<Rightarrow>
          (case pe_exists env primary of
             None \<Rightarrow> Inl Os_failure
           | Some True \<Rightarrow> Inr primary
           | Some False \<Rightarrow>
               (case resolve_base env base of
                  Inl e \<Rightarrow> Inl e
                | Inr rt \<Rightarrow>
                    let ps = strip_parts env [path_name rt] (py_parts raw);
                        flat = (if ps = [] then rt else pe_resolve env (path_join rt (path_of ps)))
                    in if flat \<noteq> primary \<and> is_relative_to flat rt
                       then (case pe_exists env flat of
                               None \<Rightarrow> Inl Os_failure
                             | Some e \<Rightarrow> Inr (if e then flat else primary))
                       else Inr primary)))"

definition isolated_results_root :: "path_env \<Rightarrow> path option" where
  "isolated_results_root env =
     (case pe_run_id env of
        None \<Rightarrow> None
      | Some rid \<Rightarrow>
          if \<not> subdir_active env then None
          else case run_subdir_path env rid of Inl _ \<Rightarrow> None | Inr sub \<Rightarrow> Some sub)"

definition deliverable_candidates :: "path_env \<Rightarrow> string \<Rightarrow> path list" where
  "deliverable_candidates env raw =
     (let base = (case isolated_results_root env of Some cell \<Rightarrow> At_base cell | None \<Rightarrow> Named_base ''results'');
          normalized = (\<lambda>b. case normalize env b raw of Inl _ \<Rightarrow> [] | Inr p \<Rightarrow> [p]);
          ps = strip_results_prefix env (py_parts raw)
      in normalized base @ normalized (Named_base ''workspace'') @
         (if ps = [] then [] else [path_of ps]) @ [py_parts raw])"

definition counts_as_deliverable :: "path_env \<Rightarrow> path \<Rightarrow> bool" where
  "counts_as_deliverable env resolved =
     (case isolated_results_root env of
        None \<Rightarrow> True
      | Some cell \<Rightarrow> \<not> (is_relative_to resolved (results_root env) \<and> \<not> is_relative_to resolved cell))"

fun first_deliverable :: "path_env \<Rightarrow> path list \<Rightarrow> path option" where
  "first_deliverable env [] = None"
| "first_deliverable env (c # cs) =
     (if pe_exists env c \<noteq> Some True then first_deliverable env cs
      else let resolved = pe_resolve env c
           in if \<not> counts_as_deliverable env resolved then first_deliverable env cs else Some resolved)"

definition resolve_deliverable :: "path_env \<Rightarrow> string \<Rightarrow> path option" where
  "resolve_deliverable env raw = first_deliverable env (deliverable_candidates env raw)"

section \<open>Parsing\<close>

definition plain_comp :: "string \<Rightarrow> bool" where
  "plain_comp c = (CHR ''/'' \<notin> set c \<and> c \<noteq> [] \<and> c \<noteq> ''.'')"

lemma split_on_no_sep: "c \<in> set (split_on sep s) \<Longrightarrow> sep \<notin> set c"
  by (induction sep s arbitrary: c rule: split_on.induct) (auto split: if_splits list.splits)

lemma split_on_whole: "sep \<notin> set s \<Longrightarrow> split_on sep s = [s]"
  by (induction s) auto

lemma split_on_append: "sep \<notin> set a \<Longrightarrow> split_on sep (a @ sep # s) = a # split_on sep s"
  by (induction a) auto

lemma path_root_relative [simp]: "\<not> prefix ''/'' s \<Longrightarrow> path_root s = []"
  by (cases s) (auto simp: path_root_def)

lemma plain_not_slash: "plain_comp c \<Longrightarrow> \<not> prefix ''/'' c"
  by (cases c) (auto simp: plain_comp_def)

lemma py_parts_plain [simp]: "plain_comp c \<Longrightarrow> py_parts c = [c]"
  using plain_not_slash [of c] by (simp add: py_parts_def plain_comp_def split_on_whole)

lemma py_parts_relative: "\<not> prefix ''/'' s \<Longrightarrow> list_all plain_comp (py_parts s)"
  using split_on_no_sep by (fastforce simp: py_parts_def list_all_iff plain_comp_def)

lemma py_parts_cons:
  assumes "plain_comp c" "\<not> prefix ''/'' s"
  shows "py_parts (c @ ''/'' @ s) = c # py_parts s"
proof -
  from assms(1) have "\<not> prefix ''/'' (c @ ''/'' @ s)" by (cases c) (auto simp: plain_comp_def)
  then show ?thesis using assms by (simp add: py_parts_def plain_comp_def split_on_append)
qed

lemma plain_absolute [simp]: "list_all plain_comp p \<Longrightarrow> \<not> is_absolute p"
  by (cases p) (auto simp: is_absolute_def plain_comp_def)

lemma path_of_plain [simp]: "list_all plain_comp cs \<Longrightarrow> path_of cs = cs"
proof -
  have "list_all plain_comp cs \<Longrightarrow> fold (\<lambda>s acc. path_join acc (py_parts s)) cs acc = acc @ cs" for acc
    by (induction cs arbitrary: acc) (auto simp: path_join_def)
  then show "list_all plain_comp cs \<Longrightarrow> path_of cs = cs" by (simp add: path_of_def)
qed

lemma strip_loop_suffix: "suffix (strip_loop names ps) ps"
  by (induction names ps rule: strip_loop.induct) (auto intro: suffix_ConsI)

lemma strip_loop_Nil [simp]: "strip_loop names ps = [] \<longleftrightarrow> ps = []"
  by (induction names ps rule: strip_loop.induct) auto

lemma list_all_suffix: "suffix xs ys \<Longrightarrow> list_all P ys \<Longrightarrow> list_all P xs"
  by (auto simp: suffix_def)

lemma strip_parts_plain: "list_all plain_comp ps \<Longrightarrow> list_all plain_comp (strip_parts env ex ps)"
  unfolding strip_parts_def by (rule list_all_suffix [OF strip_loop_suffix])

lemma strip_parts_dots: "''..'' \<notin> set ps \<Longrightarrow> ''..'' \<notin> set (strip_parts env ex ps)"
  unfolding strip_parts_def using set_mono_suffix [OF strip_loop_suffix] by blast

section \<open>Resolution without links\<close>

lemma collapse_append: "collapse acc (xs @ ys) = collapse (collapse acc xs) ys"
  by (induction xs arbitrary: acc) auto

lemma collapse_no_dots [simp]: "''..'' \<notin> set xs \<Longrightarrow> collapse acc xs = acc @ xs"
  by (induction xs arbitrary: acc) auto

lemma collapse_dots: "''..'' \<notin> set acc \<Longrightarrow> ''..'' \<notin> set (collapse acc xs)"
  by (induction xs arbitrary: acc) (auto dest: in_set_butlastD)

definition links_free :: "path \<Rightarrow> path_env \<Rightarrow> bool" where
  "links_free cwd env = (pe_resolve env = lexical_resolve cwd \<and> is_absolute cwd)"

definition resolved_path :: "path \<Rightarrow> bool" where
  "resolved_path p = (is_absolute p \<and> ''..'' \<notin> set (tl p))"

lemma lexical_resolved: "is_absolute cwd \<Longrightarrow> resolved_path (lexical_resolve cwd p)"
  by (auto simp: resolved_path_def lexical_resolve_def is_absolute_def collapse_dots)

lemma resolved_ne: "resolved_path p \<Longrightarrow> p \<noteq> []"
  by (auto simp: resolved_path_def is_absolute_def)

lemma resolve_below:
  assumes "links_free cwd env" "resolved_path p"
  shows "pe_resolve env (p @ xs) = hd p # collapse (tl p) xs"
  using assms
  by (cases p) (auto simp: links_free_def resolved_path_def lexical_resolve_def is_absolute_def collapse_append)

lemma resolve_plain:
  assumes "links_free cwd env" "resolved_path p" "''..'' \<notin> set xs"
  shows "pe_resolve env (p @ xs) = p @ xs"
  using resolve_below [OF assms(1,2)] assms(3) resolved_ne [OF assms(2)] by simp

lemma resolve_again: "links_free cwd env \<Longrightarrow> resolved_path p \<Longrightarrow> pe_resolve env p = p"
  using resolve_plain [of cwd env p "[]"] by simp

lemma results_root_resolved: "links_free cwd env \<Longrightarrow> resolved_path (results_root env)"
  by (simp add: links_free_def results_root_def lexical_resolved)

lemma run_id_char_not: "run_id_char c \<Longrightarrow> c \<noteq> CHR ''/''"
  by (auto simp: run_id_char_def is_digit_def less_eq_char_def)

lemma safe_run_id_plain: "safe_run_id rid \<Longrightarrow> plain_comp rid \<and> rid \<noteq> ''..''"
  using run_id_char_not by (auto simp: safe_run_id_def plain_comp_def list_all_iff)

lemma run_subdir_eq:
  assumes "links_free cwd env" "safe_run_id rid"
  shows "run_subdir_path env rid = Inr (results_root env @ [rid])"
proof -
  have p: "plain_comp rid" "rid \<noteq> ''..''" using safe_run_id_plain [OF assms(2)] by simp_all
  then have "pe_resolve env (results_root env @ [rid]) = results_root env @ [rid]"
    by (intro resolve_plain [OF assms(1) results_root_resolved [OF assms(1)]]) simp
  then show ?thesis using p assms(2) by (simp add: run_subdir_path_def Let_def path_join_def is_relative_to_def)
qed

text \<open>
  Fact (safety): a cleanup removes only folders of the results root.  Whatever names the API, the
  worker or the battery hands over, every tree that is removed is a direct child of the results
  root named by one of them; the root itself, a parent or a sibling never is.
\<close>

theorem cleanup_confined:
  assumes "links_free cwd env" "clear_flat_results_subdirs env rmtree_ok subs [] = Inr removed"
  shows "list_all (\<lambda>d. \<exists>s. s \<in> set subs \<and> safe_run_id s \<and> d = results_root env @ [s]) removed"
proof -
  have one: "d = results_root env @ [s] \<and> safe_run_id s"
    if "clean_run_subdir env rmtree_ok s = Inr (Some d)" for s d
    using that run_subdir_eq [OF assms(1), of s]
    by (cases "safe_run_id s") (auto simp: clean_run_subdir_def run_subdir_path_def split: option.splits if_splits)
  have "clear_flat_results_subdirs env rmtree_ok subs acc = Inr removed \<Longrightarrow>
      \<exists>ds. removed = acc @ ds \<and> list_all (\<lambda>d. \<exists>s. s \<in> set subs \<and> safe_run_id s \<and> d = results_root env @ [s]) ds" for acc
  proof (induction subs arbitrary: acc)
    case (Cons s ss)
    show ?case
    proof (cases "clean_run_subdir env rmtree_ok s")
      case (Inr r)
      with Cons.prems Cons.IH one [of s] show ?thesis
        by (cases r) (fastforce simp: list_all_iff)+
    qed (use Cons.prems in simp)
  qed simp
  from this [OF assms(2)] show ?thesis by simp
qed

section \<open>The run's cell\<close>

definition isolated :: "string \<Rightarrow> path_env \<Rightarrow> bool" where
  "isolated rid env = (pe_run_id env = Some rid \<and> pe_per_run_subdir env \<and> safe_run_id rid)"

definition cell_of :: "string \<Rightarrow> path_env \<Rightarrow> path" where
  "cell_of rid env = results_root env @ [rid]"

lemma isolated_cell:
  "links_free cwd env \<Longrightarrow> isolated rid env \<Longrightarrow> isolated_results_root env = Some (cell_of rid env)"
  by (simp add: isolated_results_root_def isolated_def subdir_active_def run_subdir_eq cell_of_def)

lemma inject_isolated:
  "isolated rid env \<Longrightarrow> maybe_inject_run_subdir env ps (results_root env) =
     (if ps \<noteq> [] \<and> hd ps = rid then ps else rid # ps)"
  by (auto simp: maybe_inject_run_subdir_def isolated_def subdir_active_def)

definition run_parts :: "string \<Rightarrow> path_env \<Rightarrow> string \<Rightarrow> path" where
  "run_parts rid env raw =
     (let ps = strip_parts env [path_name (results_root env)] (py_parts raw)
      in if ps \<noteq> [] \<and> hd ps = rid then tl ps else ps)"

lemma run_parts_inject:
  "isolated rid env \<Longrightarrow>
     maybe_inject_run_subdir env (strip_parts env [path_name (results_root env)] (py_parts raw)) (results_root env) =
     rid # run_parts rid env raw"
  by (auto simp: inject_isolated run_parts_def Let_def)

lemma run_parts_plain:
  assumes "\<not> prefix ''/'' raw"
  shows "list_all plain_comp (run_parts rid env raw)"
proof -
  have "list_all plain_comp (strip_parts env [path_name (results_root env)] (py_parts raw))"
    by (intro strip_parts_plain py_parts_relative assms)
  then show ?thesis
    by (cases "strip_parts env [path_name (results_root env)] (py_parts raw)") (auto simp: run_parts_def Let_def)
qed

lemma normalize_isolated:
  assumes "links_free cwd env" "isolated rid env" "\<not> prefix ''/'' raw"
  defines "t \<equiv> hd (results_root env) # collapse (tl (results_root env)) (rid # run_parts rid env raw)"
  shows "normalize env (Named_base ''results'') raw =
    (if is_relative_to t (results_root env) then Inr t else Inl (Traversal_blocked raw))"
proof -
  have p: "plain_comp rid" using assms(2) safe_run_id_plain by (simp add: isolated_def)
  have "list_all plain_comp (rid # run_parts rid env raw)" using run_parts_plain [OF assms(3)] p by simp
  then have "pe_resolve env (path_join (results_root env) (path_of (rid # run_parts rid env raw))) = t"
    using resolve_below [OF assms(1) results_root_resolved [OF assms(1)]]
    by (simp only: path_of_plain path_join_def plain_absolute if_False t_def)
  then show ?thesis by (simp add: normalize_def resolve_base_def run_parts_inject [OF assms(2)] Let_def)
qed

lemma run_parts_dots: "''..'' \<notin> set (py_parts raw) \<Longrightarrow> ''..'' \<notin> set (run_parts rid env raw)"
  using strip_parts_dots [of "py_parts raw" env "[path_name (results_root env)]"]
  by (auto simp: run_parts_def Let_def dest: list.set_sel(2) [rotated])

lemma write_in_cell:
  assumes "links_free cwd env" "isolated rid env" "\<not> prefix ''/'' raw" "''..'' \<notin> set (py_parts raw)"
  shows "normalize env (Named_base ''results'') raw = Inr (cell_of rid env @ run_parts rid env raw)"
proof -
  have "rid \<noteq> ''..''" using assms(2) safe_run_id_plain by (simp add: isolated_def)
  then have "''..'' \<notin> set (rid # run_parts rid env raw)" using run_parts_dots [OF assms(4)] by auto
  then have "hd (results_root env) # collapse (tl (results_root env)) (rid # run_parts rid env raw) =
      cell_of rid env @ run_parts rid env raw"
    using resolved_ne [OF results_root_resolved [OF assms(1)]] by (simp add: cell_of_def del: collapse.simps)
  then show ?thesis
    using normalize_isolated [OF assms(1-3)] by (simp add: is_relative_to_def cell_of_def del: collapse.simps)
qed

lemma lower_results: "py_lower ''results'' = ''results''"
  by (simp add: py_lower_def lower_char_def)

lemma run_parts_results:
  assumes "\<not> prefix ''/'' raw" "py_parts raw \<noteq> []"
  shows "run_parts rid env (''results/'' @ raw) = run_parts rid env raw"
proof -
  have "py_parts (''results/'' @ raw) = ''results'' # py_parts raw"
    using py_parts_cons [of "''results''" raw] assms(1) by (simp add: plain_comp_def)
  moreover have "''results'' \<in> strip_names env ex" for ex
    unfolding strip_names_def by (rule image_eqI [where x = "''results''"]) (simp_all add: lower_results)
  ultimately show ?thesis
    using assms(2) by (cases "py_parts raw") (simp_all add: run_parts_def strip_parts_def lower_results)
qed

lemma run_parts_rid:
  assumes "plain_comp rid" "\<not> prefix ''/'' raw" "py_lower rid \<notin> strip_names env [path_name (results_root env)]"
  shows "run_parts rid env (rid @ ''/'' @ raw) = py_parts raw"
  using assms py_parts_cons [OF assms(1,2)]
  by (cases "py_parts raw") (simp_all add: run_parts_def strip_parts_def)

text \<open>
  Fact (functional): every spelling of a deliverable is one file of the run.  With isolation on, a
  relative path without \<open>..\<close> is written under the run's own folder, and prefixing it with
  \<open>results/\<close>, with the run's identifier, or with both, as goals do, names the same file.
\<close>

theorem spellings_agree:
  assumes "links_free cwd env" "isolated rid env" "\<not> prefix ''/'' raw" "''..'' \<notin> set (py_parts raw)"
    and "run_parts rid env raw = py_parts raw" "py_parts raw \<noteq> []" "py_lower rid \<notin> strip_names env [path_name (results_root env)]"
  shows "map (normalize env (Named_base ''results''))
      [raw, ''results/'' @ raw, rid @ ''/'' @ raw, ''results/'' @ rid @ ''/'' @ raw] =
    replicate 4 (Inr (cell_of rid env @ py_parts raw))"
proof -
  have p: "plain_comp rid" "rid \<noteq> ''..''" using assms(2) safe_run_id_plain by (simp_all add: isolated_def)
  have r: "\<not> prefix ''/'' (rid @ ''/'' @ raw)" using plain_not_slash [OF p(1)] p(1) by (cases rid) (auto simp: plain_comp_def)
  have q: "py_parts (rid @ ''/'' @ raw) = rid # py_parts raw" by (rule py_parts_cons [OF p(1) assms(3)])
  have d: "''..'' \<notin> set (py_parts (rid @ ''/'' @ raw))" using q p(2) assms(4) by auto
  have res: "py_parts (''results/'' @ s) = ''results'' # py_parts s" if "\<not> prefix ''/'' s" for s
    using py_parts_cons [of "''results''" s] that by (simp add: plain_comp_def)
  show ?thesis
    using write_in_cell [OF assms(1,2), of raw] write_in_cell [OF assms(1,2), of "''results/'' @ raw"]
      write_in_cell [OF assms(1,2), of "rid @ ''/'' @ raw"] write_in_cell [OF assms(1,2), of "''results/'' @ rid @ ''/'' @ raw"]
      run_parts_results [OF assms(3,6)] run_parts_results [OF r] run_parts_rid [OF p(1) assms(3,7)] res [OF assms(3)] res [OF r]
      assms r q d
    by (simp add: numeral_eq_Suc)
qed

text \<open>
  Fact (error): a path with \<open>..\<close> leaves the run's folder.  The prefix with the run's identifier is
  added before the path is resolved and only the results root is checked afterwards, so a run can
  write the deliverable of any other run by naming it \<open>../<run>/<file>\<close>.
\<close>

theorem dotdot_leaves_cell:
  assumes "links_free cwd env" "isolated rid env" "isolated other env'" "plain_comp f" "f \<noteq> ''..''"
    and "py_lower ''..'' \<notin> strip_names env [path_name (results_root env)]"
  shows "normalize env (Named_base ''results'') (''../'' @ other @ ''/'' @ f) = Inr (results_root env @ [other, f])"
proof -
  have p: "plain_comp rid" "rid \<noteq> ''..''" "plain_comp other" "other \<noteq> ''..''"
    using assms(2,3) safe_run_id_plain by (simp_all add: isolated_def)
  have r: "\<not> prefix ''/'' (other @ ''/'' @ f)"
    using plain_not_slash [OF p(3)] p(3) by (cases other) (auto simp: plain_comp_def)
  have parts: "py_parts (''../'' @ other @ ''/'' @ f) = [''..'', other, f]"
    using py_parts_cons [of "''..''", OF _ r] py_parts_cons [OF p(3) plain_not_slash [OF assms(4)]] assms(4)
    by (simp add: plain_comp_def)
  then have "run_parts rid env (''../'' @ other @ ''/'' @ f) = [''..'', other, f]"
    using assms(6) p(2) by (auto simp: run_parts_def strip_parts_def)
  moreover obtain h u where "results_root env = h # u"
    using resolved_ne [OF results_root_resolved [OF assms(1)]] by (cases "results_root env") auto
  ultimately show ?thesis
    using normalize_isolated [OF assms(1,2), of "''../'' @ other @ ''/'' @ f"] p assms(5)
    by (simp add: is_relative_to_def)
qed

section \<open>Scoring\<close>

lemma first_deliverableD:
  "first_deliverable env cs = Some p \<Longrightarrow>
     \<exists>c. c \<in> set cs \<and> pe_exists env c = Some True \<and> p = pe_resolve env c \<and> counts_as_deliverable env p"
  by (induction env cs rule: first_deliverable.induct) (auto simp: Let_def split: if_splits)

lemma strip_loop_drop:
  "rest \<noteq> [] \<Longrightarrow> list_all (\<lambda>c. py_lower c \<in> names) pre \<Longrightarrow> strip_loop names (pre @ rest) = strip_loop names rest"
proof (induction pre)
  case (Cons c pre)
  then show ?case by (cases "pre @ rest") auto
qed simp

lemma strip_loop_split:
  "\<exists>pre. ps = pre @ strip_loop names ps \<and> list_all (\<lambda>c. py_lower c \<in> names) pre"
proof (induction names ps rule: strip_loop.induct)
  case (1 names p q ps)
  show ?case
  proof (cases "py_lower p \<in> names")
    case True
    with 1 obtain pre where pre: "q # ps = pre @ strip_loop names (q # ps)" "list_all (\<lambda>c. py_lower c \<in> names) pre" by blast
    have "p # q # ps = (p # pre) @ strip_loop names (p # q # ps)" using pre(1) True by simp
    moreover have "list_all (\<lambda>c. py_lower c \<in> names) (p # pre)" using pre(2) True by simp
    ultimately show ?thesis by blast
  qed auto
qed auto

lemma strip_names_mono: "set ex \<subseteq> set ex' \<Longrightarrow> strip_names env ex \<subseteq> strip_names env ex'"
  by (auto simp: strip_names_def)

lemma strip_names_extra: "n \<in> set ex \<Longrightarrow> n \<noteq> [] \<Longrightarrow> py_lower n \<in> strip_names env ex"
  by (auto simp: strip_names_def)

lemma cell_normalize:
  assumes "links_free cwd env" "isolated rid env" "\<not> prefix ''/'' raw" "''..'' \<notin> set (py_parts raw)"
  shows "normalize env (At_base (cell_of rid env)) raw = Inr (cell_of rid env @ strip_parts env [rid] (py_parts raw))"
proof -
  have p: "plain_comp rid" "rid \<noteq> ''..''" using assms(2) safe_run_id_plain by (simp_all add: isolated_def)
  have ne: "cell_of rid env \<noteq> results_root env" by (simp add: cell_of_def)
  have abs: "resolved_path (cell_of rid env)"
    using results_root_resolved [OF assms(1)] p by (auto simp: cell_of_def resolved_path_def is_absolute_def neq_Nil_conv)
  have nm: "path_name (cell_of rid env) = rid" using p(1) by (auto simp: path_name_def cell_of_def plain_comp_def)
  have plain: "list_all plain_comp (strip_parts env [rid] (py_parts raw))"
    by (intro strip_parts_plain py_parts_relative assms(3))
  have "maybe_inject_run_subdir env ps (cell_of rid env) = ps" for ps
    using ne by (simp add: maybe_inject_run_subdir_def split: option.split)
  moreover have "pe_resolve env (cell_of rid env @ strip_parts env [rid] (py_parts raw)) = cell_of rid env @ strip_parts env [rid] (py_parts raw)"
    by (intro resolve_plain [OF assms(1) abs] strip_parts_dots assms(4))
  ultimately show ?thesis
    using resolve_again [OF assms(1) abs] plain
    by (simp add: normalize_def resolve_base_def nm path_join_def is_relative_to_def Let_def)
qed

text \<open>
  Fact (roundtrip): what a run writes is what it is scored on.  With isolation on, the file to which
  a relative deliverable is written is, once it exists, the file the scoring finds for the same
  name, provided what is left of the name under the run's folder has no further prefix to drop.
\<close>

theorem written_deliverable_found:
  assumes "links_free cwd env" "isolated rid env" "\<not> prefix ''/'' raw" "''..'' \<notin> set (py_parts raw)"
    and "normalize env (Named_base ''results'') raw = Inr t" "pe_exists env t = Some True"
    and "path_name (results_root env) = path_name (py_parts (pe_results_root env))"
    and "run_parts rid env raw \<noteq> []" "strip_parts env [rid] (run_parts rid env raw) = run_parts rid env raw"
  shows "resolve_deliverable env raw = Some t"
proof -
  have p: "plain_comp rid" "rid \<noteq> ''..''" "rid \<noteq> []" using assms(2) safe_run_id_plain by (auto simp: isolated_def plain_comp_def)
  have t: "t = cell_of rid env @ run_parts rid env raw" using write_in_cell [OF assms(1-4)] assms(5) by simp
  have sub: "strip_names env [path_name (results_root env)] \<subseteq> strip_names env [rid]"
    using assms(7) by (auto simp: strip_names_def)
  let ?ps = "strip_loop (strip_names env [path_name (results_root env)]) (py_parts raw)"
  obtain pre where pre: "py_parts raw = pre @ ?ps" "list_all (\<lambda>c. py_lower c \<in> strip_names env [rid]) pre"
    using strip_loop_split [of "py_parts raw" "strip_names env [path_name (results_root env)]"] sub
    by (metis (mono_tags, lifting) list.pred_mono_strong subsetD)
  obtain pre' where pre': "?ps = pre' @ run_parts rid env raw" "list_all (\<lambda>c. py_lower c \<in> strip_names env [rid]) pre'"
  proof (cases "?ps \<noteq> [] \<and> hd ?ps = rid")
    case True
    then have "?ps = [rid] @ run_parts rid env raw" by (cases ?ps) (auto simp: run_parts_def strip_parts_def Let_def)
    then show ?thesis using that strip_names_extra [of rid "[rid]" env] p(3) by simp
  next
    case False
    then have "?ps = [] @ run_parts rid env raw" by (auto simp: run_parts_def strip_parts_def Let_def)
    then show ?thesis using that by simp
  qed
  have "strip_parts env [rid] (py_parts raw) = run_parts rid env raw"
    using strip_loop_drop [OF assms(8), of "strip_names env [rid]" "pre @ pre'"] pre pre' assms(9)
    by (simp add: strip_parts_def)
  then have c: "hd (deliverable_candidates env raw) = t" "deliverable_candidates env raw \<noteq> []"
    using cell_normalize [OF assms(1-4)] isolated_cell [OF assms(1,2)] t
    by (simp_all add: deliverable_candidates_def Let_def)
  have abs: "resolved_path t"
    using results_root_resolved [OF assms(1)] run_parts_dots [OF assms(4)] p
    by (auto simp: t cell_of_def resolved_path_def is_absolute_def neq_Nil_conv)
  have "counts_as_deliverable env t"
    using isolated_cell [OF assms(1,2)] t by (simp add: counts_as_deliverable_def is_relative_to_def)
  then show ?thesis
    using c assms(6) resolve_again [OF assms(1) abs]
    by (cases "deliverable_candidates env raw") (simp_all add: resolve_deliverable_def Let_def)
qed


text \<open>
  Fact (error): an unsafe identifier widens the scoring scope.  A run identifier that is no single
  path component has no cell, so the scoring falls back to the shared results: every file of
  another run that the deliverable names literally counts, although the module says that a
  poisoned identifier can never widen the read scope.
\<close>

theorem unsafe_id_widens_scope:
  assumes "pe_run_id env = Some rid" "\<not> safe_run_id rid"
  shows "counts_as_deliverable env p"
  using assms
  by (auto simp: counts_as_deliverable_def isolated_results_root_def run_subdir_path_def split: if_splits option.splits)

text \<open>
  Fact (error): a deliverable spelled in another case is lost for the scoring.  The writer drops a
  leading component only when it is the run's identifier, the scoring also when it differs from it
  in case: the file that \<open>Q09/report.md\<close> of run \<open>q09\<close> was written to, and that the tools read
  back, is not found.
\<close>

theorem other_case_lost:
  assumes "links_free cwd env" "isolated rid env" "plain_comp c" "c \<noteq> ''..''" "c \<noteq> rid" "py_lower c = py_lower rid"
    and "plain_comp f" "f \<noteq> ''..''" "py_lower c \<notin> strip_names env [path_name (results_root env)]"
    and "py_lower c \<notin> strip_names env [path_name (workspace_root env)]"
    and "\<not> prefix (cell_of rid env) (workspace_root env)" "workspace_root env \<noteq> results_root env"
    and "pe_exists env = (\<lambda>p. Some (p = cell_of rid env @ [c, f]))"
  shows "normalize env (Named_base ''results'') (c @ ''/'' @ f) = Inr (cell_of rid env @ [c, f]) \<and>
    resolve_existing env (Named_base ''results'') (c @ ''/'' @ f) = Inr (cell_of rid env @ [c, f]) \<and>
    resolve_deliverable env (c @ ''/'' @ f) = None"
proof -
  let ?raw = "c @ ''/'' @ f"
  have p: "plain_comp rid" "rid \<noteq> []" using assms(2) safe_run_id_plain by (auto simp: isolated_def plain_comp_def)
  have rel: "\<not> prefix ''/'' ?raw" using assms(3) by (cases c) (auto simp: plain_comp_def)
  have parts: "py_parts ?raw = [c, f]"
    using py_parts_cons [OF assms(3) plain_not_slash [OF assms(7)]] assms(7) by simp
  have d: "''..'' \<notin> set (py_parts ?raw)" using assms(4,8) parts by auto
  have rp: "run_parts rid env ?raw = [c, f]" using assms(5,9) parts by (simp add: run_parts_def strip_parts_def)
  have w: "normalize env (Named_base ''results'') ?raw = Inr (cell_of rid env @ [c, f])"
    using write_in_cell [OF assms(1,2) rel d] rp by simp
  have e: "resolve_existing env (Named_base ''results'') ?raw = Inr (cell_of rid env @ [c, f])"
    using w assms(13) by (simp add: resolve_existing_def)
  have "strip_parts env [rid] (py_parts ?raw) = [f]"
    using assms(6) strip_names_extra [of rid "[rid]" env] p(2) parts by (simp add: strip_parts_def)
  then have c1: "normalize env (At_base (cell_of rid env)) ?raw = Inr (cell_of rid env @ [f])"
    using cell_normalize [OF assms(1,2) rel d] by simp
  have ws: "resolved_path (workspace_root env)" using assms(1) by (simp add: links_free_def workspace_root_def lexical_resolved)
  have c2: "p \<noteq> cell_of rid env @ [c, f]" if "normalize env (Named_base ''workspace'') ?raw = Inr p" for p
  proof
    assume p: "p = cell_of rid env @ [c, f]"
    have "p = workspace_root env @ [c, f]"
      using that assms(3,4,7-10) parts assms(12) resolve_plain [OF assms(1) ws, of "[c, f]"]
      by (simp add: normalize_def resolve_base_def maybe_inject_run_subdir_def strip_parts_def path_join_def
          Let_def is_relative_to_def split: if_splits option.splits)
    with p assms(11) show False by simp
  qed
  have r: "cell_of rid env \<noteq> []" by (simp add: cell_of_def)
  have s: "strip_results_prefix env (py_parts ?raw) \<in> {[c, f], [f]}"
    using parts by (simp add: strip_results_prefix_def strip_parts_def)
  have "list_all (\<lambda>p. p \<noteq> cell_of rid env @ [c, f]) (deliverable_candidates env ?raw)"
    using c1 c2 s r parts assms(3,7) isolated_cell [OF assms(1,2)]
    by (auto simp: deliverable_candidates_def Let_def split: sum.splits)
  moreover have "list_all (\<lambda>p. p \<noteq> cell_of rid env @ [c, f]) ps \<Longrightarrow> first_deliverable env ps = None" for ps
    by (induction ps) (auto simp: assms(13))
  ultimately show ?thesis using w e by (simp add: resolve_deliverable_def)
qed

section \<open>The properties at concrete inputs\<close>

definition demo_paths :: "(path \<Rightarrow> bool option) \<Rightarrow> path_env" where
  "demo_paths ex = \<lparr>pe_results_root = ''results'', pe_workspace_root = ''workspace'', pe_per_run_subdir = True,
     pe_run_id = Some ''q09'', pe_resolve = lexical_resolve [''/'', ''app''], pe_exists = ex\<rparr>"

lemma demo_paths_simps [simp]:
  "links_free [''/'', ''app''] (demo_paths ex)" "isolated ''q09'' (demo_paths ex)" "safe_run_id ''q10''"
  "results_root (demo_paths ex) = [''/'', ''app'', ''results'']"
  "workspace_root (demo_paths ex) = [''/'', ''app'', ''workspace'']"
  "cell_of ''q09'' (demo_paths ex) = [''/'', ''app'', ''results'', ''q09'']"
  "pe_exists (demo_paths ex) = ex"
  by (simp_all add: links_free_def isolated_def demo_paths_def is_absolute_def safe_run_id_def run_id_char_def is_digit_def
      results_root_def workspace_root_def cell_of_def lexical_resolve_def py_parts_def path_root_def less_eq_char_def)

lemma lower_workspace: "py_lower ''workspace'' = ''workspace''"
  by (simp add: py_lower_def lower_char_def)

lemma demo_fields [simp]:
  "pe_results_root (demo_paths ex) = ''results''" "pe_workspace_root (demo_paths ex) = ''workspace''"
  "pe_resolve (demo_paths ex) = lexical_resolve [''/'', ''app'']"
  by (simp_all add: demo_paths_def)

lemma demo_names [simp]:
  "path_name [''results''] = ''results''" "path_name [''workspace''] = ''workspace''"
  "path_name [''/'', ''app'', ''results''] = ''results''" "py_parts ''workspace'' = [''workspace'']"
  "py_parts ''results'' = [''results'']" "safe_run_id ''q09''"
  by (simp_all add: path_name_def py_parts_def path_root_def safe_run_id_def run_id_char_def is_digit_def less_eq_char_def)

lemma demo_strip_names:
  "x \<in> strip_names (demo_paths ex) ext \<longleftrightarrow>
     x = ''results'' \<or> x = ''workspace'' \<or> (\<exists>n. n \<in> set ext \<and> n \<noteq> [] \<and> x = py_lower n)"
  by (auto simp: strip_names_def image_iff Bex_def conj_disj_distribR ex_disj_distrib lower_results lower_workspace)

lemma demo_parts [simp]:
  "py_parts ''a.md'' = [''a.md'']" "py_parts ''Q09/a.md'' = [''Q09'', ''a.md'']"
  by (simp_all add: py_parts_def path_root_def)

lemma demo_run_parts [simp]: "run_parts ''q09'' (demo_paths ex) ''a.md'' = [''a.md'']"
  by (simp add: run_parts_def strip_parts_def)

lemma demo_subdir [simp]: "run_subdir_path (demo_paths ex) ''q10'' = Inr [''/'', ''app'', ''results'', ''q10'']"
  "run_subdir_path (demo_paths ex) ''..'' = Inl (Unsafe_run_id ''..'')"
  by (simp_all add: run_subdir_eq [where cwd = "[''/'', ''app'']"])
     (simp add: run_subdir_path_def safe_run_id_def)

theorem cleanup_confined_witness:
  "list_all (\<lambda>d. \<exists>s. s \<in> set [''q10'', ''..''] \<and> safe_run_id s \<and> d = results_root (demo_paths (\<lambda>p. Some True)) @ [s])
     [[''/'', ''app'', ''results'', ''q10'']]"
  by (rule cleanup_confined [where cwd = "[''/'', ''app'']" and rmtree_ok = "\<lambda>d. True"])
     (simp_all add: clean_run_subdir_def)

theorem spellings_agree_witness:
  "map (normalize (demo_paths (\<lambda>p. None)) (Named_base ''results''))
      [''a.md'', ''results/a.md'', ''q09/a.md'', ''results/q09/a.md''] =
    replicate 4 (Inr [''/'', ''app'', ''results'', ''q09'', ''a.md''])"
  using spellings_agree [where cwd = "[''/'', ''app'']" and rid = "''q09''" and raw = "''a.md''" and env = "demo_paths (\<lambda>p. None)"]
  by (simp add: demo_strip_names path_name_def py_lower_def lower_char_def)

theorem dotdot_leaves_cell_witness:
  "normalize (demo_paths (\<lambda>p. None)) (Named_base ''results'') ''../q10/a.md'' =
     Inr [''/'', ''app'', ''results'', ''q10'', ''a.md'']"
  using dotdot_leaves_cell [where cwd = "[''/'', ''app'']" and rid = "''q09''" and env = "demo_paths (\<lambda>p. None)" and
      other = "''q10''" and f = "''a.md''" and env' = "(demo_paths (\<lambda>p. None))\<lparr>pe_run_id := Some ''q10''\<rparr>"]
  by (simp add: demo_strip_names py_lower_def lower_char_def plain_comp_def isolated_def) (simp add: demo_paths_def)

theorem written_deliverable_found_witness:
  "resolve_deliverable (demo_paths (\<lambda>p. Some True)) ''a.md'' = Some [''/'', ''app'', ''results'', ''q09'', ''a.md'']"
  by (rule written_deliverable_found [where cwd = "[''/'', ''app'']" and rid = "''q09''"])
     (simp_all add: write_in_cell [where cwd = "[''/'', ''app'']" and rid = "''q09''"] strip_parts_def)

lemma demo_cell [simp]:
  "isolated_results_root (demo_paths ex) = Some [''/'', ''app'', ''results'', ''q09'']"
  "normalize (demo_paths ex) (At_base [''/'', ''app'', ''results'', ''q09'']) ''a.md'' =
     Inr [''/'', ''app'', ''results'', ''q09'', ''a.md'']"
  using isolated_cell [of "[''/'', ''app'']" "demo_paths ex" "''q09''"]
    cell_normalize [of "[''/'', ''app'']" "demo_paths ex" "''q09''" "''a.md''"]
  by (simp_all add: strip_parts_def)


theorem other_case_lost_witness:
  "resolve_deliverable (demo_paths (\<lambda>p. Some (p = [''/'', ''app'', ''results'', ''q09'', ''Q09'', ''a.md'']))) ''Q09/a.md'' = None"
proof -
  have "py_lower ''Q09'' = py_lower ''q09''" by code_simp
  moreover have "py_lower ''Q09'' \<noteq> ''results''" "py_lower ''Q09'' \<noteq> ''workspace''" by code_simp+
  ultimately show ?thesis
    using other_case_lost [of "[''/'', ''app'']" "demo_paths (\<lambda>p. Some (p = [''/'', ''app'', ''results'', ''q09'', ''Q09'', ''a.md'']))"
      "''q09''" "''Q09''" "''a.md''"]
    by (simp add: demo_strip_names plain_comp_def path_name_def lower_results lower_workspace)
qed

end
