(* ===== verification/Run_Executor.thy ===== *)
theory Run_Executor
  imports Battery Tool_Paths Graph_State
begin

text \<open>
  One goal from start to end: \<open>execute_run\<close> of \<open>src/src/runner.py\<close> with \<open>initial_state\<close> of
  \<open>src/src/graph/factory.py\<close>, the checkpoint connection of \<open>src/src/graph/checkpoint.py\<close> and the
  worker's executor of \<open>src/src/worker/executors.py\<close>.  What outlives a run (the settings it
  overrides, the log sinks, the connections, the checkpoints, the result folders) is the process
  state; the compiled graph is an argument that maps its input and the stored checkpoint to the
  states it streams and the way it ends; an \<open>exec_env\<close> says which services answer and where the
  task is cancelled.  Log lines, tracing variables and the history report are left out.
\<close>

section \<open>Identifiers\<close>

definition thread_id_for_run :: "string \<Rightarrow> string option \<Rightarrow> string \<Rightarrow> string" where
  "thread_id_for_run origin run_id fallback =
     (case run_id of Some r \<Rightarrow> origin @ ''-'' @ r | None \<Rightarrow> origin @ ''-'' @ fallback)"

definition rpartition :: "char \<Rightarrow> string \<Rightarrow> (string \<times> string) option" where
  "rpartition c s =
     (if c \<in> set s
      then Some (rev (tl (dropWhile (\<lambda>x. x \<noteq> c) (rev s))), rev (takeWhile (\<lambda>x. x \<noteq> c) (rev s)))
      else None)"

definition all_digits :: "string \<Rightarrow> bool" where
  "all_digits s = (s \<noteq> [] \<and> list_all is_digit s)"

definition is_run_tag :: "string \<Rightarrow> bool" where
  "is_run_tag t = (prefix ''gen'' t \<and> all_digits (drop 3 t) \<or> prefix ''seed'' t \<and> all_digits (drop 4 t))"

lemma rpartition_length: "rpartition c s = Some (a, b) \<Longrightarrow> length a < length s"
proof -
  assume "rpartition c s = Some (a, b)"
  then have "a = rev (tl (dropWhile (\<lambda>x. x \<noteq> c) (rev s)))" "c \<in> set s" by (auto simp: rpartition_def split: if_splits)
  moreover have "length (dropWhile (\<lambda>x. x \<noteq> c) (rev s)) \<le> length s" by (metis length_dropWhile_le length_rev)
  moreover have "0 < length s" using calculation(2) by (cases s) auto
  ultimately show ?thesis by (simp, cases "dropWhile (\<lambda>x. x \<noteq> c) (rev s)") auto
qed

function strip_run_tags :: "string \<Rightarrow> string" where
  "strip_run_tags s =
     (case rpartition CHR ''-'' s of
        None \<Rightarrow> s
      | Some (g, t) \<Rightarrow> if is_run_tag t then strip_run_tags g else s)"
  by pat_completeness auto

termination
  by (relation "measure length") (auto dest: rpartition_length)

declare strip_run_tags.simps [simp del]

definition strip_date_suffix :: "string \<Rightarrow> string option" where
  "strip_date_suffix run_id =
     (case rpartition CHR ''-'' run_id of
        None \<Rightarrow> None
      | Some (base, t) \<Rightarrow>
          if length t \<noteq> 8 \<or> \<not> all_digits t then None
          else let b = strip_run_tags base in if b = [] then None else Some b)"

text \<open>A lookup that raises is \<open>None\<close>.\<close>

definition match_spec :: "(string \<Rightarrow> bool option) \<Rightarrow> string \<Rightarrow> string option option" where
  "match_spec look candidate =
     (case look candidate of
        None \<Rightarrow> None
      | Some True \<Rightarrow> Some (Some candidate)
      | Some False \<Rightarrow>
          (case look (''battery04_'' @ candidate) of
             None \<Rightarrow> None
           | Some b \<Rightarrow> Some (if b then Some (''battery04_'' @ candidate) else None)))"

definition resolve_eval_spec_id :: "(string \<Rightarrow> bool option) \<Rightarrow> string option \<Rightarrow> string option" where
  "resolve_eval_spec_id look run_id =
     (case run_id of
        None \<Rightarrow> None
      | Some r \<Rightarrow>
          (case match_spec look r of
             None \<Rightarrow> None
           | Some (Some s) \<Rightarrow> Some s
           | Some None \<Rightarrow>
               (case strip_date_suffix r of
                  None \<Rightarrow> None
                | Some b \<Rightarrow> (case match_spec look b of None \<Rightarrow> None | Some m \<Rightarrow> m))))"

section \<open>The state a run starts from\<close>

record run_chunk = agent_state +
  ck_thread_id :: string
  ck_cost_records :: "(int \<times> int) list"
  ck_total_tokens :: int
  ck_attempt_id :: string
  ck_spec_id :: "string option"

definition initial_state :: "goal \<Rightarrow> string \<Rightarrow> string \<Rightarrow> int option \<Rightarrow> bool \<Rightarrow> run_chunk" where
  "initial_state g goal_text thread_id max_iter no_evo =
     agent_state.extend
       (empty_state\<lparr>max_iterations := max_iter, no_evolution := no_evo,
          current_goal := Some (g\<lparr>g_text := goal_text, g_status := ACTIVE\<rparr>), submitted_goal := goal_text,
          strategy := DIRECT, messages := [HumanMessage goal_text], confidence := Some MEDIUM,
          is_complete := Some False\<rparr>)
       \<lparr>ck_thread_id = thread_id, ck_cost_records = [], ck_total_tokens = 0, ck_attempt_id = [], ck_spec_id = None\<rparr>"

definition validate_state :: "run_chunk \<Rightarrow> string list" where
  "validate_state s =
     (if ck_thread_id s = [] then [''thread_id is required''] else []) @
     (case current_goal s of None \<Rightarrow> []
      | Some g \<Rightarrow> if py_strip (g_text g) = [] then [''current_goal.text must not be empty''] else []) @
     (case max_iterations s of None \<Rightarrow> []
      | Some m \<Rightarrow>
          (if m \<le> 0 then [''max_iterations must be positive''] else []) @
          (if iteration_count s > m
           then [''iteration_count ('' @ py_str (iteration_count s) @ '') exceeds max_iterations ('' @ py_str m @ '')''] else [])) @
     (if plan_steps s \<noteq> [] \<and> current_step_index s \<ge> int (length (plan_steps s))
      then [''current_step_index ('' @ py_str (current_step_index s) @ '') >= plan_steps length ('' @
              py_str (int (length (plan_steps s))) @ '')''] else [])"

section \<open>The process and its services\<close>

record process_state =
  pr_subdir :: bool
  pr_eval_enabled :: bool
  pr_eval_enforce :: bool
  pr_run :: "string option"
  pr_sinks :: "string list"
  pr_savers :: nat
  pr_sessions :: nat
  pr_checkpoints :: "(string \<times> run_chunk) list"
  pr_folders :: "path list"

datatype await_point =
    Await_memory | Await_tools | Await_agents | Await_saver | Await_read | Await_delete
  | Await_session | Await_baseline | Await_session_close | Await_saver_close | Await_history

datatype graph_end = Graph_done | Graph_budget string | Graph_error string | Graph_interrupted

datatype progress_answer = Reported | Cancel_requested string | Report_failed

record exec_env =
  xe_sink_ok :: bool
  xe_paths :: path_env
  xe_rmtree_ok :: "path \<Rightarrow> bool"
  xe_fallback :: string
  xe_goal :: goal
  xe_attempt_id :: string
  xe_lookup :: "string \<Rightarrow> bool option"
  xe_gateway :: bool
  xe_records :: "(int \<times> int) list"
  xe_saver_ok :: bool
  xe_read_ok :: bool
  xe_delete_ok :: bool
  xe_session_ok :: bool
  xe_compile :: "string option"
  xe_interrupt :: "await_point \<Rightarrow> bool"
  xe_graph :: "run_chunk option \<Rightarrow> run_chunk option \<Rightarrow> run_chunk list \<times> graph_end"

record run_request =
  rq_goal_text :: string
  rq_max_iterations :: "int option"
  rq_no_evolution :: bool
  rq_run_id :: "string option"
  rq_resume :: bool
  rq_origin :: string
  rq_on_progress :: "(nat \<Rightarrow> progress_answer) option"
  rq_subdir :: "bool option"

record run_dict =
  rd_state :: "run_chunk option"
  rd_cost_records :: "(int \<times> int) list"
  rd_total_tokens :: int

datatype run_end =
    Run_returned run_dict
  | Run_cancelled string
  | Run_value_error string
  | Run_budget string
  | Run_failed string
  | Run_interrupted

text \<open>What a caller cannot see: how the graph was invoked and which counts were reported.\<close>

record run_trace =
  xt_graph :: "(run_chunk option \<times> run_chunk option) option"
  xt_reported :: "int list"

definition no_trace :: run_trace where
  "no_trace = \<lparr>xt_graph = None, xt_reported = []\<rparr>"

definition paths_of :: "exec_env \<Rightarrow> process_state \<Rightarrow> path_env" where
  "paths_of env p =
     (xe_paths env)\<lparr>pe_per_run_subdir := pr_subdir p, pe_run_id := pr_run p,
        pe_exists := (\<lambda>d. Some (d \<in> set (pr_folders p)))\<rparr>"

definition remove_tree :: "path \<Rightarrow> process_state \<Rightarrow> process_state" where
  "remove_tree d p = p\<lparr>pr_folders := filter (\<lambda>f. \<not> prefix d f) (pr_folders p)\<rparr>"

section \<open>Setting up\<close>

definition open_sink :: "exec_env \<Rightarrow> string option \<Rightarrow> process_state \<Rightarrow> process_state" where
  "open_sink env run_id p =
     (case run_id of Some r \<Rightarrow> if xe_sink_ok env then p\<lparr>pr_sinks := r # pr_sinks p\<rparr> else p | None \<Rightarrow> p)"

definition override_subdir :: "bool option \<Rightarrow> process_state \<Rightarrow> process_state" where
  "override_subdir ov p = (case ov of None \<Rightarrow> p | Some b \<Rightarrow> p\<lparr>pr_subdir := b\<rparr>)"

definition enable_eval :: "string option \<Rightarrow> process_state \<Rightarrow> process_state" where
  "enable_eval spec p = (if spec = None then p else p\<lparr>pr_eval_enabled := True, pr_eval_enforce := True\<rparr>)"

definition run_thread :: "exec_env \<Rightarrow> run_request \<Rightarrow> string" where
  "run_thread env rq = thread_id_for_run (rq_origin rq) (rq_run_id rq) (xe_fallback env)"

definition start_state :: "exec_env \<Rightarrow> run_request \<Rightarrow> run_chunk" where
  "start_state env rq =
     (initial_state (xe_goal env) (rq_goal_text rq)
        (run_thread env rq) (rq_max_iterations rq) (rq_no_evolution rq))
       \<lparr>ck_attempt_id := xe_attempt_id env, ck_spec_id := resolve_eval_spec_id (xe_lookup env) (rq_run_id rq)\<rparr>"

definition require_resumable_checkpoint ::
  "exec_env \<Rightarrow> string \<Rightarrow> string option \<Rightarrow> process_state \<Rightarrow> run_end + run_chunk" where
  "require_resumable_checkpoint env thread_id run_id p =
     (case run_id of
        None \<Rightarrow> Inl (Run_value_error ''--resume requires --run-id to identify the checkpoint'')
      | Some r \<Rightarrow>
          if \<not> xe_saver_ok env then
            Inl (Run_failed ''no checkpointer available (PostgreSQL unreachable); cannot resume'')
          else if xe_interrupt env Await_read then Inl Run_interrupted
          else if \<not> xe_read_ok env then Inl (Run_failed ''the checkpoint store cannot be read'')
          else case map_of (pr_checkpoints p) thread_id of
            None \<Rightarrow> Inl (Run_failed (''no checkpoint found for run_id='' @ r @ '' (thread_id='' @ thread_id @
                '')'' @ ''; the run may never have persisted state''))
          | Some c \<Rightarrow> Inr c)"

definition clear_prior_run ::
  "exec_env \<Rightarrow> string \<Rightarrow> string option \<Rightarrow> process_state \<Rightarrow> run_end option \<times> process_state" where
  "clear_prior_run env thread_id run_id p =
     (if xe_saver_ok env \<and> xe_interrupt env Await_delete then (Some Run_interrupted, p)
      else
        let p = (if xe_saver_ok env \<and> xe_delete_ok env
                 then p\<lparr>pr_checkpoints := AList.delete thread_id (pr_checkpoints p)\<rparr> else p)
        in (None,
            case run_id of
              None \<Rightarrow> p
            | Some r \<Rightarrow>
                if r \<noteq> [] \<and> subdir_active (paths_of env p)
                then (case clean_run_subdir (paths_of env p) (xe_rmtree_ok env) r of
                        Inr (Some d) \<Rightarrow> remove_tree d p
                      | _ \<Rightarrow> p)
                else p))"

definition enter_run :: "exec_env \<Rightarrow> run_request \<Rightarrow> process_state \<Rightarrow> process_state" where
  "enter_run env rq p =
     enable_eval (resolve_eval_spec_id (xe_lookup env) (rq_run_id rq))
       ((override_subdir (rq_subdir rq) (open_sink env (rq_run_id rq) p))\<lparr>pr_run := rq_run_id rq\<rparr>)"

definition open_saver :: "exec_env \<Rightarrow> process_state \<Rightarrow> process_state" where
  "open_saver env p = (if xe_saver_ok env then p\<lparr>pr_savers := Suc (pr_savers p)\<rparr> else p)"

definition prepare_checkpoint :: "exec_env \<Rightarrow> run_request \<Rightarrow> process_state \<Rightarrow> run_end option \<times> process_state" where
  "prepare_checkpoint env rq p =
     (if rq_resume rq
      then (case require_resumable_checkpoint env (run_thread env rq) (rq_run_id rq) p of
              Inl e \<Rightarrow> (Some e, p) | Inr _ \<Rightarrow> (None, p))
      else clear_prior_run env (run_thread env rq) (rq_run_id rq) p)"

definition open_tracker :: "exec_env \<Rightarrow> process_state \<Rightarrow> run_end option \<times> process_state" where
  "open_tracker env p =
     (if \<not> xe_gateway env then (None, p)
      else if xe_interrupt env Await_session then (Some Run_interrupted, p)
      else if \<not> xe_session_ok env then (None, p)
      else (if xe_interrupt env Await_baseline then Some Run_interrupted else None,
            p\<lparr>pr_sessions := Suc (pr_sessions p)\<rparr>))"

text \<open>
  Everything before the \<open>try\<close>: \<open>Some\<close> is an exception or the cancellation of the task, which
  leave the function at once.
\<close>

definition set_up :: "exec_env \<Rightarrow> run_request \<Rightarrow> process_state \<Rightarrow> run_end option \<times> process_state" where
  "set_up env rq p =
     (let p = enter_run env rq p
      in if xe_interrupt env Await_memory \<or> xe_interrupt env Await_tools \<or> xe_interrupt env Await_agents
            \<or> xe_interrupt env Await_saver then (Some Run_interrupted, p)
         else case prepare_checkpoint env rq (open_saver env p) of
                (Some e, p) \<Rightarrow> (Some e, p)
              | (None, p) \<Rightarrow>
                  (case xe_compile env of
                     Some m \<Rightarrow> (Some (Run_failed m), p)
                   | None \<Rightarrow> open_tracker env p))"

section \<open>Driving the graph\<close>

text \<open>The stream: the counts reported, the states consumed, and the cancellation that was asked for.\<close>

fun drive :: "(nat \<Rightarrow> progress_answer) \<Rightarrow> nat \<Rightarrow> int \<Rightarrow> run_chunk list \<Rightarrow> int list \<times> run_chunk list \<times> string option" where
  "drive cb k last_reported [] = ([], [], None)"
| "drive cb k last_reported (c # cs) =
     (if iteration_count c = last_reported
      then (let (r, u, e) = drive cb k last_reported cs in (r, c # u, e))
      else case cb k of
             Cancel_requested m \<Rightarrow> ([iteration_count c], [c], Some m)
           | _ \<Rightarrow> (let (r, u, e) = drive cb (Suc k) (iteration_count c) cs in (iteration_count c # r, c # u, e)))"

fun graph_failure :: "graph_end \<Rightarrow> run_end option" where
  "graph_failure Graph_done = None"
| "graph_failure (Graph_budget m) = Some (Run_budget m)"
| "graph_failure (Graph_error m) = Some (Run_failed m)"
| "graph_failure Graph_interrupted = Some Run_interrupted"

definition last_chunk :: "run_chunk list \<Rightarrow> run_chunk option" where
  "last_chunk cs = (if cs = [] then None else Some (last cs))"

definition token_sum :: "(int \<times> int) list \<Rightarrow> int" where
  "token_sum recs = sum_list (map (\<lambda>(i, out). i + out) recs)"

definition recover_costs :: "exec_env \<Rightarrow> run_chunk option \<Rightarrow> run_dict" where
  "recover_costs env s =
     (let recs = (case s of None \<Rightarrow> [] | Some c \<Rightarrow> ck_cost_records c);
          toks = (case s of None \<Rightarrow> 0 | Some c \<Rightarrow> ck_total_tokens c)
      in if \<not> xe_gateway env then \<lparr>rd_state = s, rd_cost_records = recs, rd_total_tokens = toks\<rparr>
         else
           let recs = (if recs = [] then xe_records env else recs)
           in \<lparr>rd_state = s, rd_cost_records = recs, rd_total_tokens = (if toks = 0 then token_sum recs else toks)\<rparr>)"

text \<open>The body of the \<open>try\<close>: the outcome, the states that were checkpointed, the counts reported.\<close>

definition run_graph ::
  "exec_env \<Rightarrow> run_request \<Rightarrow> run_chunk option \<Rightarrow> run_chunk option \<Rightarrow> run_end \<times> run_chunk list \<times> int list" where
  "run_graph env rq inp stored =
     (let (cs, e) = xe_graph env inp stored
      in case rq_on_progress rq of
           None \<Rightarrow>
             (case graph_failure e of
                Some f \<Rightarrow> f
              | None \<Rightarrow> if cs = [] then Run_failed ''NoneType object is not iterable''
                        else Run_returned (recover_costs env (last_chunk cs)), cs, [])
         | Some cb \<Rightarrow>
             (let (r, u, cancel) = drive cb 0 (- 1) cs
              in (case cancel of
                    Some m \<Rightarrow> Run_cancelled m
                  | None \<Rightarrow>
                      (case graph_failure e of
                         Some f \<Rightarrow> f
                       | None \<Rightarrow> Run_returned (recover_costs env (last_chunk cs))), u, r)))"

text \<open>
  The \<open>finally\<close>: a cancellation of the task in one of its two awaits leaves it there; only
  exceptions are caught.
\<close>

definition release_all :: "exec_env \<Rightarrow> run_request \<Rightarrow> bool \<Rightarrow> bool \<Rightarrow> bool \<Rightarrow> process_state \<Rightarrow> bool \<times> process_state" where
  "release_all env rq prior_subdir has_sink has_session p =
     (let p = (if rq_subdir rq = None then p else p\<lparr>pr_subdir := prior_subdir\<rparr>);
          p = (if has_session then p\<lparr>pr_sessions := pr_sessions p - 1\<rparr> else p)
      in if has_session \<and> xe_interrupt env Await_session_close then (True, p)
         else
           let p = (if xe_saver_ok env then p\<lparr>pr_savers := pr_savers p - 1\<rparr> else p)
           in if xe_saver_ok env \<and> xe_interrupt env Await_saver_close then (True, p)
              else (False, if has_sink then p\<lparr>pr_sinks := remove1 (case rq_run_id rq of None \<Rightarrow> [] | Some r \<Rightarrow> r) (pr_sinks p)\<rparr> else p))"

section \<open>The run\<close>

definition save_checkpoint :: "exec_env \<Rightarrow> string \<Rightarrow> run_chunk list \<Rightarrow> process_state \<Rightarrow> process_state" where
  "save_checkpoint env thread_id cs p =
     (if xe_saver_ok env \<and> cs \<noteq> [] then p\<lparr>pr_checkpoints := AList.update thread_id (last cs) (pr_checkpoints p)\<rparr> else p)"

definition execute_run :: "exec_env \<Rightarrow> run_request \<Rightarrow> process_state \<Rightarrow> run_end \<times> process_state \<times> run_trace" where
  "execute_run env rq p =
     (case set_up env rq p of
        (Some e, p1) \<Rightarrow> (e, p1, no_trace)
      | (None, p1) \<Rightarrow>
          (let thread_id = run_thread env rq;
               stored = (if xe_saver_ok env then map_of (pr_checkpoints p1) thread_id else None);
               inp = (if rq_resume rq then None else Some (start_state env rq));
               (out, consumed, reported) = run_graph env rq inp stored;
               (interrupted, p2) =
                  release_all env rq (pr_subdir p) (rq_run_id rq \<noteq> None \<and> xe_sink_ok env)
                    (xe_gateway env \<and> xe_session_ok env) (save_checkpoint env thread_id consumed p1);
               out = (if interrupted then Run_interrupted
                      else case out of
                             Run_returned d \<Rightarrow> if xe_interrupt env Await_history then Run_interrupted else out
                           | _ \<Rightarrow> out)
           in (out, p2, \<lparr>xt_graph = Some (inp, stored), xt_reported = reported\<rparr>)))"

definition run_result_of :: "run_dict \<Rightarrow> run_result" where
  "run_result_of d =
     (case rd_state d of
        None \<Rightarrow> \<lparr>rr_final_output = [], rr_is_complete = False, rr_iteration_count = None\<rparr>
      | Some c \<Rightarrow> \<lparr>rr_final_output = final_output c, rr_is_complete = (is_complete c = Some True),
                   rr_iteration_count = Some (iteration_count c)\<rparr>)"

fun exec_outcome_of :: "run_end \<Rightarrow> exec_outcome" where
  "exec_outcome_of (Run_returned d) = Returned (run_result_of d)"
| "exec_outcome_of (Run_cancelled m) = Raised_cancelled m"
| "exec_outcome_of (Run_budget m) = Raised_budget m"
| "exec_outcome_of (Run_value_error m) = Raised_other m"
| "exec_outcome_of (Run_failed m) = Raised_other m"
| "exec_outcome_of Run_interrupted = Exec_cancelled"

definition job_request :: "run_job \<Rightarrow> (nat \<Rightarrow> progress_answer) option \<Rightarrow> run_request" where
  "job_request job on_progress =
     \<lparr>rq_goal_text = job_goal job, rq_max_iterations = job_max_iterations job,
      rq_no_evolution = job_no_evolution job, rq_run_id = Some (job_run_id job), rq_resume = False,
      rq_origin = ''api'', rq_on_progress = on_progress, rq_subdir = job_results_per_run_subdir job\<rparr>"

definition default_agent_executor ::
  "exec_env \<Rightarrow> run_job \<Rightarrow> (nat \<Rightarrow> progress_answer) option \<Rightarrow> process_state \<Rightarrow> exec_outcome \<times> process_state \<times> run_trace" where
  "default_agent_executor env job on_progress p =
     (case clear_flat_results_subdirs (paths_of env p) (xe_rmtree_ok env) (job_clear_flat_subdirs job) [] of
        Inl _ \<Rightarrow> (Raised_other ''OSError'', p, no_trace)
      | Inr removed \<Rightarrow>
          (let (out, p', tr) = execute_run env (job_request job on_progress) (fold remove_tree removed p)
           in (exec_outcome_of out, p', tr)))"

text \<open>The name of the summary a finished run leaves behind.\<close>

definition summary_char :: "char \<Rightarrow> bool" where
  "summary_char c = (CHR ''a'' \<le> c \<and> c \<le> CHR ''z'' \<or> CHR ''A'' \<le> c \<and> c \<le> CHR ''Z'' \<or> is_digit c \<or>
     c \<in> {CHR ''_'', CHR ''-''})"

definition summary_stem :: "string \<Rightarrow> string" where
  "summary_stem goal_text =
     (let s = map (\<lambda>c. if summary_char c then c else CHR ''_'') (take 50 goal_text)
      in rev (dropWhile (\<lambda>c. c = CHR ''_'') (rev (dropWhile (\<lambda>c. c = CHR ''_'') s))))"

definition summary_file :: "path_env \<Rightarrow> string \<Rightarrow> string \<Rightarrow> path_error + path" where
  "summary_file env goal_text stamp =
     normalize env (Named_base ''results'') (summary_stem goal_text @ ''_'' @ stamp @ ''.md'')"

section \<open>Identifiers and goals\<close>

lemma rpartition_append:
  assumes "c \<notin> set b"
  shows "rpartition c (a @ c # b) = Some (a, b)"
proof -
  have "dropWhile (\<lambda>x. x \<noteq> c) (rev b @ c # rev a) = c # rev a"
    "takeWhile (\<lambda>x. x \<noteq> c) (rev b @ c # rev a) = rev b"
    using assms by (subst dropWhile_append2, auto) (subst takeWhile_append2, auto)
  then show ?thesis by (simp add: rpartition_def)
qed

lemma digits_no_dash: "all_digits s \<Longrightarrow> CHR ''-'' \<notin> set s"
  by (auto simp: all_digits_def list_all_iff is_digit_def)

lemma tag_no_dash: "is_run_tag t \<Longrightarrow> CHR ''-'' \<notin> set t"
  using digits_no_dash by (fastforce simp: is_run_tag_def prefix_def)

lemma strip_run_tag: "is_run_tag t \<Longrightarrow> strip_run_tags (s @ CHR ''-'' # t) = strip_run_tags s"
  using rpartition_append [OF tag_no_dash, of t s] by (subst strip_run_tags.simps) simp

definition untagged :: "string \<Rightarrow> bool" where
  "untagged s = (case rpartition CHR ''-'' s of None \<Rightarrow> True | Some (g, t) \<Rightarrow> \<not> is_run_tag t)"

lemma strip_untagged: "untagged s \<Longrightarrow> strip_run_tags s = s"
  by (subst strip_run_tags.simps) (auto simp: untagged_def split: option.splits)

fun tagged :: "string \<Rightarrow> string list \<Rightarrow> string" where
  "tagged s [] = s"
| "tagged s (t # ts) = tagged (s @ ''-'' @ t) ts"

lemma strip_tagged:
  "list_all is_run_tag ts \<Longrightarrow> strip_run_tags (tagged s ts) = strip_run_tags s"
  by (induction s ts rule: tagged.induct) (auto simp: strip_run_tag)

lemma strip_date:
  assumes "untagged spec" "spec \<noteq> []" "list_all is_run_tag tags"
    and "length date = 8" "all_digits date"
  shows "strip_date_suffix (build_run_id (tagged spec tags) date) = Some spec"
  using rpartition_append [OF digits_no_dash [OF assms(5)], of "tagged spec tags"] assms strip_tagged [of tags spec]
  by (simp add: strip_date_suffix_def build_run_id_def strip_untagged)

text \<open>
  Fact (roundtrip): a scheduled run is scored as the goal it was scheduled for.  The run identifier
  that the battery builds from a golden goal, with any generation and seed tags before the date,
  resolves to that goal again, as long as neither the tagged identifier nor its \<open>battery04_\<close> form
  is a golden goal itself.
\<close>

theorem scheduled_run_scored:
  assumes "untagged spec" "spec \<noteq> []" "list_all is_run_tag tags"
    and "length date = 8" "all_digits date" "look spec = Some True"
    and "look (build_run_id (tagged spec tags) date) = Some False"
    and "look (''battery04_'' @ build_run_id (tagged spec tags) date) = Some False"
  shows "resolve_eval_spec_id look (Some (build_run_id (tagged spec tags) date)) = Some spec"
  using strip_date [OF assms(1-5)] assms(6-8) by (simp add: resolve_eval_spec_id_def match_spec_def)

section \<open>Set-up and release\<close>

definition held :: "exec_env \<Rightarrow> run_request \<Rightarrow> process_state \<Rightarrow> process_state \<Rightarrow> bool" where
  "held env rq p p1 =
     (pr_sinks p1 = (case rq_run_id rq of Some r \<Rightarrow> if xe_sink_ok env then r # pr_sinks p else pr_sinks p | None \<Rightarrow> pr_sinks p) \<and>
      pr_subdir p1 = (case rq_subdir rq of None \<Rightarrow> pr_subdir p | Some b \<Rightarrow> b) \<and>
      pr_savers p1 = (if xe_saver_ok env then Suc (pr_savers p) else pr_savers p) \<and>
      pr_sessions p1 = (if xe_gateway env \<and> xe_session_ok env then Suc (pr_sessions p) else pr_sessions p))"

lemma clear_prior_run_frame:
  assumes "clear_prior_run env tid rid p = (e, p1)"
  shows "pr_sinks p1 = pr_sinks p \<and> pr_subdir p1 = pr_subdir p \<and> pr_savers p1 = pr_savers p \<and>
    pr_sessions p1 = pr_sessions p \<and> pr_run p1 = pr_run p \<and> pr_eval_enabled p1 = pr_eval_enabled p \<and>
    pr_eval_enforce p1 = pr_eval_enforce p"
  using assms
  by (auto simp: clear_prior_run_def Let_def remove_tree_def split: if_splits option.splits sum.splits)

lemma clear_prior_run_checkpoints:
  assumes "clear_prior_run env tid rid p = (None, p1)" "xe_saver_ok env" "xe_delete_ok env"
  shows "pr_checkpoints p1 = AList.delete tid (pr_checkpoints p)"
  using assms
  by (auto simp: clear_prior_run_def Let_def remove_tree_def split: if_splits option.splits sum.splits)

lemma enter_run_simps [simp]:
  "pr_sinks (enter_run env rq p) = (case rq_run_id rq of
     Some r \<Rightarrow> if xe_sink_ok env then r # pr_sinks p else pr_sinks p | None \<Rightarrow> pr_sinks p)"
  "pr_subdir (enter_run env rq p) = (case rq_subdir rq of None \<Rightarrow> pr_subdir p | Some b \<Rightarrow> b)"
  "pr_savers (enter_run env rq p) = pr_savers p"
  "pr_sessions (enter_run env rq p) = pr_sessions p"
  "pr_checkpoints (enter_run env rq p) = pr_checkpoints p"
  by (simp_all add: enter_run_def enable_eval_def override_subdir_def open_sink_def split: option.split)

lemma prepare_frame:
  assumes "prepare_checkpoint env rq p = (e, p1)"
  shows "pr_sinks p1 = pr_sinks p \<and> pr_subdir p1 = pr_subdir p \<and> pr_savers p1 = pr_savers p \<and> pr_sessions p1 = pr_sessions p"
  using assms clear_prior_run_frame
  by (auto simp: prepare_checkpoint_def split: if_splits sum.splits)

lemma open_tracker_frame:
  assumes "open_tracker env p = (e, p1)"
  shows "pr_sinks p1 = pr_sinks p \<and> pr_subdir p1 = pr_subdir p \<and> pr_savers p1 = pr_savers p \<and> pr_checkpoints p1 = pr_checkpoints p \<and>
    (e = None \<longrightarrow> pr_sessions p1 = (if xe_gateway env \<and> xe_session_ok env then Suc (pr_sessions p) else pr_sessions p))"
  using assms by (auto simp: open_tracker_def split: if_splits)

lemma set_up_entered:
  assumes "set_up env rq p = (None, p1)"
  obtains p2 where "prepare_checkpoint env rq (open_saver env (enter_run env rq p)) = (None, p2)" "open_tracker env p2 = (None, p1)"
  using assms by (auto simp: set_up_def Let_def split: if_splits option.splits prod.splits)

lemma set_up_held:
  assumes "set_up env rq p = (None, p1)"
  shows "held env rq p p1"
proof -
  obtain p2 where "prepare_checkpoint env rq (open_saver env (enter_run env rq p)) = (None, p2)" "open_tracker env p2 = (None, p1)"
    by (rule set_up_entered [OF assms])
  from prepare_frame [OF this(1)] open_tracker_frame [OF this(2)] show ?thesis
    by (simp add: held_def open_saver_def)
qed

lemma release_held:
  assumes "held env rq p p1" "\<not> xe_interrupt env Await_session_close" "\<not> xe_interrupt env Await_saver_close"
    and "release_all env rq (pr_subdir p) (rq_run_id rq \<noteq> None \<and> xe_sink_ok env) (xe_gateway env \<and> xe_session_ok env)
      (save_checkpoint env tid cs p1) = (i, p2)"
  shows "\<not> i \<and> pr_sinks p2 = pr_sinks p \<and> pr_subdir p2 = pr_subdir p \<and> pr_savers p2 = pr_savers p \<and>
    pr_sessions p2 = pr_sessions p"
  using assms
  by (auto simp: release_all_def held_def save_checkpoint_def Let_def split: option.splits if_splits)

lemma release_checkpoints:
  "release_all env rq b s t p = (i, p2) \<Longrightarrow> pr_checkpoints p2 = pr_checkpoints p"
  by (auto simp: release_all_def Let_def split: if_splits)

definition graph_input :: "exec_env \<Rightarrow> run_request \<Rightarrow> process_state \<Rightarrow> run_chunk option \<times> run_chunk option" where
  "graph_input env rq p1 =
     (if rq_resume rq then None else Some (start_state env rq),
      if xe_saver_ok env then map_of (pr_checkpoints p1) (run_thread env rq) else None)"

definition final_outcome :: "exec_env \<Rightarrow> bool \<Rightarrow> run_end \<Rightarrow> run_end" where
  "final_outcome env interrupted out =
     (if interrupted then Run_interrupted
      else case out of Run_returned d \<Rightarrow> if xe_interrupt env Await_history then Run_interrupted else out | _ \<Rightarrow> out)"

lemma execute_run_eq:
  assumes "set_up env rq p = (None, p1)"
    and "run_graph env rq (fst (graph_input env rq p1)) (snd (graph_input env rq p1)) = (o', u, r)"
    and "release_all env rq (pr_subdir p) (rq_run_id rq \<noteq> None \<and> xe_sink_ok env) (xe_gateway env \<and> xe_session_ok env)
      (save_checkpoint env (run_thread env rq) u p1) = (i, p')"
  shows "execute_run env rq p = (final_outcome env i o', p', \<lparr>xt_graph = Some (graph_input env rq p1), xt_reported = r\<rparr>)"
  using assms
  by (simp add: execute_run_def Let_def graph_input_def final_outcome_def)

lemma execute_run_started:
  assumes "execute_run env rq p = (out, p', tr)" "set_up env rq p = (None, p1)"
  shows "\<exists>o' u r i. run_graph env rq (fst (graph_input env rq p1)) (snd (graph_input env rq p1)) = (o', u, r) \<and>
    release_all env rq (pr_subdir p) (rq_run_id rq \<noteq> None \<and> xe_sink_ok env) (xe_gateway env \<and> xe_session_ok env)
      (save_checkpoint env (run_thread env rq) u p1) = (i, p') \<and>
    out = final_outcome env i o' \<and> tr = \<lparr>xt_graph = Some (graph_input env rq p1), xt_reported = r\<rparr>"
proof -
  obtain o' u r where g: "run_graph env rq (fst (graph_input env rq p1)) (snd (graph_input env rq p1)) = (o', u, r)"
    by (metis prod_cases3)
  obtain i q where l: "release_all env rq (pr_subdir p) (rq_run_id rq \<noteq> None \<and> xe_sink_ok env) (xe_gateway env \<and> xe_session_ok env)
      (save_checkpoint env (run_thread env rq) u p1) = (i, q)"
    by (metis prod.exhaust)
  show ?thesis using execute_run_eq [OF assms(2) g l] assms(1) g l by auto
qed

lemma execute_run_cases:
  assumes "execute_run env rq p = (out, p', tr)"
  obtains (refused) e where "set_up env rq p = (Some e, p')" "out = e" "tr = no_trace"
    | (started) p1 where "set_up env rq p = (None, p1)"
  using assms by (cases "set_up env rq p"; cases "fst (set_up env rq p)") (auto simp: execute_run_def)

lemma run_released:
  assumes "execute_run env rq p = (out, p', tr)" "xt_graph tr \<noteq> None"
    and "\<not> xe_interrupt env Await_session_close" "\<not> xe_interrupt env Await_saver_close"
  shows "pr_sinks p' = pr_sinks p \<and> pr_subdir p' = pr_subdir p \<and> pr_savers p' = pr_savers p \<and>
    pr_sessions p' = pr_sessions p"
  using assms(1)
proof (cases rule: execute_run_cases)
  case (started p1)
  from execute_run_started [OF assms(1) started] release_held [OF set_up_held [OF started] assms(3,4)]
  show ?thesis by blast
qed (use assms(2) in \<open>simp add: no_trace_def\<close>)


text \<open>
  Fact (error): a run cancelled while it is being set up leaks its overrides.  Until the \<open>try\<close> is
  entered nothing is undone: when the task is cancelled at one of the awaits before the checkpoint
  connection, the isolation setting of the battery stays in the process, so the next ad hoc run
  of the same worker writes to the shared folder, and the log sink keeps recording it.
\<close>

theorem cancelled_set_up_leaks:
  assumes "rq_subdir rq = Some False" "rq_run_id rq = Some r" "xe_sink_ok env"
    and "xe_interrupt env Await_memory" "execute_run env rq p = (out, p', tr)"
    and "rq_subdir rq2 = None" "execute_run env2 rq2 p' = (out2, p2, tr2)" "xt_graph tr2 \<noteq> None"
    and "\<not> xe_interrupt env2 Await_session_close" "\<not> xe_interrupt env2 Await_saver_close"
  shows "out = Run_interrupted \<and> r \<in> set (pr_sinks p2) \<and> \<not> pr_subdir p2 \<and>
    isolated_results_root (paths_of env2 p2) = None"
proof -
  have s: "set_up env rq p = (Some Run_interrupted, p')" "out = Run_interrupted"
    using assms(4,5) by (auto simp: execute_run_def set_up_def Let_def)
  then have p': "r \<in> set (pr_sinks p')" "\<not> pr_subdir p'"
    using assms(1-4) by (auto simp: set_up_def Let_def)
  have "pr_sinks p2 = pr_sinks p' \<and> pr_subdir p2 = pr_subdir p'"
    using run_released [OF assms(7,8,9,10)] by simp
  then show ?thesis
    using p' s(2) by (simp add: isolated_results_root_def subdir_active_def paths_of_def split: option.split)
qed

section \<open>Restart and resume\<close>

lemma set_up_fresh_input:
  assumes "set_up env rq p = (None, p1)" "\<not> rq_resume rq" "xe_saver_ok env" "xe_delete_ok env"
  shows "graph_input env rq p1 = (Some (start_state env rq), None)"
proof -
  obtain p2 where p2: "prepare_checkpoint env rq (open_saver env (enter_run env rq p)) = (None, p2)" "open_tracker env p2 = (None, p1)"
    by (rule set_up_entered [OF assms(1)])
  have "map_of (pr_checkpoints p2) (run_thread env rq) = None"
    using clear_prior_run_checkpoints [of env "run_thread env rq" "rq_run_id rq" "open_saver env (enter_run env rq p)" p2] p2(1) assms(2-4)
    by (simp add: prepare_checkpoint_def)
  then show ?thesis using assms(2) open_tracker_frame [OF p2(2)] by (simp add: graph_input_def)
qed

text \<open>
  C21 (functional): a redelivered run starts over.  When the worker runs a job whose earlier attempt
  left a checkpoint, the checkpoint is deleted before the graph starts and the graph is given the
  initial state of the goal and no stored state, whatever the earlier attempt had reached; the
  executor's documentation says that redelivery resumes mid-run.
\<close>

theorem redelivery_restarts:
  assumes "default_agent_executor env job cb p = (out, p', tr)" "xt_graph tr = Some (inp, stored)"
    and "xe_saver_ok env" "xe_delete_ok env"
  shows "inp = Some (start_state env (job_request job cb)) \<and> stored = None \<and>
    iteration_count (the inp) = 0 \<and> submitted_goal (the inp) = job_goal job"
proof -
  obtain removed o' where e: "execute_run env (job_request job cb) (fold remove_tree removed p) = (o', p', tr)"
    using assms(1,2) by (auto simp: default_agent_executor_def no_trace_def split: sum.splits prod.splits)
  then have "inp = Some (start_state env (job_request job cb)) \<and> stored = None"
  proof (cases rule: execute_run_cases)
    case (started p1)
    have "graph_input env (job_request job cb) p1 = (Some (start_state env (job_request job cb)), None)"
      by (rule set_up_fresh_input [OF started]) (simp_all add: job_request_def assms(3,4))
    with execute_run_started [OF e started] assms(2) show ?thesis by auto
  qed (use assms(2) in \<open>simp add: no_trace_def\<close>)
  then show ?thesis
    by (simp add: start_state_def initial_state_def agent_state.defs empty_state_def job_request_def)
qed

text \<open>
  C40 (error): a run of the worker cannot be resumed from the command line.  Its checkpoint is kept
  under \<open>api-<run>\<close> and the command line looks under \<open>cli-<run>\<close>: as long as every checkpoint comes
  from the worker, \<open>--resume\<close> of any run is refused before the graph starts, although the status
  \<open>BUDGET_EXHAUSTED\<close> promises that it continues the run.
\<close>

theorem worker_run_not_resumable:
  assumes "list_all (\<lambda>(k, c). \<exists>r. k = thread_id_for r) (pr_checkpoints p)"
    and "rq_resume rq" "rq_origin rq = ''cli''" "execute_run env rq p = (out, p', tr)"
  shows "xt_graph tr = None \<and> (case out of Run_returned d \<Rightarrow> False | _ \<Rightarrow> True) \<and> pr_checkpoints p' = pr_checkpoints p"
proof -
  have "map_of (pr_checkpoints p) (run_thread env rq) = None"
    using assms(1,3)
    by (auto simp: map_of_eq_None_iff list_all_iff run_thread_def thread_id_for_run_def thread_id_for_def split: option.splits)
  then have q: "\<exists>e'. prepare_checkpoint env rq (open_saver env (enter_run env rq p)) =
      (Some e', open_saver env (enter_run env rq p)) \<and> e' \<notin> range Run_returned"
    using assms(2)
    by (auto simp: prepare_checkpoint_def require_resumable_checkpoint_def open_saver_def split: option.splits)
  moreover have "pr_checkpoints (open_saver env (enter_run env rq p)) = pr_checkpoints p"
    by (simp add: open_saver_def)
  ultimately have "\<exists>e p1. set_up env rq p = (Some e, p1) \<and> e \<notin> range Run_returned \<and> pr_checkpoints p1 = pr_checkpoints p"
    by (auto simp: set_up_def Let_def)
  then show ?thesis
    using assms(4) by (auto simp: execute_run_def no_trace_def split: run_end.split)
qed

lemma started_checkpoints:
  assumes "execute_run env rq p = (out, p', tr)" "set_up env rq p = (None, p1)" "xe_saver_ok env"
    and "run_graph env rq (fst (graph_input env rq p1)) (snd (graph_input env rq p1)) = (o', u, r)" "u \<noteq> []"
  shows "map_of (pr_checkpoints p') (run_thread env rq) = Some (last u)"
  using execute_run_started [OF assms(1,2)] assms(3-5) release_checkpoints
  by (fastforce simp: save_checkpoint_def)

definition resumed :: "exec_env \<Rightarrow> run_request \<Rightarrow> bool" where
  "resumed env rq = (rq_resume rq \<and> xe_saver_ok env \<and> xe_read_ok env \<and> \<not> xe_interrupt env Await_memory \<and>
     \<not> xe_interrupt env Await_tools \<and> \<not> xe_interrupt env Await_agents \<and> \<not> xe_interrupt env Await_saver \<and>
     \<not> xe_interrupt env Await_read \<and> xe_compile env = None \<and> \<not> xe_interrupt env Await_session \<and>
     \<not> xe_interrupt env Await_baseline)"

lemma resume_started:
  assumes "resumed env rq" "rq_run_id rq = Some r" "map_of (pr_checkpoints p) (run_thread env rq) = Some c"
  shows "\<exists>p1. set_up env rq p = (None, p1) \<and> graph_input env rq p1 = (None, Some c)"
proof -
  let ?p = "open_saver env (enter_run env rq p)"
  have cp: "pr_checkpoints ?p = pr_checkpoints p" by (simp add: open_saver_def)
  then have "prepare_checkpoint env rq ?p = (None, ?p)"
    using assms by (simp add: prepare_checkpoint_def require_resumable_checkpoint_def resumed_def)
  moreover have "fst (open_tracker env ?p) = None" using assms(1) by (simp add: open_tracker_def resumed_def)
  then obtain p1 where p1: "open_tracker env ?p = (None, p1)" by (cases "open_tracker env ?p") simp
  ultimately have "set_up env rq p = (None, p1)"
    using assms(1) by (simp add: set_up_def resumed_def Let_def)
  moreover have "pr_checkpoints p1 = pr_checkpoints p" using open_tracker_frame [OF p1] cp by simp
  ultimately show ?thesis using assms by (simp add: graph_input_def resumed_def)
qed


section \<open>Progress\<close>

lemma drive_quiet:
  assumes "\<And>k m. cb k \<noteq> Cancel_requested m"
  shows "\<exists>r. drive cb k l cs = (r, cs, None) \<and> l # r = remdups_adj (l # map iteration_count cs)"
proof (induction cs arbitrary: k l)
  case (Cons c cs)
  show ?case
  proof (cases "iteration_count c = l")
    case True
    from Cons [of k l] True show ?thesis by (auto simp del: remdups_adj.simps) (simp add: remdups_adj_Cons')
  next
    case False
    have "cb k = Reported \<or> cb k = Report_failed" using assms by (cases "cb k") auto
    with Cons [of "Suc k" "iteration_count c"] False show ?thesis by fastforce
  qed
qed simp

lemma progress_irrelevant [simp]:
  "run_thread env (rq\<lparr>rq_on_progress := x\<rparr>) = run_thread env rq"
  "start_state env (rq\<lparr>rq_on_progress := x\<rparr>) = start_state env rq"
  "prepare_checkpoint env (rq\<lparr>rq_on_progress := x\<rparr>) = prepare_checkpoint env rq"
  "enter_run env (rq\<lparr>rq_on_progress := x\<rparr>) = enter_run env rq"
  "set_up env (rq\<lparr>rq_on_progress := x\<rparr>) = set_up env rq"
  "graph_input env (rq\<lparr>rq_on_progress := x\<rparr>) = graph_input env rq"
  "release_all env (rq\<lparr>rq_on_progress := x\<rparr>) = release_all env rq"
proof -
  show th: "run_thread env (rq\<lparr>rq_on_progress := x\<rparr>) = run_thread env rq" by (simp add: run_thread_def)
  show st: "start_state env (rq\<lparr>rq_on_progress := x\<rparr>) = start_state env rq" by (simp add: start_state_def th)
  show pc: "prepare_checkpoint env (rq\<lparr>rq_on_progress := x\<rparr>) = prepare_checkpoint env rq"
    by (rule ext) (simp add: prepare_checkpoint_def th)
  show en: "enter_run env (rq\<lparr>rq_on_progress := x\<rparr>) = enter_run env rq" by (rule ext) (simp add: enter_run_def)
  show "set_up env (rq\<lparr>rq_on_progress := x\<rparr>) = set_up env rq" by (rule ext) (simp add: set_up_def Let_def pc en)
  show "graph_input env (rq\<lparr>rq_on_progress := x\<rparr>) = graph_input env rq" by (rule ext) (simp add: graph_input_def th st)
  show "release_all env (rq\<lparr>rq_on_progress := x\<rparr>) = release_all env rq" by (intro ext) (simp add: release_all_def Let_def)
qed

text \<open>
  C20 (equivalence): streaming progress changes nothing but what is reported.  With a progress
  callback that never asks to cancel, whether it works or fails, a run whose graph streams at
  least one state ends like the run without a callback and leaves the same process state, and the
  counts it reports are those of the stream without repetitions.
\<close>

theorem progress_observational:
  assumes "\<forall>k m. cb k \<noteq> Cancel_requested m" "rq_on_progress rq = Some cb"
    and "execute_run env (rq\<lparr>rq_on_progress := None\<rparr>) p = (out, p', tr)" "xt_graph tr = Some (inp, stored)"
    and "xe_graph env inp stored = (cs, e)" "cs \<noteq> []" "list_all (\<lambda>c. 0 \<le> iteration_count c) cs"
  shows "execute_run env rq p =
    (out, p', \<lparr>xt_graph = Some (inp, stored), xt_reported = remdups_adj (map iteration_count cs)\<rparr>)"
  using assms(3)
proof (cases rule: execute_run_cases)
  case (started p1)
  then have s: "set_up env rq p = (None, p1)" by simp
  from execute_run_started [OF assms(3) started] assms(4)
  have g: "graph_input env rq p1 = (inp, stored)" by auto
  obtain r where r: "drive cb 0 (- 1) cs = (r, cs, None)" "- 1 # r = remdups_adj (- 1 # map iteration_count cs)"
    using drive_quiet [of cb 0 "- 1" cs] assms(1) by auto
  have "r = remdups_adj (map iteration_count cs)"
    using r(2) assms(6,7) by (cases cs) (auto simp del: remdups_adj.simps simp: remdups_adj_Cons')
  then have q: "run_graph env rq inp stored = (fst (run_graph env (rq\<lparr>rq_on_progress := None\<rparr>) inp stored), cs,
      remdups_adj (map iteration_count cs))"
    and n: "run_graph env (rq\<lparr>rq_on_progress := None\<rparr>) inp stored =
      (fst (run_graph env (rq\<lparr>rq_on_progress := None\<rparr>) inp stored), cs, [])"
    using r(1) assms(2,5,6) by (auto simp: run_graph_def split: option.splits)
  from execute_run_started [OF assms(3) started] g n obtain i where
    i: "release_all env rq (pr_subdir p) (rq_run_id rq \<noteq> None \<and> xe_sink_ok env) (xe_gateway env \<and> xe_session_ok env)
      (save_checkpoint env (run_thread env rq) cs p1) = (i, p')"
    and out: "out = final_outcome env i (fst (run_graph env (rq\<lparr>rq_on_progress := None\<rparr>) inp stored))"
    by auto
  show ?thesis
    using execute_run_eq [OF s, of _ _ _ i p'] q i out g by simp
qed (use assms(4) in \<open>simp add: no_trace_def\<close>)

text \<open>
  Fact (bounds): a cancel request stops the run at the report that sees it.  When the callback asks
  to cancel, the last state taken from the graph is the one whose count was just reported, so no
  later iteration runs, and the run ends as cancelled.
\<close>

theorem cancel_within_one_report:
  assumes "drive cb 0 (- 1) cs = (r, u, Some m)"
  shows "u \<noteq> [] \<and> r \<noteq> [] \<and> iteration_count (last u) = last r \<and> prefix u cs \<and>
    cb (length r - 1) = Cancel_requested m"
proof -
  have "drive cb k l cs = (r, u, Some m) \<Longrightarrow> u \<noteq> [] \<and> r \<noteq> [] \<and> iteration_count (last u) = last r \<and> prefix u cs \<and>
      cb (k + (length r - 1)) = Cancel_requested m" for k l r u
  proof (induction cb k l cs arbitrary: r u rule: drive.induct)
    case (2 cb k l c cs)
    show ?case
    proof (cases "iteration_count c = l")
      case True
      then show ?thesis using 2 by (auto split: prod.splits)
    next
      case False
      with 2 show ?thesis
        by (cases "cb k") (auto split: prod.splits simp: Suc_diff_Suc [symmetric] neq_Nil_conv)
    qed
  qed simp
  from this [OF assms] show ?thesis by simp
qed

section \<open>The summary\<close>

lemma summary_stem_chars: "list_all summary_char (summary_stem g)"
proof -
  have "summary_char CHR ''_''" by (simp add: summary_char_def)
  then show ?thesis
    by (auto simp: summary_stem_def Let_def list_all_iff dest!: set_dropWhileD)
qed

text \<open>
  Fact (safety): the summary of a run lands in its own folder.  Whatever the text of the goal, with
  isolation on the file that records the result is written below the folder of the run.
\<close>

theorem summary_in_cell:
  assumes "links_free cwd env" "isolated rid env" "list_all (\<lambda>c. is_digit c \<or> c = CHR ''_'') stamp"
  shows "\<exists>t. summary_file env goal_text stamp = Inr t \<and> is_relative_to t (cell_of rid env)"
proof -
  let ?raw = "summary_stem goal_text @ ''_'' @ stamp @ ''.md''"
  have "CHR ''/'' \<notin> set ?raw"
    using summary_stem_chars [of goal_text] assms(3)
    by (auto simp: list_all_iff summary_char_def is_digit_def less_eq_char_def)
  moreover have "?raw \<noteq> ''.''" "?raw \<noteq> ''..''" by (auto simp: append_eq_Cons_conv)
  ultimately have p: "plain_comp ?raw" "?raw \<noteq> ''..''" by (simp_all add: plain_comp_def)
  then have "''..'' \<notin> set (py_parts ?raw)" by (simp only: py_parts_plain) simp
  then show ?thesis
    using write_in_cell [OF assms(1,2) plain_not_slash [OF p(1)]] by (simp add: summary_file_def is_relative_to_def)
qed

section \<open>The properties at concrete inputs\<close>

definition demo_step :: "run_chunk \<Rightarrow> run_chunk" where
  "demo_step c = c\<lparr>iteration_count := iteration_count c + 1\<rparr>"

text \<open>A graph that does one step: of the goal it is given, else of the stored state.\<close>

definition demo_exec :: exec_env where
  "demo_exec =
     \<lparr>xe_sink_ok = True, xe_paths = demo_paths (\<lambda>d. None), xe_rmtree_ok = (\<lambda>d. True), xe_fallback = ''1-2'',
      xe_goal = new_goal ''g'' [] 0, xe_attempt_id = ''a1'', xe_lookup = (\<lambda>s. Some (s = ''battery04_q09'')),
      xe_gateway = False, xe_records = [], xe_saver_ok = True, xe_read_ok = True, xe_delete_ok = True,
      xe_session_ok = False, xe_compile = None, xe_interrupt = (\<lambda>a. False),
      xe_graph = (\<lambda>inp stored. (case inp of Some c \<Rightarrow> [demo_step c] | None \<Rightarrow> (case stored of None \<Rightarrow> [] | Some c \<Rightarrow> [demo_step c]),
        Graph_error ''boom''))\<rparr>"

definition demo_process :: process_state where
  "demo_process =
     \<lparr>pr_subdir = True, pr_eval_enabled = False, pr_eval_enforce = False, pr_run = None, pr_sinks = [], pr_savers = 0,
      pr_sessions = 0, pr_checkpoints = [], pr_folders = []\<rparr>"

definition demo_job :: run_job where
  "demo_job = \<lparr>job_run_id = ''q09'', job_goal = ''do it'', job_max_iterations = None, job_no_evolution = False,
     job_model = None, job_run_timeout_s = None, job_results_per_run_subdir = Some False, job_clear_flat_subdirs = []\<rparr>"

definition demo_cli :: "bool \<Rightarrow> run_request" where
  "demo_cli resume = (job_request demo_job None)\<lparr>rq_origin := ''cli'', rq_resume := resume\<rparr>"

lemma demo_exec_simps [simp]:
  "xe_interrupt demo_exec = (\<lambda>a. False)" "xe_saver_ok demo_exec" "xe_read_ok demo_exec" "xe_delete_ok demo_exec"
  "xe_compile demo_exec = None" "\<not> xe_gateway demo_exec" "xe_sink_ok demo_exec"
  by (simp_all add: demo_exec_def)

lemma demo_request_simps [simp]:
  "rq_resume (demo_cli b) = b" "rq_run_id (demo_cli b) = Some ''q09''" "rq_origin (demo_cli b) = ''cli''"
  "rq_subdir (demo_cli b) = Some False" "rq_on_progress (demo_cli b) = None" "run_thread demo_exec (demo_cli b) = ''cli-q09''"
  "\<not> rq_resume (job_request j cb)" "rq_run_id (job_request j cb) = Some (job_run_id j)"
  "rq_on_progress (job_request j cb) = cb" "rq_subdir (job_request j cb) = job_results_per_run_subdir j"
  "job_results_per_run_subdir demo_job = Some False" "job_clear_flat_subdirs demo_job = []" "job_run_id demo_job = ''q09''"
  by (simp_all add: demo_cli_def job_request_def demo_job_def run_thread_def thread_id_for_run_def)

lemma demo_fresh:
  assumes "\<not> rq_resume rq"
  shows "\<exists>p1. set_up demo_exec rq p = (None, p1)"
  using assms
  by (auto simp: set_up_def Let_def prepare_checkpoint_def clear_prior_run_def open_tracker_def split: option.splits sum.splits)

lemma demo_started:
  assumes "\<not> rq_resume rq" "execute_run demo_exec rq p = (out, p', tr)"
  shows "xt_graph tr = Some (Some (start_state demo_exec rq), None)"
proof -
  obtain p1 where s: "set_up demo_exec rq p = (None, p1)" using demo_fresh [OF assms(1)] by blast
  from execute_run_started [OF assms(2) s] set_up_fresh_input [OF s assms(1)] show ?thesis by auto
qed

lemma demo_graph:
  "xe_graph demo_exec (Some c) stored = ([demo_step c], Graph_error ''boom'')"
  "rq_on_progress rq = None \<Longrightarrow> run_graph demo_exec rq (Some c) stored = (Run_failed ''boom'', [demo_step c], [])"
  by (simp_all add: demo_exec_def run_graph_def)

theorem scheduled_run_scored_witness:
  "resolve_eval_spec_id (\<lambda>s. Some (s = ''battery04_q09'')) (Some ''battery04_q09-gen0-seed1-20260713'') = Some ''battery04_q09''"
  using scheduled_run_scored [of "''battery04_q09''" "[''gen0'', ''seed1'']" "''20260713''" "\<lambda>s. Some (s = ''battery04_q09'')"]
  by (simp add: untagged_def rpartition_def is_run_tag_def all_digits_def is_digit_def build_run_id_def less_eq_char_def)


theorem cancelled_set_up_leaks_witness:
  "case execute_run (demo_exec\<lparr>xe_interrupt := (\<lambda>a. a = Await_memory)\<rparr>) (demo_cli False) demo_process of (out, p', tr) \<Rightarrow>
     case execute_run demo_exec ((demo_cli False)\<lparr>rq_subdir := None\<rparr>) p' of (out2, p2, tr2) \<Rightarrow>
       out = Run_interrupted \<and> ''q09'' \<in> set (pr_sinks p2) \<and> \<not> pr_subdir p2"
proof (cases "execute_run (demo_exec\<lparr>xe_interrupt := (\<lambda>a. a = Await_memory)\<rparr>) (demo_cli False) demo_process")
  case first: (fields out p' tr)
  show ?thesis
  proof (cases "execute_run demo_exec ((demo_cli False)\<lparr>rq_subdir := None\<rparr>) p'")
    case (fields out2 p2 tr2)
    with first cancelled_set_up_leaks [OF _ _ _ _ first _ fields, of "''q09''"] demo_started [OF _ fields] show ?thesis
      by simp
  qed
qed

theorem redelivery_restarts_witness:
  "case default_agent_executor demo_exec demo_job None (demo_process\<lparr>pr_checkpoints := [(''api-q09'', demo_step (start_state demo_exec (demo_cli False)))]\<rparr>)
     of (out, p', tr) \<Rightarrow> (case xt_graph tr of None \<Rightarrow> False | Some (inp, stored) \<Rightarrow> stored = None \<and> iteration_count (the inp) = 0)"
proof -
  let ?p = "demo_process\<lparr>pr_checkpoints := [(''api-q09'', demo_step (start_state demo_exec (demo_cli False)))]\<rparr>"
  obtain out p' tr where d: "default_agent_executor demo_exec demo_job None ?p = (out, p', tr)"
    by (cases "default_agent_executor demo_exec demo_job None ?p")
  then obtain o' where "execute_run demo_exec (job_request demo_job None) ?p = (o', p', tr)"
    by (auto simp: default_agent_executor_def split: prod.splits)
  from demo_started [OF _ this] redelivery_restarts [OF d] d show ?thesis by simp
qed

theorem worker_run_not_resumable_witness:
  "case execute_run demo_exec (demo_cli True)
       (demo_process\<lparr>pr_checkpoints := [(thread_id_for ''q09'', demo_step (start_state demo_exec (demo_cli False)))]\<rparr>)
     of (out, p', tr) \<Rightarrow> xt_graph tr = None"
proof (cases "execute_run demo_exec (demo_cli True)
    (demo_process\<lparr>pr_checkpoints := [(thread_id_for ''q09'', demo_step (start_state demo_exec (demo_cli False)))]\<rparr>)")
  case (fields out p' tr)
  with worker_run_not_resumable [OF _ _ _ fields] show ?thesis by (auto simp: demo_process_def)
qed


theorem progress_observational_witness:
  "case execute_run demo_exec ((job_request demo_job (Some (\<lambda>k. Report_failed)))\<lparr>rq_on_progress := None\<rparr>) demo_process of (out, p', tr) \<Rightarrow>
     execute_run demo_exec (job_request demo_job (Some (\<lambda>k. Report_failed))) demo_process =
       (out, p', \<lparr>xt_graph = xt_graph tr, xt_reported = [1]\<rparr>)"
proof (cases "execute_run demo_exec ((job_request demo_job (Some (\<lambda>k. Report_failed)))\<lparr>rq_on_progress := None\<rparr>) demo_process")
  case (fields out p' tr)
  have i: "iteration_count (start_state demo_exec (job_request demo_job (Some (\<lambda>k. Report_failed)))) = 0"
    by (simp add: start_state_def initial_state_def agent_state.defs empty_state_def)
  from progress_observational [OF _ _ fields demo_started [OF _ fields] demo_graph(1)] fields i demo_started [OF _ fields]
  show ?thesis by (simp add: demo_step_def)
qed

theorem cancel_within_one_report_witness:
  "iteration_count (last [demo_step (start_state demo_exec (demo_cli False))]) = last [1] \<and>
    (\<lambda>k. Cancel_requested ''stop'') (length [1 :: int] - 1) = Cancel_requested ''stop''"
  using cancel_within_one_report [of "\<lambda>k. Cancel_requested ''stop''" "[demo_step (start_state demo_exec (demo_cli False))]"
      "[1]" "[demo_step (start_state demo_exec (demo_cli False))]" "''stop''"]
  by (simp add: demo_step_def start_state_def initial_state_def agent_state.defs empty_state_def)

theorem summary_in_cell_witness:
  "\<exists>t. summary_file (demo_paths (\<lambda>p. None)) ''../do it!'' ''20260713_101500'' = Inr t \<and>
     is_relative_to t (cell_of ''q09'' (demo_paths (\<lambda>p. None)))"
  by (rule summary_in_cell [where cwd = "[''/'', ''app'']"]) (simp_all add: is_digit_def less_eq_char_def)

end
