(* ===== verification/File_Tools.thy ===== *)
theory File_Tools
  imports Tool_Paths "HOL-Library.Product_Lexorder"
begin

text \<open>
  The built-in tools that touch files (\<open>file_reader\<close>, \<open>file_writer\<close>, \<open>list_directory\<close> and
  \<open>self_inspect\<close> of \<open>src/src/tools/builtin/\<close>).  A handler gets the arguments the model wrote as
  keyword arguments; its answer is \<open>None\<close> when an exception leaves it.  The regular files (size in
  bytes and decoded text, if it decodes) and the directories are functions of the environment.
\<close>

section \<open>Files\<close>

record file_env =
  fe_paths :: path_env
  fe_file :: "path \<Rightarrow> (int \<times> string option) option"
  fe_dir :: "path \<Rightarrow> (string \<times> bool \<times> int option) list option"
  fe_write_ok :: "path \<Rightarrow> bool"

definition path_str :: "path \<Rightarrow> string" where
  "path_str p =
     (case p of [] \<Rightarrow> ''.''
      | c # cs \<Rightarrow> if c \<in> {''/'', ''//''} then c @ py_join ''/'' cs else py_join ''/'' (c # cs))"

definition resolve_under :: "path_env \<Rightarrow> path \<Rightarrow> string \<Rightarrow> path" where
  "resolve_under env base raw = pe_resolve env (path_join base (py_parts raw))"

text \<open>\<open>str.splitlines()\<close> on the line boundaries below code point 256.\<close>

definition line_break :: "char \<Rightarrow> bool" where
  "line_break c = (of_char c \<in> {10, 11, 12, 13, 28, 29, 30, 133 :: nat})"

fun split_lines_acc :: "string \<Rightarrow> string \<Rightarrow> string list" where
  "split_lines_acc acc [] = (if acc = [] then [] else [rev acc])"
| "split_lines_acc acc (c # cs) =
     (if of_char c = (13 :: nat) \<and> cs \<noteq> [] \<and> of_char (hd cs) = (10 :: nat) then rev acc # split_lines_acc [] (tl cs)
      else if line_break c then rev acc # split_lines_acc [] cs
      else split_lines_acc (c # acc) cs)"

definition split_lines :: "string \<Rightarrow> string list" where
  "split_lines s = split_lines_acc [] s"

definition error_text :: "string \<Rightarrow> string" where
  "error_text s = ''ERROR: '' @ s"

definition max_file_bytes :: int where
  "max_file_bytes = 1000000"

section \<open>Reading\<close>

text \<open>\<open>None\<close>: an \<open>OSError\<close> of \<open>exists\<close> leaves the function.\<close>

definition results_root_fallback :: "file_env \<Rightarrow> string \<Rightarrow> path option option" where
  "results_root_fallback env file_path =
     (if is_absolute (py_parts file_path) then Some None
      else case resolve_existing (fe_paths env) (Named_base ''results'') file_path of
        Inl Os_failure \<Rightarrow> None
      | Inl _ \<Rightarrow> Some None
      | Inr c \<Rightarrow>
          (case pe_exists (fe_paths env) c of
             None \<Rightarrow> None
           | Some e \<Rightarrow> Some (if e \<and> fe_file env c \<noteq> None then Some c else None)))"

definition shown_lines :: "string \<Rightarrow> int \<Rightarrow> string" where
  "shown_lines content max_lines =
     (let ls = split_lines content
      in py_join newline
           (if int (length ls) > max_lines
            then py_take max_lines ls @ [newline @ ''... (truncated at '' @ py_str max_lines @ '' lines, total '' @
                   py_str (int (length ls)) @ '' lines)'']
            else ls))"

definition read_target :: "file_env \<Rightarrow> string \<Rightarrow> path \<Rightarrow> int \<Rightarrow> string" where
  "read_target env file_path target max_lines =
     (case fe_file env target of
        None \<Rightarrow> error_text (''Not a file: '' @ file_path)
      | Some (sz, content) \<Rightarrow>
          if sz > max_file_bytes then error_text (''File too large ('' @ py_str sz @ '' bytes, max 1MB): '' @ file_path)
          else case content of
            None \<Rightarrow> error_text (''Cannot decode file as utf-8: '' @ file_path)
          | Some s \<Rightarrow> shown_lines s max_lines)"

definition file_reader :: "file_env \<Rightarrow> string \<Rightarrow> string option \<Rightarrow> int \<Rightarrow> string option" where
  "file_reader env file_path sandbox_root max_lines =
     (let rt = (case sandbox_root of None \<Rightarrow> workspace_root (fe_paths env) | Some s \<Rightarrow> pe_resolve (fe_paths env) (py_parts s));
          target = resolve_under (fe_paths env) rt file_path
      in if \<not> prefix (path_str rt) (path_str target) then Some (error_text (''Path traversal blocked: '' @ file_path))
         else case pe_exists (fe_paths env) target of
           None \<Rightarrow> None
         | Some True \<Rightarrow> Some (read_target env file_path target max_lines)
         | Some False \<Rightarrow>
             if sandbox_root \<noteq> None then Some (error_text (''File not found: '' @ file_path))
             else (case results_root_fallback env file_path of
                     None \<Rightarrow> None
                   | Some None \<Rightarrow> Some (error_text (''File not found: '' @ file_path))
                   | Some (Some c) \<Rightarrow> Some (read_target env file_path c max_lines)))"

section \<open>Writing\<close>

definition path_parent :: "path \<Rightarrow> path" where
  "path_parent p = (if length p \<le> 1 then p else butlast p)"

text \<open>The answer and the file that was written, if any.\<close>

definition file_writer ::
  "file_env \<Rightarrow> string \<Rightarrow> string \<Rightarrow> string option \<Rightarrow> bool \<Rightarrow> string option \<times> (path \<times> string) option" where
  "file_writer env file_path content sandbox_root create_dirs =
     (let rt = (case sandbox_root of None \<Rightarrow> results_root (fe_paths env) | Some s \<Rightarrow> pe_resolve (fe_paths env) (py_parts s))
      in case normalize (fe_paths env) (At_base rt) file_path of
           Inl _ \<Rightarrow> (Some (error_text (''Path traversal blocked: '' @ file_path)), None)
         | Inr target \<Rightarrow>
             if int (length content) > max_file_bytes
             then (Some (error_text (''Content too large ('' @ py_str (int (length content)) @ '' bytes, max 1MB)'')), None)
             else if \<not> create_dirs \<and> pe_exists (fe_paths env) (path_parent target) = None then (None, None)
             else if \<not> create_dirs \<and> pe_exists (fe_paths env) (path_parent target) = Some False
             then (Some (error_text (''Parent directory does not exist: '' @ path_str (path_parent target))), None)
             else if fe_write_ok env target
             then (Some (''Successfully wrote '' @ py_str (int (length content)) @ '' bytes to '' @ file_path), Some (target, content))
             else (Some (error_text ''Failed to write file''), None))"

definition write_file :: "path \<Rightarrow> string \<Rightarrow> file_env \<Rightarrow> file_env" where
  "write_file p content env =
     env\<lparr>fe_file := (fe_file env)(p \<mapsto> (int (length content), Some content)),
         fe_paths := (fe_paths env)\<lparr>pe_exists := (pe_exists (fe_paths env))(p := Some True)\<rparr>\<rparr>"

text \<open>The handlers as the tool call invokes them: \<open>handler(**args)\<close>; an unknown keyword is a \<open>TypeError\<close>.\<close>

definition json_str :: "json \<Rightarrow> string option" where
  "json_str v = (case v of JStr s \<Rightarrow> Some s | _ \<Rightarrow> None)"

definition file_writer_call :: "file_env \<Rightarrow> (string \<times> json) list \<Rightarrow> string option \<times> (path \<times> string) option" where
  "file_writer_call env args =
     (if \<not> set (map fst args) \<subseteq> {''file_path'', ''content'', ''sandbox_root'', ''create_dirs'', ''encoding''} then (None, None)
      else case (map_of args ''file_path'', map_of args ''content'') of
        (Some (JStr f), Some (JStr c)) \<Rightarrow>
          (case obj_get args ''sandbox_root'' JNull of
             JNull \<Rightarrow> file_writer env f c None (truthy (obj_get args ''create_dirs'' (JBool True)))
           | JStr s \<Rightarrow> file_writer env f c (Some s) (truthy (obj_get args ''create_dirs'' (JBool True)))
           | _ \<Rightarrow> (None, None))
      | _ \<Rightarrow> (None, None))"

definition file_writer_parameters :: "string list" where
  "file_writer_parameters = [''file_path'', ''content'', ''create_dirs'']"

section \<open>Listing\<close>

definition entry_key :: "string \<times> bool \<times> int option \<Rightarrow> bool \<times> string" where
  "entry_key e = (\<not> fst (snd e), py_lower (fst e))"

definition entry_line :: "string \<times> bool \<times> int option \<Rightarrow> string" where
  "entry_line e =
     (case e of (name, is_dir, sz) \<Rightarrow>
        (case sz of
           None \<Rightarrow> if is_dir then ''[DIR ] '' @ name else ''[?   ] '' @ name
         | Some n \<Rightarrow> if is_dir then ''[DIR ] '' @ name else ''[FILE] '' @ name @ '' ('' @ py_str n @ '' bytes)''))"

definition listed_entries :: "int \<Rightarrow> (string \<times> bool \<times> int option) list \<Rightarrow> (string \<times> bool \<times> int option) list" where
  "listed_entries max_entries es = py_take max_entries (sort_key entry_key es)"

definition list_directory :: "file_env \<Rightarrow> string \<Rightarrow> int \<Rightarrow> string option \<Rightarrow> string option" where
  "list_directory env raw max_entries sandbox_root =
     (let rt = (case sandbox_root of None \<Rightarrow> workspace_root (fe_paths env) | Some s \<Rightarrow> pe_resolve (fe_paths env) (py_parts s));
          target = resolve_under (fe_paths env) rt raw
      in if \<not> is_relative_to target rt then Some (error_text (''Path traversal blocked: '' @ raw))
         else case pe_exists (fe_paths env) target of
           None \<Rightarrow> None
         | Some False \<Rightarrow> Some (error_text (''Directory not found: '' @ raw))
         | Some True \<Rightarrow>
             (case fe_dir env target of
                None \<Rightarrow> Some (error_text (''Not a directory: '' @ raw))
              | Some [] \<Rightarrow> Some (''(empty directory: '' @ raw @ '')'')
              | Some es \<Rightarrow>
                  Some (py_join newline (map entry_line (listed_entries max_entries es) @
                    (if int (length es) > max_entries
                     then [''... ('' @ py_str (int (length es)) @ '' entries total, showing first '' @ py_str max_entries @ '')'']
                     else [])))))"

text \<open>\<open>agent_root\<close> is the package directory; \<open>suffix_of\<close> is \<open>Path.suffix\<close> of a name.\<close>

definition suffix_of :: "string \<Rightarrow> string" where
  "suffix_of name =
     (let ext = takeWhile (\<lambda>c. c \<noteq> CHR ''.'') (rev name); stem = drop (Suc (length ext)) (rev name)
      in if CHR ''.'' \<in> set name \<and> stem \<noteq> [] \<and> ext \<noteq> [] then ''.'' @ rev ext else [])"

definition self_inspect :: "file_env \<Rightarrow> path \<Rightarrow> path list \<Rightarrow> string \<Rightarrow> int \<Rightarrow> string option" where
  "self_inspect env agent_root modules module_path max_lines =
     (if module_path = []
      then Some (''Turing Agent modules ('' @ py_str (int (length modules)) @ '' files):'' @ newline @
             py_join newline (map (\<lambda>m. ''  '' @ m) (take 50 (sort (map path_str modules)))))
      else
        let target = resolve_under (fe_paths env) agent_root module_path
        in if \<not> prefix (path_str (pe_resolve (fe_paths env) agent_root)) (path_str target)
           then Some (error_text (''Path traversal blocked: '' @ module_path))
           else case pe_exists (fe_paths env) target of
             None \<Rightarrow> None
           | Some False \<Rightarrow> Some (error_text (''Module not found: '' @ module_path))
           | Some True \<Rightarrow>
               (case fe_file env target of
                  None \<Rightarrow> Some (error_text (''Not a Python file: '' @ module_path))
                | Some (_, content) \<Rightarrow>
                    if suffix_of (path_name target) \<noteq> ''.py'' then Some (error_text (''Not a Python file: '' @ module_path))
                    else map_option (\<lambda>s. let ls = split_lines s
                       in py_join newline (if int (length ls) > max_lines
                            then py_take max_lines ls @ [newline @ ''... (truncated at '' @ py_str max_lines @ '' lines)'']
                            else ls)) content))"

section \<open>Paths as texts\<close>

lemma py_join_append: "prefix (py_join sep xs) (py_join sep (xs @ ys))"
proof (induction sep xs rule: py_join.induct)
  case (2 sep x)
  then show ?case by (cases ys) auto
qed auto

lemma path_str_below: "resolved_path p \<Longrightarrow> prefix (path_str p) (path_str (p @ ps))"
  using py_join_append by (cases p) (auto simp: path_str_def resolved_path_def is_absolute_def)

lemma py_join_snoc: "xs \<noteq> [] \<Longrightarrow> py_join sep (xs @ [y]) = py_join sep xs @ sep @ y"
proof (induction sep xs rule: py_join.induct)
  case (3 sep x y' ys)
  then show ?case by (cases ys) auto
qed auto

lemma py_join_last_prefix:
  "prefix w s \<Longrightarrow> prefix (py_join sep (xs @ [w])) (py_join sep (xs @ s # ys))"
proof (induction sep xs rule: py_join.induct)
  case (1 sep)
  then show ?case by (cases ys) (auto intro: prefix_prefix)
next
  case (2 sep x)
  then show ?case by (cases ys) (auto intro: prefix_prefix)
qed auto

section \<open>What is written can be read\<close>

lemma normalize_at_root:
  assumes "links_free cwd env"
  shows "normalize env (At_base (results_root env)) raw = normalize env (Named_base ''results'') raw"
  using resolve_again [OF assms results_root_resolved [OF assms]] by (simp add: normalize_def resolve_base_def)

lemma write_target:
  assumes "links_free cwd (fe_paths env)" "file_writer env raw content None cd = (msg, Some (t, c))"
  shows "normalize (fe_paths env) (Named_base ''results'') raw = Inr t \<and> c = content \<and> int (length content) \<le> max_file_bytes"
  using assms(2) normalize_at_root [OF assms(1), of raw]
  by (auto simp: file_writer_def Let_def split: sum.splits if_splits)

lemma written_env [simp]:
  "fe_file (write_file p c env) = (fe_file env)(p \<mapsto> (int (length c), Some c))"
  "pe_exists (fe_paths (write_file p c env)) = (pe_exists (fe_paths env))(p := Some True)"
  "normalize (fe_paths (write_file p c env)) b raw = normalize (fe_paths env) b raw"
  "workspace_root (fe_paths (write_file p c env)) = workspace_root (fe_paths env)"
  "resolve_under (fe_paths (write_file p c env)) d raw = resolve_under (fe_paths env) d raw"
proof -
  let ?e = "fe_paths (write_file p c env)"
  have e: "?e = (fe_paths env)\<lparr>pe_exists := (pe_exists (fe_paths env))(p := Some True)\<rparr>" by (simp add: write_file_def)
  have f: "resolve_base ?e = resolve_base (fe_paths env)" "strip_parts ?e = strip_parts (fe_paths env)"
    "maybe_inject_run_subdir ?e = maybe_inject_run_subdir (fe_paths env)"
    by (intro ext; simp add: e resolve_base_def results_root_def workspace_root_def project_root_def strip_parts_def
        strip_names_def maybe_inject_run_subdir_def subdir_active_def split: path_base.split option.split)+
  have g: "pe_resolve ?e = pe_resolve (fe_paths env)" by (simp add: e)
  show "normalize ?e b raw = normalize (fe_paths env) b raw"
    by (cases "resolve_base (fe_paths env) b") (simp_all add: normalize_def f g Let_def)
qed (simp_all add: write_file_def workspace_root_def resolve_under_def)


text \<open>
  Fact (safety): the writer never leaves the results.  Without a \<open>sandbox_root\<close> of its own every file
  it writes lies below the results root, whatever links the file system has.
\<close>

theorem writer_confined:
  assumes "pe_resolve (fe_paths env) (results_root (fe_paths env)) = results_root (fe_paths env)"
    and "file_writer env raw content None create_dirs = (msg, Some (t, c))"
  shows "is_relative_to t (results_root (fe_paths env)) \<and> int (length c) \<le> 1000000"
  using assms
  by (auto simp: file_writer_def normalize_def resolve_base_def Let_def max_file_bytes_def split: if_splits)

text \<open>
  Fact (error): the model chooses the sandbox.  The handlers are called with the arguments of the
  model as keywords and take a \<open>sandbox_root\<close> the schema does not declare, so a call that names an
  absolute directory writes there, wherever it lies.
\<close>

theorem model_chooses_sandbox:
  assumes "links_free cwd (fe_paths env)" "prefix ''/'' d" "plain_comp f" "f \<noteq> ''..''"
    and "resolve_under (fe_paths env) [] d \<noteq> results_root (fe_paths env)" "int (length c) \<le> 1000000"
    and "fe_write_ok env (resolve_under (fe_paths env) [] d @ [f])"
  shows "snd (file_writer_call env [(''file_path'', JStr f), (''content'', JStr c), (''sandbox_root'', JStr d)]) =
      Some (resolve_under (fe_paths env) [] d @ [f], c) \<and> ''sandbox_root'' \<notin> set file_writer_parameters"
proof -
  let ?rt = "pe_resolve (fe_paths env) (py_parts d)"
  have abs: "is_absolute (py_parts d)" using assms(2) by (auto simp: py_parts_def path_root_def is_absolute_def)
  then have u: "resolve_under (fe_paths env) [] d = ?rt" by (simp add: resolve_under_def path_join_def)
  have rt: "resolved_path ?rt" using assms(1) by (simp add: links_free_def lexical_resolved)
  have "maybe_inject_run_subdir (fe_paths env) ps ?rt = ps" for ps
    using assms(5) u by (simp add: maybe_inject_run_subdir_def split: option.split)
  moreover have "strip_parts (fe_paths env) x [f] = [f]" for x by (simp add: strip_parts_def)
  moreover have "pe_resolve (fe_paths env) (?rt @ [f]) = ?rt @ [f]"
    using assms(4) by (intro resolve_plain [OF assms(1) rt]) simp
  ultimately have "normalize (fe_paths env) (At_base ?rt) f = Inr (?rt @ [f])"
    using resolve_again [OF assms(1) rt] assms(3)
    by (simp add: normalize_def resolve_base_def path_join_def is_relative_to_def Let_def)
  then show ?thesis
    using assms(6,7) u
    by (simp add: file_writer_call_def obj_get_def file_writer_def Let_def max_file_bytes_def file_writer_parameters_def)
qed

text \<open>
  Fact (error): the reader's guard compares texts, not paths.  A directory beside the workspace
  whose name starts with the workspace's name passes the traversal check, so its files are read
  through \<open>../<sibling>/<file>\<close>; the listing tool, which compares paths, refuses the same name.
\<close>

theorem sibling_directory_readable:
  assumes "links_free cwd (fe_paths env)" "workspace_root (fe_paths env) = par @ [w]" "tl par \<noteq> []" "prefix w s" "s \<noteq> w"
    and "plain_comp s" "s \<noteq> ''..''" "plain_comp f" "f \<noteq> ''..''"
    and "pe_exists (fe_paths env) (par @ [s, f]) = Some True"
    and "fe_file env (par @ [s, f]) = Some (n, Some content)" "n \<le> max_file_bytes"
  shows "file_reader env (''../'' @ s @ ''/'' @ f) None max_lines = Some (shown_lines content max_lines) \<and>
    list_directory env (''../'' @ s @ ''/'' @ f) max_lines None = Some (error_text (''Path traversal blocked: ../'' @ s @ ''/'' @ f))"
proof -
  let ?raw = "''../'' @ s @ ''/'' @ f"
  have ws: "resolved_path (par @ [w])" using assms(1,2) by (metis links_free_def lexical_resolved workspace_root_def)
  obtain h u where par: "par = h # u" "u \<noteq> []" using assms(3) by (cases par) auto
  have r: "\<not> prefix ''/'' (s @ ''/'' @ f)" using assms(6) by (cases s) (auto simp: plain_comp_def)
  have parts: "py_parts ?raw = [''..'', s, f]"
    using py_parts_cons [of "''..''", OF _ r] py_parts_cons [OF assms(6) plain_not_slash [OF assms(8)]] assms(8)
    by (simp add: plain_comp_def)
  then have tgt: "resolve_under (fe_paths env) (par @ [w]) ?raw = par @ [s, f]"
    using resolve_below [OF assms(1) ws, of "[''..'', s, f]"] assms(7,9) par(1)
    by (simp add: resolve_under_def path_join_def is_absolute_def butlast_append)
  have h: "h = ''/'' \<or> h = ''//''" using ws par(1) by (auto simp: resolved_path_def is_absolute_def)
  have "prefix (path_str (par @ [w])) (path_str (par @ [s, f]))"
    using py_join_last_prefix [OF assms(4), of "''/''" u "[f]"] h par(1) by (auto simp: path_str_def)
  moreover have "\<not> is_relative_to (par @ [s, f]) (par @ [w])" using assms(5) by (simp add: is_relative_to_def)
  ultimately show ?thesis
    using tgt assms(2,10-12) by (simp add: file_reader_def list_directory_def read_target_def Let_def)
qed

section \<open>The properties at concrete inputs\<close>

definition demo_files :: "(path \<Rightarrow> bool option) \<Rightarrow> (path \<Rightarrow> (int \<times> string option) option) \<Rightarrow> file_env" where
  "demo_files ex fl = \<lparr>fe_paths = demo_paths ex, fe_file = fl, fe_dir = (\<lambda>p. None), fe_write_ok = (\<lambda>p. True)\<rparr>"

lemma demo_files_simps [simp]:
  "fe_paths (demo_files ex fl) = demo_paths ex" "fe_file (demo_files ex fl) = fl" "fe_write_ok (demo_files ex fl) = (\<lambda>p. True)"
  by (simp_all add: demo_files_def)

lemma demo_write:
  "file_writer (demo_files ex fl) ''a.md'' ''hi'' None True =
     (Some (''Successfully wrote '' @ py_str 2 @ '' bytes to a.md''), Some ([''/'', ''app'', ''results'', ''q09'', ''a.md''], ''hi''))"
proof -
  have "normalize (demo_paths ex) (At_base (results_root (demo_paths ex))) ''a.md'' = Inr [''/'', ''app'', ''results'', ''q09'', ''a.md'']"
    unfolding normalize_at_root [OF demo_paths_simps(1)]
    by (simp add: write_in_cell [where cwd = "[''/'', ''app'']" and rid = "''q09''"])
  then show ?thesis by (simp add: file_writer_def max_file_bytes_def)
qed


theorem writer_confined_witness:
  "is_relative_to [''/'', ''app'', ''results'', ''q09'', ''a.md''] (results_root (demo_paths (\<lambda>p. None))) \<and> int (length ''hi'') \<le> 1000000"
  using writer_confined [OF _ demo_write, of "\<lambda>p. None" "\<lambda>p. None"]
    resolve_again [OF demo_paths_simps(1) results_root_resolved [OF demo_paths_simps(1)]] by simp

theorem model_chooses_sandbox_witness:
  "snd (file_writer_call (demo_files (\<lambda>p. None) (\<lambda>p. None))
      [(''file_path'', JStr ''x''), (''content'', JStr ''hi''), (''sandbox_root'', JStr ''/etc/cron.d'')]) =
    Some ([''/'', ''etc'', ''cron.d'', ''x''], ''hi'')"
proof -
  have u: "resolve_under (demo_paths ex) [] ''/etc/cron.d'' = [''/'', ''etc'', ''cron.d'']" for ex
    by (simp add: resolve_under_def path_join_def is_absolute_def lexical_resolve_def py_parts_def path_root_def)
  then show ?thesis
    using model_chooses_sandbox [of "[''/'', ''app'']" "demo_files (\<lambda>p. None) (\<lambda>p. None)" "''/etc/cron.d''" "''x''" "''hi''"]
    by (simp add: plain_comp_def)
qed

theorem sibling_directory_readable_witness:
  "file_reader (demo_files (\<lambda>p. Some True) (\<lambda>p. Some (3, Some ''key''))) ''../workspace-old/id_rsa'' None 200 =
     Some (shown_lines ''key'' 200)"
  using sibling_directory_readable [of "[''/'', ''app'']" "demo_files (\<lambda>p. Some True) (\<lambda>p. Some (3, Some ''key''))"
      "[''/'', ''app'']" "''workspace''" "''workspace-old''" "''id_rsa''" 3 "''key''" 200]
  by (simp add: plain_comp_def max_file_bytes_def)

end
