(* ===== verification/Result_Cache.thy ===== *)
theory Result_Cache
  imports Tool_Registry File_Tools
begin

text \<open>
  What is kept between calls and what is cut from them: the tool-result cache
  (\<open>src/src/tools/result_cache.py\<close>), the prompt cache (\<open>src/src/llm/cache.py\<close>), the history
  compressor (\<open>src/src/llm/history_compressor.py\<close>) and the tools offered to a prompt
  (\<open>src/src/tools/selection.py\<close>).  Redis keeps a value until its expiry; \<open>up\<close> is false when it
  does not answer.  The canonical JSON text and the digests are arguments.
\<close>

section \<open>Tool results\<close>

type_synonym cache_entry = "(string \<times> json) list"

record tool_cache =
  tc_enabled :: bool
  tc_ttl :: int
  tc_recency_ttl :: int
  tc_store :: "(string \<times> cache_entry \<times> real) list"

definition make_key :: "(json \<Rightarrow> string) \<Rightarrow> (string \<Rightarrow> string) \<Rightarrow> string \<Rightarrow> json \<Rightarrow> string" where
  "make_key dump sha1 tool_name args = ''turing:toolcache:'' @ sha1 (tool_name @ ''|'' @ dump args)"

definition recency_keys :: "string list" where
  "recency_keys =
     [''timelimit'', ''time_limit'', ''time_range'', ''timerange'', ''date_range'', ''daterange'', ''tbs'', ''freshness'',
      ''recency'', ''timeframe'', ''days'', ''since'', ''until'']"

definition recency_cues :: "string list" where
  "recency_cues =
     [''latest'', ''recent'', ''recently'', ''today'', ''tonight'', ''yesterday'', ''tomorrow'', ''now'', ''current'',
      ''currently'', ''breaking'', ''live update'', ''this week'', ''this month'', ''this year'', ''past week'',
      ''past month'', ''last week'', ''last month'', ''last 24'', ''24h'', ''news'', ''update'']"

definition blank_value :: "json \<Rightarrow> bool" where
  "blank_value v = (case v of JNull \<Rightarrow> True | JStr s \<Rightarrow> s = [] | JInt n \<Rightarrow> n = 0 | JFloat r \<Rightarrow> r = 0 | JBool b \<Rightarrow> \<not> b | _ \<Rightarrow> False)"

definition text_parts :: "(json \<Rightarrow> string) \<Rightarrow> json \<Rightarrow> string list" where
  "text_parts str v = (case v of JStr s \<Rightarrow> [s] | JList xs \<Rightarrow> map str xs | _ \<Rightarrow> [])"

definition is_recency_sensitive :: "(json \<Rightarrow> string) \<Rightarrow> (string \<times> json) list \<Rightarrow> bool" where
  "is_recency_sensitive str args =
     (list_ex (\<lambda>(k, v). py_lower k \<in> set recency_keys \<and> \<not> blank_value v) args \<or>
      (let txt = py_lower (py_join '' '' (concat (map (\<lambda>(k, v). text_parts str v) args)))
       in list_ex (\<lambda>cue. py_in cue txt) recency_cues))"

definition ttl_for_args :: "(json \<Rightarrow> string) \<Rightarrow> (string \<times> json) list \<Rightarrow> tool_cache \<Rightarrow> int" where
  "ttl_for_args str args tc = (if is_recency_sensitive str args then tc_recency_ttl tc else tc_ttl tc)"

definition tool_cache_get ::
  "(json \<Rightarrow> string) \<Rightarrow> (string \<Rightarrow> string) \<Rightarrow> bool \<Rightarrow> real \<Rightarrow> tool_cache \<Rightarrow> string \<Rightarrow> json \<Rightarrow> cache_entry option" where
  "tool_cache_get dump sha1 up now tc tool_name args =
     (if \<not> tc_enabled tc \<or> \<not> up then None
      else case map_of (tc_store tc) (make_key dump sha1 tool_name args) of
        None \<Rightarrow> None
      | Some (entry, expires) \<Rightarrow> if now < expires then Some entry else None)"

text \<open>Arguments that are no object raise in \<open>ttl_for_args\<close>, inside the handler: nothing is stored.\<close>

definition tool_cache_set ::
  "(json \<Rightarrow> string) \<Rightarrow> (string \<Rightarrow> string) \<Rightarrow> (json \<Rightarrow> string) \<Rightarrow> bool \<Rightarrow> real \<Rightarrow> string \<Rightarrow> json \<Rightarrow> cache_entry \<Rightarrow>
    tool_cache \<Rightarrow> tool_cache" where
  "tool_cache_set dump sha1 str up now tool_name args entry tc =
     (case args of
        JObj kvs \<Rightarrow>
          if \<not> tc_enabled tc \<or> \<not> up then tc
          else tc\<lparr>tc_store := AList.update (make_key dump sha1 tool_name args)
                 (entry, now + of_int (ttl_for_args str kvs tc)) (tc_store tc)\<rparr>
      | _ \<Rightarrow> tc)"

definition result_entry :: "tool_result \<Rightarrow> cache_entry" where
  "result_entry r = [(''success'', JBool (tr_success r)), (''output'', JStr (tr_output r)),
     (''error'', case tr_error r of None \<Rightarrow> JNull | Some e \<Rightarrow> JStr e)]"

fun store_effect ::
  "(json \<Rightarrow> string) \<Rightarrow> (string \<Rightarrow> string) \<Rightarrow> (json \<Rightarrow> string) \<Rightarrow> bool \<Rightarrow> real \<Rightarrow> 'h tool_effect \<Rightarrow> tool_cache \<Rightarrow> tool_cache" where
  "store_effect dump sha1 str up now (Cached_result n args r) tc =
     tool_cache_set dump sha1 str up now n args (result_entry r) tc"
| "store_effect dump sha1 str up now _ tc = tc"

definition file_reader_call :: "file_env \<Rightarrow> (string \<times> json) list \<Rightarrow> string option" where
  "file_reader_call env args =
     (if \<not> set (map fst args) \<subseteq> {''file_path'', ''sandbox_root'', ''max_lines'', ''encoding''} then None
      else case (map_of args ''file_path'', obj_get args ''max_lines'' (JInt 200)) of
        (Some (JStr f), JInt n) \<Rightarrow>
          (case obj_get args ''sandbox_root'' JNull of
             JNull \<Rightarrow> file_reader env f None n
           | JStr s \<Rightarrow> file_reader env f (Some s) n
           | _ \<Rightarrow> None)
      | _ \<Rightarrow> None)"

section \<open>Model answers\<close>

record llm_answer =
  la_content :: string
  la_model :: string
  la_provider :: string
  la_input_tokens :: int
  la_output_tokens :: int
  la_total_tokens :: int
  la_cost_usd :: real
  la_cached :: bool
  la_thinking_tokens :: int
  la_finish_reason :: "string option"
  la_tool_calls :: "json list option"
  la_reasoning :: "string option"

record prompt_cache =
  pc_ttl :: int
  pc_store :: "(string \<times> llm_answer \<times> real) list"
  pc_hits :: nat
  pc_misses :: nat

definition prompt_prefix :: string where
  "prompt_prefix = ''turing:llm_cache:''"

definition make_cache_key ::
  "(json \<Rightarrow> string) \<Rightarrow> (string \<Rightarrow> string) \<Rightarrow> json list \<Rightarrow> string \<Rightarrow> real \<Rightarrow> int option \<Rightarrow> string" where
  "make_cache_key dump sha256 msgs model temperature max_toks =
     (let payload = dump (JObj [(''messages'', JList msgs), (''model'', JStr model), (''temperature'', JFloat temperature),
        (''max_tokens'', case max_toks of None \<Rightarrow> JNull | Some n \<Rightarrow> JInt n)])
      in prompt_prefix @ model @ '':'' @ take 16 (sha256 payload))"

definition stored_answer :: "llm_answer \<Rightarrow> llm_answer" where
  "stored_answer r = r\<lparr>la_cached := True, la_thinking_tokens := 0, la_tool_calls := None, la_reasoning := None\<rparr>"

definition prompt_cache_get :: "bool \<Rightarrow> real \<Rightarrow> string \<Rightarrow> prompt_cache \<Rightarrow> llm_answer option \<times> prompt_cache" where
  "prompt_cache_get up now key pc =
     (if \<not> up then (None, pc)
      else case map_of (pc_store pc) key of
        Some (r, expires) \<Rightarrow>
          if now < expires then (Some r, pc\<lparr>pc_hits := Suc (pc_hits pc)\<rparr>)
          else (None, pc\<lparr>pc_misses := Suc (pc_misses pc)\<rparr>)
      | None \<Rightarrow> (None, pc\<lparr>pc_misses := Suc (pc_misses pc)\<rparr>))"

definition prompt_cache_set :: "bool \<Rightarrow> real \<Rightarrow> string \<Rightarrow> llm_answer \<Rightarrow> prompt_cache \<Rightarrow> prompt_cache" where
  "prompt_cache_set up now key r pc =
     (if \<not> up then pc
      else pc\<lparr>pc_store := AList.update key (stored_answer r, now + of_int (pc_ttl pc)) (pc_store pc)\<rparr>)"

definition estimate_size :: "bool \<Rightarrow> real \<Rightarrow> prompt_cache \<Rightarrow> nat" where
  "estimate_size up now pc =
     (if \<not> up then 0 else length (filter (\<lambda>(k, r, expires). prefix prompt_prefix k \<and> now < expires) (pc_store pc)))"

definition hit_rate :: "prompt_cache \<Rightarrow> real" where
  "hit_rate pc = (let total = pc_hits pc + pc_misses pc in if total = 0 then 0 else of_nat (pc_hits pc) / of_nat total)"

definition invalidate :: "(string \<Rightarrow> string \<Rightarrow> bool) \<Rightarrow> bool \<Rightarrow> string \<Rightarrow> prompt_cache \<Rightarrow> prompt_cache" where
  "invalidate glob up pat pc =
     (if \<not> up then pc else pc\<lparr>pc_store := filter (\<lambda>(k, v). \<not> glob (prompt_prefix @ pat) k) (pc_store pc)\<rparr>)"

text \<open>
  A completion as far as the cache is concerned; \<open>options\<close> are the tools, the response format and
  everything else the key leaves out, and \<open>answer\<close> is what the providers would give.
\<close>

record completion_request =
  cr_messages :: "json list"
  cr_model :: string
  cr_temperature :: real
  cr_max_tokens :: "int option"
  cr_cache_key :: "string option"
  cr_options :: "(string \<times> json) list"

definition cached_completion ::
  "(json \<Rightarrow> string) \<Rightarrow> (string \<Rightarrow> string) \<Rightarrow> (completion_request \<Rightarrow> llm_answer) \<Rightarrow> bool \<Rightarrow> real \<Rightarrow> completion_request \<Rightarrow>
    prompt_cache \<Rightarrow> llm_answer \<times> prompt_cache" where
  "cached_completion dump sha256 answer up now rq pc =
     (let key = make_cache_key dump sha256 (cr_messages rq) (cr_model rq) (cr_temperature rq) (cr_max_tokens rq);
          (hit, pc) = (if cr_cache_key rq = None then prompt_cache_get up now key pc else (None, pc))
      in case hit of
           Some r \<Rightarrow> (r, pc)
         | None \<Rightarrow> (answer rq, prompt_cache_set up now key (answer rq) pc))"

section \<open>History\<close>

record compressor =
  hc_keep_recent :: int
  hc_max_length :: int
  hc_interval :: int
  hc_calls :: int

definition new_compressor :: "int \<Rightarrow> int \<Rightarrow> int \<Rightarrow> compressor" where
  "new_compressor keep_recent max_length interval =
     \<lparr>hc_keep_recent = keep_recent, hc_max_length = max_length, hc_interval = max 1 interval, hc_calls = 0\<rparr>"

definition truncation_marker :: string where
  "truncation_marker = newline @ ''...[Truncated]...'' @ newline"

text \<open>\<open>text[-half:]\<close> is the whole text when \<open>half\<close> is zero.\<close>

definition truncate_text :: "int \<Rightarrow> string \<Rightarrow> string" where
  "truncate_text max_length t =
     (if int (length t) \<le> max_length then t
      else let half = max_length div 2
           in py_take half t @ truncation_marker @ (if half = 0 then t else py_last half t))"

definition compress_block :: "int \<Rightarrow> json \<Rightarrow> json" where
  "compress_block m b =
     (case b of
        JObj kvs \<Rightarrow>
          (case obj_get kvs ''type'' (JStr []) of
             JStr ty \<Rightarrow>
               if ty = ''text'' then
                 (case map_of kvs ''text'' of Some (JStr s) \<Rightarrow> JObj (AList.update ''text'' (JStr (truncate_text m s)) kvs) | _ \<Rightarrow> b)
               else if ty = ''tool_result'' then
                 (case map_of kvs ''content'' of Some (JStr s) \<Rightarrow> JObj (AList.update ''content'' (JStr (truncate_text m s)) kvs) | _ \<Rightarrow> b)
               else if ty = ''tool_use'' then
                 (case map_of kvs ''input'' of
                    Some (JObj ins) \<Rightarrow> JObj (AList.update ''input''
                      (JObj (map (\<lambda>(k, v). (k, case v of JStr s \<Rightarrow> JStr (truncate_text m s) | _ \<Rightarrow> v)) ins)) kvs)
                  | _ \<Rightarrow> b)
               else b
           | _ \<Rightarrow> b)
      | _ \<Rightarrow> b)"

definition compress_message :: "int \<Rightarrow> (string \<times> json) list \<Rightarrow> (string \<times> json) list" where
  "compress_message m msg =
     (case map_of msg ''content'' of
        Some (JStr s) \<Rightarrow> AList.update ''content'' (JStr (truncate_text m s)) msg
      | Some (JList bs) \<Rightarrow> AList.update ''content'' (JList (map (compress_block m) bs)) msg
      | _ \<Rightarrow> msg)"

definition compress_history ::
  "compressor \<Rightarrow> (string \<times> json) list list \<Rightarrow> (string \<times> json) list list \<times> compressor" where
  "compress_history h msgs =
     (let h = h\<lparr>hc_calls := hc_calls h + 1\<rparr>; cutoff = int (length msgs) - hc_keep_recent h
      in if hc_calls h mod hc_interval h \<noteq> 0 \<or> int (length msgs) \<le> hc_keep_recent h then (msgs, h)
         else (map (\<lambda>(i, msg). if int i \<ge> cutoff then msg else compress_message (hc_max_length h) msg) (enumerate 0 msgs), h))"

section \<open>Tools for a prompt\<close>

definition blend_score :: "real \<Rightarrow> real \<Rightarrow> real \<Rightarrow> real \<Rightarrow> real" where
  "blend_score weight similarity success_rate empty_rate = similarity * (1 + weight * (success_rate * (1 - empty_rate)))"

definition blend_rank ::
  "real \<Rightarrow> (string \<times> real) list \<Rightarrow> (string \<Rightarrow> (real \<times> real) option) \<Rightarrow> int \<Rightarrow> string list" where
  "blend_rank weight pool metrics top_k =
     (let scored = map (\<lambda>(n, s). (n, case metrics n of None \<Rightarrow> blend_score weight s 1 0
                                  | Some (sr, er) \<Rightarrow> blend_score weight s sr er)) pool
      in map fst (py_take top_k (sort_key (\<lambda>p. - snd p) scored)))"

text \<open>What the persister answers: the nearest names with their similarity, and the running rates.\<close>

record retriever =
  rv_retrieve :: "int \<Rightarrow> string list"
  rv_scores :: "(int \<Rightarrow> (string \<times> real) list option) option"
  rv_metrics :: "(string list \<Rightarrow> (string \<Rightarrow> (real \<times> real) option) option) option"

definition retrieve_with_blend :: "retriever \<Rightarrow> int \<Rightarrow> int \<Rightarrow> real \<Rightarrow> string list" where
  "retrieve_with_blend rv top_k pool_multiplier weight =
     (case rv_scores rv of
        None \<Rightarrow> rv_retrieve rv top_k
      | Some scores \<Rightarrow>
          (let pool = (case scores (max top_k (top_k * pool_multiplier)) of None \<Rightarrow> [] | Some p \<Rightarrow> p)
           in if pool = [] then rv_retrieve rv top_k
              else let metrics = (case rv_metrics rv of None \<Rightarrow> (\<lambda>n. None)
                                  | Some f \<Rightarrow> (case f (map fst pool) of None \<Rightarrow> (\<lambda>n. None) | Some m \<Rightarrow> m))
                   in blend_rank weight pool metrics top_k))"

record retrieval_settings =
  rs_enabled :: bool
  rs_top_k :: int
  rs_blend :: bool
  rs_blend_pool :: int
  rs_blend_weight :: real

definition select_tools_for_query ::
  "retrieval_settings \<Rightarrow> string list \<Rightarrow> (real list \<times> string) option \<Rightarrow> (real list \<Rightarrow> retriever option) \<Rightarrow>
    'h tool_registry \<Rightarrow> (string \<times> string \<times> (string \<times> json) list) list" where
  "select_tools_for_query rs builtins embedding retriever_for reg =
     (let full = list_tools None reg
      in if \<not> rs_enabled rs then full
         else case embedding of
           None \<Rightarrow> full
         | Some (emb, source) \<Rightarrow>
             if source \<noteq> ''api'' then full
             else case retriever_for emb of
               None \<Rightarrow> full
             | Some rv \<Rightarrow>
                 (let retrieved = (if rs_blend rs then retrieve_with_blend rv (rs_top_k rs) (rs_blend_pool rs) (rs_blend_weight rs)
                                   else rv_retrieve rv (rs_top_k rs))
                  in if retrieved = [] then full
                     else let selected = list_tools (Some (builtins @ retrieved)) reg
                          in if selected = [] then full else selected))"

section \<open>A cached answer is replayed\<close>

definition cached_env ::
  "(json \<Rightarrow> string) \<Rightarrow> (string \<Rightarrow> string) \<Rightarrow> real \<Rightarrow> tool_cache \<Rightarrow> 'h tool_env \<Rightarrow> 'h tool_env" where
  "cached_env dump sha1 now tc env = env\<lparr>te_cache := Some (tool_cache_get dump sha1 True now tc)\<rparr>"

lemma get_after_set:
  assumes "tc_enabled tc" "t2 < t1 + of_int (ttl_for_args str kvs tc)"
  shows "tool_cache_get dump sha1 True t2 (tool_cache_set dump sha1 str True t1 n (JObj kvs) entry tc) n (JObj kvs) = Some entry"
  using assms by (simp add: tool_cache_get_def tool_cache_set_def update_conv')

lemma result_entry_outcome:
  "cached_outcome env n (result_entry r) =
     tool_outcome n (tr_success r) (tr_output r) (tr_error r) [(''cached'', JBool True)]"
  by (cases "tr_error r") (simp_all add: cached_outcome_def result_entry_def obj_get_def)

lemma replayed:
  assumes "get_handler reg (rq_tool rq) = Some h" "rq_args rq = Some args"
    and "\<not> (te_hitl env \<and> is_destructive reg (rq_tool rq))" "may_use_cache env reg (rq_tool rq) args = Some True"
    and "te_cache env = Some look" "look (rq_tool rq) args = Some (result_entry r)"
  shows "execute_tool_call env reg rq =
    Some (tool_outcome (rq_tool rq) (tr_success r) (tr_output r) (tr_error r) [(''cached'', JBool True)], [])"
  using assms by (auto simp: execute_tool_call_def should_gate_destructive_def result_entry_outcome Let_def)

text \<open>The reader as the handler of its tool.\<close>

definition reader_handler :: "file_env \<Rightarrow> 'h \<Rightarrow> json \<Rightarrow> string + string" where
  "reader_handler fe h args =
     (case args of
        JObj kvs \<Rightarrow> (case file_reader_call fe kvs of None \<Rightarrow> Inl ''TypeError'' | Some s \<Rightarrow> Inr s)
      | _ \<Rightarrow> Inl ''TypeError'')"

definition read_call :: "string \<Rightarrow> call_request" where
  "read_call raw = \<lparr>rq_tool = ''file_reader'', rq_args = Some (JObj [(''file_path'', JStr raw)]), rq_parse_error = []\<rparr>"

lemma read_call_handler: "reader_handler fe h (JObj [(''file_path'', JStr raw)]) =
    (case file_reader fe raw None 200 of None \<Rightarrow> Inl ''TypeError'' | Some s \<Rightarrow> Inr s)"
  by (simp add: reader_handler_def file_reader_call_def obj_get_def)

text \<open>
  Fact (error): a run reads the file of another run.  The key of the tool cache is the tool and its
  arguments, but the file a relative path names depends on the run: once a run has read its
  own file, every run that reads the same name within the lifetime of the entry gets the text of
  the first run, whatever its own file holds and although it was isolated.  The same happens to
  the run itself after it has rewritten the file.
\<close>

theorem cached_read_crosses_runs:
  assumes "get_handler reg ''file_reader'' = Some h" "is_cacheable reg ''file_reader''" "\<not> is_generated reg ''file_reader''"
    and "te_handler env1 = reader_handler fe1" "\<not> te_hitl env1" "\<not> te_contracts env1" "\<not> te_hitl env2"
    and "file_reader fe1 raw None 200 = Some own" "file_reader fe2 raw None 200 = Some other"
    and "tc_enabled tc" "tc_store tc = []" "t2 < t1 + of_int (ttl_for_args str [(''file_path'', JStr raw)] tc)"
  shows "\<exists>r1 fx r2. execute_tool_call (cached_env dump sha1 t1 tc env1) reg (read_call raw) = Some (r1, fx) \<and>
    tr_output r1 = take 2000 own \<and>
    execute_tool_call (cached_env dump sha1 t2 (fold (store_effect dump sha1 str True t1) fx tc) env2) reg (read_call raw) = Some (r2, []) \<and>
    tr_success r2 \<and> tr_output r2 = take 2000 own"
proof -
  let ?args = "JObj [(''file_path'', JStr raw)]"
  let ?r = "tool_outcome ''file_reader'' True (take 2000 own) None []"
  let ?e1 = "cached_env dump sha1 t1 tc env1"
  have use: "may_use_cache (cached_env dump sha1 t c e) reg ''file_reader'' ?args = Some True" for t c and e :: "'a tool_env"
    using assms(2) by (simp add: may_use_cache_def cached_env_def call_is_cacheable_def)
  have gen: "invoke_generated_tool ?e1 reg ''file_reader'' ?args = None"
    using assms(3) by (simp add: invoke_generated_tool_def)
  have miss: "tool_cache_get dump sha1 True t1 tc ''file_reader'' ?args = None"
    using assms(11) by (simp add: tool_cache_get_def)
  have "run_in_process ?e1 reg ''file_reader'' h ?args =
      (?r, [Ran_in_process h ?args, Recorded_metric ''file_reader'' True (py_strip own = []), Cached_result ''file_reader'' ?args ?r])"
    using assms(4,6,8) use [of t1 tc env1]
    by (simp add: run_in_process_def cached_env_def read_call_handler evaluate_tool_success_def Let_def)
  then have first: "execute_tool_call ?e1 reg (read_call raw) = Some (?r,
      [Ran_in_process h ?args, Recorded_metric ''file_reader'' True (py_strip own = []), Cached_result ''file_reader'' ?args ?r])"
    using assms(1,5) use [of t1 tc env1] gen miss
    by (simp add: execute_tool_call_def read_call_def cached_env_def Let_def)
  let ?tc = "tool_cache_set dump sha1 str True t1 ''file_reader'' ?args (result_entry ?r) tc"
  have "execute_tool_call (cached_env dump sha1 t2 ?tc env2) reg (read_call raw) =
      Some (tool_outcome ''file_reader'' (tr_success ?r) (tr_output ?r) (tr_error ?r) [(''cached'', JBool True)], [])"
    using replayed [of reg "read_call raw" h ?args "cached_env dump sha1 t2 ?tc env2" _ ?r] use [of t2 ?tc env2] assms(1,7)
      get_after_set [OF assms(10,12)]
    by (simp add: read_call_def cached_env_def)
  then show ?thesis using first by (simp add: tool_outcome_def)
qed

text \<open>
  Fact (safety): an expired entry is never served.  Whatever was stored, a lookup at or after the
  lifetime that the arguments had when it was stored, which is the short one for anything that
  names a time window, finds nothing of it.
\<close>

theorem expired_never_served:
  assumes "t1 + of_int (ttl_for_args str kvs tc) \<le> t2" "tc_enabled tc"
  shows "tool_cache_get dump sha1 up t2 (tool_cache_set dump sha1 str True t1 n (JObj kvs) entry tc) n (JObj kvs) = None"
  using assms by (simp add: tool_cache_get_def tool_cache_set_def update_conv')


section \<open>Compression\<close>

lemma marker_length: "length truncation_marker = 19"
  by (simp add: truncation_marker_def newline_def)

lemma truncate_length:
  assumes "2 \<le> m" "m < int (length t)"
  shows "int (length (truncate_text m t)) = 2 * (m div 2) + 19"
proof -
  have "m div 2 \<noteq> 0" "0 < m div 2" "m div 2 \<le> int (length t)" using assms by linarith+
  then show ?thesis
    using assms by (simp add: truncate_text_def Let_def marker_length length_py_last py_take_def)
qed

text \<open>
  Fact (bounds): compression bounds a text, and lengthens one just above the limit.  With a limit of
  at least two characters no text is longer than the limit and the marker afterwards, but a text
  that exceeds the limit by less than the marker grows.
\<close>

theorem truncation_bounds:
  assumes "2 \<le> m"
  shows "int (length (truncate_text m t)) \<le> m + 19 \<and>
    (int (length t) < int (length (truncate_text m t)) \<longleftrightarrow> m < int (length t) \<and> int (length t) < 2 * (m div 2) + 19)"
proof (cases "m < int (length t)")
  case True
  with truncate_length [OF assms True] show ?thesis by linarith
next
  case False
  then show ?thesis by (simp add: truncate_text_def)
qed

text \<open>
  Fact (functional): compressing twice is compressing once.  A text that was cut is left as it is by
  the next compression, so a long conversation does not erode.
\<close>

theorem truncation_idempotent:
  assumes "2 \<le> m"
  shows "truncate_text m (truncate_text m t) = truncate_text m t"
proof (cases "m < int (length t)")
  case True
  let ?h = "nat (m div 2)"
  have h: "0 < ?h" "?h \<le> length t" "m div 2 = int ?h" using assms True by linarith+
  have e: "truncate_text m t = take ?h t @ truncation_marker @ drop (length t - ?h) t"
    using True h by (simp add: truncate_text_def Let_def py_take_def py_last_def)
  have l: "length (drop (length t - ?h) t) = ?h" "length (take ?h t) = ?h" using h by simp_all
  show ?thesis
  proof (cases "m < int (length (truncate_text m t))")
    case True
    have "py_take (m div 2) (truncate_text m t) = take ?h t" using h l(2) by (simp add: e py_take_def)
    moreover have "py_last (m div 2) (truncate_text m t) = drop (length t - ?h) t"
      using h l by (simp add: e py_last_def marker_length)
    moreover have "truncate_text m (truncate_text m t) =
        py_take (m div 2) (truncate_text m t) @ truncation_marker @ py_last (m div 2) (truncate_text m t)"
      by (rule trans [OF truncate_text_def]) (use True h(1) in \<open>simp add: Let_def\<close>)
    ultimately show ?thesis using e by simp
  qed (simp add: truncate_text_def [of m "truncate_text m t"])
qed (simp add: truncate_text_def)

lemma compress_message_other: "k \<noteq> ''content'' \<Longrightarrow> map_of (compress_message m msg) k = map_of msg k"
  by (auto simp: compress_message_def update_conv' split: option.split json.split)

text \<open>
  Fact (functional): compression touches only the contents of older messages.  As many messages go
  out as came in, in the same order, every field but the content is kept, the most recent ones are
  unchanged, and nothing at all happens between two rounds.
\<close>

theorem compression_keeps_structure:
  assumes "compress_history h msgs = (out, h')" "0 \<le> hc_keep_recent h" "k \<noteq> ''content''"
  shows "length out = length msgs \<and> map (\<lambda>msg. map_of msg k) out = map (\<lambda>msg. map_of msg k) msgs \<and>
    drop (length msgs - nat (hc_keep_recent h)) out = drop (length msgs - nat (hc_keep_recent h)) msgs \<and>
    ((hc_calls h + 1) mod hc_interval h = 0 \<or> out = msgs)"
proof (cases "(hc_calls h + 1) mod hc_interval h \<noteq> 0 \<or> int (length msgs) \<le> hc_keep_recent h")
  case True
  then have "out = msgs" using assms(1) by (auto simp: compress_history_def Let_def split: if_splits)
  then show ?thesis by simp
next
  case False
  let ?f = "\<lambda>(i, msg). if int i \<ge> int (length msgs) - hc_keep_recent h then msg else compress_message (hc_max_length h) msg"
  have out: "out = map ?f (enumerate 0 msgs)"
    using assms(1) False by (auto simp: compress_history_def Let_def)
  have "map (\<lambda>msg. map_of msg k) out = map (\<lambda>(i, msg). map_of msg k) (enumerate 0 msgs)"
    unfolding out map_map by (rule map_cong [OF refl]) (auto simp: compress_message_other [OF assms(3)])
  also have "\<dots> = map (\<lambda>msg. map_of msg k) (map snd (enumerate 0 msgs))" by (simp add: split_def del: map_snd_enumerate)
  finally have m: "map (\<lambda>msg. map_of msg k) out = map (\<lambda>msg. map_of msg k) msgs" by simp
  have d: "drop (length msgs - nat (hc_keep_recent h)) out = drop (length msgs - nat (hc_keep_recent h)) msgs"
    using False assms(2) by (intro nth_equalityI) (auto simp: out nth_enumerate_eq)
  show ?thesis using m d False by (auto simp: out)
qed

section \<open>Selection\<close>

lemma sort_key_sorted: "sorted (map f xs) \<Longrightarrow> sort_key f xs = xs"
  by (induction xs) (auto simp: insort_is_Cons)

text \<open>
  Fact (equivalence): without weight the blend is the similarity order.  For a pool in the order of
  the similarity, a blend of weight zero offers the first tools of the pool, whatever their
  success rates.
\<close>

theorem unweighted_blend_is_similarity:
  assumes "sorted_wrt (\<lambda>p q. snd q \<le> snd p) pool"
  shows "blend_rank 0 pool metrics top_k = map fst (py_take top_k pool)"
proof -
  have "map (\<lambda>(n, s). (n, case metrics n of None \<Rightarrow> blend_score 0 s 1 0 | Some (sr, er) \<Rightarrow> blend_score 0 s sr er)) pool = pool"
    by (rule map_idI) (auto simp: blend_score_def split: option.split prod.split)
  moreover have "sorted (map (\<lambda>p. - snd p) pool)" using assms by (simp add: sorted_wrt_map)
  ultimately show ?thesis by (simp add: blend_rank_def sort_key_sorted Let_def)
qed

definition tool_names :: "(string \<times> string \<times> (string \<times> json) list) list \<Rightarrow> string list" where
  "tool_names ts = map fst ts"

lemma list_tools_names:
  "tool_names (list_tools ns reg) =
     filter (\<lambda>n. case ns of None \<Rightarrow> True | Some xs \<Rightarrow> n \<in> set xs) (map (\<lambda>(_, e). en_name e) reg)"
  by (simp add: tool_names_def list_tools_def filter_map o_def split_def)

text \<open>
  Fact (safety): retrieval never costs a built-in tool.  Whatever the embedding service and the
  persister answer, the built-in tools of the registry are offered, all and in order, and when
  tools are left out at all, the others that are offered are among the retrieved ones.
\<close>

theorem selection_keeps_builtins:
  "filter (\<lambda>n. n \<in> set builtins) (tool_names (select_tools_for_query rs builtins embedding rv reg)) =
     filter (\<lambda>n. n \<in> set builtins) (tool_names (list_tools None reg)) \<and>
   (select_tools_for_query rs builtins embedding rv reg = list_tools None reg \<or>
    (case embedding of None \<Rightarrow> False
     | Some (emb, source) \<Rightarrow>
         source = ''api'' \<and> rs_enabled rs \<and>
         (case rv emb of None \<Rightarrow> False
          | Some r \<Rightarrow>
              set (tool_names (select_tools_for_query rs builtins embedding rv reg)) \<subseteq> set builtins \<union>
                set (if rs_blend rs then retrieve_with_blend r (rs_top_k rs) (rs_blend_pool rs) (rs_blend_weight rs)
                     else rv_retrieve r (rs_top_k rs)))))"
proof -
  have f: "filter (\<lambda>n. n \<in> set builtins) (tool_names (list_tools (Some (builtins @ xs)) reg)) =
      filter (\<lambda>n. n \<in> set builtins) (tool_names (list_tools None reg))" for xs
    by (simp add: list_tools_names) (rule filter_cong, auto)
  have s: "set (tool_names (list_tools (Some (builtins @ xs)) reg)) \<subseteq> set builtins \<union> set xs" for xs
    by (auto simp: list_tools_names)
  show ?thesis
    using f s by (auto simp: select_tools_for_query_def Let_def split: option.split)
qed

text \<open>
  Fact (error): a tool without an embedding is never offered.  Tools of an external server are
  registered without one; when the retrieval prunes at all they are left out, whatever the query.
\<close>

theorem unembedded_tool_dropped:
  assumes "select_tools_for_query rs builtins (Some (emb, s)) rv reg \<noteq> list_tools None reg" "\<not> rs_blend rs"
    and "rv emb = Some r" "n \<notin> set builtins" "n \<notin> set (rv_retrieve r (rs_top_k rs))"
  shows "n \<notin> set (tool_names (select_tools_for_query rs builtins (Some (emb, s)) rv reg))"
  using assms by (auto simp: select_tools_for_query_def Let_def list_tools_names split: if_splits)

section \<open>The properties at concrete inputs\<close>

definition reader_registry :: "string tool_registry" where
  "reader_registry = register_tool ((plain_tool ''file_reader'' ''read'' ''Read a file'' [])\<lparr>en_cacheable := True\<rparr>) []"

definition fresh_tool_cache :: tool_cache where
  "fresh_tool_cache = \<lparr>tc_enabled = True, tc_ttl = 3600, tc_recency_ttl = 300, tc_store = []\<rparr>"

definition reading_env :: "string \<Rightarrow> string tool_env" where
  "reading_env txt = demo_tool_env\<lparr>te_hitl := False, te_contracts := False,
     te_handler := reader_handler (demo_files (\<lambda>p. Some True) (\<lambda>p. Some (2, Some txt)))\<rparr>"

lemma demo_read: "file_reader (demo_files (\<lambda>p. Some True) (\<lambda>p. Some (2, Some txt))) ''a.md'' None 200 = Some (shown_lines txt 200)"
proof -
  have "resolve_under (demo_paths ex) [''/'', ''app'', ''workspace''] ''a.md'' = [''/'', ''app'', ''workspace'', ''a.md'']" for ex
    by (simp add: resolve_under_def path_join_def is_absolute_def lexical_resolve_def)
  then show ?thesis by (simp add: file_reader_def read_target_def max_file_bytes_def path_str_def)
qed

theorem cached_read_crosses_runs_witness:
  "\<exists>r1 fx r2. execute_tool_call (cached_env (\<lambda>v. []) id 0 fresh_tool_cache (reading_env ''mine'')) reader_registry (read_call ''a.md'') = Some (r1, fx) \<and>
    execute_tool_call (cached_env (\<lambda>v. []) id 60 (fold (store_effect (\<lambda>v. []) id (\<lambda>v. []) True 0) fx fresh_tool_cache) (reading_env ''yours''))
      reader_registry (read_call ''a.md'') = Some (r2, []) \<and> tr_success r2 \<and> tr_output r2 = take 2000 (shown_lines ''mine'' 200)"
proof -
  have c: "get_handler reader_registry ''file_reader'' = Some ''read''" "is_cacheable reader_registry ''file_reader''"
    "\<not> is_generated reader_registry ''file_reader''"
    by (simp_all add: reader_registry_def get_handler_def is_cacheable_def is_generated_def plain_tool_def)
  have t: "(60 :: real) < 0 + of_int (ttl_for_args (\<lambda>v. []) [(''file_path'', JStr ''a.md'')] fresh_tool_cache)"
    by (simp add: ttl_for_args_def fresh_tool_cache_def)
  show ?thesis
    using cached_read_crosses_runs [OF c _ _ _ _ demo_read [of "''mine''"] demo_read [of "''yours''"] _ _ t,
        where ?env1.0 = "reading_env ''mine''" and ?env2.0 = "reading_env ''yours''" and dump = "\<lambda>v. []" and ?sha1.0 = id]
    by (auto simp: reading_env_def fresh_tool_cache_def)
qed

definition demo_answer :: llm_answer where
  "demo_answer = \<lparr>la_content = [], la_model = ''m'', la_provider = ''p'', la_input_tokens = 5, la_output_tokens = 5, la_total_tokens = 10,
     la_cost_usd = 0, la_cached = False, la_thinking_tokens = 0, la_finish_reason = Some ''tool_calls'', la_tool_calls = Some [JStr ''c''],
     la_reasoning = None\<rparr>"

definition demo_completion :: completion_request where
  "demo_completion = \<lparr>cr_messages = [JStr ''hi''], cr_model = ''m'', cr_temperature = 0, cr_max_tokens = None, cr_cache_key = None,
     cr_options = [(''tools'', JList [JStr ''file_reader''])]\<rparr>"


theorem truncation_bounds_witness: "int (length (truncate_text 800 (replicate 801 CHR ''x''))) \<le> 800 + 19"
  using truncation_bounds [of 800 "replicate 801 CHR ''x''"] by simp

theorem compression_keeps_structure_witness:
  "length (fst (compress_history (new_compressor 1 2 1) [[(''role'', JStr ''user'')], [(''role'', JStr ''system'')]])) = 2"
proof (cases "compress_history (new_compressor 1 2 1) [[(''role'', JStr ''user'')], [(''role'', JStr ''system'')]]")
  case (Pair out h')
  with compression_keeps_structure [OF Pair, of "''role''"] show ?thesis by (simp add: new_compressor_def)
qed

theorem unweighted_blend_is_similarity_witness:
  "blend_rank 0 [(''a'', 1), (''b'', 1 / 2)] (\<lambda>n. Some (0, 1)) 1 = map fst (py_take 1 [(''a'', 1 :: real), (''b'', 1 / 2)])"
  by (rule unweighted_blend_is_similarity) simp

end
