(* ===== verification/Net_Tools.thy ===== *)
theory Net_Tools
  imports Tool_Paths "HOL-Library.Word"
begin

text \<open>
  The built-in tools that start programs and send requests: \<open>terminal_command\<close>, \<open>http_request\<close> and
  the guard of \<open>_net_safety\<close> (\<open>src/src/tools/builtin/\<close>).  An IPv4 address is a word of 32 bits and
  a network is an address with a mask.  Parsing a URL, resolving a host, running a process and the
  answers of servers are arguments; quotation marks and remarks inside the error messages are left out.
\<close>

unbundle bit_operations_syntax

section \<open>The terminal\<close>

definition allowed_commands :: "string list" where
  "allowed_commands =
     [''ls'', ''cat'', ''head'', ''tail'', ''wc'', ''grep'', ''rg'', ''find'', ''jq'', ''tree'', ''curl'', ''git'',
      ''pwd'', ''echo'', ''sort'', ''uniq'', ''diff'', ''stat'', ''file'', ''du'', ''df'']"

definition git_readonly_subcommands :: "string list" where
  "git_readonly_subcommands = [''status'', ''diff'', ''log'', ''show'', ''branch'', ''ls-files'']"

definition git_branch_blocked :: "string list" where
  "git_branch_blocked = [''-d'', ''-D'', ''-m'', ''-M'', ''--delete'', ''--move'', ''--copy'', ''--set-upstream'']"

definition curl_blocked :: "string list" where
  "curl_blocked =
     [''-X'', ''--request'', ''-d'', ''--data'', ''--data-raw'', ''--data-binary'', ''--data-ascii'', ''--data-urlencode'',
      ''-F'', ''--form'', ''-T'', ''--upload-file'', ''-o'', ''--output'', ''--post301'', ''--post302'', ''--post303'',
      ''-K'', ''--config'']"

definition curl_blocked_prefixes :: "string list" where
  "curl_blocked_prefixes = [''-X'', ''-d'', ''-T'', ''-F'', ''-o'']"

definition find_blocked :: "string list" where
  "find_blocked = [''-exec'', ''-execdir'', ''-ok'', ''-okdir'', ''-delete'', ''-fls'', ''-fprint'', ''-fprintf'']"

definition curl_flag_blocked :: "string \<Rightarrow> bool" where
  "curl_flag_blocked a = (a \<in> set curl_blocked \<or> list_ex (\<lambda>p. prefix p a) curl_blocked_prefixes)"

definition validate_args :: "string \<Rightarrow> string list \<Rightarrow> string option" where
  "validate_args command args =
     (if command = ''git'' then
        (case args of
           [] \<Rightarrow> Some ''ERROR: git requires a sub-command (e.g. status, diff, log).''
         | sub # rest \<Rightarrow>
             if sub \<notin> set git_readonly_subcommands then
               Some (''ERROR: git sub-command '' @ sub @ '' not allowed. Read-only only: '' @
                 py_join '', '' (sort git_readonly_subcommands) @ ''.'')
             else if sub = ''branch'' \<and> list_ex (\<lambda>a. a \<in> set git_branch_blocked) rest then
               Some ''ERROR: git branch mutating flags are blocked.''
             else None)
      else if command = ''curl'' then
        map_option (\<lambda>a. ''ERROR: curl flag '' @ a @ '' blocked'') (List.find curl_flag_blocked args)
      else if command = ''find'' then
        map_option (\<lambda>a. ''ERROR: find predicate '' @ a @ '' blocked (no exec/delete/write).'')
          (List.find (\<lambda>a. a \<in> set find_blocked) args)
      else None)"

definition resolve_cwd :: "path_env \<Rightarrow> string option \<Rightarrow> string + path" where
  "resolve_cwd env cwd =
     (let rt = project_root env
      in case cwd of
           None \<Rightarrow> (case isolated_results_root env of Some cell \<Rightarrow> Inr cell | None \<Rightarrow> Inr rt)
         | Some d \<Rightarrow>
             let candidate = pe_resolve env (path_join rt (py_parts d))
             in if is_relative_to candidate rt then Inr candidate
                else Inl (''ERROR: cwd outside allowed roots: '' @ d))"

datatype process_end =
    No_such_program
  | Cannot_start string
  | Timed_out
  | Exited int string string

definition cap_output :: "int \<Rightarrow> string \<Rightarrow> string" where
  "cap_output max_bytes s =
     (if int (length s) > max_bytes
      then py_take max_bytes s @ newline @ ''... (truncated at '' @ py_str max_bytes @ '' bytes)'' else s)"

definition process_answer :: "int \<Rightarrow> string \<Rightarrow> string \<Rightarrow> process_end \<Rightarrow> string" where
  "process_answer max_bytes command display e =
     (case e of
        No_such_program \<Rightarrow> ''ERROR: Command not found: '' @ command
      | Cannot_start m \<Rightarrow> ''ERROR: Cannot execute '' @ command @ '': '' @ m
      | Timed_out \<Rightarrow> ''ERROR: Command timed out: '' @ display
      | Exited code out err \<Rightarrow>
          (let combined = cap_output max_bytes (if py_strip err \<noteq> [] then out @ newline @ ''[stderr]'' @ newline @ err else out)
           in if code \<noteq> 0 then ''[exit code '' @ py_str code @ '']'' @ newline @ combined else combined))"

text \<open>The answer, and the process that was started: program, arguments and directory.\<close>

definition terminal_command ::
  "path_env \<Rightarrow> int \<Rightarrow> (string \<Rightarrow> string list \<Rightarrow> path \<Rightarrow> process_end) \<Rightarrow> string \<Rightarrow> string list \<Rightarrow> string option \<Rightarrow>
    string \<times> (string \<times> string list \<times> path) option" where
  "terminal_command env max_bytes spawn command args cwd =
     (if command \<notin> set allowed_commands
      then (''ERROR: Command '' @ command @ '' not allowed. Use one of: '' @ py_join '', '' (sort allowed_commands) @ ''.'', None)
      else case validate_args command args of
        Some err \<Rightarrow> (err, None)
      | None \<Rightarrow>
          (case resolve_cwd env cwd of
             Inl err \<Rightarrow> (err, None)
           | Inr dir \<Rightarrow>
               (process_answer max_bytes command (py_join '' '' (command # args)) (spawn command args dir),
                Some (command, args, dir))))"

section \<open>Addresses\<close>

definition ipv4 :: "nat \<Rightarrow> nat \<Rightarrow> nat \<Rightarrow> nat \<Rightarrow> 32 word" where
  "ipv4 a b c d = of_nat (((a * 256 + b) * 256 + c) * 256 + d)"

text \<open>\<open>ip in net\<close>: the address under the mask of the network is the network's address.\<close>

definition in_network :: "32 word \<Rightarrow> 32 word \<times> nat \<Rightarrow> bool" where
  "in_network ip net = (ip AND NOT (mask (32 - snd net)) = fst net)"

definition blocked_v4_networks :: "(32 word \<times> nat) list" where
  "blocked_v4_networks =
     [(ipv4 0 0 0 0, 8), (ipv4 10 0 0 0, 8), (ipv4 100 64 0 0, 10), (ipv4 127 0 0 0, 8), (ipv4 169 254 0 0, 16),
      (ipv4 172 16 0 0, 12), (ipv4 192 168 0 0, 16), (ipv4 224 0 0 0, 4)]"

datatype ip_address = V4 "32 word" | V6 "128 word"

text \<open>What the standard library says of an address: loopback, link-local, multicast, unspecified; private or site-local.\<close>

record ip_oracle =
  io_special :: "ip_address \<Rightarrow> bool"
  io_private6 :: "128 word \<Rightarrow> bool"

definition blocked_address :: "ip_oracle \<Rightarrow> ip_address \<Rightarrow> bool" where
  "blocked_address io ip =
     (io_special io ip \<or>
      (case ip of V4 w \<Rightarrow> list_ex (in_network w) blocked_v4_networks | V6 w \<Rightarrow> io_private6 io w))"

text \<open>
  A URL is given by its scheme and host; \<open>resolve\<close> is \<open>getaddrinfo\<close>, an address that does not parse
  is \<open>None\<close>.
\<close>

record net_env =
  ne_scheme :: "string \<Rightarrow> string"
  ne_host :: "string \<Rightarrow> string option"
  ne_resolve :: "string \<Rightarrow> ip_address option list option"
  ne_oracle :: ip_oracle

definition assert_public_host :: "net_env \<Rightarrow> string \<Rightarrow> string option" where
  "assert_public_host env url =
     (if ne_scheme env url \<notin> {''http'', ''https''}
      then Some (''ERROR: Only http/https URLs are allowed, got scheme '' @ ne_scheme env url)
      else case ne_host env url of
        None \<Rightarrow> Some (''ERROR: URL has no hostname: '' @ url)
      | Some host \<Rightarrow>
          if host = [] then Some (''ERROR: URL has no hostname: '' @ url)
          else (case ne_resolve env host of
                  None \<Rightarrow> Some (''ERROR: Cannot resolve host: '' @ host)
                | Some infos \<Rightarrow>
                    if list_ex (\<lambda>i. case i of None \<Rightarrow> False | Some ip \<Rightarrow> blocked_address (ne_oracle env) ip) infos
                    then Some (''ERROR: Blocked non-public host: '' @ host) else None))"

section \<open>Requests\<close>

definition allowed_methods :: "string list" where
  "allowed_methods = [''GET'', ''POST'', ''PUT'', ''PATCH'', ''DELETE'']"

definition py_upper :: "string \<Rightarrow> string" where
  "py_upper s = map (\<lambda>c. if CHR ''a'' \<le> c \<and> c \<le> CHR ''z'' then char_of (of_char c - 32 :: nat) else c) s"

datatype http_reply =
    Redirect string string
  | Reply int string string
  | Request_timeout
  | Request_error string

text \<open>
  The client of the library, asked to follow redirects, gives the final reply and every URL it sent
  a request to; a redirect names the next URL and the method the client takes there.
\<close>

definition redirecting_client ::
  "(string \<Rightarrow> string \<Rightarrow> http_reply) \<Rightarrow> (string \<Rightarrow> string \<Rightarrow> http_reply \<times> string list) \<Rightarrow> bool" where
  "redirecting_client server client \<longleftrightarrow>
     (\<forall>m url. client m url =
        (case server m url of
           Redirect m2 next \<Rightarrow> (fst (client m2 next), url # snd (client m2 next))
         | r \<Rightarrow> (r, [url])))"

definition http_request ::
  "net_env \<Rightarrow> (string \<Rightarrow> string \<Rightarrow> http_reply \<times> string list) \<Rightarrow> int \<Rightarrow> int \<Rightarrow> string \<Rightarrow> string \<Rightarrow> int option \<Rightarrow>
    string \<times> string list" where
  "http_request env client max_chars max_body url meth body_bytes =
     (let m = py_upper (if meth = [] then ''GET'' else meth)
      in if m \<notin> set allowed_methods
         then (''ERROR: Method '' @ meth @ '' not allowed. Use one of: '' @ py_join '', '' (sort allowed_methods) @ ''.'', [])
         else case assert_public_host env url of
           Some err \<Rightarrow> (err, [])
         | None \<Rightarrow>
             if (case body_bytes of None \<Rightarrow> False | Some n \<Rightarrow> n > max_body)
             then (''ERROR: Request body exceeds '' @ py_str max_body @ '' bytes'', [])
             else (case client m url of
                     (Request_timeout, urls) \<Rightarrow> (''ERROR: Request timed out: '' @ url, urls)
                   | (Request_error e, urls) \<Rightarrow> (''ERROR: Request failed: '' @ e, urls)
                   | (Redirect _ next, urls) \<Rightarrow> (''ERROR: Request failed: '' @ next, urls)
                   | (Reply status ctype txt, urls) \<Rightarrow>
                       (''HTTP '' @ py_str status @ newline @ ''Content-Type: '' @ ctype @ newline @ newline @
                          (if int (length txt) > max_chars
                           then py_take max_chars txt @ newline @ newline @ ''... (truncated at '' @ py_str max_chars @ '' chars)''
                           else txt), urls)))"

section \<open>What the terminal starts\<close>

lemma no_blocked_arg: "List.find P xs = None \<longleftrightarrow> list_all (\<lambda>x. \<not> P x) xs"
  by (auto simp: find_None_iff list_all_iff)

lemma project_root_above: "prefix (project_root env) (results_root env)"
proof -
  have "prefix (butlast xs) xs" for xs :: path by (cases xs rule: rev_cases) auto
  then show ?thesis by (simp add: project_root_def)
qed

text \<open>
  Fact (safety): the terminal starts only listed programs, below the project.  A process is started
  only for a command of the list, in a directory below the project root, the run's own folder
  when no directory was named and the isolation is on; \<open>find\<close> gets no listed predicate, \<open>git\<close>
  only a listed sub-command and \<open>curl\<close> no argument that starts like a listed flag.
\<close>

theorem terminal_starts_listed:
  assumes "terminal_command env max_bytes spawn command args cwd = (ans, Some (c, as, dir))"
  shows "c = command \<and> as = args \<and> command \<in> set allowed_commands \<and> is_relative_to dir (project_root env) \<and>
    (command = ''git'' \<longrightarrow> args \<noteq> [] \<and> hd args \<in> set git_readonly_subcommands) \<and>
    (command = ''curl'' \<longrightarrow> list_all (\<lambda>a. \<not> curl_flag_blocked a) args) \<and>
    (command = ''find'' \<longrightarrow> list_all (\<lambda>a. a \<notin> set find_blocked) args)"
proof -
  have v: "command \<in> set allowed_commands" "validate_args command args = None" "resolve_cwd env cwd = Inr dir"
      "c = command" "as = args"
    using assms by (auto simp: terminal_command_def split: if_splits option.splits sum.splits)
  have "is_relative_to dir (project_root env)"
    using v(3) prefix_order.trans [OF project_root_above]
    by (auto simp: resolve_cwd_def is_relative_to_def isolated_results_root_def run_subdir_path_def Let_def
        split: option.splits if_splits sum.splits)
  moreover have "command = ''git'' \<longrightarrow> args \<noteq> [] \<and> hd args \<in> set git_readonly_subcommands"
    using v(2) by (auto simp: validate_args_def split: list.splits if_splits)
  moreover have "command = ''curl'' \<longrightarrow> list_all (\<lambda>a. \<not> curl_flag_blocked a) args"
    "command = ''find'' \<longrightarrow> list_all (\<lambda>a. a \<notin> set find_blocked) args"
    using v(2) by (auto simp: validate_args_def no_blocked_arg)
  ultimately show ?thesis using v by simp
qed

text \<open>
  Fact (error): the read-only terminal writes and executes.  Only some flags are listed and only
  when they are spelled in full or at the start of an argument: combined and other flags of the
  same programs that write a file, send a body, move a branch or run another program pass.
\<close>

theorem read_only_terminal_bypassed:
  "list_all (\<lambda>(command, args). command \<in> set allowed_commands \<and> validate_args command args = None)
     [(''curl'', [''-so'', ''out'', ''http://host/'']), (''curl'', [''-O'', ''http://host/x'']),
      (''curl'', [''-sXPOST'', ''http://host/'']), (''curl'', [''--json'', ''{}'', ''http://host/'']),
      (''find'', [''.'', ''-fprint0'', ''out'']), (''sort'', [''-o'', ''out'', ''in'']),
      (''git'', [''branch'', ''-f'', ''main'', ''HEAD~5'']), (''git'', [''diff'', ''--output=out'']),
      (''rg'', [''--pre'', ''sh'', ''x'', ''script''])]"
  by (simp add: validate_args_def allowed_commands_def git_readonly_subcommands_def git_branch_blocked_def curl_flag_blocked_def
      curl_blocked_def curl_blocked_prefixes_def find_blocked_def)

section \<open>The address guard\<close>

lemma and_not_mask:
  fixes w :: "32 word"
  shows "w AND NOT (mask k) = push_bit k (drop_bit k w)"
  by (auto simp: bit_eq_iff bit_simps)

lemma and_not_mask_iff:
  fixes w n :: "32 word"
  assumes "n AND NOT (mask k) = n"
  shows "w AND NOT (mask k) = n \<longleftrightarrow> drop_bit k w = drop_bit k n"
proof
  assume "w AND NOT (mask k) = n"
  then have "drop_bit k n = drop_bit k (push_bit k (drop_bit k w))" by (simp add: and_not_mask)
  also have "\<dots> = drop_bit k w" by (rule bit_word_eqI) (auto simp: bit_simps dest: bit_imp_le_length)
  finally show "drop_bit k w = drop_bit k n" by simp
next
  assume "drop_bit k w = drop_bit k n"
  with assms show "w AND NOT (mask k) = n" by (simp add: and_not_mask)
qed

lemma unat_ipv4:
  assumes "a < 256" "b < 256" "c < 256" "d < 256"
  shows "unat (ipv4 a b c d) = ((a * 256 + b) * 256 + c) * 256 + d"
proof -
  have "((a * 256 + b) * 256 + c) * 256 + d < 2 ^ 32" using assms by simp
  then show ?thesis unfolding ipv4_def by (simp only: unat_of_nat) (simp add: take_bit_nat_def)
qed

lemma in_network_div:
  assumes "net AND NOT (mask (32 - n)) = net"
  shows "in_network w (net, n) \<longleftrightarrow> unat w div 2 ^ (32 - n) = unat net div 2 ^ (32 - n)"
proof -
  have "in_network w (net, n) \<longleftrightarrow> unat (drop_bit (32 - n) w) = unat (drop_bit (32 - n) net)"
    using and_not_mask_iff [OF assms, of w] by (simp add: in_network_def word_unat_eq_iff [of "drop_bit (32 - n) w"])
  moreover have "unat (drop_bit k x) = unat x div 2 ^ k" for k and x :: "32 word"
    by (subst unat_drop_bit_eq) (simp only: drop_bit_eq_div)
  ultimately show ?thesis by (simp only:)
qed

lemma network_units:
  "unat (ipv4 0 0 0 0) = 0" "unat (ipv4 10 0 0 0) = 167772160" "unat (ipv4 100 64 0 0) = 1681915904"
  "unat (ipv4 127 0 0 0) = 2130706432" "unat (ipv4 169 254 0 0) = 2851995648" "unat (ipv4 172 16 0 0) = 2886729728"
  "unat (ipv4 192 168 0 0) = 3232235520" "unat (ipv4 224 0 0 0) = 3758096384"
  by (simp_all add: unat_ipv4)

lemma aligned:
  fixes net :: "32 word"
  assumes "2 ^ k dvd unat net"
  shows "net AND NOT (mask k) = net"
proof -
  have "unat (push_bit k (drop_bit k net)) = take_bit 32 (push_bit k (drop_bit k (unat net)))"
    by (simp only: unsigned_push_bit_eq unat_drop_bit_eq len_num0 len_bit0 len_num1 mult.commute) simp
  also have "push_bit k (drop_bit k (unat net)) = unat net"
    using assms by (simp only: push_bit_eq_mult drop_bit_eq_div) simp
  also have "take_bit 32 (unat net) = unat net"
  proof -
    have "unat net < 2 ^ LENGTH(32)" by (rule unsigned_less)
    then show ?thesis by (simp add: take_bit_nat_def)
  qed
  finally show ?thesis by (simp add: and_not_mask word_unat_eq_iff)
qed

lemma networks_aligned: "list_all (\<lambda>(net, n). net AND NOT (mask (32 - n)) = net) blocked_v4_networks"
  unfolding blocked_v4_networks_def by (simp only: list.pred_inject split_conv) (intro conjI TrueI; rule aligned; simp add: network_units)

lemma octet_div:
  fixes a b c d :: nat
  assumes "b = 64 * x + y" "y < 64" "b = 16 * u + v" "v < 16" "a = 16 * z + w" "w < 16" "b < 256" "c < 256" "d < 256"
  shows "(((a * 256 + b) * 256 + c) * 256 + d) div 16777216 = a \<and> (((a * 256 + b) * 256 + c) * 256 + d) div 65536 = a * 256 + b \<and>
    (((a * 256 + b) * 256 + c) * 256 + d) div 4194304 = a * 4 + x \<and> (((a * 256 + b) * 256 + c) * 256 + d) div 1048576 = a * 16 + u \<and>
    (((a * 256 + b) * 256 + c) * 256 + d) div 268435456 = z"
proof -
  have eqI: "n * q = p \<Longrightarrow> p \<le> m \<Longrightarrow> m < p + n \<Longrightarrow> m div n = q" for m n p q :: nat
    by (rule div_nat_eqI) simp_all
  have e: "((a * 256 + b) * 256 + c) * 256 + d = a * 16777216 + b * 65536 + c * 256 + d" by simp
  have m: "65536 * (a * 256 + b) = a * 16777216 + b * 65536" "4194304 * (a * 4 + x) = a * 16777216 + x * 4194304"
    "1048576 * (a * 16 + u) = a * 16777216 + u * 1048576" "16777216 * a = a * 16777216" by simp_all
  show ?thesis unfolding e
    by (intro conjI; (rule eqI [OF m(1)] eqI [OF m(2)] eqI [OF m(3)] eqI [OF m(4)] eqI [OF refl])) (use assms in linarith)+
qed

lemma octet_ranges:
  fixes a b :: nat
  assumes "a < 256" "b < 256"
  shows "a * 4 + b div 64 = 401 \<longleftrightarrow> a = 100 \<and> 64 \<le> b \<and> b < 128" "a * 256 + b = 43518 \<longleftrightarrow> a = 169 \<and> b = 254"
    "a * 16 + b div 16 = 2753 \<longleftrightarrow> a = 172 \<and> 16 \<le> b \<and> b < 32" "a * 256 + b = 49320 \<longleftrightarrow> a = 192 \<and> b = 168"
    "a div 16 = 14 \<longleftrightarrow> 224 \<le> a \<and> a < 240"
proof -
  have "b div 64 < 4" "b div 64 = 1 \<longleftrightarrow> 64 \<le> b \<and> b < 128" using assms(2) by auto
  moreover have "x < 4 \<Longrightarrow> a * 4 + x = 401 \<longleftrightarrow> a = 100 \<and> x = 1" for x by presburger
  ultimately show "a * 4 + b div 64 = 401 \<longleftrightarrow> a = 100 \<and> 64 \<le> b \<and> b < 128" by blast
  have "b div 16 < 16" "b div 16 = 1 \<longleftrightarrow> 16 \<le> b \<and> b < 32" using assms(2) by auto
  moreover have "x < 16 \<Longrightarrow> a * 16 + x = 2753 \<longleftrightarrow> a = 172 \<and> x = 1" for x by presburger
  ultimately show "a * 16 + b div 16 = 2753 \<longleftrightarrow> a = 172 \<and> 16 \<le> b \<and> b < 32" by blast
  show "a * 256 + b = 43518 \<longleftrightarrow> a = 169 \<and> b = 254" "a * 256 + b = 49320 \<longleftrightarrow> a = 192 \<and> b = 168"
    using assms(2) by presburger+
  show "a div 16 = 14 \<longleftrightarrow> 224 \<le> a \<and> a < 240" by auto
qed

lemma blocked_networks_octets_fact:
  assumes "a < 256" "b < 256" "c < 256" "d < 256"
  shows "list_ex (in_network (ipv4 a b c d)) blocked_v4_networks \<longleftrightarrow>
    a = 0 \<or> a = 10 \<or> a = 127 \<or> (224 \<le> a \<and> a < 240) \<or> (a = 100 \<and> 64 \<le> b \<and> b < 128) \<or> (a = 169 \<and> b = 254) \<or>
    (a = 172 \<and> 16 \<le> b \<and> b < 32) \<or> (a = 192 \<and> b = 168)"
proof -
  define N where "N = ((a * 256 + b) * 256 + c) * 256 + d"
  have al: "(net, n) \<in> set blocked_v4_networks \<Longrightarrow> in_network (ipv4 a b c d) (net, n) \<longleftrightarrow> N div 2 ^ (32 - n) = unat net div 2 ^ (32 - n)" for net n
    using in_network_div [of net n "ipv4 a b c d"] networks_aligned unat_ipv4 [OF assms] by (auto simp: list_all_iff N_def)
  have q: "N div 16777216 = a" "N div 65536 = a * 256 + b" "N div 4194304 = a * 4 + b div 64" "N div 1048576 = a * 16 + b div 16"
    "N div 268435456 = a div 16"
  proof -
    have s: "b = 64 * (b div 64) + b mod 64" "b = 16 * (b div 16) + b mod 16" "a = 16 * (a div 16) + a mod 16"
      and l: "b mod 64 < 64" "b mod 16 < 16" "a mod 16 < 16" by simp_all
    from octet_div [OF s(1) l(1) s(2) l(2) s(3) l(3) assms(2-4)]
    show "N div 16777216 = a" "N div 65536 = a * 256 + b" "N div 4194304 = a * 4 + b div 64" "N div 1048576 = a * 16 + b div 16"
      "N div 268435456 = a div 16" unfolding N_def by blast+
  qed
  have "list_ex (in_network (ipv4 a b c d)) blocked_v4_networks \<longleftrightarrow>
      list_ex (\<lambda>(net, n). N div 2 ^ (32 - n) = unat net div 2 ^ (32 - n)) blocked_v4_networks"
    by (rule list_ex_cong [OF refl]) (clarsimp simp: al)
  also have "\<dots> \<longleftrightarrow> a = 0 \<or> a = 10 \<or> a * 4 + b div 64 = 401 \<or> a = 127 \<or> a * 256 + b = 43518 \<or> a * 16 + b div 16 = 2753 \<or>
      a * 256 + b = 49320 \<or> a div 16 = 14"
    by (simp add: blocked_v4_networks_def network_units q)
  also have "\<dots> \<longleftrightarrow> a = 0 \<or> a = 10 \<or> a = 127 \<or> (224 \<le> a \<and> a < 240) \<or> (a = 100 \<and> 64 \<le> b \<and> b < 128) \<or> (a = 169 \<and> b = 254) \<or>
      (a = 172 \<and> 16 \<le> b \<and> b < 32) \<or> (a = 192 \<and> b = 168)"
    using octet_ranges [OF assms(1,2)] by blast
  finally show ?thesis .
qed

text \<open>
  C28 (equivalence): the mask test is the test on the octets.  For every IPv4 address the networks of
  the guard, compared bit by bit under their masks, are exactly the addresses that start with 0,
  10, 127 or 224 to 239, with 100.64 to 100.127, with 169.254, with 172.16 to 172.31 or with
  192.168; the reserved block from 240 on is not among them.
\<close>

theorem blocked_networks_octets:
  assumes "a < 256" "b < 256" "c < 256" "d < 256"
  shows "list_ex (in_network (ipv4 a b c d)) blocked_v4_networks \<longleftrightarrow>
    a = 0 \<or> a = 10 \<or> a = 127 \<or> (224 \<le> a \<and> a < 240) \<or> (a = 100 \<and> 64 \<le> b \<and> b < 128) \<or> (a = 169 \<and> b = 254) \<or>
    (a = 172 \<and> 16 \<le> b \<and> b < 32) \<or> (a = 192 \<and> b = 168)"
  using assms by (rule blocked_networks_octets_fact)

text \<open>
  Fact (safety): no request is sent before the guard has passed.  A request leaves only for an
  allowed method and a first URL with a scheme of the web and a host none of whose addresses is
  special or in a blocked network.
\<close>

theorem request_guarded:
  assumes "redirecting_client server client"
    and "http_request env client max_chars max_body url meth body = (ans, u # urls)"
  shows "u = url \<and> py_upper (if meth = [] then ''GET'' else meth) \<in> set allowed_methods \<and> assert_public_host env url = None \<and>
    ne_scheme env url \<in> {''http'', ''https''} \<and>
    (\<exists>h infos. ne_host env url = Some h \<and> ne_resolve env h = Some infos \<and>
      list_all (\<lambda>i. case i of None \<Rightarrow> True | Some ip \<Rightarrow> \<not> blocked_address (ne_oracle env) ip) infos)"
proof -
  have a: "py_upper (if meth = [] then ''GET'' else meth) \<in> set allowed_methods" "assert_public_host env url = None"
    "snd (client (py_upper (if meth = [] then ''GET'' else meth)) url) = u # urls"
    using assms(2) by (auto simp: http_request_def Let_def split: if_splits option.splits prod.splits http_reply.splits)
  have "u = url"
    using a(3) assms(1) [unfolded redirecting_client_def, rule_format, of "py_upper (if meth = [] then ''GET'' else meth)" url]
    by (auto split: http_reply.splits)
  moreover have "\<exists>h infos. ne_host env url = Some h \<and> ne_resolve env h = Some infos \<and>
      list_all (\<lambda>i. case i of None \<Rightarrow> True | Some ip \<Rightarrow> \<not> blocked_address (ne_oracle env) ip) infos"
    "ne_scheme env url \<in> {''http'', ''https''}"
    using a(2) by (auto simp: assert_public_host_def list_all_iff list_ex_iff split: if_splits option.splits)
  ultimately show ?thesis using a by blast
qed

lemma client_redirect:
  assumes "redirecting_client server client" "server m url = Redirect m2 u" "server m2 u = Reply s c body"
  shows "client m url = (Reply s c body, [url, u])"
  using assms(1) [unfolded redirecting_client_def, rule_format, of m url]
    assms(1) [unfolded redirecting_client_def, rule_format, of m2 u] assms(2,3) by simp

text \<open>
  C38 (error): a redirect defeats the guard.  Only the first URL is checked, and the client follows
  redirects: a public server that answers with a redirect to an internal address makes the agent
  send its request there, although the guard refuses that address.
\<close>

theorem redirect_defeats_guard:
  assumes "redirecting_client server client"
    and "assert_public_host env url = None" "server ''GET'' url = Redirect ''GET'' internal"
    and "assert_public_host env internal = Some err" "server ''GET'' internal = Reply status ctype secret"
    and "int (length secret) \<le> max_chars"
  shows "http_request env client max_chars max_body url ''GET'' None =
    (''HTTP '' @ py_str status @ newline @ ''Content-Type: '' @ ctype @ newline @ newline @ secret, [url, internal])"
  using assms(2-) client_redirect [OF assms(1,3,5)]
  by (simp add: http_request_def py_upper_def allowed_methods_def)

section \<open>The properties at concrete inputs\<close>

definition demo_net :: net_env where
  "demo_net = \<lparr>ne_scheme = (\<lambda>u. ''http''), ne_host = (\<lambda>u. Some u),
     ne_resolve = (\<lambda>h. Some [Some (V4 (if h = ''evil'' then ipv4 93 184 216 34 else ipv4 169 254 169 254))]),
     ne_oracle = \<lparr>io_special = (\<lambda>ip. ip = V4 (ipv4 169 254 169 254)), io_private6 = (\<lambda>w. False)\<rparr>\<rparr>"

definition demo_server :: "string \<Rightarrow> string \<Rightarrow> http_reply" where
  "demo_server m u = (if u = ''evil'' then Redirect ''GET'' ''meta'' else Reply 200 ''text/plain'' ''key'')"

definition demo_client :: "string \<Rightarrow> string \<Rightarrow> http_reply \<times> string list" where
  "demo_client m u = (if u = ''evil'' then (Reply 200 ''text/plain'' ''key'', [''evil'', ''meta'']) else (Reply 200 ''text/plain'' ''key'', [u]))"

lemma demo_client_redirects: "redirecting_client demo_server demo_client"
  by (simp add: redirecting_client_def demo_server_def demo_client_def)

lemma demo_public: "assert_public_host demo_net ''evil'' = None" "assert_public_host demo_net ''meta'' \<noteq> None"
proof -
  have "\<not> list_ex (in_network (ipv4 93 184 216 34)) blocked_v4_networks" "ipv4 93 184 216 34 \<noteq> ipv4 169 254 169 254"
    using blocked_networks_octets_fact [of 93 184 216 34] by (auto simp: word_unat_eq_iff unat_ipv4)
  then show "assert_public_host demo_net ''evil'' = None"
    by (simp add: assert_public_host_def demo_net_def blocked_address_def)
  show "assert_public_host demo_net ''meta'' \<noteq> None"
    by (simp add: assert_public_host_def demo_net_def blocked_address_def)
qed

theorem blocked_networks_octets_witness: "list_ex (in_network (ipv4 10 1 2 3)) blocked_v4_networks"
  using blocked_networks_octets [of 10 1 2 3] by simp

theorem redirect_defeats_guard_witness:
  "http_request demo_net demo_client 100 100 ''evil'' ''GET'' None =
    (''HTTP '' @ py_str 200 @ newline @ ''Content-Type: '' @ ''text/plain'' @ newline @ newline @ ''key'', [''evil'', ''meta''])"
proof -
  obtain e where "assert_public_host demo_net ''meta'' = Some e" using demo_public(2) by blast
  then show ?thesis
    by (intro redirect_defeats_guard [OF demo_client_redirects demo_public(1)]) (simp_all add: demo_server_def)
qed

theorem request_guarded_witness:
  "py_upper ''get'' \<in> set allowed_methods \<and> assert_public_host demo_net ''evil'' = None"
proof -
  have "\<exists>ans urls. http_request demo_net demo_client 100 100 ''evil'' ''get'' None = (ans, ''evil'' # urls)"
  proof -
    have "py_upper ''get'' = ''GET''" by code_simp
    then show ?thesis
      using demo_public(1) by (simp add: http_request_def allowed_methods_def demo_client_def)
  qed
  then obtain ans urls where "http_request demo_net demo_client 100 100 ''evil'' ''get'' None = (ans, ''evil'' # urls)" by blast
  from request_guarded [OF demo_client_redirects this] show ?thesis by simp
qed

theorem terminal_starts_listed_witness:
  "''find'' \<in> set allowed_commands \<and> list_all (\<lambda>a. a \<notin> set find_blocked) [''.'', ''-name'', ''x'']"
proof -
  have "terminal_command (demo_paths (\<lambda>p. None)) 100 (\<lambda>c as d. Exited 0 [] []) ''find'' [''.'', ''-name'', ''x''] None =
      ([], Some (''find'', [''.'', ''-name'', ''x''], [''/'', ''app'', ''results'', ''q09'']))"
    by (simp add: terminal_command_def allowed_commands_def validate_args_def find_blocked_def resolve_cwd_def process_answer_def
        cap_output_def py_strip_def isolated_cell [where cwd = "[''/'', ''app'']" and rid = "''q09''"])
  from terminal_starts_listed [OF this] show ?thesis by simp
qed

end
