(* ===== verification/Python_Ast.thy ===== *)
theory Python_Ast
  imports Prelude
begin

text \<open>
  What the gates read of Python source: the syntax tree that \<open>ast.parse\<close> gives, the breadth-first
  \<open>ast.walk\<close> over it, and the part of \<open>re\<close> that the gates use, the search for a pattern.  A node
  keeps the fields the gates look at; the children of a node come in the order of its fields.  The
  parser itself is an argument of the definitions that use it.
\<close>

section \<open>Syntax trees\<close>

datatype py_const = Const_str string | Const_none | Const_other

datatype py_ast =
    Import "string list"
  | Import_from "string option"
  | Function_def string "py_ast list" "py_ast list" "py_ast list"
  | Class_def string "py_ast list" "py_ast list" "py_ast list"
  | Branch "py_ast list"
  | Assign "py_ast list" py_ast
  | Ann_assign py_ast py_ast "py_ast option"
  | Return "py_ast option"
  | Assert "py_ast list"
  | Pass
  | Expr_stmt py_ast
  | Name string
  | Attribute py_ast string
  | Constant py_const
  | Dict_lit "py_ast list"
  | Call py_ast "py_ast list" "(string option \<times> py_ast) list"
  | Other_node "py_ast list"

fun children :: "py_ast \<Rightarrow> py_ast list" where
  "children (Function_def _ args body rest) = args @ body @ rest"
| "children (Class_def _ bases body rest) = bases @ body @ rest"
| "children (Branch ns) = ns"
| "children (Assign ts v) = ts @ [v]"
| "children (Ann_assign t a v) = t # a # (case v of None \<Rightarrow> [] | Some n \<Rightarrow> [n])"
| "children (Return v) = (case v of None \<Rightarrow> [] | Some n \<Rightarrow> [n])"
| "children (Assert ns) = ns"
| "children (Expr_stmt v) = [v]"
| "children (Attribute v _) = [v]"
| "children (Dict_lit ns) = ns"
| "children (Call f args kws) = f # args @ map snd kws"
| "children (Other_node ns) = ns"
| "children _ = []"

definition weight :: "py_ast \<Rightarrow> nat" where
  "weight n = Suc (2 * size n)"

lemma weight_list: "sum_list (map weight ns) = 2 * sum_list (map size ns) + length ns"
  by (induction ns) (simp_all add: weight_def)

lemma size_keyword_values: "sum_list (map size (map snd kws)) + length kws \<le> size_list (size_prod (\<lambda>_. 0) size) (kws :: (string option \<times> py_ast) list)"
  by (induction kws) auto

lemma weight_children: "sum_list (map weight (children n)) < weight n"
proof (cases n)
  case (Call f args kws)
  then show ?thesis using size_keyword_values [of kws]
    by (simp add: weight_list weight_def size_list_conv_sum_list del: map_map)
qed (auto simp: weight_list weight_def size_list_conv_sum_list split: option.split)

text \<open>\<open>ast.walk\<close>: the queue holds the nodes that are still to be yielded.\<close>

function walk :: "py_ast list \<Rightarrow> py_ast list" where
  "walk [] = []"
| "walk (n # queue) = n # walk (queue @ children n)"
  by pat_completeness auto
termination
  by (relation "measure (\<lambda>q. sum_list (map weight q))") (use weight_children in auto)

definition ast_walk :: "py_ast \<Rightarrow> py_ast list" where
  "ast_walk n = walk [n]"

text \<open>The walk yields every node of the tree, at any depth, and nothing else.\<close>

inductive subnode :: "py_ast \<Rightarrow> py_ast \<Rightarrow> bool" where
  subnode_self [intro]: "subnode n n"
| subnode_step: "c \<in> set (children n) \<Longrightarrow> subnode c m \<Longrightarrow> subnode n m"

lemma subnode_iff: "subnode n m \<longleftrightarrow> m = n \<or> (\<exists>c \<in> set (children n). subnode c m)"
  by (subst subnode.simps) blast

lemma set_walk: "m \<in> set (walk q) \<longleftrightarrow> (\<exists>n \<in> set q. subnode n m)"
proof (induction q rule: walk.induct)
  case (2 n queue)
  have "m \<in> set (walk (n # queue)) \<longleftrightarrow> m = n \<or> (\<exists>c \<in> set (queue @ children n). subnode c m)"
    using 2 by (simp del: children.simps)
  also have "\<dots> \<longleftrightarrow> (\<exists>c \<in> set (n # queue). subnode c m)"
    by (simp only: subnode_iff [of n m] set_append list.set bex_Un bex_simps) blast
  finally show ?case .
qed simp

lemma set_ast_walk: "m \<in> set (ast_walk n) \<longleftrightarrow> subnode n m"
  unfolding ast_walk_def set_walk by simp

section \<open>Patterns\<close>

text \<open>
  Regular expressions over characters; \<open>rx_search r s\<close> says that some substring of \<open>s\<close> matches,
  which is when \<open>re.search\<close> and \<open>re.findall\<close> find something.  It is computed with derivatives.
\<close>

datatype rx = Rx_none | Rx_empty | Rx_char "char \<Rightarrow> bool" | Rx_seq rx rx | Rx_alt rx rx | Rx_star rx

fun rx_null :: "rx \<Rightarrow> bool" where
  "rx_null Rx_none = False"
| "rx_null Rx_empty = True"
| "rx_null (Rx_char P) = False"
| "rx_null (Rx_seq r t) = (rx_null r \<and> rx_null t)"
| "rx_null (Rx_alt r t) = (rx_null r \<or> rx_null t)"
| "rx_null (Rx_star r) = True"

fun rx_step :: "char \<Rightarrow> rx \<Rightarrow> rx" where
  "rx_step c Rx_none = Rx_none"
| "rx_step c Rx_empty = Rx_none"
| "rx_step c (Rx_char P) = (if P c then Rx_empty else Rx_none)"
| "rx_step c (Rx_seq r t) =
     (if rx_null r then Rx_alt (Rx_seq (rx_step c r) t) (rx_step c t) else Rx_seq (rx_step c r) t)"
| "rx_step c (Rx_alt r t) = Rx_alt (rx_step c r) (rx_step c t)"
| "rx_step c (Rx_star r) = Rx_seq (rx_step c r) (Rx_star r)"

fun rx_starts :: "rx \<Rightarrow> string \<Rightarrow> bool" where
  "rx_starts r [] = rx_null r"
| "rx_starts r (c # cs) = (rx_null r \<or> rx_starts (rx_step c r) cs)"

fun rx_search :: "rx \<Rightarrow> string \<Rightarrow> bool" where
  "rx_search r [] = rx_starts r []"
| "rx_search r (c # cs) = (rx_starts r (c # cs) \<or> rx_search r cs)"

text \<open>The language of an expression, and that the search is the search for a word of it.\<close>

inductive rx_word :: "rx \<Rightarrow> string \<Rightarrow> bool" where
  rx_word_empty: "rx_word Rx_empty []"
| rx_word_char: "P c \<Longrightarrow> rx_word (Rx_char P) [c]"
| rx_word_seq: "rx_word r u \<Longrightarrow> rx_word t v \<Longrightarrow> rx_word (Rx_seq r t) (u @ v)"
| rx_word_left: "rx_word r u \<Longrightarrow> rx_word (Rx_alt r t) u"
| rx_word_right: "rx_word t u \<Longrightarrow> rx_word (Rx_alt r t) u"
| rx_word_stop: "rx_word (Rx_star r) []"
| rx_word_more: "rx_word r u \<Longrightarrow> rx_word (Rx_star r) v \<Longrightarrow> rx_word (Rx_star r) (u @ v)"

inductive_simps rx_word_simps [simp]:
  "rx_word Rx_none s" "rx_word Rx_empty s" "rx_word (Rx_char P) s" "rx_word (Rx_alt r t) s"

inductive_cases rx_seqE: "rx_word (Rx_seq r t) s"
inductive_cases rx_starE: "rx_word (Rx_star r) s"

lemma rx_null_iff: "rx_null r \<longleftrightarrow> rx_word r []"
proof (induction r)
  case (Rx_seq r t)
  then show ?case by (auto elim: rx_seqE intro: rx_word_seq [of _ "[]" _ "[]", simplified])
next
  case (Rx_star r)
  then show ?case by (auto intro: rx_word_stop)
qed auto

lemma rx_star_cons:
  "rx_word (Rx_star r) s \<Longrightarrow> s = c # cs \<Longrightarrow> \<exists>u v. cs = u @ v \<and> rx_word r (c # u) \<and> rx_word (Rx_star r) v"
proof (induction "Rx_star r" s arbitrary: cs rule: rx_word.induct)
  case (rx_word_more u v)
  then show ?case by (cases u) auto
qed simp

lemma rx_step_iff: "rx_word (rx_step c r) s \<longleftrightarrow> rx_word r (c # s)"
proof (induction r arbitrary: s)
  case (Rx_seq r t)
  have "rx_word (Rx_seq r t) (c # s) \<longleftrightarrow>
      (\<exists>u v. s = u @ v \<and> rx_word r (c # u) \<and> rx_word t v) \<or> (rx_word r [] \<and> rx_word t (c # s))"
  proof
    assume "rx_word (Rx_seq r t) (c # s)"
    then obtain u v where "c # s = u @ v" "rx_word r u" "rx_word t v" by (auto elim: rx_seqE)
    then show "(\<exists>u v. s = u @ v \<and> rx_word r (c # u) \<and> rx_word t v) \<or> (rx_word r [] \<and> rx_word t (c # s))"
      by (cases u) auto
  qed (use rx_word_seq [of r _ t] rx_word_seq [of r "[]" t "c # s"] in force)
  moreover have "rx_word (Rx_seq (rx_step c r) t) s \<longleftrightarrow> (\<exists>u v. s = u @ v \<and> rx_word r (c # u) \<and> rx_word t v)"
    using Rx_seq.IH(1) by (auto elim!: rx_seqE intro: rx_word_seq)
  ultimately show ?case using Rx_seq.IH(2) by (auto simp: rx_null_iff)
next
  case (Rx_star r)
  have "rx_word (Rx_seq (rx_step c r) (Rx_star r)) s \<longleftrightarrow> (\<exists>u v. s = u @ v \<and> rx_word r (c # u) \<and> rx_word (Rx_star r) v)"
    using Rx_star.IH by (auto elim!: rx_seqE intro: rx_word_seq)
  then show ?case using rx_star_cons [of r "c # s" c s] rx_word_more [of r "c # _" "_"] by fastforce
qed auto

lemma rx_starts_iff: "rx_starts r s \<longleftrightarrow> (\<exists>u v. s = u @ v \<and> rx_word r u)"
proof (induction s arbitrary: r)
  case (Cons c cs)
  have "(\<exists>u v. c # cs = u @ v \<and> rx_word r u) \<longleftrightarrow> rx_word r [] \<or> (\<exists>u v. cs = u @ v \<and> rx_word r (c # u))"
    by (auto simp: Cons_eq_append_conv)
  with Cons show ?case by (simp add: rx_null_iff rx_step_iff)
qed (simp add: rx_null_iff)

lemma rx_search_iff: "rx_search r s \<longleftrightarrow> (\<exists>a u v. s = a @ u @ v \<and> rx_word r u)"
proof (induction s)
  case (Cons c cs)
  have "(\<exists>a u v. c # cs = a @ u @ v \<and> rx_word r u) \<longleftrightarrow>
      (\<exists>u v. c # cs = u @ v \<and> rx_word r u) \<or> (\<exists>a u v. cs = a @ u @ v \<and> rx_word r u)"
  proof
    assume "\<exists>a u v. c # cs = a @ u @ v \<and> rx_word r u"
    then obtain a u v where "c # cs = a @ u @ v" "rx_word r u" by blast
    then show "(\<exists>u v. c # cs = u @ v \<and> rx_word r u) \<or> (\<exists>a u v. cs = a @ u @ v \<and> rx_word r u)"
      by (cases a) auto
  next
    assume "(\<exists>u v. c # cs = u @ v \<and> rx_word r u) \<or> (\<exists>a u v. cs = a @ u @ v \<and> rx_word r u)"
    then show "\<exists>a u v. c # cs = a @ u @ v \<and> rx_word r u"
    proof
      assume "\<exists>u v. c # cs = u @ v \<and> rx_word r u"
      then show ?thesis by (metis append_Nil)
    next
      assume "\<exists>a u v. cs = a @ u @ v \<and> rx_word r u"
      then show ?thesis by (metis append_Cons)
    qed
  qed
  with Cons show ?case by (simp add: rx_starts_iff del: rx_starts.simps)
qed (simp add: rx_null_iff)

lemma rx_search_append: "rx_search r s \<Longrightarrow> rx_search r (x @ s @ y)"
  by (auto simp: rx_search_iff) (metis append.assoc)

text \<open>The notations of the patterns: a literal, \<open>\s\<close>, a set and its complement, \<open>+\<close> and \<open>?\<close>.\<close>

definition rx_lit :: "string \<Rightarrow> rx" where
  "rx_lit s = foldr (\<lambda>c r. Rx_seq (Rx_char (\<lambda>d. d = c)) r) s Rx_empty"

definition rx_ws :: rx where
  "rx_ws = Rx_char is_ws"

definition rx_set :: "string \<Rightarrow> rx" where
  "rx_set cs = Rx_char (\<lambda>c. c \<in> set cs)"

definition rx_not :: "string \<Rightarrow> rx" where
  "rx_not cs = Rx_char (\<lambda>c. c \<notin> set cs)"

definition rx_plus :: "rx \<Rightarrow> rx" where
  "rx_plus r = Rx_seq r (Rx_star r)"

definition rx_opt :: "rx \<Rightarrow> rx" where
  "rx_opt r = Rx_alt r Rx_empty"

definition rx_seqs :: "rx list \<Rightarrow> rx" where
  "rx_seqs rs = foldr Rx_seq rs Rx_empty"

definition rx_alts :: "rx list \<Rightarrow> rx" where
  "rx_alts rs = foldr Rx_alt rs Rx_none"

lemma rx_word_lit: "rx_word (rx_lit s) u \<longleftrightarrow> u = s"
proof (induction s arbitrary: u)
  case (Cons c s)
  have "rx_word (Rx_seq (Rx_char (\<lambda>d. d = c)) (rx_lit s)) u \<longleftrightarrow> u = c # s"
  proof
    assume "rx_word (Rx_seq (Rx_char (\<lambda>d. d = c)) (rx_lit s)) u"
    then obtain v w where "u = v @ w" "rx_word (Rx_char (\<lambda>d. d = c)) v" "rx_word (rx_lit s) w" by (rule rx_seqE)
    then show "u = c # s" using Cons by auto
  next
    assume "u = c # s"
    then show "rx_word (Rx_seq (Rx_char (\<lambda>d. d = c)) (rx_lit s)) u"
      using Cons rx_word_seq [of "Rx_char (\<lambda>d. d = c)" "[c]" "rx_lit s" s] by simp
  qed
  then show ?case by (simp add: rx_lit_def)
qed (simp add: rx_lit_def)

lemma rx_search_lit: "rx_search (rx_lit s) t \<longleftrightarrow> py_in s t"
  by (auto simp: rx_search_iff rx_word_lit py_in_def sublist_def)

end
