(* ===== verification/Safety_Pipeline.thy ===== *)
theory Safety_Pipeline
  imports Python_Ast File_Tools
begin

text \<open>
  The gates for generated code: the eight layers of \<open>SafetyPipeline\<close>
  (\<open>src/src/safety/pipeline.py\<close>), the gate of generated tools
  (\<open>src/src/tools/dynamic/validation.py\<close>) and the list of modules a tool may import
  (\<open>src/src/tools/dynamic/allowlist.py\<close>).  The Python and JSON parsers, the linter and the sandbox
  are arguments; a path is resolved as in \<open>Tool_Paths\<close>.  Of the error messages only the parts that
  name a cause are kept.
\<close>

section \<open>What the gates are given\<close>

record sandbox_run =
  sb_success :: bool
  sb_timed_out :: bool
  sb_exit_code :: int
  sb_stdout :: string
  sb_stderr :: string
  sb_duration :: real

datatype code_answer = Code_raised string | Code_ran sandbox_run

record safety_env =
  se_parse :: "string \<Rightarrow> (int \<times> string) + py_ast"
  se_json_ok :: "string \<Rightarrow> bool"
  se_paths :: path_env
  se_default_root :: "string option"

record safety_context =
  sc_mutation :: "mutation_type option"
  sc_required :: "string list"
  sc_sandbox_root :: "string option"

record layer =
  ly_passed :: bool
  ly_issues :: "string list"

definition layer_of :: "string list \<Rightarrow> layer" where
  "layer_of issues = \<lparr>ly_passed = (issues = []), ly_issues = issues\<rparr>"

definition skipped_layer :: layer where
  "skipped_layer = \<lparr>ly_passed = True, ly_issues = []\<rparr>"

section \<open>Layers 1 to 3\<close>

definition check_syntax :: "safety_env \<Rightarrow> string \<Rightarrow> layer" where
  "check_syntax env code =
     (case se_parse env code of
        Inr t \<Rightarrow> \<lparr>ly_passed = True, ly_issues = []\<rparr>
      | Inl (line, msg) \<Rightarrow> \<lparr>ly_passed = False, ly_issues = [''Syntax error at line '' @ py_str line @ '': '' @ msg]\<rparr>)"

definition is_branch :: "py_ast \<Rightarrow> bool" where
  "is_branch n = (case n of Branch _ \<Rightarrow> True | _ \<Rightarrow> False)"

definition complexity :: "py_ast \<Rightarrow> int" where
  "complexity n = int (length (filter is_branch (ast_walk n)))"

definition complex_function :: "py_ast \<Rightarrow> string list" where
  "complex_function n =
     (case n of
        Function_def name _ _ _ \<Rightarrow>
          if complexity n > 20
          then [''Function '' @ name @ '' too complex: '' @ py_str (complexity n) @ '' branches (max 20)''] else []
      | _ \<Rightarrow> [])"

definition check_static :: "safety_env \<Rightarrow> string \<Rightarrow> layer" where
  "check_static env code =
     layer_of
       ((if length (split_lines code) > 500
         then [''Code too long: '' @ py_str (int (length (split_lines code))) @ '' lines (max 500)''] else []) @
        (if length code > 50000
         then [''Code too large: '' @ py_str (int (length code)) @ '' chars (max 50K)''] else []) @
        (case se_parse env code of Inl _ \<Rightarrow> [] | Inr t \<Rightarrow> concat (map complex_function (ast_walk t))))"

definition quote_chars :: string where
  "quote_chars = [CHR 0x27, CHR 0x22]"

text \<open>The forbidden patterns with a name each; the search ignores case.\<close>

definition forbidden_patterns :: "(string \<times> rx) list" where
  "forbidden_patterns =
     [(''os.system('', rx_seqs [rx_lit ''os.system'', Rx_star rx_ws, rx_lit ''('']),
      (''subprocess.call(shell=True'',
        rx_seqs [rx_lit ''subprocess.call'', Rx_star rx_ws, rx_lit ''('', Rx_star (rx_not '')''), rx_lit ''shell'', Rx_star rx_ws,
          rx_lit ''='', Rx_star rx_ws, rx_lit ''true'']),
      (''__import__(os)'',
        rx_seqs [rx_lit ''__import__'', Rx_star rx_ws, rx_lit ''('', Rx_star rx_ws, rx_set quote_chars, rx_lit ''os'',
          rx_set quote_chars, Rx_star rx_ws, rx_lit '')'']),
      (''eval('', rx_seqs [rx_lit ''eval'', Rx_star rx_ws, rx_lit ''('']),
      (''exec('', rx_seqs [rx_lit ''exec'', Rx_star rx_ws, rx_lit ''('']),
      (''compile(exec'',
        rx_seqs [rx_lit ''compile'', Rx_star rx_ws, rx_lit ''('', Rx_star (rx_not '')''), rx_set quote_chars, rx_lit ''exec'',
          rx_set quote_chars]),
      (''open(secret'',
        rx_seqs [rx_lit ''open'', Rx_star rx_ws, rx_lit ''('', Rx_star (rx_not '')''),
          rx_alts [rx_lit ''/etc/passwd'', rx_lit ''/etc/shadow'', rx_lit ''.ssh'', rx_lit ''.env'']]),
      (''rm -rf'', rx_seqs [rx_lit ''rm'', rx_plus rx_ws, rx_lit ''-rf'']),
      (''shutil.rmtree'', rx_lit ''shutil.rmtree''),
      (''pickle.load('', rx_seqs [rx_lit ''pickle.load'', rx_opt (rx_lit ''s''), Rx_star rx_ws, rx_lit ''('']),
      (''marshal.load('', rx_seqs [rx_lit ''marshal.load'', rx_opt (rx_lit ''s''), Rx_star rx_ws, rx_lit ''('']),
      (''netrc'', rx_lit ''netrc''),
      (''cred'', rx_lit ''cred'')]"

definition check_security :: "string \<Rightarrow> layer" where
  "check_security code =
     layer_of (map (\<lambda>(name, r). ''Forbidden pattern detected: '' @ name)
       (filter (\<lambda>(name, r). rx_search r (py_lower code)) forbidden_patterns))"

section \<open>Layer 4\<close>

definition dangerous_modules :: "string list" where
  "dangerous_modules =
     [''os'', ''sys'', ''subprocess'', ''shutil'', ''ctypes'', ''multiprocessing'', ''threading'', ''socket'', ''http.server'',
      ''pickle'', ''marshal'', ''importlib'', ''pkgutil'', ''code'', ''codeop'']"

definition root_module :: "string \<Rightarrow> string" where
  "root_module m = takeWhile (\<lambda>c. c \<noteq> CHR ''.'') m"

definition blocked_module :: "string list \<Rightarrow> string \<Rightarrow> bool" where
  "blocked_module allowlisted m = (root_module m \<in> set dangerous_modules \<and> root_module m \<notin> set allowlisted)"

definition import_issues :: "string list \<Rightarrow> py_ast \<Rightarrow> string list" where
  "import_issues allowlisted n =
     (case n of
        Import names \<Rightarrow> map (\<lambda>m. ''Dangerous import: '' @ m) (filter (blocked_module allowlisted) names)
      | Import_from (Some m) \<Rightarrow>
          if m \<noteq> [] \<and> blocked_module allowlisted m then [''Dangerous import: from '' @ m] else []
      | _ \<Rightarrow> [])"

definition check_imports :: "safety_env \<Rightarrow> string \<Rightarrow> string list \<Rightarrow> layer" where
  "check_imports env code allowlisted =
     layer_of
       (case se_parse env code of
          Inl _ \<Rightarrow> [''Cannot parse imports due to syntax error'']
        | Inr t \<Rightarrow> concat (map (import_issues allowlisted) (ast_walk t)))"

section \<open>Layer 5\<close>

definition open_path_literal :: "py_ast list \<Rightarrow> string option" where
  "open_path_literal args = (case args of Constant (Const_str p) # _ \<Rightarrow> Some p | _ \<Rightarrow> None)"

fun keyword_mode :: "(string option \<times> py_ast) list \<Rightarrow> string" where
  "keyword_mode [] = ''r''"
| "keyword_mode ((k, v) # kws) =
     (case (k, v) of
        (Some name, Constant (Const_str m)) \<Rightarrow> if name = ''mode'' then m else keyword_mode kws
      | _ \<Rightarrow> keyword_mode kws)"

definition open_mode :: "py_ast list \<Rightarrow> (string option \<times> py_ast) list \<Rightarrow> string" where
  "open_mode args kws =
     (case args of
        _ # arg # _ \<Rightarrow> (case arg of Constant (Const_str m) \<Rightarrow> m | _ \<Rightarrow> ''r'')
      | _ \<Rightarrow> keyword_mode kws)"

definition is_write_open :: "py_ast list \<Rightarrow> (string option \<times> py_ast) list \<Rightarrow> bool" where
  "is_write_open args kws = list_ex (\<lambda>c. c \<in> set ''wax+'') (open_mode args kws)"

definition path_outside_sandbox :: "path_env \<Rightarrow> string \<Rightarrow> string option \<Rightarrow> bool" where
  "path_outside_sandbox penv p sandbox_root =
     (let target = py_parts p
      in if \<not> is_absolute target then False
         else case sandbox_root of
           None \<Rightarrow> True
         | Some r \<Rightarrow> \<not> is_relative_to (pe_resolve penv target) (pe_resolve penv (py_parts r)))"

definition write_issue :: "path_env \<Rightarrow> string option \<Rightarrow> py_ast \<Rightarrow> string list" where
  "write_issue penv sandbox_root n =
     (case n of
        Call (Name f) args kws \<Rightarrow>
          if f \<noteq> ''open'' then []
          else (case open_path_literal args of
                  None \<Rightarrow> []
                | Some p \<Rightarrow>
                    if is_write_open args kws \<and> path_outside_sandbox penv p sandbox_root
                    then [''File write outside sandbox directory: '' @ p] else [])
      | _ \<Rightarrow> [])"

definition sandbox_root_of :: "safety_env \<Rightarrow> safety_context \<Rightarrow> string option" where
  "sandbox_root_of env ctx = (case sc_sandbox_root ctx of Some r \<Rightarrow> Some r | None \<Rightarrow> se_default_root env)"

definition check_behavioral :: "safety_env \<Rightarrow> string \<Rightarrow> safety_context \<Rightarrow> layer" where
  "check_behavioral env code ctx =
     layer_of
       ((if py_in ''while True:'' code \<and> \<not> py_in ''break'' code \<and> \<not> py_in ''return'' code
         then [''Potential infinite loop: while True without break/return''] else []) @
        (case se_parse env code of
           Inl _ \<Rightarrow> []
         | Inr t \<Rightarrow> concat (map (write_issue (se_paths env) (sandbox_root_of env ctx)) (ast_walk t))))"

section \<open>Layers 6 and 7\<close>

definition check_sandbox :: "string \<Rightarrow> (string \<Rightarrow> code_answer) \<Rightarrow> layer" where
  "check_sandbox code execute_code =
     layer_of
       (case execute_code code of
          Code_raised m \<Rightarrow> [''Sandbox execution error: '' @ m]
        | Code_ran r \<Rightarrow>
            if sb_timed_out r then [''Code timed out in sandbox execution'']
            else if \<not> sb_success r
            then [''Sandbox execution failed: '' @ (if sb_stderr r = [] then ''unknown error'' else py_take 200 (sb_stderr r))]
            else [])"

definition exit_issue :: "py_ast \<Rightarrow> string list" where
  "exit_issue n =
     (case n of
        Call (Attribute (Name m) a) _ _ \<Rightarrow>
          if a = ''exit'' \<and> m = ''sys'' then [''Code contains sys.exit()''] else []
      | _ \<Rightarrow> [])"

definition empty_body_issue :: "py_ast \<Rightarrow> string list" where
  "empty_body_issue n =
     (case n of
        Function_def name _ body _ \<Rightarrow>
          (case body of
             [Pass] \<Rightarrow> [''Function '' @ name @ '' has empty body (pass only)'']
           | [Expr_stmt (Constant (Const_str _))] \<Rightarrow> [''Function '' @ name @ '' has docstring-only body'']
           | _ \<Rightarrow> [])
      | _ \<Rightarrow> [])"

definition is_definition :: "py_ast \<Rightarrow> bool" where
  "is_definition n = (case n of Function_def _ _ _ _ \<Rightarrow> True | Class_def _ _ _ _ \<Rightarrow> True | _ \<Rightarrow> False)"

definition structured_content :: "safety_env \<Rightarrow> string \<Rightarrow> bool" where
  "structured_content env code =
     (let stripped = py_strip code
      in (prefix ''{'' stripped \<or> prefix ''['' stripped) \<and> se_json_ok env stripped)"

definition check_semantic :: "safety_env \<Rightarrow> string \<Rightarrow> layer" where
  "check_semantic env code =
     (if structured_content env code then \<lparr>ly_passed = True, ly_issues = []\<rparr>
      else layer_of
        (case se_parse env code of
           Inl _ \<Rightarrow> [''Cannot perform semantic check due to syntax error'']
         | Inr t \<Rightarrow>
             concat (map exit_issue (ast_walk t)) @ concat (map empty_body_issue (ast_walk t)) @
             (if \<not> list_ex is_definition (ast_walk t) \<and> length (split_lines code) > 5
              then [''Mutation code has no function or class definitions''] else [])))"

section \<open>Layer 8: preservation of the safety apparatus\<close>

datatype safety_violation_type = PIPELINE_NEUTRALIZATION | GATE_FLAG_FLIP | SAFETY_INVOCATION_DISABLE

definition gate_flag_identifiers :: "string list" where
  "gate_flag_identifiers = [''no_evolution'', ''eval_enabled'', ''evolution_enabled'']"

definition safety_apparatus_names :: "string list" where
  "safety_apparatus_names =
     [''SafetyPipeline'', ''_FORBIDDEN_PATTERNS'', ''should_gate_destructive'', ''SafetyViolationError'', ''SafetyViolationType'']"

fun after_newlines :: "string \<Rightarrow> string list" where
  "after_newlines [] = []"
| "after_newlines (c # cs) = (if [c] = newline then cs # after_newlines cs else after_newlines cs)"

text \<open>\<open>(?m)^[ \t]*flag\s*[:=]\<close>: the assignment is looked for at the start of a line.\<close>

definition flag_assignment :: "string \<Rightarrow> rx" where
  "flag_assignment ident = rx_seqs [Rx_star (rx_set [CHR '' '', CHR 0x09]), rx_lit ident, Rx_star rx_ws, rx_set '':='']"

definition rewrites_flag :: "string \<Rightarrow> string \<Rightarrow> bool" where
  "rewrites_flag code ident = list_ex (rx_starts (flag_assignment ident)) (code # after_newlines code)"

definition target_violation :: "py_ast \<Rightarrow> py_ast option \<Rightarrow> (safety_violation_type \<times> string) list" where
  "target_violation tgt value =
     (case tgt of
        Name x \<Rightarrow>
          if x \<in> set safety_apparatus_names then [(PIPELINE_NEUTRALIZATION, ''mutation reassigns safety-apparatus name '' @ x)]
          else if x = ''safety_result'' \<and> (case value of Some (Dict_lit _) \<Rightarrow> True | _ \<Rightarrow> False)
          then [(SAFETY_INVOCATION_DISABLE, ''mutation hardcodes safety_result'')]
          else if x \<in> {''safety'', ''safety_pipeline''} \<and> value = Some (Constant Const_none)
          then [(SAFETY_INVOCATION_DISABLE, ''mutation sets safety handle '' @ x @ '' = None'')]
          else []
      | Attribute (Name x) a \<Rightarrow>
          if x = ''SafetyPipeline'' then [(PIPELINE_NEUTRALIZATION, ''mutation monkey-patches SafetyPipeline.'' @ a)] else []
      | _ \<Rightarrow> [])"

definition assignment_violations :: "py_ast \<Rightarrow> (safety_violation_type \<times> string) list" where
  "assignment_violations n =
     (case n of
        Assign targets value \<Rightarrow> concat (map (\<lambda>tgt. target_violation tgt (Some value)) targets)
      | Ann_assign tgt _ value \<Rightarrow> target_violation tgt value
      | _ \<Rightarrow> [])"

definition preservation_violations :: "safety_env \<Rightarrow> string \<Rightarrow> (safety_violation_type \<times> string) list" where
  "preservation_violations env code =
     rev (remdups (rev
       (map (\<lambda>ident. (GATE_FLAG_FLIP, ''mutation rewrites gate-control flag '' @ ident))
          (filter (rewrites_flag code) gate_flag_identifiers) @
        (case se_parse env code of Inl _ \<Rightarrow> [] | Inr t \<Rightarrow> concat (map assignment_violations (ast_walk t))))))"

definition check_safety_preservation :: "safety_env \<Rightarrow> string \<Rightarrow> layer" where
  "check_safety_preservation env code =
     layer_of (map (\<lambda>(category, detail). detail) (preservation_violations env code))"

section \<open>The pipeline\<close>

record safety_result =
  sr_passed :: bool
  sr_layers :: "(string \<times> layer) list"
  sr_issues :: "string list"
  sr_violations :: "(safety_violation_type \<times> string) list"

definition runs_code_layers :: "safety_context \<Rightarrow> bool" where
  "runs_code_layers ctx = (sc_mutation ctx = None \<or> sc_mutation ctx = Some MT_CODE \<or> sc_mutation ctx = Some MT_TOOL)"

definition safety_layers ::
  "safety_env \<Rightarrow> string \<Rightarrow> safety_context \<Rightarrow> (string \<Rightarrow> code_answer) option \<Rightarrow> string list \<Rightarrow> (string \<times> layer) list" where
  "safety_layers env code ctx sandbox allowlisted =
     (let code_layer = (\<lambda>l. if runs_code_layers ctx then l else skipped_layer)
      in [(''syntax'', code_layer (check_syntax env code)),
          (''static'', check_static env code),
          (''security'', check_security code),
          (''imports'', code_layer (check_imports env code (allowlisted @ sc_required ctx))),
          (''behavioral'', check_behavioral env code ctx),
          (''sandbox'', case sandbox of None \<Rightarrow> skipped_layer | Some execute_code \<Rightarrow> check_sandbox code execute_code),
          (''semantic'', code_layer (check_semantic env code)),
          (''preservation'', check_safety_preservation env code)])"

definition safety_validate ::
  "safety_env \<Rightarrow> string \<Rightarrow> safety_context \<Rightarrow> (string \<Rightarrow> code_answer) option \<Rightarrow> string list \<Rightarrow> safety_result" where
  "safety_validate env code ctx sandbox allowlisted =
     (let ls = safety_layers env code ctx sandbox allowlisted
      in \<lparr>sr_passed = list_all (\<lambda>(_, l). ly_passed l) ls,
          sr_layers = ls,
          sr_issues = concat (map (\<lambda>(_, l). if ly_passed l then [] else ly_issues l) ls),
          sr_violations = preservation_violations env code\<rparr>)"

section \<open>The gate of generated tools\<close>

definition allowed_modules :: "string list" where
  "allowed_modules =
     [''httpx'', ''json'', ''re'', ''math'', ''datetime'', ''pathlib'', ''collections'', ''itertools'', ''textwrap'', ''typing'',
      ''dataclasses'', ''copy'', ''decimal'', ''statistics'', ''hashlib'', ''base64'', ''urllib.parse'', ''html.parser'', ''csv'', ''io'',
      ''xml.etree.ElementTree'', ''loguru'', ''aiohttp'', ''bs4'', ''pandas'', ''numpy'', ''yaml'', ''lxml'', ''feedparser'',
      ''xmltodict'', ''jinja2'', ''PIL'', ''sympy'', ''pydantic'', ''pydantic_settings'', ''orjson'', ''json_repair'',
      ''unstructured'', ''markdown_it'', ''redis'', ''requests'', ''dateutil'', ''jsonschema'', ''tenacity'', ''scipy'',
      ''sklearn'', ''openpyxl'', ''tabulate'', ''aiofiles'', ''trafilatura'', ''libcst'', ''fitz'', ''pymupdf'', ''pulp'',
      ''cvxpy'', ''tree_sitter'', ''tree_sitter_python'', ''arxiv'', ''pyomo'', ''highspy'', ''selectolax'', ''mdformat'',
      ''mistune'', ''parsel'', ''matplotlib'', ''matplotlib.pyplot'', ''hypothesis'', ''z3'']"

text \<open>\<open>splitlines(keepends=True)\<close>; a line is keyed by its text without trailing whitespace.\<close>

fun keep_lines_acc :: "string \<Rightarrow> string \<Rightarrow> string list" where
  "keep_lines_acc acc [] = (if acc = [] then [] else [rev acc])"
| "keep_lines_acc acc (c # cs) =
     (if of_char c = (13 :: nat) \<and> cs \<noteq> [] \<and> of_char (hd cs) = (10 :: nat)
      then rev (hd cs # c # acc) # keep_lines_acc [] (tl cs)
      else if line_break c then rev (c # acc) # keep_lines_acc [] cs
      else keep_lines_acc (c # acc) cs)"

definition line_key :: "string \<Rightarrow> string" where
  "line_key line = rev (dropWhile is_ws (rev line))"

definition word_char :: "char \<Rightarrow> bool" where
  "word_char c =
     (let n = (of_char c :: nat) in (48 \<le> n \<and> n \<le> 57) \<or> (65 \<le> n \<and> n \<le> 90) \<or> n = 95 \<or> (97 \<le> n \<and> n \<le> 122))"

fun word_import :: "char \<Rightarrow> string \<Rightarrow> bool" where
  "word_import prev [] = False"
| "word_import prev (c # cs) =
     ((\<not> word_char prev \<and> prefix ''import'' (c # cs) \<and>
       (case drop 6 (c # cs) of [] \<Rightarrow> True | d # _ \<Rightarrow> \<not> word_char d)) \<or> word_import c cs)"

definition after_blank :: "string \<Rightarrow> string \<Rightarrow> string" where
  "after_blank kw key =
     (if prefix kw key \<and> drop (length kw) key \<noteq> [] \<and> is_ws (hd (drop (length kw) key))
      then dropWhile is_ws (drop (length kw) key) else [])"

definition import_line :: "string \<Rightarrow> bool" where
  "import_line key =
     (after_blank ''import'' key \<noteq> [] \<or>
      (case after_blank ''from'' key of [] \<Rightarrow> False | c # cs \<Rightarrow> word_import c cs))"

fun dedupe_lines :: "string set \<Rightarrow> string list \<Rightarrow> string list" where
  "dedupe_lines seen [] = []"
| "dedupe_lines seen (line # ls) =
     (let key = line_key line
      in if import_line key
         then (if key \<in> seen then dedupe_lines seen ls else line # dedupe_lines (insert key seen) ls)
         else line # dedupe_lines seen ls)"

definition dedupe_imports :: "string \<Rightarrow> string" where
  "dedupe_imports source = concat (dedupe_lines {} (keep_lines_acc [] source))"

definition has_assert :: "safety_env \<Rightarrow> string \<Rightarrow> bool" where
  "has_assert env test_code =
     (case se_parse env test_code of
        Inl _ \<Rightarrow> False
      | Inr t \<Rightarrow> list_ex (\<lambda>n. case n of Assert _ \<Rightarrow> True | _ \<Rightarrow> False) (ast_walk t))"

datatype ruff_answer = Ruff_missing | Ruff_timeout | Ruff_exit int string

definition capital_char :: "char \<Rightarrow> bool" where
  "capital_char c = (CHR ''A'' \<le> c \<and> c \<le> CHR ''Z'')"

definition rule_line :: "string \<Rightarrow> bool" where
  "rule_line line =
     (prefix ''invalid-syntax'' line \<or>
      (let after = dropWhile capital_char line; digits = takeWhile is_digit after; rest = dropWhile is_digit after
       in line \<noteq> [] \<and> capital_char (hd line) \<and> 2 \<le> length digits \<and> length digits \<le> 4 \<and>
          (rest = [] \<or> \<not> word_char (hd rest))))"

definition lint_code :: "(string \<Rightarrow> ruff_answer) \<Rightarrow> string \<Rightarrow> layer" where
  "lint_code ruff combined =
     (case ruff combined of
        Ruff_missing \<Rightarrow> \<lparr>ly_passed = True, ly_issues = []\<rparr>
      | Ruff_timeout \<Rightarrow> \<lparr>ly_passed = False, ly_issues = [''ruff lint timed out (>30s)'']\<rparr>
      | Ruff_exit code out \<Rightarrow>
          if code = 0 then \<lparr>ly_passed = True, ly_issues = []\<rparr>
          else (let issues = take 5 (map py_strip (filter (\<lambda>l. rule_line (py_strip l)) (split_lines out)))
                in \<lparr>ly_passed = False, ly_issues = (if issues = [] then [''ruff lint failed''] else issues)\<rparr>))"

definition run_sandbox_smoke :: "(string \<Rightarrow> code_answer) \<Rightarrow> string \<Rightarrow> string \<Rightarrow> layer" where
  "run_sandbox_smoke runner handler_code test_code =
     layer_of
       (case runner (handler_code @ newline @ newline @ test_code) of
          Code_raised m \<Rightarrow> [''Sandbox execution error: '' @ m]
        | Code_ran r \<Rightarrow>
            if sb_timed_out r then [''Tool test timed out in sandbox'']
            else if \<not> sb_success r
            then [''Sandbox test failed: '' @ (if sb_stderr r = [] then ''unknown'' else py_take 300 (sb_stderr r))]
            else [])"

text \<open>The verdict: the reason of the first gate that fails, \<open>None\<close> when all pass.\<close>

definition validate_tool_code ::
  "safety_env \<Rightarrow> (string \<Rightarrow> ruff_answer) \<Rightarrow> (string \<Rightarrow> code_answer) option \<Rightarrow> string list option \<Rightarrow> string \<Rightarrow> string \<Rightarrow>
    string option" where
  "validate_tool_code env ruff sandbox allowlisted handler test =
     (let handler_code = dedupe_imports handler;
          test_code = dedupe_imports test
      in if py_strip test_code = [] then Some ''test_code is required and must not be empty''
         else if \<not> has_assert env test_code then Some ''test_code must contain at least one assert statement''
         else
           let lint = lint_code ruff (dedupe_imports (handler_code @ newline @ newline @ test_code))
           in if \<not> ly_passed lint then Some (''Lint failed: '' @ py_join ''; '' (py_take 3 (ly_issues lint)))
              else
                let safety = safety_validate env handler_code
                      \<lparr>sc_mutation = Some MT_TOOL, sc_required = [], sc_sandbox_root = None\<rparr> None
                      (case allowlisted of Some ms \<Rightarrow> ms | None \<Rightarrow> allowed_modules)
                in if \<not> sr_passed safety
                   then Some (''Safety validation failed: '' @ py_join ''; '' (py_take 3 (sr_issues safety)))
                   else case sandbox of
                     None \<Rightarrow> None
                   | Some runner \<Rightarrow>
                       let smoke = run_sandbox_smoke runner handler_code test_code
                       in if \<not> ly_passed smoke
                          then Some (''Sandbox test failed: '' @ py_join ''; '' (py_take 3 (ly_issues smoke))) else None)"

section \<open>The verdict of the pipeline\<close>

lemma layer_of_simps [simp]: "ly_passed (layer_of is) \<longleftrightarrow> is = []" "ly_issues (layer_of is) = is"
  by (simp_all add: layer_of_def)

lemma skipped_layer_simps [simp]: "ly_passed skipped_layer" "ly_issues skipped_layer = []"
  by (simp_all add: skipped_layer_def)

lemma syntax_layer: "ly_passed (check_syntax env code) \<longleftrightarrow> ly_issues (check_syntax env code) = []"
  by (simp add: check_syntax_def split: sum.split prod.split)

lemma semantic_layer: "ly_passed (check_semantic env code) \<longleftrightarrow> ly_issues (check_semantic env code) = []"
  by (simp add: check_semantic_def)

text \<open>
  Fact (functional): every rejection is explained and nothing else is.  The pipeline passes a text
  exactly when the list of issues it reports is empty.
\<close>

theorem rejection_explained:
  "sr_passed (safety_validate env code ctx sandbox allow) \<longleftrightarrow> sr_issues (safety_validate env code ctx sandbox allow) = []"
  using syntax_layer [of env code] semantic_layer [of env code]
  by (auto simp: safety_validate_def safety_layers_def Let_def check_static_def check_security_def check_imports_def
      check_behavioral_def check_sandbox_def check_safety_preservation_def split: option.splits)

lemma concat_map_empty: "concat (map f xs) = [] \<longleftrightarrow> (\<forall>x \<in> set xs. f x = [])"
  by auto

lemma passed_layers:
  assumes "sr_passed (safety_validate env code ctx sandbox allow)" "runs_code_layers ctx" "se_parse env code = Inr t"
  shows "subnode t n \<Longrightarrow> import_issues (allow @ sc_required ctx) n = []"
    and "subnode t n \<Longrightarrow> complex_function n = []"
    and "subnode t n \<Longrightarrow> write_issue (se_paths env) (sandbox_root_of env ctx) n = []"
    and "subnode t n \<Longrightarrow> assignment_violations n = []"
    and "(name, r) \<in> set forbidden_patterns \<Longrightarrow> \<not> rx_search r (py_lower code)"
proof -
  let ?ls = "safety_layers env code ctx sandbox allow"
  have all: "list_all (\<lambda>(_, l). ly_passed l) ?ls" using assms(1) by (simp add: safety_validate_def Let_def)
  then have l: "ly_passed (check_imports env code (allow @ sc_required ctx))" "ly_passed (check_static env code)"
    "ly_passed (check_behavioral env code ctx)" "ly_passed (check_safety_preservation env code)" "ly_passed (check_security code)"
    using assms(2) by (simp_all add: safety_layers_def)
  show "subnode t n \<Longrightarrow> import_issues (allow @ sc_required ctx) n = []"
    using l(1) assms(3) by (simp add: check_imports_def concat_map_empty set_ast_walk)
  show "subnode t n \<Longrightarrow> complex_function n = []"
    using l(2) assms(3) by (simp add: check_static_def concat_map_empty set_ast_walk)
  show "subnode t n \<Longrightarrow> write_issue (se_paths env) (sandbox_root_of env ctx) n = []"
    using l(3) assms(3) by (simp add: check_behavioral_def concat_map_empty set_ast_walk)
  show "subnode t n \<Longrightarrow> assignment_violations n = []"
    using l(4) assms(3)
    by (simp add: check_safety_preservation_def preservation_violations_def concat_map_empty set_ast_walk)
  show "(name, r) \<in> set forbidden_patterns \<Longrightarrow> \<not> rx_search r (py_lower code)"
    using l(5) by (auto simp: check_security_def filter_empty_conv)
qed

lemma clean_code:
  assumes "sr_passed (safety_validate env code ctx sandbox allow)" "runs_code_layers ctx" "se_parse env code = Inr t"
  shows "subnode t (Import names) \<Longrightarrow> m \<in> set names \<Longrightarrow> \<not> blocked_module (allow @ sc_required ctx) m"
    and "subnode t (Import_from (Some m)) \<Longrightarrow> m \<noteq> [] \<Longrightarrow> \<not> blocked_module (allow @ sc_required ctx) m"
    and "subnode t (Assign targets v) \<Longrightarrow> Name x \<in> set targets \<Longrightarrow> x \<notin> set safety_apparatus_names"
    and "subnode t (Assign targets v) \<Longrightarrow> Attribute (Name x) a \<in> set targets \<Longrightarrow> x \<noteq> ''SafetyPipeline''"
    and "subnode t (Call (Name ''open'') (Constant (Const_str p) # args) kws) \<Longrightarrow>
      is_write_open (Constant (Const_str p) # args) kws \<Longrightarrow>
      \<not> path_outside_sandbox (se_paths env) p (sandbox_root_of env ctx)"
    and "subnode t (Function_def name ps body rest) \<Longrightarrow> complexity (Function_def name ps body rest) \<le> 20"
    and "(label, r) \<in> set forbidden_patterns \<Longrightarrow> py_lower code = a1 @ u @ a2 \<Longrightarrow> \<not> rx_word r u"
proof -
  note clean = passed_layers [OF assms]
  show "subnode t (Import names) \<Longrightarrow> m \<in> set names \<Longrightarrow> \<not> blocked_module (allow @ sc_required ctx) m"
    using clean(1) [of "Import names"] by (auto simp: import_issues_def filter_empty_conv)
  show "subnode t (Import_from (Some m)) \<Longrightarrow> m \<noteq> [] \<Longrightarrow> \<not> blocked_module (allow @ sc_required ctx) m"
    using clean(1) [of "Import_from (Some m)"] by (auto simp: import_issues_def split: if_splits)
  show "subnode t (Assign targets v) \<Longrightarrow> Name x \<in> set targets \<Longrightarrow> x \<notin> set safety_apparatus_names"
    using clean(4) [of "Assign targets v"]
    by (force simp: assignment_violations_def concat_map_empty target_violation_def split: if_splits)
  show "subnode t (Assign targets v) \<Longrightarrow> Attribute (Name x) a \<in> set targets \<Longrightarrow> x \<noteq> ''SafetyPipeline''"
    using clean(4) [of "Assign targets v"]
    by (force simp: assignment_violations_def concat_map_empty target_violation_def split: if_splits)
  show "subnode t (Call (Name ''open'') (Constant (Const_str p) # args) kws) \<Longrightarrow>
      is_write_open (Constant (Const_str p) # args) kws \<Longrightarrow>
      \<not> path_outside_sandbox (se_paths env) p (sandbox_root_of env ctx)"
    using clean(3) [of "Call (Name ''open'') (Constant (Const_str p) # args) kws"]
    by (auto simp: write_issue_def open_path_literal_def split: if_splits)
  show "subnode t (Function_def name ps body rest) \<Longrightarrow> complexity (Function_def name ps body rest) \<le> 20"
    using clean(2) [of "Function_def name ps body rest"] by (auto simp: complex_function_def split: if_splits)
  show "(label, r) \<in> set forbidden_patterns \<Longrightarrow> py_lower code = a1 @ u @ a2 \<Longrightarrow> \<not> rx_word r u"
    using clean(5) [of label r] by (auto simp: rx_search_iff)
qed


lemma allowed_disjoint: "set allowed_modules \<inter> set dangerous_modules = {}"
  by (simp add: allowed_modules_def dangerous_modules_def)

lemma blocked_allowed: "blocked_module (allowed_modules @ ms) = blocked_module ms"
  using allowed_disjoint by (intro ext) (auto simp: blocked_module_def)

lemma imports_allowed: "check_imports env code (allowed_modules @ ms) = check_imports env code ms"
proof -
  have "import_issues (allowed_modules @ ms) = import_issues ms"
    unfolding import_issues_def blocked_allowed by (rule refl)
  then show ?thesis unfolding check_imports_def by (rule arg_cong)
qed

text \<open>
  Fact (equivalence): the allowlist of the tools changes nothing.  No module of the list is on the
  list of dangerous modules, so the import layer gives the same verdict with the allowlist as with
  none: a tool may import every module that is not blocked by name, listed or not.
\<close>

theorem allowlist_without_effect:
  "safety_validate env code ctx sandbox allowed_modules = safety_validate env code ctx sandbox []"
  by (simp add: safety_validate_def safety_layers_def imports_allowed)

text \<open>
  Fact (error): the entry \<open>http.server\<close> blocks nothing.  Imports are compared by the part of the name
  before the first dot, so no spelling of an import is ever equal to a listed name with a dot.
\<close>

theorem dotted_entry_blocks_nothing:
  assumes "CHR ''.'' \<in> set d"
  shows "root_module m \<noteq> d \<and> \<not> blocked_module [] ''http.server''"
proof -
  have "CHR ''.'' \<notin> set (root_module m)" by (auto simp: root_module_def dest: set_takeWhileD)
  with assms have "root_module m \<noteq> d" by blast
  have "root_module ''http.server'' = ''http''" by (simp add: root_module_def)
  then have "\<not> blocked_module [] ''http.server''" by (simp add: blocked_module_def dangerous_modules_def)
  with \<open>root_module m \<noteq> d\<close> show ?thesis by blast
qed

text \<open>
  Fact (error): a prompt that speaks of credit is never deployed.  The patterns are searched in the
  text of every mutation and without word boundaries, so a prompt, memory or configuration text
  that contains \<open>cred\<close> (incredible, credit, sacred) anywhere fails, although only Python source
  is meant to be judged as code.
\<close>

theorem prose_rejected:
  assumes "py_in ''cred'' (py_lower code)"
  shows "\<not> sr_passed (safety_validate env code ctx sandbox allow)"
proof -
  have "rx_search (rx_lit ''cred'') (py_lower code)" using assms rx_search_lit by blast
  moreover have "(''cred'', rx_lit ''cred'') \<in> set forbidden_patterns" by (simp add: forbidden_patterns_def)
  ultimately have "\<not> ly_passed (check_security code)" by (auto simp: check_security_def filter_empty_conv)
  then show ?thesis by (simp add: safety_validate_def safety_layers_def Let_def)
qed

text \<open>
  Fact (error): the gate flags can be flipped.  The last layer looks for a flag in lower case at the
  start of a line only: the spelling of the environment, a JSON configuration and the assignment
  to an attribute of the settings pass it.
\<close>

theorem flag_flip_missed:
  "list_all (\<lambda>code. \<not> list_ex (rewrites_flag code) gate_flag_identifiers)
     [''EVAL_ENABLED=false'', ''{'' @ [CHR 0x22] @ ''eval_enabled'' @ [CHR 0x22] @ '': false}'',
      ''settings.agent.eval_enabled = False'', ''NO_EVOLUTION: true'']"
  by code_simp

text \<open>
  C8 (safety): the gate of a tool.  A tool is accepted only if its test contains an assertion, the
  linter had nothing to say (or was not installed), its handler passes the safety pipeline as code
  and, when there is a sandbox, handler and test ran in it successfully and in time.
\<close>

theorem accepted_tool_checked:
  assumes "validate_tool_code env ruff sandbox allow handler test = None"
  shows "has_assert env (dedupe_imports test) \<and>
    (ruff (dedupe_imports (dedupe_imports handler @ newline @ newline @ dedupe_imports test)) = Ruff_missing \<or>
     (\<exists>out. ruff (dedupe_imports (dedupe_imports handler @ newline @ newline @ dedupe_imports test)) = Ruff_exit 0 out)) \<and>
    sr_passed (safety_validate env (dedupe_imports handler)
      \<lparr>sc_mutation = Some MT_TOOL, sc_required = [], sc_sandbox_root = None\<rparr> None
      (case allow of Some ms \<Rightarrow> ms | None \<Rightarrow> allowed_modules)) \<and>
    (case sandbox of None \<Rightarrow> True
     | Some run \<Rightarrow> (\<exists>r. run (dedupe_imports handler @ newline @ newline @ dedupe_imports test) = Code_ran r \<and>
         sb_success r \<and> \<not> sb_timed_out r))"
proof -
  note d = assms [unfolded validate_tool_code_def Let_def]
  have a: "has_assert env (dedupe_imports test)" using d by (auto split: if_splits)
  have l: "ly_passed (lint_code ruff (dedupe_imports (dedupe_imports handler @ newline @ newline @ dedupe_imports test)))"
    using d by (auto split: if_splits)
  have s: "sr_passed (safety_validate env (dedupe_imports handler)
      \<lparr>sc_mutation = Some MT_TOOL, sc_required = [], sc_sandbox_root = None\<rparr> None
      (case allow of Some ms \<Rightarrow> ms | None \<Rightarrow> allowed_modules))"
    using d by (auto split: if_splits)
  have "ly_passed (run_sandbox_smoke run (dedupe_imports handler) (dedupe_imports test))" if "sandbox = Some run" for run
    using d that by (auto split: if_splits)
  then have b: "case sandbox of None \<Rightarrow> True
     | Some run \<Rightarrow> (\<exists>r. run (dedupe_imports handler @ newline @ newline @ dedupe_imports test) = Code_ran r \<and>
         sb_success r \<and> \<not> sb_timed_out r)"
    by (auto simp: run_sandbox_smoke_def split: option.split code_answer.splits if_splits)
  from l have "ruff (dedupe_imports (dedupe_imports handler @ newline @ newline @ dedupe_imports test)) = Ruff_missing \<or>
     (\<exists>out. ruff (dedupe_imports (dedupe_imports handler @ newline @ newline @ dedupe_imports test)) = Ruff_exit 0 out)"
    by (auto simp: lint_code_def Let_def split: ruff_answer.splits if_splits)
  with a s b show ?thesis by simp
qed

section \<open>Duplicate imports\<close>

definition import_keys :: "string list \<Rightarrow> string list" where
  "import_keys ls = filter import_line (map line_key ls)"

lemma import_keys_simps [simp]:
  "import_keys [] = []"
  "import_keys (l # ls) = (if import_line (line_key l) then line_key l # import_keys ls else import_keys ls)"
  by (simp_all add: import_keys_def)

lemma dedupe_keys:
  "distinct (import_keys (dedupe_lines seen ls)) \<and> set (import_keys (dedupe_lines seen ls)) = set (import_keys ls) - seen"
  by (induction seen ls rule: dedupe_lines.induct) (auto simp: Let_def)

lemma dedupe_others:
  "filter (\<lambda>l. \<not> import_line (line_key l)) (dedupe_lines seen ls) = filter (\<lambda>l. \<not> import_line (line_key l)) ls"
  by (induction seen ls rule: dedupe_lines.induct) (auto simp: Let_def)

lemma dedupe_fixed: "distinct (import_keys ls) \<Longrightarrow> set (import_keys ls) \<inter> seen = {} \<Longrightarrow> dedupe_lines seen ls = ls"
  by (induction seen ls rule: dedupe_lines.induct) (auto simp: Let_def)

lemma dedupe_subseq: "subseq (dedupe_lines seen ls) ls"
  by (induction seen ls rule: dedupe_lines.induct) (auto simp: Let_def)


lemma keep_lines_concat: "concat (keep_lines_acc acc s) = rev acc @ s"
proof (induction acc s rule: keep_lines_acc.induct)
  case (2 acc c cs)
  then show ?case by (cases cs) auto
qed simp

text \<open>The lines are those of the text: nothing is lost when no import is repeated.\<close>

lemma dedupe_imports_id: "distinct (import_keys (keep_lines_acc [] s)) \<Longrightarrow> dedupe_imports s = s"
  by (simp add: dedupe_imports_def dedupe_fixed keep_lines_concat)

section \<open>The properties at concrete inputs\<close>

definition demo_safety :: "py_ast \<Rightarrow> safety_env" where
  "demo_safety t = \<lparr>se_parse = (\<lambda>_. Inr t), se_json_ok = (\<lambda>_. False),
     se_paths = \<lparr>pe_results_root = ''results'', pe_workspace_root = ''workspace'', pe_per_run_subdir = False, pe_run_id = None,
       pe_resolve = (\<lambda>p. p), pe_exists = (\<lambda>_. Some False)\<rparr>,
     se_default_root = Some ''/work''\<rparr>"

definition demo_tool :: py_ast where
  "demo_tool = Other_node [Import [''json''], Function_def ''run'' [] [Return None] [], Assert []]"

definition demo_context :: safety_context where
  "demo_context = \<lparr>sc_mutation = Some MT_CODE, sc_required = [], sc_sandbox_root = None\<rparr>"

lemma demo_passed: "sr_passed (safety_validate (demo_safety demo_tool) ''x'' demo_context None [])"
  by code_simp


theorem dotted_entry_blocks_nothing_witness: "root_module ''http.server'' \<noteq> ''http.server''"
  using dotted_entry_blocks_nothing [of "''http.server''" "''http.server''"] by simp

theorem prose_rejected_witness:
  "\<not> sr_passed (safety_validate (demo_safety Pass) ''Give Credit'' demo_context None [])"
proof -
  have "py_in ''cred'' (py_lower ''Give Credit'')" by code_simp
  then show ?thesis by (rule prose_rejected)
qed

theorem accepted_tool_checked_witness:
  "has_assert (demo_safety demo_tool) (dedupe_imports ''y'')"
proof -
  have "validate_tool_code (demo_safety demo_tool) (\<lambda>_. Ruff_exit 0 []) None None ''x'' ''y'' = None"
    by code_simp
  then show ?thesis using accepted_tool_checked by blast
qed

end
