(* ===== verification/Spec2Isabelle.thy ===== *)
theory Spec2Isabelle
  imports Task_Graph Gateway_Budget Rate_Limiter Run_Lease Battery Governance Promotion Cost_Ledger Sub_Agent Run_Executor Result_Cache Net_Tools Safety_Pipeline
begin

text \<open>
  Verification development of the self-evolving agent (\<open>src/src/\<close>).

  \<^bold>\<open>The program.\<close>  A goal is posted to the API or released by the nightly scheduler, queued in a
  Redis stream and executed by one worker of a fleet.  The worker runs a LangGraph task graph whose
  nodes plan, call tools, reflect, verify the deliverables, create tools and sub-agents and evolve
  prompts.  Every model call goes through one gateway with a budget check, provider fallback, a
  circuit breaker, a latency gate and a rate limiter.  Tools, generated tools, sub-agents and
  promoted prompts live in catalogs that governance prunes; a battery of golden goals gives the
  capability curve that can revert a promotion.

  \<^bold>\<open>Theories and code.\<close>  A group of definitions follows each source file; the manifest names the
  lines of every definition.

  \<^item> \<open>Prelude\<close>: strings, slices, numbers as text, association lists, loosely typed values.
  \<^item> \<open>Graph_State\<close> (\<open>graph/enums\<close>, \<open>models\<close>, \<open>state\<close>, \<open>iteration_cap\<close>): the state of the graph with the
    reducers and the cap of a run.  \<open>Routers\<close> (\<open>graph/routers\<close>): the conditional edges.  \<open>Graph_Nodes\<close>,
    \<open>Reflect_Node\<close>, \<open>Verify_Node\<close> (\<open>graph/nodes/\<close>): the updates of the nodes.  \<open>Task_Graph\<close>
    (\<open>graph/task_graph\<close>): the wiring as a step relation, with reachability and termination.
  \<^item> \<open>Call_Gate\<close>: the interface (a locale) between the gateway and a per-provider gate, the composition
    of two gates and the gate that recovers with time.  \<open>Circuit_Breaker\<close>, \<open>Latency_Gate\<close>
    (\<open>llm/circuit_breaker\<close>, \<open>latency_gate\<close>) interpret it; \<open>Gateway\<close> interprets the composition.
  \<^item> \<open>Model_Router\<close>, \<open>Model_Registry\<close>, \<open>Request_Params\<close> (\<open>llm/model_router\<close>, \<open>config/model_registry\<close>,
    \<open>llm/gateway\<close>, \<open>thinking_control\<close>, \<open>nvidia_shim\<close>): which model is asked, and with which keywords.
    \<open>Gateway\<close>, \<open>Gateway_Budget\<close> (\<open>llm/gateway\<close>): the fallback chain, the retries, the streaming and
    the downgrade.  \<open>Rate_Limiter\<close> (\<open>llm/rate_limiter\<close>).  \<open>Cost_Ledger\<close> (\<open>llm/cost_tracker\<close>,
    \<open>cost_queries\<close>): budgets and reports.
  \<^item> \<open>Run_Status\<close>, \<open>Run_Queue\<close>, \<open>Run_Worker\<close>, \<open>Run_Lifecycle\<close>, \<open>Run_Lease\<close> (\<open>worker/schema\<close>, \<open>status\<close>, \<open>queue\<close>,
    \<open>runner\<close>, \<open>api/routes/agent\<close>): records, stream, leases, deliveries and their settlement.  The lease
    is a locale that \<open>Run_Lease\<close> interprets on the queue's own operations; the fleet is a step relation.
    \<open>Battery\<close> (\<open>scheduler/battery\<close>): the release of dependent goals.
  \<^item> \<open>Run_Executor\<close> (\<open>runner\<close>, \<open>graph/factory\<close>, \<open>graph/checkpoint\<close>, \<open>worker/executors\<close>): one run from its set-up to
    the release of what it holds; \<open>Tool_Paths\<close> (\<open>tools/_paths\<close>): where its files are.
  \<^item> \<open>Tool_Catalog\<close>, \<open>Governance\<close> (\<open>tools/dynamic/persister\<close>, \<open>governance/\<close>), \<open>Tool_Registry\<close> (\<open>tools/registry\<close>,
    \<open>success\<close>, \<open>metrics\<close>, \<open>dynamic/sandbox_dispatch\<close>, the tool call of \<open>graph/nodes/execute\<close>), \<open>Agent_Catalog\<close>,
    \<open>Sub_Agent\<close> (\<open>agents/\<close>): capabilities, their catalogs and the runs of sub-agents.
  \<^item> \<open>File_Tools\<close>, \<open>Net_Tools\<close> (\<open>tools/builtin/\<close>): the tools that touch files, programs and the network.
    \<open>Result_Cache\<close> (\<open>tools/result_cache\<close>, \<open>tools/selection\<close>, \<open>llm/cache\<close>, \<open>llm/history_compressor\<close>).
  \<^item> \<open>Python_Ast\<close>, \<open>Safety_Pipeline\<close> (\<open>safety/pipeline\<close>, \<open>tools/dynamic/validation\<close>, \<open>allowlist\<close>): the gates for
    generated code over syntax trees, texts and patterns.
  \<^item> \<open>Eval_Checks\<close>, \<open>Capability_Curve\<close>, \<open>Promotion\<close> (\<open>eval/checks\<close>, \<open>curve\<close>, \<open>store\<close>, \<open>evolution/promote\<close>,
    \<open>curve_gate\<close>, \<open>graph/prompts/builder\<close>): scores, their trend, and the prompts that go live.

  \<^bold>\<open>How the parts meet.\<close>  \<open>Task_Graph\<close> composes the nodes and the routers; \<open>Sub_Agent\<close> runs the same nodes
  in a smaller graph and its tools through the call of \<open>Tool_Registry\<close>.  \<open>Gateway\<close> puts the gates in
  front of every attempt and \<open>Cost_Ledger\<close> supplies its budget verdict.  \<open>Battery\<close> and the routes write
  the queue that \<open>Run_Worker\<close> consumes; its executor is \<open>Run_Executor\<close>, whose paths are \<open>Tool_Paths\<close>,
  also used by the file tools and the terminal.  \<open>Promotion\<close> reads \<open>Capability_Curve\<close>, which averages
  the rows that \<open>Eval_Checks\<close> scores.

  \<^bold>\<open>What the groups of theorems show.\<close>  The graph winds down at its cap and its send-backs are bounded;
  a completion is never declared over a missing deliverable.  The fallback chain reaches an available
  provider, the breaker refines an abstract machine of three states, and the fleet stays within the
  quota of a minute.  An acknowledged delivery leaves a terminal record, a poisonous job is delivered
  a bounded number of times, a run is executed by one worker at a time, every job of a battery is
  released once.  A run that started gives back what it took, a resumed run continues at its last
  state, and a deliverable is looked for in the run's own folder.  Tool calls pass the human gate,
  accepted code passed the linter, the safety layers and the sandbox, catalogs keep their invariants,
  live guidance passed its canary and a rollback undoes a promotion.  Theorems of kind error state
  where the code departs from what it documents; the findings of the manifest name them.

  \<^bold>\<open>State, effects and errors.\<close>  State is a record that an operation returns updated; asyncio locks make
  the coroutines under them single steps, and where other tasks may run in between an operation is
  cut there.  An exception that leaves an operation is \<open>None\<close> or \<open>Inl\<close>.  Clocks, identifiers, model and
  provider answers, Redis and database replies, parsers, file systems and processes are arguments;
  what a theorem needs of them is a hypothesis of it.

  \<^bold>\<open>Bounds.\<close>  Recursion over a list or a counter is structural.  The release loop of the battery has
  fuel: it returns once the fuel exceeds the number of passes until its deadline, which is proved.
  The reservation loop of the rate limiter and the retries of a provider call recurse over the
  number of attempts of the code.  The graphs are relations, whose termination is a measure over
  the remaining iterations.  The walk over a syntax tree terminates by the weight of its queue.
  Floats are real numbers; the counters and scores involved are exact in both.

  \<^bold>\<open>Not modelled.\<close>  The mutation engine with its templates, telemetry and shadow repository, the optimizer
  service, the memory stores, the two search strategies, prompts and technique selection, the sandbox
  and its service, tools that call external services, the tool generator, the remaining routes and
  dashboards, database declarations and migrations, observability, the golden goals, the harness and
  the probes, and the command line and scripts: they are calls of external systems, data or output,
  or loops around answers of a model.  The manifest lists each with its reason.  Log lines and advisory
  texts are left out everywhere, and so are most of the settings.
\<close>

end
